(* ===== verification/Prelude.thy ===== *)
theory Prelude
  imports Complex_Main
begin

text \<open>
  Shared vocabulary of the development: the names of the model's basic types (row identifiers,
  instants in milliseconds, the errors the NestJS services raise), the JavaScript library
  operations the services use (insertion-ordered \<open>Map\<close>, stable \<open>Array.sort\<close> with a comparator,
  \<open>Array.find\<close>, \<open>Math.round\<close>), the table operations every Prisma call is translated to
  (find by a predicate, update the rows that satisfy a predicate), and the list lemmas the
  component theories share.  An asynchronous handler that may throw after it has written is a
  function to \<open>(error + result) \<times> state\<close>: the error is a value and the writes made before the
  throw are in the returned state.
\<close>

named_theorems row_simps \<open>how table operations act on ids, lengths and memberships\<close>
named_theorems svc_defs \<open>definitions of the service operations unfolded by their own proofs\<close>

section \<open>Names of basic types\<close>

type_synonym id = string      \<comment> \<open>a UUID column\<close>
type_synonym instant = int    \<comment> \<open>a Date, in milliseconds since the epoch\<close>
type_synonym cents = int      \<comment> \<open>an integer USD amount in cents\<close>

text \<open>
  The exceptions of the services.  The message is the template literal of the source, with the
  interpolated values elided; \<open>Failure\<close> is a plain \<open>Error\<close>.
\<close>

datatype http_error =
    NotFoundException string
  | BadRequestException string
  | ConflictException string
  | ForbiddenException string
  | UnauthorizedException string
  | ServiceUnavailableException string
  | TooManyRequests string
  | Failure string

type_synonym ('a, 's) outcome = "(http_error + 'a) \<times> 's"

definition is_ok :: "('e + 'a) \<Rightarrow> bool" where
  "is_ok r = (case r of Inl _ \<Rightarrow> False | Inr _ \<Rightarrow> True)"

lemma is_ok_simps [simp]: "is_ok (Inl e) = False" "is_ok (Inr x) = True"
  by (simp_all add: is_ok_def)

section \<open>JavaScript collections\<close>

text \<open>\<open>Map.set\<close> on the insertion-ordered entries of a \<open>Map\<close>: an existing key keeps its place.\<close>

fun map_set :: "'k \<Rightarrow> 'v \<Rightarrow> ('k \<times> 'v) list \<Rightarrow> ('k \<times> 'v) list" where
  "map_set k v [] = [(k, v)]"
| "map_set k v ((k', v') # m) = (if k' = k then (k, v) # m else (k', v') # map_set k v m)"

definition map_delete :: "'k \<Rightarrow> ('k \<times> 'v) list \<Rightarrow> ('k \<times> 'v) list" where
  "map_delete k m = filter (\<lambda>e. fst e \<noteq> k) m"

lemma map_of_map_set [simp]: "map_of (map_set k v m) = (map_of m)(k \<mapsto> v)"
  by (induction k v m rule: map_set.induct) auto

lemma keys_map_set: "set (map fst (map_set k v m)) = insert k (set (map fst m))"
  by (induction k v m rule: map_set.induct) auto

lemma fst_in_map_set: "k' \<in> fst ` set (map_set k v m) \<longleftrightarrow> k' = k \<or> k' \<in> fst ` set m"
  using keys_map_set [of k v m] by auto

lemma distinct_map_set [intro]: "distinct (map fst m) \<Longrightarrow> distinct (map fst (map_set k v m))"
  by (induction k v m rule: map_set.induct) (auto simp del: set_map simp: keys_map_set)

lemma length_map_set: "length (map_set k v m) \<le> Suc (length m)"
  by (induction k v m rule: map_set.induct) auto

lemma snd_map_set: "snd ` set (map_set k v m) \<subseteq> insert v (snd ` set m)"
  by (induction k v m rule: map_set.induct) auto

text \<open>
  \<open>Array.prototype.sort\<close> with a comparator: a stable sort.  \<open>c x y \<le> 0\<close> keeps \<open>x\<close> before
  \<open>y\<close>; elements that compare equal keep their order.
\<close>

fun insort_cmp :: "('a \<Rightarrow> 'a \<Rightarrow> rat) \<Rightarrow> 'a \<Rightarrow> 'a list \<Rightarrow> 'a list" where
  "insort_cmp c x [] = [x]"
| "insort_cmp c x (y # ys) = (if c x y \<le> 0 then x # y # ys else y # insort_cmp c x ys)"

definition js_sort :: "('a \<Rightarrow> 'a \<Rightarrow> rat) \<Rightarrow> 'a list \<Rightarrow> 'a list" where
  "js_sort c xs = foldr (insort_cmp c) xs []"

lemma set_insort_cmp [simp]: "set (insort_cmp c x xs) = insert x (set xs)"
  by (induction xs) auto

lemma length_insort_cmp [simp]: "length (insort_cmp c x xs) = Suc (length xs)"
  by (induction xs) auto

lemma js_sort_simps [simp]:
  "js_sort c [] = []" "js_sort c (x # xs) = insort_cmp c x (js_sort c xs)"
  by (simp_all add: js_sort_def)

lemma set_js_sort [simp]: "set (js_sort c xs) = set xs"
  by (induction xs) auto

lemma length_js_sort [simp]: "length (js_sort c xs) = length xs"
  by (induction xs) auto

lemma distinct_insort_cmp:
  "distinct (map f (insort_cmp c x xs)) \<longleftrightarrow> f x \<notin> f ` set xs \<and> distinct (map f xs)"
  by (induction xs) auto

lemma distinct_js_sort [simp]: "distinct (map f (js_sort c xs)) = distinct (map f xs)"
  by (induction xs) (auto simp: distinct_insort_cmp)

lemma sum_insort_cmp:
  "sum_list (map f (insort_cmp c x xs)) = f x + sum_list (map (f :: 'a \<Rightarrow> 'b :: comm_monoid_add) xs)"
  by (induction xs) (auto simp: add.left_commute)

lemma sum_js_sort [simp]:
  "sum_list (map f (js_sort c xs)) = sum_list (map (f :: 'a \<Rightarrow> 'b :: comm_monoid_add) xs)"
  by (induction xs) (auto simp: sum_insort_cmp)

text \<open>A comparator that is total and transitive sorts.\<close>

lemma sorted_js_sort:
  assumes total: "\<And>x y. x \<in> A \<Longrightarrow> y \<in> A \<Longrightarrow> c x y \<le> 0 \<or> c y x \<le> 0"
    and trans: "\<And>x y z. x \<in> A \<Longrightarrow> y \<in> A \<Longrightarrow> z \<in> A \<Longrightarrow> c x y \<le> 0 \<Longrightarrow> c y z \<le> 0 \<Longrightarrow> c x z \<le> 0"
    and "set xs \<subseteq> A"
  shows "sorted_wrt (\<lambda>x y. c x y \<le> 0) (js_sort c xs)"
proof -
  have ins: "sorted_wrt (\<lambda>x y. c x y \<le> 0) (insort_cmp c x ys)"
    if "sorted_wrt (\<lambda>x y. c x y \<le> 0) ys" "x \<in> A" "set ys \<subseteq> A" for x ys
    using that
  proof (induction ys)
    case (Cons y ys)
    then show ?case
      using total [of x y] by (auto intro: trans [of x y])
  qed simp
  show ?thesis
    using assms(3) by (induction xs) (auto intro!: ins)
qed

section \<open>Table operations\<close>

text \<open>
  A table is the list of its rows.  \<open>update\<close>, \<open>updateMany\<close> and \<open>deleteMany\<close> change or drop the
  rows that satisfy the \<open>where\<close> clause; \<open>findUnique\<close> and \<open>findFirst\<close> return the first one.
\<close>

definition update_where :: "('r \<Rightarrow> bool) \<Rightarrow> ('r \<Rightarrow> 'r) \<Rightarrow> 'r list \<Rightarrow> 'r list" where
  "update_where p f t = map (\<lambda>r. if p r then f r else r) t"

definition delete_where :: "('r \<Rightarrow> bool) \<Rightarrow> 'r list \<Rightarrow> 'r list" where
  "delete_where p t = filter (\<lambda>r. \<not> p r) t"

definition count_where :: "('r \<Rightarrow> bool) \<Rightarrow> 'r list \<Rightarrow> nat" where
  "count_where p t = length (filter p t)"

lemma length_update_where [simp, row_simps]: "length (update_where p f t) = length t"
  by (simp add: update_where_def)

lemma update_where_Nil [simp]: "update_where p f [] = []"
  by (simp add: update_where_def)

lemma update_where_Cons [simp]:
  "update_where p f (r # t) = (if p r then f r else r) # update_where p f t"
  by (simp add: update_where_def)

lemma update_where_append [simp]: "update_where p f (t @ u) = update_where p f t @ update_where p f u"
  by (simp add: update_where_def)

lemma in_update_where:
  "r \<in> set (update_where p f t) \<longleftrightarrow> (\<exists>r0 \<in> set t. r = (if p r0 then f r0 else r0))"
  by (auto simp: update_where_def)

lemma map_update_where [row_simps]:
  "(\<And>r. g (f r) = g r) \<Longrightarrow> map g (update_where p f t) = map g t"
  by (auto simp: update_where_def)

lemma update_where_none: "(\<And>r. r \<in> set t \<Longrightarrow> \<not> p r) \<Longrightarrow> update_where p f t = t"
  by (simp add: update_where_def map_idI)

lemma find_append: "find p (xs @ ys) = (case find p xs of None \<Rightarrow> find p ys | Some x \<Rightarrow> Some x)"
  by (induction xs) auto

lemma find_SomeD: "find p xs = Some x \<Longrightarrow> x \<in> set xs \<and> p x"
  by (metis (no_types, lifting) find_Some_iff nth_mem)

lemma find_None_iff_all: "find p xs = None \<longleftrightarrow> (\<forall>x \<in> set xs. \<not> p x)"
  by (auto simp: find_None_iff)

text \<open>Finding by a key that the update keeps.\<close>

lemma find_update_where:
  assumes "\<And>r. q (f r) = q r"
  shows "find q (update_where p f t) = map_option (\<lambda>r. if p r then f r else r) (find q t)"
  using assms by (induction t) auto

lemma sum_update_where_same:
  assumes "\<And>r. p r \<Longrightarrow> g (f r) = g r"
  shows "sum_list (map g (update_where p f t)) = sum_list (map g t)"
  using assms by (induction t) auto

text \<open>A row with a distinguished key occurs once, so the first match is that row.\<close>

lemma find_unique_key:
  assumes "distinct (map k t)" "r \<in> set t"
  shows "find (\<lambda>x. k x = k r) t = Some r"
  using assms by (induction t) force+

section \<open>Lists\<close>

lemma sum_list_nonneg_int: "(\<And>x. x \<in> set xs \<Longrightarrow> 0 \<le> f x) \<Longrightarrow> 0 \<le> sum_list (map f xs)"
  for f :: "'a \<Rightarrow> 'b :: ordered_comm_monoid_add"
  by (induction xs) (auto intro: add_nonneg_nonneg)

lemma sum_list_if_member:
  assumes "distinct (map k xs)" "set ks \<subseteq> k ` set xs" "distinct ks"
  shows "sum_list (map (\<lambda>x. if k x \<in> set ks then 1 else (0::int)) xs) = int (length ks)"
proof -
  have "sum_list (map (\<lambda>x. if k x \<in> set ks then 1 else (0::int)) xs)
      = sum_list (map (\<lambda>y. if y \<in> set ks then 1 else 0) (map k xs))"
    by (simp add: comp_def)
  also have "\<dots> = (\<Sum>y \<in> set (map k xs). if y \<in> set ks then 1 else 0)"
    using assms(1) by (simp only: sum_list_distinct_conv_sum_set)
  also have "\<dots> = int (card (set (map k xs) \<inter> set ks))"
    by (simp add: sum.If_cases)
  also have "set (map k xs) \<inter> set ks = set ks"
    using assms(2) by auto
  finally show ?thesis
    using assms(3) by (simp add: distinct_card)
qed

section \<open>Number helpers\<close>

text \<open>\<open>Math.round\<close>: halves round up (also for negative numbers).\<close>

definition js_round :: "rat \<Rightarrow> int" where
  "js_round x = \<lfloor>x + 1 / 2\<rfloor>"

text \<open>A JavaScript string is falsy when it is empty; a nullable one also when it is null.\<close>

definition truthy :: "string option \<Rightarrow> bool" where
  "truthy s = (case s of None \<Rightarrow> False | Some t \<Rightarrow> t \<noteq> [])"

lemma truthy_simps [simp]: "truthy None = False" "truthy (Some t) = (t \<noteq> [])"
  by (simp_all add: truthy_def)

end
