(* ===== verification/Doubles.thy ===== *)
theory Doubles
  imports Prelude
begin

text \<open>
  JavaScript numbers.  Every arithmetic operation of the source on non-integer quantities is an
  IEEE-754 double operation: the exact result rounded to the nearest double, ties to even.  A
  finite double is a rational, so the model keeps the value as \<open>rat\<close> and writes the rounding
  \<open>fl64\<close> at every operation.  The 53-bit significand and gradual underflow (least exponent
  \<open>-1074\<close>) are modelled; overflow to infinity is not, so theorems about \<open>fl64\<close> results carry
  range hypotheses that keep the values far below the largest double.  The locale
  \<open>fp_rounding\<close> is the contract the error analysis of the split routines relies on; \<open>fl64\<close>
  provides it.
\<close>

section \<open>Rounding to the nearest double\<close>

text \<open>The binary exponent of a positive rational.\<close>

fun ilog2n :: "nat \<Rightarrow> nat" where
  "ilog2n n = (if n \<le> 1 then 0 else Suc (ilog2n (n div 2)))"

declare ilog2n.simps [simp del]

definition ilog2 :: "rat \<Rightarrow> int" where
  "ilog2 x = (let (p, q) = quotient_of x; e = int (ilog2n (nat p)) - int (ilog2n (nat q))
              in if 2 powi e \<le> x then e else e - 1)"

text \<open>Round to the nearest integer, ties to even.\<close>

definition rne :: "rat \<Rightarrow> int" where
  "rne y = (let f = \<lfloor>y\<rfloor>; d = y - of_int f
            in if d < 1 / 2 then f else if d > 1 / 2 then f + 1 else if even f then f else f + 1)"

text \<open>The distance between neighbouring doubles at the magnitude of \<open>x\<close>.\<close>

definition quantum :: "rat \<Rightarrow> rat" where
  "quantum x = 2 powi (max (ilog2 \<bar>x\<bar> - 52) (- 1074))"

definition fl64 :: "rat \<Rightarrow> rat" where
  "fl64 x = (if x = 0 then 0 else of_int (rne (x / quantum x)) * quantum x)"

text \<open>The rationals a finite double can hold (no upper bound on the exponent).\<close>

definition is_double :: "rat \<Rightarrow> bool" where
  "is_double y \<longleftrightarrow> (\<exists>m k. y = of_int m * 2 powi k \<and> \<bar>m\<bar> < 2 ^ 53 \<and> - 1074 \<le> k)"

section \<open>The exponent and the quantum\<close>

lemma ilog2n_bounds: "0 < n \<Longrightarrow> 2 ^ ilog2n n \<le> n \<and> n < 2 ^ Suc (ilog2n n)"
proof (induction n rule: ilog2n.induct)
  case (1 n)
  show ?case
  proof (cases "n \<le> 1")
    case True
    with "1.prems" show ?thesis by (simp add: ilog2n.simps [of n])
  next
    case False
    then have "2 ^ ilog2n (n div 2) \<le> n div 2 \<and> n div 2 < 2 ^ Suc (ilog2n (n div 2))"
      using "1.IH" by simp
    moreover have "ilog2n n = Suc (ilog2n (n div 2))"
      using False by (simp add: ilog2n.simps [of n])
    moreover have "n = 2 * (n div 2) + n mod 2" "n mod 2 < 2" by simp_all
    ultimately show ?thesis
      by (simp only: power_Suc) linarith
  qed
qed

lemma powi_nat: "(2::rat) powi (int n) = of_nat (2 ^ n)"
  by (simp add: power_int_def)

lemma powi_pos [simp]: "0 < (2::rat) powi e"
  by (simp add: zero_less_power_int)

lemma powi_add: "(2::rat) powi (a + b) = 2 powi a * 2 powi b"
  by (simp add: power_int_add)

lemma powi_Suc: "(2::rat) powi (e + 1) = 2 * 2 powi e"
  by (simp add: power_int_add)

lemma ilog2_bounds:
  assumes "0 < x"
  shows "2 powi ilog2 x \<le> x" and "x < 2 powi (ilog2 x + 1)"
proof -
  obtain p q where pq: "quotient_of x = (p, q)" by (cases "quotient_of x")
  then have q: "0 < q" and x: "x = of_int p / of_int q"
    by (auto simp: quotient_of_denom_pos quotient_of_div)
  with assms have p: "0 < p" by (simp add: zero_less_divide_iff)
  define a b where "a = ilog2n (nat p)" and "b = ilog2n (nat q)"
  have pb: "2 ^ a \<le> nat p" "nat p < 2 ^ Suc a" and qb: "2 ^ b \<le> nat q" "nat q < 2 ^ Suc b"
    using ilog2n_bounds [of "nat p"] ilog2n_bounds [of "nat q"] p q unfolding a_def b_def by auto
  have rp: "of_int p = (of_nat (nat p) :: rat)" and rq: "of_int q = (of_nat (nat q) :: rat)"
    using p q by simp_all
  have P: "2 powi (int a) \<le> (of_int p :: rat)" "(of_int p :: rat) < 2 powi (int (Suc a))"
    unfolding rp powi_nat using pb by (simp_all only: of_nat_le_iff of_nat_less_iff)
  have Q: "2 powi (int b) \<le> (of_int q :: rat)" "(of_int q :: rat) < 2 powi (int (Suc b))"
    unfolding rq powi_nat using qb by (simp_all only: of_nat_le_iff of_nat_less_iff)
  have q0: "0 < (of_int q :: rat)" using q by simp
  have lower: "2 powi (int a - int b - 1) \<le> x"
  proof -
    have "2 powi (int a - int b - 1) * (of_int q :: rat) \<le> 2 powi (int a - int b - 1) * 2 powi (int (Suc b))"
      using Q(2) by (intro mult_left_mono) auto
    also have "\<dots> = 2 powi (int a)"
      by (simp flip: power_int_add)
    also note P(1)
    finally show ?thesis
      using q0 by (simp add: x pos_le_divide_eq)
  qed
  have upper: "x < 2 powi (int a - int b + 1)"
  proof -
    have "2 powi (int (Suc a)) = 2 powi (int a - int b + 1) * (2::rat) powi (int b)"
      by (simp only: powi_add [symmetric]) (simp add: add.commute)
    also have "\<dots> \<le> 2 powi (int a - int b + 1) * of_int q"
      using Q(1) by (intro mult_left_mono) auto
    finally have "of_int p < 2 powi (int a - int b + 1) * (of_int q :: rat)"
      using P(2) by (rule less_le_trans [rotated])
    then show ?thesis
      using q0 by (simp add: x pos_divide_less_eq)
  qed
  have e: "ilog2 x = (if 2 powi (int a - int b) \<le> x then int a - int b else int a - int b - 1)"
    by (simp add: ilog2_def pq a_def b_def Let_def)
  show "2 powi ilog2 x \<le> x" using e lower by auto
  show "x < 2 powi (ilog2 x + 1)" using e upper by auto
qed

lemma quantum_pos [simp]: "0 < quantum x"
  by (simp add: quantum_def)

lemma quantum_nz [simp]: "quantum x \<noteq> 0"
  using quantum_pos [of x] by (rule less_imp_neq [THEN not_sym])

lemma quantum_nonneg [simp]: "0 \<le> quantum x"
  using quantum_pos [of x] by (rule less_imp_le)

lemma abs_quantum [simp]: "\<bar>quantum x\<bar> = quantum x"
  using quantum_pos [of x] by (rule abs_of_pos)

lemma quantum_le_ulp:
  assumes "2 powi (- 1022) \<le> \<bar>x\<bar>"
  shows "quantum x \<le> \<bar>x\<bar> / 2 ^ 52"
proof -
  have x0: "0 < \<bar>x\<bar>" using assms powi_pos [of "- 1022"] by linarith
  have "- 1022 < ilog2 \<bar>x\<bar> + 1"
  proof (rule ccontr)
    assume "\<not> - 1022 < ilog2 \<bar>x\<bar> + 1"
    then have "(2::rat) powi (ilog2 \<bar>x\<bar> + 1) \<le> 2 powi (- 1022)"
      by (intro power_int_increasing) auto
    with ilog2_bounds(2) [OF x0] assms show False by linarith
  qed
  then have "quantum x = 2 powi (ilog2 \<bar>x\<bar> + (- 52))"
    by (simp add: quantum_def)
  also have "\<dots> = 2 powi (ilog2 \<bar>x\<bar>) / 2 ^ 52"
    by (simp only: powi_add) (simp add: power_int_def field_simps)
  also have "\<dots> \<le> \<bar>x\<bar> / 2 ^ 52"
    using ilog2_bounds(1) [OF x0] by (intro divide_right_mono) auto
  finally show ?thesis .
qed

section \<open>Rounding error\<close>

lemma rne_error: "\<bar>of_int (rne y) - y\<bar> \<le> 1 / 2"
proof -
  have "of_int \<lfloor>y\<rfloor> \<le> y" "y < of_int \<lfloor>y\<rfloor> + 1" by linarith+
  then show ?thesis
    unfolding rne_def Let_def by (auto simp: abs_le_iff split: if_splits)
qed

lemma rne_of_int [simp]: "rne (of_int n) = n"
  by (simp add: rne_def)

lemma rne_nearest: "\<bar>of_int (rne y) - y\<bar> \<le> \<bar>of_int n - y\<bar>"
proof -
  have f: "of_int \<lfloor>y\<rfloor> \<le> y" "y < of_int \<lfloor>y\<rfloor> + 1" by linarith+
  have "n \<le> \<lfloor>y\<rfloor> \<or> \<lfloor>y\<rfloor> + 1 \<le> n" by linarith
  then have n: "of_int n \<le> (of_int \<lfloor>y\<rfloor> :: rat) \<or> of_int \<lfloor>y\<rfloor> + 1 \<le> (of_int n :: rat)"
    by (metis of_int_1 of_int_add of_int_le_iff)
  have "rne y = \<lfloor>y\<rfloor> \<and> y - of_int \<lfloor>y\<rfloor> \<le> 1/2 \<or> rne y = \<lfloor>y\<rfloor> + 1 \<and> 1/2 \<le> y - of_int \<lfloor>y\<rfloor>"
    unfolding rne_def Let_def by auto
  then show ?thesis
  proof
    assume "rne y = \<lfloor>y\<rfloor> \<and> y - of_int \<lfloor>y\<rfloor> \<le> 1/2"
    then have "of_int (rne y) = (of_int \<lfloor>y\<rfloor> :: rat) \<and> y - of_int \<lfloor>y\<rfloor> \<le> 1/2" by simp
    then show ?thesis using f n by linarith
  next
    assume "rne y = \<lfloor>y\<rfloor> + 1 \<and> 1/2 \<le> y - of_int \<lfloor>y\<rfloor>"
    then have "of_int (rne y) = (of_int \<lfloor>y\<rfloor> :: rat) + 1 \<and> 1/2 \<le> y - of_int \<lfloor>y\<rfloor>" by simp
    then show ?thesis using f n by linarith
  qed
qed

lemma rne_nonneg: "0 \<le> y \<Longrightarrow> 0 \<le> rne y"
  unfolding rne_def Let_def by (auto simp: le_floor_iff)

lemma fl64_0 [simp]: "fl64 0 = 0"
  by (simp add: fl64_def)

lemma fl64_nonneg: "0 \<le> x \<Longrightarrow> 0 \<le> fl64 x"
  by (auto simp: fl64_def intro!: mult_nonneg_nonneg rne_nonneg less_imp_le [OF quantum_pos]
        simp: less_imp_le [OF quantum_pos])

lemma fl64_error:
  assumes "2 powi (- 1022) \<le> \<bar>x\<bar>"
  shows "\<bar>fl64 x - x\<bar> \<le> \<bar>x\<bar> / 2 ^ 53"
proof -
  define y where "y = x / quantum x"
  have xy: "x = y * quantum x" using quantum_pos [of x] by (simp add: y_def)
  have "x \<noteq> 0" using assms powi_pos [of "- 1022"] by auto
  then have "fl64 x - x = (of_int (rne y) - y) * quantum x"
    using xy by (simp add: fl64_def y_def left_diff_distrib)
  then have "\<bar>fl64 x - x\<bar> = \<bar>of_int (rne y) - y\<bar> * quantum x"
    using quantum_pos [of x] by (simp add: abs_mult)
  also have "\<dots> \<le> 1 / 2 * quantum x"
    using rne_error [of y] quantum_pos [of x] by (intro mult_right_mono) auto
  also have "\<dots> \<le> 1 / 2 * (\<bar>x\<bar> / 2 ^ 52)"
    using quantum_le_ulp [OF assms] by simp
  finally show ?thesis by simp
qed

text \<open>Integers up to \<open>2 ^ 53\<close> are doubles: integer arithmetic on them is exact.\<close>

lemma powi_ratio_int:
  assumes "k \<le> j" shows "\<exists>m. (2::rat) powi j = of_int m * 2 powi k"
proof -
  have "(2::rat) powi j = 2 powi (int (nat (j - k)) + k)"
    using assms by simp
  also have "\<dots> = of_int (2 ^ nat (j - k)) * 2 powi k"
    by (simp only: powi_add) (simp add: power_int_def)
  finally show ?thesis by blast
qed

lemma fl64_multiple:
  assumes "x = of_int m * quantum x"
  shows "fl64 x = x"
proof (cases "x = 0")
  case False
  from assms have "x / quantum x = of_int m"
    by (metis nonzero_mult_div_cancel_right quantum_nz)
  with False assms show ?thesis by (simp add: fl64_def)
qed simp

lemma fl64_of_int:
  assumes "\<bar>n\<bar> \<le> 2 ^ 53"
  shows "fl64 (of_int n) = of_int n"
proof (cases "n = 0")
  case False
  define e where "e = ilog2 \<bar>of_int n\<bar>"
  have pos: "0 < \<bar>of_int n :: rat\<bar>" using False by simp
  have b: "2 powi e \<le> \<bar>of_int n :: rat\<bar>" "\<bar>of_int n :: rat\<bar> < 2 powi (e + 1)"
    using ilog2_bounds [OF pos] by (simp_all add: e_def)
  have le: "\<bar>of_int n :: rat\<bar> \<le> 2 ^ 53"
    using assms by (metis of_int_abs of_int_le_iff of_int_numeral of_int_power)
  have e53: "e \<le> 53"
  proof (rule ccontr)
    assume "\<not> e \<le> 53"
    then have "(2::rat) powi 54 \<le> 2 powi e" by (intro power_int_increasing) auto
    with b(1) le show False by (simp add: power_int_def)
  qed
  have e0: "0 \<le> e"
  proof (rule ccontr)
    assume "\<not> 0 \<le> e"
    then have "(2::rat) powi (e + 1) \<le> 2 powi 0" by (intro power_int_increasing) auto
    moreover have "1 \<le> \<bar>of_int n :: rat\<bar>"
      using False by (metis int_one_le_iff_zero_less of_int_1 of_int_abs of_int_le_iff zero_less_abs_iff)
    ultimately show False using b(2) by simp
  qed
  have q: "quantum (of_int n) = 2 powi (e - 52)"
    using e0 by (simp add: quantum_def e_def)
  have "\<exists>m. (of_int n :: rat) = of_int m * 2 powi (e - 52)"
  proof (cases "e \<le> 52")
    case True
    then obtain m where "(2::rat) powi 0 = of_int m * 2 powi (e - 52)"
      using powi_ratio_int [of "e - 52" 0] by auto
    then have "(of_int n :: rat) = of_int (n * m) * 2 powi (e - 52)"
      by (simp add: mult.assoc)
    then show ?thesis by blast
  next
    case False
    with e53 have "e = 53" by simp
    with b(1) le have "\<bar>of_int n :: rat\<bar> = 2 ^ 53" by (simp add: power_int_def)
    then have "\<bar>n\<bar> = 2 ^ 53"
      by (metis of_int_abs of_int_eq_iff of_int_numeral of_int_power)
    then have "(of_int n :: rat) = of_int (sgn n * 2 ^ 52) * 2 powi (e - 52)"
      unfolding \<open>e = 53\<close> by (simp add: power_int_def abs_if split: if_splits)
    then show ?thesis by blast
  qed
  then show ?thesis using fl64_multiple [of "of_int n"] q by auto
qed simp

text \<open>
  \<open>fl64\<close> is a correct rounding: no double is nearer to the exact value.
\<close>

lemma double_multiple_or_small:
  assumes "y = of_int m * 2 powi k" "\<bar>m\<bar> < 2 ^ 53" "- 1074 \<le> k" "x \<noteq> 0"
  shows "(\<exists>n. y = of_int n * quantum x) \<or> \<bar>y\<bar> < 2 powi (ilog2 \<bar>x\<bar>) \<and> - 1074 \<le> ilog2 \<bar>x\<bar> - 52"
proof (cases "max (ilog2 \<bar>x\<bar> - 52) (- 1074) \<le> k")
  case True
  then obtain j where "(2::rat) powi k = of_int j * quantum x"
    using powi_ratio_int quantum_def by metis
  then have "y = of_int (m * j) * quantum x"
    using assms(1) by (simp add: mult.assoc)
  then show ?thesis by blast
next
  case False
  with assms(3) have k: "k + 53 \<le> ilog2 \<bar>x\<bar>" and big: "- 1074 \<le> ilog2 \<bar>x\<bar> - 52" by auto
  have "\<bar>y\<bar> = of_int \<bar>m\<bar> * 2 powi k"
    using assms(1) powi_pos [of k] by (simp add: abs_mult)
  also have "\<dots> < 2 ^ 53 * 2 powi k"
    using assms(2) by (metis mult_less_cancel_right_pos of_int_less_iff of_int_numeral of_int_power powi_pos)
  also have "\<dots> = 2 powi (53 + k)"
    by (simp only: powi_add) (simp add: power_int_def)
  also have "\<dots> \<le> 2 powi (ilog2 \<bar>x\<bar>)"
    using k by (intro power_int_increasing) auto
  finally show ?thesis using big by blast
qed

lemma fl64_nearest_multiple: "\<bar>fl64 x - x\<bar> \<le> \<bar>of_int n * quantum x - x\<bar>"
proof (cases "x = 0")
  case False
  define y where "y = x / quantum x"
  have xy: "x = y * quantum x" using quantum_pos [of x] by (simp add: y_def)
  have "\<bar>fl64 x - x\<bar> = \<bar>of_int (rne y) - y\<bar> * quantum x"
  proof -
    have "fl64 x - x = (of_int (rne y) - y) * quantum x"
      using False xy by (simp add: fl64_def y_def left_diff_distrib)
    then show ?thesis using quantum_pos [of x] by (simp add: abs_mult)
  qed
  also have "\<dots> \<le> \<bar>of_int n - y\<bar> * quantum x"
    using rne_nearest quantum_pos [of x] by (intro mult_right_mono) auto
  also have "\<dots> = \<bar>of_int n * quantum x - x\<bar>"
  proof -
    have "of_int n * quantum x - x = (of_int n - y) * quantum x"
      using xy by (simp add: left_diff_distrib)
    then show ?thesis using quantum_pos [of x] by (simp add: abs_mult)
  qed
  finally show ?thesis .
qed simp

lemma fl64_nearest_double:
  assumes "is_double y" shows "\<bar>fl64 x - x\<bar> \<le> \<bar>y - x\<bar>"
proof (cases "x = 0")
  case False
  obtain m k where y: "y = of_int m * 2 powi k" "\<bar>m\<bar> < 2 ^ 53" "- 1074 \<le> k"
    using assms by (auto simp: is_double_def)
  from double_multiple_or_small [OF y False] show ?thesis
  proof
    assume "\<exists>n. y = of_int n * quantum x"
    then show ?thesis using fl64_nearest_multiple by blast
  next
    assume small: "\<bar>y\<bar> < 2 powi (ilog2 \<bar>x\<bar>) \<and> - 1074 \<le> ilog2 \<bar>x\<bar> - 52"
    then have q: "quantum x = 2 powi (ilog2 \<bar>x\<bar> - 52)" by (simp add: quantum_def)
    obtain j where j: "(2::rat) powi (ilog2 \<bar>x\<bar>) = of_int j * quantum x"
      using powi_ratio_int [of "ilog2 \<bar>x\<bar> - 52" "ilog2 \<bar>x\<bar>"] q by auto
    have le: "2 powi (ilog2 \<bar>x\<bar>) \<le> \<bar>x\<bar>"
      using ilog2_bounds(1) [of "\<bar>x\<bar>"] False by simp
    define s :: int where "s = (if x < 0 then - j else j)"
    have "\<bar>of_int s * quantum x - x\<bar> = \<bar>x\<bar> - 2 powi (ilog2 \<bar>x\<bar>)"
      using j le by (simp only: s_def split: if_splits) (auto simp: abs_if mult.commute)
    also have "\<dots> \<le> \<bar>y - x\<bar>" using small by linarith
    finally show ?thesis using fl64_nearest_multiple [of x s] by linarith
  qed
qed simp

text \<open>So rounding does not cross a double.\<close>

lemma fl64_ge_double: "is_double y \<Longrightarrow> y \<le> x \<Longrightarrow> y \<le> fl64 x"
  using fl64_nearest_double [of y x] by (cases "fl64 x < y") auto

lemma fl64_le_double: "is_double y \<Longrightarrow> x \<le> y \<Longrightarrow> fl64 x \<le> y"
  using fl64_nearest_double [of y x] by (cases "y < fl64 x") auto

lemma is_double_mult: "\<bar>m\<bar> < 2 ^ 53 \<Longrightarrow> - 1074 \<le> k \<Longrightarrow> is_double (of_int m * 2 powi k)"
  by (auto simp: is_double_def)

lemma is_double_powi: "- 1074 \<le> k \<Longrightarrow> is_double (2 powi k)"
  using is_double_mult [of 1 k] by simp

section \<open>The rounding contract\<close>

locale fp_rounding =
  fixes fl :: "rat \<Rightarrow> rat" and u lo :: rat
  assumes fl_zero: "fl 0 = 0"
    and fl_nonneg: "0 \<le> x \<Longrightarrow> 0 \<le> fl x"
    and fl_err: "lo \<le> \<bar>x\<bar> \<Longrightarrow> \<bar>fl x - x\<bar> \<le> u * \<bar>x\<bar>"
    and u_range: "0 \<le> u" "u < 1"
    and lo_pos: "0 < lo"
begin

definition normal :: "rat \<Rightarrow> bool" where
  "normal x \<longleftrightarrow> x = 0 \<or> lo \<le> x"

lemma normal_nonneg: "normal x \<Longrightarrow> 0 \<le> x"
  using lo_pos by (auto simp: normal_def)

lemma fl_bounds:
  assumes "normal x"
  shows "(1 - u) * x \<le> fl x" and "fl x \<le> (1 + u) * x"
proof -
  have "(1 - u) * x \<le> fl x \<and> fl x \<le> (1 + u) * x"
  proof (cases "x = 0")
    case False
    with assms have "lo \<le> x" "0 < x" using lo_pos by (auto simp: normal_def)
    then have "\<bar>fl x - x\<bar> \<le> u * x" using fl_err [of x] by simp
    then show ?thesis by (auto simp: abs_le_iff algebra_simps)
  qed (simp add: fl_zero)
  then show "(1 - u) * x \<le> fl x" and "fl x \<le> (1 + u) * x" by blast+
qed

text \<open>A rounded sum of non-negative numbers, folded from the left.\<close>

definition fsum :: "rat \<Rightarrow> rat list \<Rightarrow> rat" where
  "fsum a xs = foldl (\<lambda>s x. fl (s + x)) a xs"

lemma fsum_Nil [simp]: "fsum a [] = a"
  and fsum_Cons [simp]: "fsum a (x # xs) = fsum (fl (a + x)) xs"
  by (simp_all add: fsum_def)

definition spaced :: "rat \<Rightarrow> rat \<Rightarrow> bool" where
  "spaced g x \<longleftrightarrow> x = 0 \<or> g \<le> x"

lemma one_minus_u: "0 < 1 - u" "1 - u \<le> 1"
  using u_range by auto

lemma fl_spaced:
  assumes "spaced g x" "lo \<le> g"
  shows "spaced ((1 - u) * g) (fl x)"
proof (cases "x = 0")
  case False
  with assms have "g \<le> x" "normal x" by (auto simp: spaced_def normal_def)
  moreover have "(1 - u) * g \<le> (1 - u) * x"
    using \<open>g \<le> x\<close> one_minus_u by (intro mult_left_mono) auto
  ultimately show ?thesis using fl_bounds(1) [of x] by (auto simp: spaced_def)
qed (simp add: spaced_def fl_zero)

lemma spaced_add: "spaced g x \<Longrightarrow> spaced g y \<Longrightarrow> 0 < g \<Longrightarrow> spaced g (x + y)"
  by (auto simp: spaced_def)

lemma spaced_weaken: "spaced g x \<Longrightarrow> h \<le> g \<Longrightarrow> spaced h x"
  by (auto simp: spaced_def)

lemma shrink_le: "0 < g \<Longrightarrow> (1 - u) * g \<le> g"
  using one_minus_u by (simp add: mult_le_cancel_right2)

text \<open>
  The relative error of an \<open>n\<close>-term sum is at most that of \<open>n\<close> roundings.
\<close>

lemma fsum_bounds:
  assumes "spaced g a" "\<And>x. x \<in> set xs \<Longrightarrow> spaced g x" "lo \<le> (1 - u) ^ length xs * g" "0 < g"
  shows "(1 - u) ^ length xs * (a + sum_list xs) \<le> fsum a xs"
    and "fsum a xs \<le> (1 + u) ^ length xs * (a + sum_list xs)"
proof -
  have "(1 - u) ^ length xs * (a + sum_list xs) \<le> fsum a xs
      \<and> fsum a xs \<le> (1 + u) ^ length xs * (a + sum_list xs)"
    using assms
  proof (induction xs arbitrary: a g)
    case (Cons x xs)
    have sum: "spaced g (a + x)"
      using Cons.prems spaced_add by simp
    have g1: "(1 - u) ^ length xs * ((1 - u) * g) = (1 - u) ^ length (x # xs) * g"
      by simp
    have log: "lo \<le> g"
    proof -
      have "(1 - u) ^ length (x # xs) * g \<le> 1 * g"
        using one_minus_u \<open>0 < g\<close> by (intro mult_right_mono power_le_one) auto
      with Cons.prems(3) show ?thesis by simp
    qed
    have ss: "\<forall>y \<in> set xs. spaced ((1 - u) * g) y"
      using Cons.prems(2) spaced_weaken shrink_le [OF \<open>0 < g\<close>] by (meson list.set_intros(2))
    have IH: "(1 - u) ^ length xs * (fl (a + x) + sum_list xs) \<le> fsum (fl (a + x)) xs
        \<and> fsum (fl (a + x)) xs \<le> (1 + u) ^ length xs * (fl (a + x) + sum_list xs)"
      using Cons.IH [of "(1 - u) * g" "fl (a + x)"] fl_spaced [OF sum log] ss Cons.prems(3,4) one_minus_u g1
      by simp
    have n: "normal (a + x)"
      using sum log by (auto simp: spaced_def normal_def)
    have rest: "0 \<le> sum_list xs"
      using Cons.prems(2,4) by (intro sum_list_nonneg) (force simp: spaced_def)
    have lowr: "(1 - u) * sum_list xs \<le> sum_list xs"
      using rest u_range by (intro mult_left_le_one_le) auto
    have highr: "sum_list xs \<le> (1 + u) * sum_list xs"
      using rest u_range by (simp add: distrib_right)
    have "(1 - u) * (a + x + sum_list xs) \<le> fl (a + x) + sum_list xs"
      using fl_bounds(1) [OF n] lowr by (simp add: distrib_left)
    then have low: "(1 - u) ^ length xs * ((1 - u) * (a + x + sum_list xs))
        \<le> (1 - u) ^ length xs * (fl (a + x) + sum_list xs)"
      using one_minus_u by (intro mult_left_mono) auto
    have "fl (a + x) + sum_list xs \<le> (1 + u) * (a + x + sum_list xs)"
      using fl_bounds(2) [OF n] highr by (simp add: distrib_left)
    then have high: "(1 + u) ^ length xs * (fl (a + x) + sum_list xs)
        \<le> (1 + u) ^ length xs * ((1 + u) * (a + x + sum_list xs))"
      using u_range by (intro mult_left_mono) auto
    have e1: "(1 - u) ^ length (x # xs) * (a + sum_list (x # xs))
        = (1 - u) ^ length xs * ((1 - u) * (a + x + sum_list xs))"
      and e2: "(1 + u) ^ length (x # xs) * (a + sum_list (x # xs))
        = (1 + u) ^ length xs * ((1 + u) * (a + x + sum_list xs))"
      by (simp_all add: mult.commute mult.left_commute add.assoc)
    show ?case
      unfolding e1 e2 fsum_Cons using IH low high by linarith
  qed simp
  then show "(1 - u) ^ length xs * (a + sum_list xs) \<le> fsum a xs"
    and "fsum a xs \<le> (1 + u) ^ length xs * (a + sum_list xs)" by blast+
qed

text \<open>
  The proportional split: each share is the rounded quotient of the rounded product.  Its
  relative error is two roundings on top of the error of the total.
\<close>

definition share :: "rat \<Rightarrow> rat \<Rightarrow> rat \<Rightarrow> rat" where
  "share P T s = fl (fl (P * s) / T)"

lemma share_nonneg: "0 \<le> P \<Longrightarrow> 0 \<le> T \<Longrightarrow> 0 \<le> s \<Longrightarrow> 0 \<le> share P T s"
  unfolding share_def by (intro fl_nonneg divide_nonneg_nonneg mult_nonneg_nonneg)

lemma share_bounds:
  assumes "normal (P * s)" "normal (fl (P * s) / T)" "0 < T"
  shows "(1 - u) ^ 2 * (P * s) / T \<le> share P T s" and "share P T s \<le> (1 + u) ^ 2 * (P * s) / T"
proof -
  have "(1 - u) ^ 2 * (P * s) / T = (1 - u) * ((1 - u) * (P * s) / T)"
    by (simp add: power2_eq_square)
  also have "\<dots> \<le> (1 - u) * (fl (P * s) / T)"
    using fl_bounds(1) [OF assms(1)] assms(3) one_minus_u
    by (intro mult_left_mono divide_right_mono) auto
  also have "\<dots> \<le> share P T s"
    unfolding share_def by (rule fl_bounds(1) [OF assms(2)])
  finally show "(1 - u) ^ 2 * (P * s) / T \<le> share P T s" .
  have "share P T s \<le> (1 + u) * (fl (P * s) / T)"
    unfolding share_def by (rule fl_bounds(2) [OF assms(2)])
  also have "\<dots> \<le> (1 + u) * ((1 + u) * (P * s) / T)"
    using fl_bounds(2) [OF assms(1)] assms(3) u_range
    by (intro mult_left_mono divide_right_mono) auto
  finally show "share P T s \<le> (1 + u) ^ 2 * (P * s) / T"
    by (simp add: power2_eq_square mult.assoc)
qed

lemma sum_share_bounds:
  assumes "\<And>s. s \<in> set ss \<Longrightarrow> normal (P * s) \<and> normal (fl (P * s) / T)" "0 < T"
  shows "(1 - u) ^ 2 * (P * sum_list ss) / T \<le> sum_list (map (share P T) ss)"
    and "sum_list (map (share P T) ss) \<le> (1 + u) ^ 2 * (P * sum_list ss) / T"
proof -
  have "(1 - u) ^ 2 * (P * sum_list ss) / T \<le> sum_list (map (share P T) ss)
      \<and> sum_list (map (share P T) ss) \<le> (1 + u) ^ 2 * (P * sum_list ss) / T"
    using assms(1)
  proof (induction ss)
    case (Cons s ss)
    then have n: "normal (P * s)" "normal (fl (P * s) / T)" by simp_all
    have IH: "(1 - u) ^ 2 * (P * sum_list ss) / T \<le> sum_list (map (share P T) ss)
      \<and> sum_list (map (share P T) ss) \<le> (1 + u) ^ 2 * (P * sum_list ss) / T"
      using Cons.IH Cons.prems by simp
    have e: "c * (P * sum_list (s # ss)) / T = c * (P * s) / T + c * (P * sum_list ss) / T" for c
      by (simp add: algebra_simps add_divide_distrib)
    show ?case
      unfolding e using share_bounds [OF n assms(2)] IH by simp
  qed simp
  then show "(1 - u) ^ 2 * (P * sum_list ss) / T \<le> sum_list (map (share P T) ss)"
    and "sum_list (map (share P T) ss) \<le> (1 + u) ^ 2 * (P * sum_list ss) / T" by blast+
qed

lemma pow_cross: "(1 + u) ^ k * (1 - u) ^ k \<le> 1"
proof -
  have "(1 + u) ^ k * (1 - u) ^ k = (1 - u * u) ^ k"
    by (simp add: algebra_simps flip: power_mult_distrib)
  also have "\<dots> \<le> 1"
    using u_range by (intro power_le_one) (auto simp: mult_le_one less_imp_le)
  finally show ?thesis .
qed

lemma pow_lower: "1 - of_nat k * u \<le> (1 - u) ^ k"
  using Bernoulli_inequality [of "- u" k] u_range by simp

text \<open>
  With a total of \<open>n\<close> summands, the shares of \<open>P\<close> add up to \<open>P\<close> up to less than one unit as
  long as \<open>(P + 1) (n + 2) u < 1\<close>.
\<close>

lemma sum_share_near:
  assumes n: "\<And>s. s \<in> set ss \<Longrightarrow> normal (P * s) \<and> normal (fl (P * s) / T)"
    and T: "0 < T" "(1 - u) ^ k * sum_list ss \<le> T" "T \<le> (1 + u) ^ k * sum_list ss"
    and P: "0 \<le> P" "(P + 1) * (of_nat (k + 2) * u) < 1"
  shows "\<bar>sum_list (map (share P T) ss) - P\<bar> < 1"
proof -
  define S and A where "S = sum_list ss" and "A = sum_list (map (share P T) ss)"
  have S: "0 < S"
  proof (rule ccontr)
    assume "\<not> 0 < S"
    then have "(1 + u) ^ k * S \<le> 0"
      using u_range by (intro mult_nonneg_nonpos) auto
    then show False using T by (simp add: S_def)
  qed
  have d: "1 - of_nat (k + 2) * u \<le> (1 - u) ^ (k + 2)" by (rule pow_lower)
  have d0: "0 \<le> of_nat (k + 2) * u" using u_range by simp
  have sm: "P * (of_nat (k + 2) * u) < 1" "0 < 1 - of_nat (k + 2) * u"
  proof -
    have "0 \<le> P * (of_nat (k + 2) * u)" using P(1) d0 by simp
    then show "P * (of_nat (k + 2) * u) < 1" "0 < 1 - of_nat (k + 2) * u"
      using P(2) d0 by (simp_all add: distrib_right)
  qed
  have "(1 - u) ^ (k + 2) * (P * S) = (1 - u) ^ 2 * (P * ((1 - u) ^ k * S))"
    by (simp add: power_add power2_eq_square mult_ac)
  also have "\<dots> \<le> (1 - u) ^ 2 * (P * T)"
    using T(2) P(1) by (intro mult_left_mono) (auto simp: S_def)
  finally have c1: "(1 - u) ^ (k + 2) * (P * S) \<le> (1 - u) ^ 2 * (P * T)" .
  have A1: "(1 - u) ^ 2 * (P * S) \<le> A * T" and A2: "A * T \<le> (1 + u) ^ 2 * (P * S)"
    using sum_share_bounds [OF n T(1)] T(1) by (simp_all add: A_def S_def pos_divide_le_eq pos_le_divide_eq)
  have A0: "0 \<le> A"
  proof -
    have "0 \<le> (1 - u) ^ 2 * (P * S)" using P(1) S by simp
    with A1 have "0 \<le> A * T" by linarith
    with T(1) show ?thesis by (simp add: zero_le_mult_iff)
  qed
  text \<open>lower bound\<close>
  have "P * (1 - of_nat (k + 2) * u) \<le> P * (1 - u) ^ (k + 2)"
    using d P(1) by (intro mult_left_mono) auto
  also have "\<dots> \<le> A"
  proof -
    have "P * (1 - u) ^ (k + 2) * ((1 + u) ^ k * S) = ((1 - u) ^ 2 * (P * S)) * ((1 + u) ^ k * (1 - u) ^ k)"
      by (simp add: power_add power2_eq_square mult_ac)
    also have "\<dots> \<le> ((1 - u) ^ 2 * (P * S)) * 1"
      using pow_cross P(1) S by (intro mult_left_mono) auto
    also have "\<dots> \<le> A * T" using A1 by simp
    also have "\<dots> \<le> A * ((1 + u) ^ k * S)"
      using T(3) A0 by (intro mult_left_mono) (auto simp: S_def)
    finally show ?thesis
      using S u_range by (simp add: mult_le_cancel_right zero_less_mult_iff)
  qed
  finally have low: "P - 1 < A" using sm(1) by (simp add: algebra_simps)
  text \<open>upper bound\<close>
  have "A * (1 - of_nat (k + 2) * u) \<le> A * (1 - u) ^ (k + 2)"
    using d A0 by (intro mult_left_mono) auto
  also have "\<dots> \<le> P"
  proof -
    have "A * (1 - u) ^ (k + 2) * S = A * ((1 - u) ^ k * S) * (1 - u) ^ 2"
      by (simp add: power_add power2_eq_square mult_ac)
    also have "\<dots> \<le> A * T * (1 - u) ^ 2"
      using T(2) A0 by (intro mult_right_mono mult_left_mono) (auto simp: S_def)
    also have "\<dots> \<le> ((1 + u) ^ 2 * (P * S)) * (1 - u) ^ 2"
      using A2 by (intro mult_right_mono) auto
    also have "\<dots> = ((1 + u) ^ 2 * (1 - u) ^ 2) * (P * S)" by (simp add: algebra_simps)
    also have "\<dots> \<le> 1 * (P * S)"
      using pow_cross [of 2] P(1) S by (intro mult_right_mono) auto
    finally show ?thesis using S by (simp add: mult_le_cancel_right)
  qed
  finally have up: "A * (1 - of_nat (k + 2) * u) \<le> P" .
  have "A < P + 1"
  proof (rule ccontr)
    assume "\<not> A < P + 1"
    then have "(P + 1) * (1 - of_nat (k + 2) * u) \<le> A * (1 - of_nat (k + 2) * u)"
      using sm(2) by (intro mult_right_mono) auto
    with up P(2) show False by (simp add: algebra_simps)
  qed
  with low show ?thesis by (simp add: A_def abs_less_iff)
qed

text \<open>So the floors of the shares leave between none and \<open>length ss\<close> units over.\<close>

lemma sum_floor_near:
  assumes "\<bar>sum_list (map f xs) - of_int P\<bar> < (1::rat)" "xs \<noteq> []"
  shows "sum_list (map (\<lambda>x. \<lfloor>f x\<rfloor>) xs) \<le> P" "P - int (length xs) \<le> sum_list (map (\<lambda>x. \<lfloor>f x\<rfloor>) xs)"
proof -
  have a: "of_int (sum_list (map (\<lambda>x. \<lfloor>f x\<rfloor>) xs)) \<le> sum_list (map f xs)"
    by (induction xs) (simp_all add: add_mono)
  have b: "sum_list (map f xs) < of_int (sum_list (map (\<lambda>x. \<lfloor>f x\<rfloor>) xs)) + of_nat (length xs)"
    using assms(2)
  proof (induction xs)
    case (Cons x xs)
    have x: "f x < of_int \<lfloor>f x\<rfloor> + 1" by linarith
    show ?case
    proof (cases "xs = []")
      case True
      with x show ?thesis by simp
    next
      case False
      with Cons.IH x show ?thesis by simp
    qed
  qed simp
  have "(of_int (sum_list (map (\<lambda>x. \<lfloor>f x\<rfloor>) xs)) :: rat) < of_int P + 1"
    using a assms(1) by linarith
  then show "sum_list (map (\<lambda>x. \<lfloor>f x\<rfloor>) xs) \<le> P"
    by (metis add_le_imp_le_right of_int_1 of_int_add of_int_less_iff zless_imp_add1_zle)
  have "(of_int P :: rat) < of_int (sum_list (map (\<lambda>x. \<lfloor>f x\<rfloor>) xs) + int (length xs) + 1)"
    using b assms(1) by simp
  then show "P - int (length xs) \<le> sum_list (map (\<lambda>x. \<lfloor>f x\<rfloor>) xs)"
    by (simp only: of_int_less_iff)
qed

end

section \<open>Doubles provide the contract\<close>

definition u64 :: rat where "u64 = 1 / 2 ^ 53"             \<comment> \<open>half a unit in the last place\<close>
definition lo64 :: rat where "lo64 = 2 powi (- 1022)"       \<comment> \<open>the least normal double\<close>

interpretation f64: fp_rounding fl64 u64 lo64
proof unfold_locales
  fix x :: rat
  show "lo64 \<le> \<bar>x\<bar> \<Longrightarrow> \<bar>fl64 x - x\<bar> \<le> u64 * \<bar>x\<bar>"
    using fl64_error [of x] by (simp only: lo64_def u64_def) simp
  show "0 < lo64" unfolding lo64_def by (rule powi_pos)
qed (simp_all add: fl64_nonneg u64_def)

end
