(* ===== verification/Money.thy ===== *)
theory Money
  imports Doubles
begin

text \<open>
  \<open>packages/shared/src/money.ts\<close>: decimal USD strings to integer cents and back, and cents to
  USDC base units.  \<open>Number(...)\<close> and the arithmetic on it are doubles; \<open>bigint\<close> is \<open>int\<close>.
  Characters are Latin-1 code units, which is all the regular expression can accept apart from
  the white space that \<open>trim\<close> removes.
\<close>

section \<open>Decimal digits\<close>

definition is_digit :: "char \<Rightarrow> bool" where
  "is_digit c \<longleftrightarrow> 48 \<le> (of_char c :: nat) \<and> (of_char c :: nat) \<le> 57"

definition digit_char :: "nat \<Rightarrow> char" where
  "digit_char d = char_of (48 + d)"

definition digit_value :: "char \<Rightarrow> int" where
  "digit_value c = int (of_char c) - 48"

definition dec_value :: "string \<Rightarrow> int" where
  "dec_value s = foldl (\<lambda>a c. 10 * a + digit_value c) 0 s"

text \<open>\<open>String(n)\<close> of a non-negative integer.\<close>

fun show_nat :: "nat \<Rightarrow> string" where
  "show_nat n = (if n < 10 then [digit_char n] else show_nat (n div 10) @ [digit_char (n mod 10)])"

declare show_nat.simps [simp del]

definition padStart2 :: "string \<Rightarrow> string" where
  "padStart2 s = replicate (2 - length s) (CHR ''0'') @ s"

definition padEnd2 :: "string \<Rightarrow> string" where
  "padEnd2 s = s @ replicate (2 - length s) (CHR ''0'')"

definition js_space :: "char \<Rightarrow> bool" where
  "js_space c \<longleftrightarrow> (of_char c :: nat) \<in> {9, 10, 11, 12, 13, 32, 160}"

definition js_trim :: "string \<Rightarrow> string" where
  "js_trim s = rev (dropWhile js_space (rev (dropWhile js_space s)))"

section \<open>Operations\<close>

text \<open>The match of \<open>/^(-?)(\d+)(?:\.(\d{1,2}))?$/\<close>: sign, whole and fraction.\<close>

definition usd_match :: "string \<Rightarrow> (bool \<times> string \<times> string) option" where
  "usd_match t =
     (let neg = (t \<noteq> [] \<and> hd t = CHR ''-''); rest = (if neg then tl t else t);
          whole = takeWhile is_digit rest; after = dropWhile is_digit rest
      in if whole = [] then None
         else case after of [] \<Rightarrow> Some (neg, whole, [])
         | c # fracs \<Rightarrow>
             if c = CHR ''.'' \<and> 1 \<le> length fracs \<and> length fracs \<le> 2 \<and> list_all is_digit fracs
             then Some (neg, whole, fracs) else None)"

text \<open>\<open>Number\<close> of a digit string; the empty string is 0.\<close>

definition js_number :: "string \<Rightarrow> rat" where
  "js_number s = fl64 (of_int (dec_value s))"

text \<open>The sum is a double of integer value, so \<open>floor\<close> only changes its type.\<close>

definition parseUsdToCents :: "string \<Rightarrow> http_error + cents" where
  "parseUsdToCents value = (case usd_match (js_trim value) of
       None \<Rightarrow> Inl (Failure ''Invalid USD amount: ${value}'')
     | Some (neg, whole, fracs) \<Rightarrow>
         let c = \<lfloor>fl64 (fl64 (js_number whole * 100) + js_number (padEnd2 fracs))\<rfloor>
         in Inr (if neg then - c else c))"

definition formatCentsToUsd :: "cents \<Rightarrow> string" where
  "formatCentsToUsd c =
     (let sign = (if c < 0 then ''-'' else ''''); a = \<bar>c\<bar>
      in sign @ show_nat (nat \<lfloor>fl64 (of_int a / 100)\<rfloor>) @ ''.'' @ padStart2 (show_nat (nat (a mod 100))))"

text \<open>\<open>cents\<close> is a number; the guard is \<open>Number.isInteger\<close>.\<close>

definition centsToUsdcBaseUnits :: "rat \<Rightarrow> http_error + int" where
  "centsToUsdcBaseUnits c = (if c \<noteq> of_int \<lfloor>c\<rfloor> then Inl (Failure ''Cents must be an integer: ${cents}'')
     else Inr (\<lfloor>c\<rfloor> * 10000))"

definition usdcBaseUnitsToCents :: "int \<Rightarrow> http_error + rat" where
  "usdcBaseUnitsToCents b = (if b mod 10000 \<noteq> 0
     then Inl (Failure ''USDC amount ${baseUnits} has sub-cent precision'')
     else Inr (fl64 (of_int (b div 10000))))"

section \<open>Digits\<close>

lemma of_digit_char: "d < 10 \<Longrightarrow> of_char (digit_char d) = 48 + d"
  by (simp add: digit_char_def)

lemma digit_char_props [simp]:
  "d < 10 \<Longrightarrow> is_digit (digit_char d)" "d < 10 \<Longrightarrow> digit_value (digit_char d) = int d"
  "d < 10 \<Longrightarrow> \<not> js_space (digit_char d)"
  by (auto simp: is_digit_def digit_value_def js_space_def of_digit_char)

lemma digit_char_0: "digit_char 0 = CHR ''0''"
proof -
  have "of_char (digit_char 0) = (of_char (CHR ''0'') :: nat)" by (simp add: digit_char_def)
  then show ?thesis by (simp only: of_char_eq_iff)
qed

lemma dec_value_snoc [simp]: "dec_value (s @ [c]) = 10 * dec_value s + digit_value c"
  by (simp add: dec_value_def)

lemma show_nat_digits: "list_all is_digit (show_nat n)"
proof (induction n rule: show_nat.induct)
  case (1 n) then show ?case by (cases "n < 10") (simp_all add: show_nat.simps [of n])
qed

lemma show_nat_value: "dec_value (show_nat n) = int n"
proof (induction n rule: show_nat.induct)
  case (1 n)
  show ?case
  proof (cases "n < 10")
    case True
    then show ?thesis by (simp add: show_nat.simps [of n] dec_value_def)
  next
    case False
    then have "dec_value (show_nat n) = 10 * int (n div 10) + int (n mod 10)"
      using "1.IH" by (simp add: show_nat.simps [of n])
    then show ?thesis by presburger
  qed
qed

lemma show_nat_nonempty: "show_nat n \<noteq> []"
  by (subst show_nat.simps) simp

lemma show_nat_small: "n < 100 \<Longrightarrow> padStart2 (show_nat n) = [digit_char (n div 10), digit_char (n mod 10)]"
proof (cases "n < 10")
  case True
  then show ?thesis by (simp add: show_nat.simps [of n] padStart2_def digit_char_0)
next
  case False
  moreover assume "n < 100"
  ultimately have "n div 10 < 10" "\<not> n < 10" by auto
  then show ?thesis
    by (simp add: show_nat.simps [of n] show_nat.simps [of "n div 10"] padStart2_def)
qed

section \<open>Parsing what was formatted\<close>

text \<open>The double quotient by 100 has the right floor below \<open>2 ^ 53\<close>.\<close>

lemma fl64_floor_div100:
  assumes "0 \<le> a" "a < 2 ^ 53"
  shows "\<lfloor>fl64 (of_int a / 100)\<rfloor> = a div 100"
proof (cases "a = 0")
  case False
  define x :: rat where "x = of_int a / 100"
  define k where "k = a div 100"
  have a1: "1 \<le> a" using False assms by simp
  have "2 powi (- 1022) \<le> (2::rat) powi (- 7)" by (intro power_int_increasing) auto
  also have "\<dots> \<le> \<bar>x\<bar>"
  proof -
    have "(2::rat) powi (- 7) \<le> 1 / 100" by (simp add: power_int_minus)
    also have "\<dots> \<le> \<bar>x\<bar>" using a1 by (simp add: x_def)
    finally show ?thesis .
  qed
  finally have err: "\<bar>fl64 x - x\<bar> \<le> \<bar>x\<bar> / 2 ^ 53" by (rule fl64_error)
  have x53: "\<bar>x\<bar> < 2 ^ 53 / 100"
  proof -
    have "(of_int a :: rat) < 2 ^ 53" using assms(2) by (metis of_int_less_iff of_int_numeral of_int_power)
    then show ?thesis using a1 by (simp add: x_def)
  qed
  have upper: "fl64 x < of_int k + 1"
  proof -
    have "a \<le> 100 * k + 99" unfolding k_def by presburger
    then have "(of_int a :: rat) \<le> 100 * of_int k + 99"
      by (metis (no_types, lifting) of_int_add of_int_le_iff of_int_mult of_int_numeral)
    then have "x \<le> of_int k + 99 / 100" by (simp add: x_def)
    moreover have "\<bar>x\<bar> / 2 ^ 53 < 1 / 100" using x53 by (simp add: field_simps)
    ultimately show ?thesis using err by linarith
  qed
  have "100 * k \<le> a" unfolding k_def by presburger
  then have kx: "of_int k \<le> x"
    by (simp add: x_def)
  have "is_double (of_int k * 2 powi 0)"
    using assms by (intro is_double_mult) (auto simp: k_def)
  then have lower: "of_int k \<le> fl64 x" using kx by (intro fl64_ge_double) auto
  show ?thesis
    unfolding x_def [symmetric] k_def [symmetric] by (rule floor_unique) (use lower upper in auto)
qed simp

lemma takeWhile_digits: "list_all is_digit s \<Longrightarrow> takeWhile is_digit (s @ CHR ''.'' # r) = s"
  and dropWhile_digits: "list_all is_digit s \<Longrightarrow> dropWhile is_digit (s @ CHR ''.'' # r) = CHR ''.'' # r"
  by (induction s) (auto simp: is_digit_def)

lemma js_trim_id: "s \<noteq> [] \<Longrightarrow> \<not> js_space (hd s) \<Longrightarrow> \<not> js_space (last s) \<Longrightarrow> js_trim s = s"
  by (simp add: js_trim_def dropWhile_eq_self_iff [THEN iffD2] hd_rev)

lemma digit_not_minus: "is_digit c \<Longrightarrow> c \<noteq> CHR ''-''"
  and digit_not_space: "is_digit c \<Longrightarrow> \<not> js_space c"
  by (auto simp: is_digit_def js_space_def)

lemma formatCents_match:
  assumes "\<bar>c\<bar> < 2 ^ 53"
  shows "usd_match (js_trim (formatCentsToUsd c)) =
    Some (c < 0, show_nat (nat (\<bar>c\<bar> div 100)),
      [digit_char (nat (\<bar>c\<bar> mod 100) div 10), digit_char (nat (\<bar>c\<bar> mod 100) mod 10)])"
proof -
  define w where "w = show_nat (nat (\<bar>c\<bar> div 100))"
  define f where "f = [digit_char (nat (\<bar>c\<bar> mod 100) div 10), digit_char (nat (\<bar>c\<bar> mod 100) mod 10)]"
  have m: "nat (\<bar>c\<bar> mod 100) < 100" by simp
  have fd: "list_all is_digit f" using m by (simp add: f_def)
  have wd: "list_all is_digit w" "w \<noteq> []" by (simp_all add: w_def show_nat_digits show_nat_nonempty)
  have fmt: "formatCentsToUsd c = (if c < 0 then ''-'' else '''') @ w @ ''.'' @ f"
    using fl64_floor_div100 [of "\<bar>c\<bar>"] assms show_nat_small [OF m]
    by (simp add: formatCentsToUsd_def Let_def w_def f_def)
  have "is_digit (hd w)" using wd by (cases w) auto
  then have hds: "\<not> js_space (hd w)" "hd w \<noteq> CHR ''-''" using digit_not_space digit_not_minus by blast+
  have ft: "js_trim (formatCentsToUsd c) = formatCentsToUsd c"
  proof (rule js_trim_id)
    show "formatCentsToUsd c \<noteq> []" by (simp add: fmt)
    show "\<not> js_space (hd (formatCentsToUsd c))"
      using hds wd by (cases w) (auto simp: fmt js_space_def)
    have "last (formatCentsToUsd c) = last f" by (simp add: fmt f_def)
    then show "\<not> js_space (last (formatCentsToUsd c))" using m by (simp add: f_def)
  qed
  have rest: "usd_match ((if c < 0 then ''-'' else '''') @ w @ CHR ''.'' # f) = Some (c < 0, w, f)"
    using wd fd hds takeWhile_digits [OF wd(1)] dropWhile_digits [OF wd(1)]
    by (cases w) (auto simp: usd_match_def Let_def f_def)
  have "usd_match (js_trim (formatCentsToUsd c)) = usd_match (formatCentsToUsd c)"
    by (simp only: ft)
  also have "\<dots> = Some (c < 0, w, f)" using rest by (simp add: fmt)
  finally show ?thesis by (simp only: w_def f_def)
qed

lemma digit_pair_value: "d < 10 \<Longrightarrow> e < 10 \<Longrightarrow> dec_value [digit_char d, digit_char e] = 10 * int d + int e"
  by (simp add: dec_value_def)

lemma js_number_exact: "\<bar>dec_value s\<bar> \<le> 2 ^ 53 \<Longrightarrow> js_number s = of_int (dec_value s)"
  by (simp add: js_number_def fl64_of_int)

lemma parse_format:
  assumes "\<bar>c\<bar> < 2 ^ 53"
  shows "parseUsdToCents (formatCentsToUsd c) = Inr c"
proof -
  define w f where "w = \<bar>c\<bar> div 100" and "f = \<bar>c\<bar> mod 100"
  have wf: "\<bar>c\<bar> = 100 * w + f" "0 \<le> w" "0 \<le> f" "f < 100" by (simp_all add: w_def f_def)
  have fv: "dec_value (padEnd2 [digit_char (nat f div 10), digit_char (nat f mod 10)]) = f"
    using wf by (simp add: padEnd2_def digit_pair_value zdiv_int zmod_int)
  have wv: "dec_value (show_nat (nat w)) = w" using wf by (simp add: show_nat_value)
  have n1: "js_number (show_nat (nat w)) = of_int w"
    using js_number_exact [of "show_nat (nat w)"] wv wf assms by simp
  have n2: "js_number (padEnd2 [digit_char (nat f div 10), digit_char (nat f mod 10)]) = of_int f"
    using js_number_exact [of "padEnd2 [digit_char (nat f div 10), digit_char (nat f mod 10)]"] fv wf by simp
  have m: "fl64 (of_int w * 100) = of_int (w * 100)"
    using fl64_of_int [of "w * 100"] wf assms by simp
  have "fl64 (of_int (w * 100) + of_int f) = (of_int \<bar>c\<bar> :: rat)"
    using fl64_of_int [of "w * 100 + f"] wf assms by (simp add: algebra_simps)
  moreover have "\<lfloor>of_int \<bar>c\<bar> :: rat\<rfloor> = \<bar>c\<bar>" by (rule floor_of_int)
  ultimately show ?thesis
    using formatCents_match [OF assms, folded w_def f_def]
    by (simp only: parseUsdToCents_def option.case prod.case n1 n2 m Let_def) simp
qed

section \<open>Properties\<close>

text \<open>(C26) Every amount a number can hold exactly survives formatting and parsing: for
  \<open>\<bar>c\<bar> < 2 ^ 53\<close>, \<open>parseUsdToCents (formatCentsToUsd c) = c\<close>, although both directions go
  through double arithmetic.\<close>

theorem parse_format_roundtrip:
  assumes "\<bar>c\<bar> < 2 ^ 53"
  shows "parseUsdToCents (formatCentsToUsd c) = Inr c"
  using assms by (rule parse_format)

theorem parse_format_roundtrip_witness:
  "parseUsdToCents (formatCentsToUsd (- 12005)) = Inr (- 12005)"
  using parse_format_roundtrip [of "- 12005"] by simp

text \<open>Cents convert to USDC base units and back without loss, and a base-unit amount with
  sub-cent precision is refused rather than rounded.\<close>

theorem usdc_conversion_exact:
  assumes "\<bar>c\<bar> \<le> 2 ^ 53" and "\<bar>b\<bar> \<le> 2 ^ 53 * 10000"
  shows "centsToUsdcBaseUnits (of_int c) = Inr (c * 10000) \<and> usdcBaseUnitsToCents (c * 10000) = Inr (of_int c)
     \<and> (case usdcBaseUnitsToCents b of Inl _ \<Rightarrow> \<not> 10000 dvd b
        | Inr x \<Rightarrow> 10000 dvd b \<and> centsToUsdcBaseUnits x = Inr b)"
proof -
  have there: "centsToUsdcBaseUnits (of_int c) = Inr (c * 10000)" "usdcBaseUnitsToCents (c * 10000) = Inr (of_int c)"
    using fl64_of_int [OF assms(1)] by (simp_all add: centsToUsdcBaseUnits_def usdcBaseUnitsToCents_def)
  show ?thesis
  proof (cases "10000 dvd b")
    case True
    then obtain k where k: "b = 10000 * k" by blast
    with assms(2) have "\<bar>k\<bar> \<le> 2 ^ 53" by linarith
    then have "fl64 (of_int k) = of_int k" by (rule fl64_of_int)
    with there k show ?thesis by (simp add: usdcBaseUnitsToCents_def centsToUsdcBaseUnits_def)
  next
    case False
    with there show ?thesis by (simp add: usdcBaseUnitsToCents_def dvd_eq_mod_eq_0)
  qed
qed

theorem usdc_conversion_exact_witness:
  "centsToUsdcBaseUnits (of_int 12) = Inr 120000 \<and> usdcBaseUnitsToCents 120000 = Inr (of_int 12)
   \<and> usdcBaseUnitsToCents 120001 = Inl (Failure ''USDC amount ${baseUnits} has sub-cent precision'')"
  using usdc_conversion_exact [of 12 120001] by (simp add: usdcBaseUnitsToCents_def)

end
