(* ===== verification/Enums.thy ===== *)
theory Enums
  imports Prelude
begin

text \<open>
  The enumerations of \<open>packages/shared/src/enums.ts\<close> (and the further ones of the Prisma
  schema).  A constructor carries the source's literal; where two enumerations share a literal
  the constructor is prefixed with the enumeration's name.
\<close>

datatype org_role = OWNER | MANAGER | PAYROLL_ADMIN | VIEWER

datatype tip_type = CASH_TIP | CARD_TIP | QR_TIP | AUTOMATIC_GRATUITY | SERVICE_CHARGE

datatype payout_rail =
  CASH_RETAINED | CASH_DRAWER | PAYROLL | PAYOUT_PROVIDER | BANK_REFERENCE | USDC

datatype batch_status =
    BatchDRAFT | CALCULATED | REVIEW_REQUIRED | BatchAPPROVED | PAYABLE | PARTIALLY_PAID
  | BatchPAID | BatchCORRECTED | BatchREVERSED | DISPUTED

datatype payout_status =
    CREATED | INITIATED | SUBMITTED | CONFIRMED | FINALIZED | PayoutFAILED | PayoutREVERSED
  | PayoutCORRECTED

datatype report_status =
  ReportDRAFT | ISSUED | ReportEXPIRED | ReportCORRECTED | ReportREVOKED

datatype evidence_grade = GradeA | GradeB | GradeC | GradeD | GradeE

datatype discrepancy_type =
    ALLOCATION_GAP | PAYOUT_GAP | PAYROLL_GAP | WITHHOLDING_UNKNOWN | REFUND_ADJUSTMENT_REQUIRED
  | DUPLICATE_EVIDENCE | UNMAPPED_WORKER_ALERT | STALE_PROVIDER_DATA

text \<open>Enumerations that only the Prisma schema declares.\<close>

datatype payment_status = PaymentCOMPLETED | PaymentPENDING | PaymentCANCELED
datatype refund_status = RefundNONE | RefundPARTIAL | RefundFULL
datatype ingest_source = CSV_UPLOAD | PROVIDER_API | PLATFORM_ATTESTED
datatype shift_status = ShiftIN_PROGRESS | ShiftCOMPLETED | ShiftAPPROVED | ShiftVOIDED
datatype open_shift_status =
  OpenDRAFT | OpenOPEN | OpenFILLED | OpenIN_PROGRESS | OpenCOMPLETED | OpenCANCELLED
datatype assignment_status =
    INVITED | ACCEPTED | DECLINED | AssignCANCELLED | CLOCKED_IN | CLOCKED_OUT | AssignAPPROVED
  | NO_SHOW
datatype policy_status = PolicyDRAFT | PolicyACTIVE | PolicyARCHIVED
datatype allocation_type = HOURS_WEIGHTED | ROLE_WEIGHTED_HOURS | EQUAL_SPLIT
datatype alloc_payout_status = UNPAID | AllocPENDING | AllocPAID | AllocFAILED
datatype mapping_status = MappingPENDING | MappingCONFIRMED | MappingREJECTED
datatype global_role = RoleWORKER | RoleVENUE_OWNER | RoleVENUE_MANAGER | RolePAYROLL_ADMIN | RoleVIEWER
datatype wallet_type = WalletEXTERNAL | WalletEMBEDDED
datatype wallet_status = WalletACTIVE | WalletDISABLED
datatype payroll_status = PayrollPENDING | PROVIDER_CONFIRMED | PayrollDISPUTED
datatype withholding_status = WithholdingUNKNOWN | WithholdingPENDING | WithholdingCONFIRMED
datatype entry_status = EntryACTIVE | EntrySUPERSEDED | EntryREVERSED
datatype disclosure_level = LEVEL_1 | LEVEL_2 | LEVEL_3
datatype access_mode = LINK | RECIPIENT_OTP
datatype connection_status = ConnPENDING | CONNECTED | ConnERROR | ConnREVOKED

end
