(* ===== verification/Csv.thy ===== *)
theory Csv
  imports Money Enums
begin

text \<open>
  The CSV fallback: \<open>apps/api/src/evidence/csv-normalizer.ts\<close> with the row schema of
  \<open>packages/shared/src/csv.ts\<close>, and the quoting of \<open>payrollExport\<close>
  (\<open>apps/api/src/organizations/organizations.service.ts\<close>).  Parameters stand for what is not in
  the repository: \<open>iso_datetime\<close> (zod's \<open>z.iso.datetime()\<close>), \<open>date_ms\<close> (\<open>new Date(s)\<close> of such a
  string), \<open>bdate\<close> (the \<open>Intl\<close> formatter behind \<open>businessDateInTimezone\<close>), \<open>row_hash\<close> (sha256 of
  the row's JSON) and \<open>zmsg\<close> (zod's default message for a field).
\<close>

section \<open>Fields of a line\<close>

text \<open>The \<open>for\<close> loop of \<open>splitCsvLine\<close>: the rest of the line, \<open>inQuotes\<close>, \<open>current\<close> and \<open>fields\<close>.\<close>

fun split_loop :: "string \<Rightarrow> bool \<Rightarrow> string \<Rightarrow> string list \<Rightarrow> string list" where
  "split_loop [] inQuotes current fields = fields @ [current]"
| "split_loop (ch # line) True current fields =
     (if ch = CHR 34 \<and> line \<noteq> [] \<and> hd line = CHR 34
      then split_loop (tl line) True (current @ [CHR 34]) fields
      else if ch = CHR 34 then split_loop line False current fields
      else split_loop line True (current @ [ch]) fields)"
| "split_loop (ch # line) False current fields =
     (if ch = CHR 34 then split_loop line True current fields
      else if ch = CHR '','' then split_loop line False [] (fields @ [current])
      else split_loop line False (current @ [ch]) fields)"

definition splitCsvLine :: "string \<Rightarrow> string list" where
  "splitCsvLine line = split_loop line False [] []"

text \<open>\<open>payrollExport\<close>: \<open>escape\<close> and the join of one row.\<close>

fun double_quotes :: "string \<Rightarrow> string" where
  "double_quotes [] = []"
| "double_quotes (c # s) = (if c = CHR 34 then [CHR 34, CHR 34] else [c]) @ double_quotes s"

definition escape :: "string \<Rightarrow> string" where
  "escape value = CHR 34 # double_quotes value @ [CHR 34]"

fun join :: "string \<Rightarrow> string list \<Rightarrow> string" where
  "join sep [] = []"
| "join sep [s] = s"
| "join sep (s # t # ss) = s @ sep @ join sep (t # ss)"

definition csv_line :: "string list \<Rightarrow> string" where
  "csv_line row = join '','' (map escape row)"

section \<open>Rows\<close>

record csv_row =
  cr_provider :: string
  cr_venue_external_id :: string
  cr_worker_external_id :: string
  cr_shift_external_id :: string
  cr_tip_type :: tip_type
  cr_gross_tip :: string
  cr_clock_in :: string
  cr_clock_out :: string
  cr_role :: string
  cr_payout_route :: payout_rail
  cr_payroll_status :: string

definition parse_tip_type :: "string \<Rightarrow> tip_type option" where
  "parse_tip_type s = map_of
     [(''CASH_TIP'', CASH_TIP), (''CARD_TIP'', CARD_TIP), (''QR_TIP'', QR_TIP),
      (''AUTOMATIC_GRATUITY'', AUTOMATIC_GRATUITY), (''SERVICE_CHARGE'', SERVICE_CHARGE)] s"

definition parse_payout_rail :: "string \<Rightarrow> payout_rail option" where
  "parse_payout_rail s = map_of
     [(''CASH_RETAINED'', CASH_RETAINED), (''CASH_DRAWER'', CASH_DRAWER), (''PAYROLL'', PAYROLL),
      (''PAYOUT_PROVIDER'', PAYOUT_PROVIDER), (''BANK_REFERENCE'', BANK_REFERENCE), (''USDC'', USDC)] s"

text \<open>\<open>/^\d+(\.\d{1,2})?$/\<close>: the amount pattern without a sign and without \<open>trim\<close>.\<close>

definition gross_tip_ok :: "string \<Rightarrow> bool" where
  "gross_tip_ok s = (case usd_match s of Some (neg, _, _) \<Rightarrow> \<not> neg | None \<Rightarrow> False)"

text \<open>
  \<open>csvEvidenceRowSchema.safeParse\<close>.  \<open>row\<close> is the object of the line; \<open>Inl\<close> carries the issues,
  one per failing field in schema order, as \<open>path: message\<close>.
\<close>

definition field_issue ::
  "(string \<Rightarrow> string option \<Rightarrow> string) \<Rightarrow> (string \<rightharpoonup> string) \<Rightarrow> string \<Rightarrow> (string \<Rightarrow> bool) \<Rightarrow> string list" where
  "field_issue zmsg row f ok = (case row f of
       Some v \<Rightarrow> if ok v then []
                 else [f @ '': '' @ (if f = ''gross_tip'' then ''gross_tip must be a non-negative USD amount''
                                    else zmsg f (Some v))]
     | None \<Rightarrow> [f @ '': '' @ zmsg f None])"

definition nonempty :: "string \<Rightarrow> bool" where
  "nonempty s = (s \<noteq> [])"

definition csvEvidenceRowSchema ::
  "(string \<Rightarrow> bool) \<Rightarrow> (string \<Rightarrow> string option \<Rightarrow> string) \<Rightarrow> (string \<rightharpoonup> string) \<Rightarrow> string list + csv_row" where
  "csvEvidenceRowSchema iso_datetime zmsg row =
     (let fi = field_issue zmsg row;
          issues = fi ''provider'' nonempty @ fi ''venue_external_id'' nonempty
            @ fi ''worker_external_id'' nonempty @ fi ''shift_external_id'' nonempty
            @ fi ''tip_type'' (\<lambda>v. parse_tip_type v \<noteq> None) @ fi ''gross_tip'' gross_tip_ok
            @ fi ''clock_in'' iso_datetime @ fi ''clock_out'' iso_datetime @ fi ''role'' nonempty
            @ fi ''payout_route'' (\<lambda>v. parse_payout_rail v \<noteq> None) @ fi ''payroll_status'' nonempty
      in if issues \<noteq> [] then Inl issues
         else Inr \<lparr>cr_provider = the (row ''provider''),
           cr_venue_external_id = the (row ''venue_external_id''),
           cr_worker_external_id = the (row ''worker_external_id''),
           cr_shift_external_id = the (row ''shift_external_id''),
           cr_tip_type = the (parse_tip_type (the (row ''tip_type''))),
           cr_gross_tip = the (row ''gross_tip''), cr_clock_in = the (row ''clock_in''),
           cr_clock_out = the (row ''clock_out''), cr_role = the (row ''role''),
           cr_payout_route = the (parse_payout_rail (the (row ''payout_route''))),
           cr_payroll_status = the (row ''payroll_status'')\<rparr>)"

section \<open>Normalisation\<close>

record normalized_tip =
  nt_provider :: string
  nt_externalPaymentId :: string
  nt_tipType :: tip_type
  nt_grossAmountUsdCents :: cents
  nt_businessDate :: string
  nt_sourceHash :: string
  nt_sourcePayoutRail :: payout_rail
  nt_sourcePayrollStatus :: string

record normalized_shift =
  ns_provider :: string
  ns_externalShiftId :: string
  ns_externalWorkerId :: string
  ns_role :: string
  ns_clockIn :: instant
  ns_clockOut :: instant
  ns_workedMinutes :: int
  ns_businessDate :: string
  ns_sourceHash :: string
  ns_sourcePayoutRail :: payout_rail
  ns_sourcePayrollStatus :: string

record normalization =
  cn_tips :: "normalized_tip list"
  cn_shifts :: "normalized_shift list"
  cn_errors :: "(nat \<times> string) list"

text \<open>\<open>split(/\r?\n/)\<close>: a line feed ends a line, and a carriage return before it goes with it.\<close>

fun split_lines :: "string \<Rightarrow> string \<Rightarrow> string list" where
  "split_lines current [] = [current]"
| "split_lines current (c # s) =
     (if c = CHR 10 then current # split_lines [] s
      else if c = CHR 13 \<and> s \<noteq> [] \<and> hd s = CHR 10 then current # split_lines [] (tl s)
      else split_lines (current @ [c]) s)"

definition csv_lines :: "string \<Rightarrow> string list" where
  "csv_lines csvText = filter (\<lambda>l. l \<noteq> []) (map js_trim (split_lines [] csvText))"

text \<open>\<open>Object.fromEntries(headers.map((h, i) => [h, values[i] ?? ""]))\<close>: a repeated header keeps
  its last value.\<close>

definition row_object :: "string list \<Rightarrow> string list \<Rightarrow> (string \<rightharpoonup> string)" where
  "row_object headers vals =
     map_of (rev (zip headers (vals @ replicate (length headers - length vals) [])))"

definition shift_of_row ::
  "(string \<Rightarrow> instant) \<Rightarrow> (instant \<Rightarrow> string \<Rightarrow> string) \<Rightarrow> (csv_row \<Rightarrow> string) \<Rightarrow> string \<Rightarrow> csv_row \<Rightarrow> normalized_shift" where
  "shift_of_row date_ms bdate row_hash tz row =
     \<lparr>ns_provider = cr_provider row, ns_externalShiftId = cr_shift_external_id row,
      ns_externalWorkerId = cr_worker_external_id row, ns_role = cr_role row,
      ns_clockIn = date_ms (cr_clock_in row), ns_clockOut = date_ms (cr_clock_out row),
      ns_workedMinutes =
        js_round (fl64 (of_int (date_ms (cr_clock_out row) - date_ms (cr_clock_in row)) / 60000)),
      ns_businessDate = bdate (date_ms (cr_clock_in row)) tz, ns_sourceHash = row_hash row,
      ns_sourcePayoutRail = cr_payout_route row, ns_sourcePayrollStatus = cr_payroll_status row\<rparr>"

definition tip_of_row ::
  "(string \<Rightarrow> instant) \<Rightarrow> (instant \<Rightarrow> string \<Rightarrow> string) \<Rightarrow> (csv_row \<Rightarrow> string) \<Rightarrow> string \<Rightarrow> cents \<Rightarrow> csv_row \<Rightarrow> normalized_tip" where
  "tip_of_row date_ms bdate row_hash tz grossCents row =
     \<lparr>nt_provider = cr_provider row, nt_externalPaymentId = ''csv:'' @ cr_shift_external_id row,
      nt_tipType = cr_tip_type row, nt_grossAmountUsdCents = grossCents,
      nt_businessDate = bdate (date_ms (cr_clock_in row)) tz, nt_sourceHash = row_hash row,
      nt_sourcePayoutRail = cr_payout_route row, nt_sourcePayrollStatus = cr_payroll_status row\<rparr>"

text \<open>The body of the loop over the data lines; \<open>parseUsdToCents\<close> may throw.\<close>

definition normalize_line ::
  "(string \<Rightarrow> bool) \<Rightarrow> (string \<Rightarrow> string option \<Rightarrow> string) \<Rightarrow> (string \<Rightarrow> instant) \<Rightarrow> (instant \<Rightarrow> string \<Rightarrow> string) \<Rightarrow>
   (csv_row \<Rightarrow> string) \<Rightarrow> string \<Rightarrow> string list \<Rightarrow> nat \<times> string \<Rightarrow> normalization \<Rightarrow> http_error + normalization" where
  "normalize_line iso_datetime zmsg date_ms bdate row_hash tz headers nl result =
     (case nl of (lineNo, line) \<Rightarrow>
      case csvEvidenceRowSchema iso_datetime zmsg (row_object headers (splitCsvLine line)) of
        Inl issues \<Rightarrow> Inr (result\<lparr>cn_errors := cn_errors result @ [(lineNo + 1, join ''; '' issues)]\<rparr>)
      | Inr row \<Rightarrow>
          let result = result\<lparr>cn_shifts := cn_shifts result @ [shift_of_row date_ms bdate row_hash tz row]\<rparr>
          in case parseUsdToCents (cr_gross_tip row) of
               Inl e \<Rightarrow> Inl e
             | Inr grossCents \<Rightarrow>
                 if grossCents > 0
                 then Inr (result\<lparr>cn_tips := cn_tips result @ [tip_of_row date_ms bdate row_hash tz grossCents row]\<rparr>)
                 else Inr result)"

fun normalize_loop :: "(nat \<times> string \<Rightarrow> normalization \<Rightarrow> http_error + normalization) \<Rightarrow>
    (nat \<times> string) list \<Rightarrow> normalization \<Rightarrow> http_error + normalization" where
  "normalize_loop body [] result = Inr result"
| "normalize_loop body (l # ls) result =
     (case body l result of Inl e \<Rightarrow> Inl e | Inr r \<Rightarrow> normalize_loop body ls r)"

definition normalizeCsv ::
  "(string \<Rightarrow> bool) \<Rightarrow> (string \<Rightarrow> string option \<Rightarrow> string) \<Rightarrow> (string \<Rightarrow> instant) \<Rightarrow> (instant \<Rightarrow> string \<Rightarrow> string) \<Rightarrow>
   (csv_row \<Rightarrow> string) \<Rightarrow> string \<Rightarrow> string \<Rightarrow> http_error + normalization" where
  "normalizeCsv iso_datetime zmsg date_ms bdate row_hash csvText tz =
     (let ls = csv_lines csvText; result = \<lparr>cn_tips = [], cn_shifts = [], cn_errors = []\<rparr>
      in if length ls < 2 then Inr (result\<lparr>cn_errors := [(0, ''CSV has no data rows'')]\<rparr>)
         else normalize_loop
                (normalize_line iso_datetime zmsg date_ms bdate row_hash tz (splitCsvLine (hd ls)))
                (zip [1..<length ls] (tl ls)) result)"

section \<open>Quoted fields read back\<close>

lemma split_quoted:
  "split_loop (double_quotes s @ CHR 34 # rest) True current fs =
   (if rest \<noteq> [] \<and> hd rest = CHR 34
    then split_loop (tl rest) True (current @ s @ [CHR 34]) fs
    else split_loop rest False (current @ s) fs)"
  by (induction s arbitrary: current) auto

lemma split_escape:
  "rest = [] \<or> hd rest \<noteq> CHR 34 \<Longrightarrow>
   split_loop (escape s @ rest) False [] fs = split_loop rest False s fs"
  using split_quoted [of s rest "[]" fs] by (auto simp: escape_def)

lemma split_csv_line: "row \<noteq> [] \<Longrightarrow> split_loop (csv_line row) False [] fs = fs @ row"
proof (induction row arbitrary: fs)
  case (Cons s ss)
  show ?case
  proof (cases ss)
    case Nil
    then show ?thesis using split_escape [of "[]" s] by (simp add: csv_line_def)
  next
    case (Cons t ts)
    then have "csv_line (s # ss) = escape s @ '','' @ csv_line ss" by (simp add: csv_line_def)
    then show ?thesis
      using split_escape [of "'','' @ csv_line ss" s fs] Cons.IH [of "fs @ [s]"] Cons by simp
  qed
qed simp

text \<open>(C27) A row exported with \<open>payrollExport\<close>'s quoting reads back through \<open>splitCsvLine\<close> as the
  same fields, whatever quotes, commas or line breaks they contain.\<close>

theorem csv_export_roundtrip: "row \<noteq> [] \<Longrightarrow> splitCsvLine (csv_line row) = row"
  unfolding splitCsvLine_def using split_csv_line [of row "[]"] by simp

theorem csv_export_roundtrip_witness:
  "splitCsvLine (csv_line [''a,b'', [CHR 34, CHR 10], '''']) = [''a,b'', [CHR 34, CHR 10], '''']"
  using csv_export_roundtrip [of "[''a,b'', [CHR 34, CHR 10], '''']"] by simp

section \<open>Every data line is accounted for\<close>

lemma usd_match_shape:
  assumes "usd_match s = Some (False, whole, fracs)"
  shows "s = whole @ (if fracs = [] then [] else CHR ''.'' # fracs)"
    "whole \<noteq> []" "list_all is_digit whole" "list_all is_digit fracs"
proof -
  have w: "whole = takeWhile is_digit s"
    using assms by (auto simp: usd_match_def Let_def split: if_splits list.splits)
  show "whole \<noteq> []"
    using assms by (auto simp: usd_match_def Let_def split: if_splits list.splits)
  show "list_all is_digit whole" unfolding w by (auto simp: list_all_iff dest: set_takeWhileD)
  have f: "dropWhile is_digit s = (if fracs = [] then [] else CHR ''.'' # fracs) \<and> list_all is_digit fracs"
    using assms by (auto simp: usd_match_def Let_def split: if_splits list.splits)
  then show "list_all is_digit fracs" ..
  show "s = whole @ (if fracs = [] then [] else CHR ''.'' # fracs)"
    using takeWhile_dropWhile_id [of is_digit s] f w by metis
qed

lemma gross_tip_parses:
  assumes "gross_tip_ok s"
  shows "\<exists>c. parseUsdToCents s = Inr c"
proof -
  obtain whole fracs where m: "usd_match s = Some (False, whole, fracs)"
    using assms by (auto simp: gross_tip_ok_def split: option.splits)
  note sh = usd_match_shape [OF m]
  have "s \<noteq> []" using sh by simp
  moreover have "is_digit (hd s)" using sh by (auto simp: list_all_iff)
  moreover have "is_digit (last s)" using sh by (auto simp: list_all_iff)
  ultimately have "js_trim s = s" using digit_not_space by (simp add: js_trim_id)
  then show ?thesis using m by (simp add: parseUsdToCents_def Let_def)
qed

lemma schema_gross_tip:
  assumes "csvEvidenceRowSchema iso_datetime zmsg row = Inr r"
  shows "gross_tip_ok (cr_gross_tip r)"
proof -
  have "field_issue zmsg row ''gross_tip'' gross_tip_ok = []" and g: "cr_gross_tip r = the (row ''gross_tip'')"
    using assms by (auto simp: csvEvidenceRowSchema_def Let_def split: if_splits)
  then show ?thesis by (auto simp: field_issue_def split: option.splits if_splits)
qed

definition lines_seen :: "normalization \<Rightarrow> nat" where
  "lines_seen r = length (cn_shifts r) + length (cn_errors r)"

lemma normalize_line_counts:
  "\<exists>r. normalize_line iso_datetime zmsg date_ms bdate row_hash tz headers nl result = Inr r
     \<and> lines_seen r = Suc (lines_seen result)
     \<and> length (cn_tips r) + length (cn_shifts result) \<le> length (cn_tips result) + length (cn_shifts r)"
proof -
  obtain no line where nl: "nl = (no, line)" by fastforce
  show ?thesis
  proof (cases "csvEvidenceRowSchema iso_datetime zmsg (row_object headers (splitCsvLine line))")
    case (Inl issues)
    then show ?thesis by (simp add: nl normalize_line_def lines_seen_def)
  next
    case (Inr row)
    obtain c where "parseUsdToCents (cr_gross_tip row) = Inr c"
      using gross_tip_parses [OF schema_gross_tip [OF Inr]] ..
    then show ?thesis using Inr by (simp add: nl normalize_line_def Let_def lines_seen_def)
  qed
qed

lemma normalize_loop_counts:
  assumes "\<And>nl result. \<exists>r. body nl result = Inr r \<and> lines_seen r = Suc (lines_seen result)
     \<and> length (cn_tips r) + length (cn_shifts result) \<le> length (cn_tips result) + length (cn_shifts r)"
  shows "\<exists>r. normalize_loop body ls result = Inr r \<and> lines_seen r = length ls + lines_seen result
     \<and> length (cn_tips r) + length (cn_shifts result) \<le> length (cn_tips result) + length (cn_shifts r)"
proof (induction ls arbitrary: result)
  case (Cons l ls)
  obtain r where r: "body l result = Inr r" "lines_seen r = Suc (lines_seen result)"
    "length (cn_tips r) + length (cn_shifts result) \<le> length (cn_tips result) + length (cn_shifts r)"
    using assms [of l result] by auto
  obtain r' where "normalize_loop body ls r = Inr r'" "lines_seen r' = length ls + lines_seen r"
    "length (cn_tips r') + length (cn_shifts r) \<le> length (cn_tips r) + length (cn_shifts r')"
    using Cons.IH [of r] by auto
  with r show ?case by (simp add: exI [of _ r'])
qed simp

text \<open>\<open>normalizeCsv\<close> never throws: the row schema admits only amounts that
  \<open>parseUsdToCents\<close> accepts.  Of a text with a header and at least one data line, every data line
  becomes exactly one shift or one error, and there is at most one tip per shift.\<close>

theorem normalizeCsv_accounts:
  "\<exists>r. normalizeCsv iso_datetime zmsg date_ms bdate row_hash csvText tz = Inr r
     \<and> length (cn_tips r) \<le> length (cn_shifts r)
     \<and> length (cn_shifts r) + length (cn_errors r) = max 2 (length (csv_lines csvText)) - 1"
proof (cases "length (csv_lines csvText) < 2")
  case True
  then show ?thesis by (simp add: normalizeCsv_def Let_def)
next
  case False
  let ?body = "normalize_line iso_datetime zmsg date_ms bdate row_hash tz (splitCsvLine (hd (csv_lines csvText)))"
  obtain r where "normalize_loop ?body (zip [1..<length (csv_lines csvText)] (tl (csv_lines csvText)))
       \<lparr>cn_tips = [], cn_shifts = [], cn_errors = []\<rparr> = Inr r"
    "lines_seen r = length (csv_lines csvText) - 1" "length (cn_tips r) \<le> length (cn_shifts r)"
    using normalize_loop_counts [of ?body "zip [1..<length (csv_lines csvText)] (tl (csv_lines csvText))"
        "\<lparr>cn_tips = [], cn_shifts = [], cn_errors = []\<rparr>", OF normalize_line_counts]
    by (auto simp: lines_seen_def)
  with False show ?thesis by (simp add: normalizeCsv_def Let_def lines_seen_def)
qed

end
