(* ===== verification/Base58.thy ===== *)
theory Base58
  imports Prelude
begin

text \<open>
  \<open>packages/shared/src/base58.ts\<close>: base58 encoding of a byte array, used for the transaction
  signature the settlement service tracks.  A byte is a natural number below 256.  The reference
  is positional notation: the digits denote the same number as the bytes, with no superfluous
  leading digit, and each leading zero byte is a leading \<open>1\<close>.
\<close>

section \<open>Operations\<close>

definition alphabet :: string where
  "alphabet = ''123456789ABCDEFGHJKLMNPQRSTUVWXYZabcdefghijkmnopqrstuvwxyz''"

fun leading_zeros :: "nat list \<Rightarrow> nat" where
  "leading_zeros [] = 0"
| "leading_zeros (b # bs) = (if b = 0 then Suc (leading_zeros bs) else 0)"

text \<open>The inner \<open>for\<close> loop: multiply the digits by 256 and add the carry.\<close>

fun mul_add :: "nat list \<Rightarrow> nat \<Rightarrow> nat list \<times> nat" where
  "mul_add [] carry = ([], carry)"
| "mul_add (d # ds) carry =
     (let value = d * 256 + carry; (ds', c') = mul_add ds (value div 58) in (value mod 58 # ds', c'))"

text \<open>The \<open>while (carry > 0)\<close> loop.\<close>

fun carry_digits :: "nat \<Rightarrow> nat list" where
  "carry_digits c = (if c = 0 then [] else c mod 58 # carry_digits (c div 58))"

declare carry_digits.simps [simp del]

lemma carry_digits_0 [simp]: "carry_digits 0 = []"
  by (simp add: carry_digits.simps)

lemma carry_digits_pos: "c \<noteq> 0 \<Longrightarrow> carry_digits c = c mod 58 # carry_digits (c div 58)"
  by (simp add: carry_digits.simps [of c])

definition add_byte :: "nat list \<Rightarrow> nat \<Rightarrow> nat list" where
  "add_byte digits byte = (case mul_add digits byte of (ds, c) \<Rightarrow> ds @ carry_digits c)"

definition encode_digits :: "nat list \<Rightarrow> nat list" where
  "encode_digits bytes = foldl add_byte [0] bytes"

definition encodeBase58 :: "nat list \<Rightarrow> string" where
  "encodeBase58 bytes =
     replicate (leading_zeros bytes) (CHR ''1'') @ map (\<lambda>d. alphabet ! d) (rev (encode_digits bytes))"

section \<open>Positional value\<close>

fun value58 :: "nat list \<Rightarrow> nat" where
  "value58 [] = 0"
| "value58 (d # ds) = d + 58 * value58 ds"

definition value256 :: "nat list \<Rightarrow> nat" where
  "value256 bs = foldl (\<lambda>a b. 256 * a + b) 0 bs"

lemma value58_append: "value58 (xs @ ys) = value58 xs + 58 ^ length xs * value58 ys"
  by (induction xs) (simp_all add: algebra_simps)

lemma value58_carry: "value58 (carry_digits c) = c"
proof (induction c rule: carry_digits.induct)
  case (1 c) then show ?case by (cases "c = 0") (simp_all add: carry_digits_pos)
qed

lemma length_mul_add: "length (fst (mul_add ds c)) = length ds"
  by (induction ds c rule: mul_add.induct) (auto simp: Let_def split: prod.splits)

lemma value58_mul_add:
  "mul_add ds c = (ds', c') \<Longrightarrow> value58 ds' + 58 ^ length ds * c' = 256 * value58 ds + c"
proof (induction ds c arbitrary: ds' c' rule: mul_add.induct)
  case (2 d ds c)
  obtain es e where r: "mul_add ds ((d * 256 + c) div 58) = (es, e)" by fastforce
  let ?v = "d * 256 + c"
  have out: "ds' = ?v mod 58 # es" "c' = e" using "2.prems" r by (simp_all add: Let_def)
  have "value58 es + 58 ^ length ds * e = 256 * value58 ds + ?v div 58" by (rule "2.IH" [OF refl r])
  then have "58 * (value58 es + 58 ^ length ds * e) + ?v mod 58 = 58 * (256 * value58 ds) + ?v"
    by (simp only: distrib_left [of 58 "256 * value58 ds"] mult.commute [of 58 "?v div 58"] add.assoc div_mult_mod_eq)
  then show ?case by (simp add: out algebra_simps)
qed simp

lemma value58_add_byte: "value58 (add_byte ds b) = 256 * value58 ds + b"
proof -
  obtain es e where r: "mul_add ds b = (es, e)" by fastforce
  then have "length es = length ds" using length_mul_add [of ds b] by simp
  then show ?thesis
    using value58_mul_add [OF r] by (simp add: add_byte_def r value58_append value58_carry)
qed

lemma value58_fold: "value58 (foldl add_byte ds bs) = foldl (\<lambda>a b. 256 * a + b) (value58 ds) bs"
  by (induction bs arbitrary: ds) (simp_all add: value58_add_byte)

section \<open>Digits in range, none superfluous\<close>

lemma carry_digits_range: "d \<in> set (carry_digits c) \<Longrightarrow> d < 58"
proof (induction c rule: carry_digits.induct)
  case (1 c) then show ?case by (cases "c = 0") (auto simp: carry_digits_pos)
qed

lemma mul_add_range: "d \<in> set (fst (mul_add ds c)) \<Longrightarrow> d < 58"
  by (induction ds c rule: mul_add.induct) (auto simp: Let_def split: prod.splits)

lemma add_byte_range: "d \<in> set (add_byte ds b) \<Longrightarrow> d < 58"
  using mul_add_range [of d ds b] carry_digits_range [of d]
  by (cases "mul_add ds b") (auto simp: add_byte_def dest: carry_digits_range)

lemma encode_digits_range: "d \<in> set (encode_digits bs) \<Longrightarrow> d < 58"
  by (cases bs rule: rev_cases) (auto simp: encode_digits_def dest: add_byte_range)

lemma carry_digits_last: "c \<noteq> 0 \<Longrightarrow> carry_digits c \<noteq> [] \<and> last (carry_digits c) \<noteq> 0"
proof (induction c rule: carry_digits.induct)
  case (1 c)
  show ?case
  proof (cases "c div 58 = 0")
    case True
    with "1.prems" show ?thesis
      by (simp add: carry_digits_pos div_eq_0_iff)
  next
    case False
    with "1.IH" "1.prems" show ?thesis by (simp add: carry_digits_pos)
  qed
qed

lemma mul_add_carry_pos: "ds \<noteq> [] \<Longrightarrow> last ds \<noteq> 0 \<Longrightarrow> snd (mul_add ds c) \<noteq> 0"
proof (induction ds c rule: mul_add.induct)
  case (2 d ds c)
  show ?case
  proof (cases "ds = []")
    case True
    with "2.prems" show ?thesis by (simp add: Let_def div_eq_0_iff)
  next
    case False
    with 2 show ?thesis by (auto simp: Let_def split: prod.splits)
  qed
qed simp

text \<open>The digits are those of the number: either it is zero and they are \<open>[0]\<close>, or the most
  significant one is not zero.\<close>

definition minimal :: "nat list \<Rightarrow> bool" where
  "minimal ds \<longleftrightarrow> ds = [0] \<or> ds \<noteq> [] \<and> last ds \<noteq> 0"

lemma add_byte_minimal: "minimal ds \<Longrightarrow> minimal (add_byte ds b)"
proof (cases "ds = [0]")
  case True
  show ?thesis
  proof (cases "b div 58 = 0")
    case True
    then show ?thesis
      using \<open>ds = [0]\<close> by (auto simp: add_byte_def minimal_def Let_def)
  next
    case False
    then show ?thesis
      using \<open>ds = [0]\<close> carry_digits_last [of "b div 58"] by (auto simp: add_byte_def minimal_def Let_def)
  qed
next
  case False
  assume "minimal ds"
  with False have "snd (mul_add ds b) \<noteq> 0" using mul_add_carry_pos by (simp add: minimal_def)
  then show ?thesis
    using carry_digits_last [of "snd (mul_add ds b)"]
    by (auto simp: add_byte_def minimal_def split: prod.splits)
qed

lemma encode_digits_minimal: "minimal (encode_digits bs)"
proof -
  have "minimal (foldl add_byte ds bs)" if "minimal ds" for ds
    using that by (induction bs arbitrary: ds) (auto intro: add_byte_minimal)
  then show ?thesis by (simp add: encode_digits_def minimal_def)
qed

text \<open>Minimal digit strings are determined by their value.\<close>

lemma value58_pos: "ds \<noteq> [] \<Longrightarrow> last ds \<noteq> 0 \<Longrightarrow> 0 < value58 ds"
  by (induction ds) (auto split: if_splits)

lemma minimal_tl: "minimal (d # ds) \<Longrightarrow> ds = [] \<or> minimal ds \<and> 0 < value58 ds"
  using value58_pos [of ds] by (auto simp: minimal_def)

lemma minimal_unique:
  assumes "minimal ds" "minimal es" "\<forall>d \<in> set ds. d < 58" "\<forall>d \<in> set es. d < 58" "value58 ds = value58 es"
  shows "ds = es"
  using assms
proof (induction ds arbitrary: es)
  case Nil
  then show ?case by (simp add: minimal_def)
next
  case (Cons d ds)
  obtain e es' where es: "es = e # es'" using Cons.prems(2) by (cases es) (simp_all add: minimal_def)
  have "(d + 58 * value58 ds) mod 58 = (e + 58 * value58 es') mod 58" using Cons.prems(5) es by simp
  then have de: "d = e" using Cons.prems es by simp
  then have v: "value58 ds = value58 es'" using Cons.prems(5) es by simp
  from minimal_tl [OF Cons.prems(1)] minimal_tl [of e es'] Cons.prems(2) es
  consider "ds = []" "es' = []" | "minimal ds" "minimal es'" using v by auto
  then have "ds = es'"
  proof cases
    case 2
    then show ?thesis using Cons.IH [of es'] Cons.prems(3,4) v es by simp
  qed simp
  with de es show ?case by simp
qed

section \<open>Decoding\<close>

text \<open>The reference decoder of positional notation: the digit of each character, and the number the
  digits denote.\<close>

fun index_of :: "char \<Rightarrow> string \<Rightarrow> nat" where
  "index_of c [] = 0"
| "index_of c (a # as) = (if a = c then 0 else Suc (index_of c as))"

definition decode58 :: "string \<Rightarrow> nat" where
  "decode58 s = value58 (rev (map (\<lambda>c. index_of c alphabet) s))"

lemma index_of_nth: "distinct as \<Longrightarrow> i < length as \<Longrightarrow> index_of (as ! i) as = i"
  by (induction as arbitrary: i) (auto simp: nth_Cons split: nat.splits)

lemma length_alphabet: "length alphabet = 58"
  by (simp add: alphabet_def)

lemma distinct_alphabet: "distinct alphabet"
  unfolding alphabet_def by simp

lemma index_of_alphabet: "d < 58 \<Longrightarrow> index_of (alphabet ! d) alphabet = d"
  by (rule index_of_nth [OF distinct_alphabet]) (simp add: length_alphabet)

lemma value58_zeros: "value58 (ds @ replicate n 0) = value58 ds"
proof -
  have "value58 (replicate n 0) = 0" by (induction n) simp_all
  then show ?thesis by (simp add: value58_append)
qed

lemma value58_encode: "value58 (encode_digits bs) = value256 bs"
  by (simp add: encode_digits_def value58_fold value256_def)

lemma decode_encode: "decode58 (encodeBase58 bs) = value256 bs"
proof -
  have one: "index_of (CHR ''1'') alphabet = 0" by (simp add: alphabet_def)
  have "map (\<lambda>c. index_of c alphabet) (map (\<lambda>d. alphabet ! d) (rev (encode_digits bs))) = rev (encode_digits bs)"
    by (auto intro!: map_idI simp: index_of_alphabet encode_digits_range)
  then have "decode58 (encodeBase58 bs) = value58 (encode_digits bs @ replicate (leading_zeros bs) 0)"
    by (simp add: decode58_def encodeBase58_def one)
  then show ?thesis by (simp add: value58_zeros value58_encode)
qed

lemma value256_fold_inj:
  assumes "length as = length bs" "\<forall>a \<in> set as. a < 256" "\<forall>b \<in> set bs. b < 256"
    and "foldl (\<lambda>a b. 256 * a + b) x as = foldl (\<lambda>a b. 256 * a + b) y bs"
  shows "x = y \<and> as = (bs :: nat list)"
  using assms
proof (induction as bs arbitrary: x y rule: list_induct2)
  case (Cons a as b bs)
  have e: "256 * x + a = 256 * y + b \<and> as = bs" using Cons.prems Cons.IH [of "256 * x + a" "256 * y + b"] by simp
  then have "256 * x + a = 256 * y + b" ..
  moreover have "a < 256" "b < 256" using Cons.prems by simp_all
  ultimately have "x = y" by linarith
  with e show ?case by simp
qed simp

text \<open>\<open>encodeBase58\<close> of a byte array is correct base-58 notation: the characters come from the
  58-letter alphabet, the reference decoder reads back exactly the big-endian number the bytes
  denote, and two different arrays of the same length (such as two 64-byte transaction
  signatures) never share an encoding.\<close>

theorem encodeBase58_correct:
  "set (encodeBase58 bytes) \<subseteq> set alphabet
   \<and> decode58 (encodeBase58 bytes) = value256 bytes
   \<and> (length bytes = length bytes' \<longrightarrow> list_all (\<lambda>b. b < 256) bytes \<longrightarrow> list_all (\<lambda>b. b < 256) bytes' \<longrightarrow>
      encodeBase58 bytes = encodeBase58 bytes' \<longrightarrow> bytes = bytes')"
proof (intro conjI impI)
  show "set (encodeBase58 bytes) \<subseteq> set alphabet"
    using encode_digits_range [of _ bytes]
    by (auto simp: encodeBase58_def length_alphabet) (simp add: alphabet_def)
  show "decode58 (encodeBase58 bytes) = value256 bytes" by (rule decode_encode)
  assume "length bytes = length bytes'" "list_all (\<lambda>b. b < 256) bytes" "list_all (\<lambda>b. b < 256) bytes'"
    and "encodeBase58 bytes = encodeBase58 bytes'"
  then show "bytes = bytes'"
    using decode_encode [of bytes] decode_encode [of bytes'] value256_fold_inj [of bytes bytes' 0 0]
    by (simp add: value256_def list_all_iff)
qed

theorem encodeBase58_correct_witness:
  "encodeBase58 [0, 1, 200] \<noteq> encodeBase58 [0, 1, 201]"
  using encodeBase58_correct [of "[0, 1, 200]" "[0, 1, 201]"] by auto

fun leading_ones :: "string \<Rightarrow> nat" where
  "leading_ones [] = 0"
| "leading_ones (c # cs) = (if c = CHR ''1'' then Suc (leading_ones cs) else 0)"

lemma leading_ones_replicate: "leading_ones (replicate n (CHR ''1'') @ s) = n + leading_ones s"
  by (induction n) simp_all

lemma leading_zeros_all: "list_all (\<lambda>b. b = 0) bs \<Longrightarrow> leading_zeros bs = length bs"
  by (induction bs) simp_all

lemma foldl256_zero: "(foldl (\<lambda>a b. 256 * a + b) x bs = 0) \<longleftrightarrow> x = (0::nat) \<and> list_all (\<lambda>b. b = 0) bs"
  by (induction bs arbitrary: x) auto

lemma alphabet_one: "d < 58 \<Longrightarrow> alphabet ! d = CHR ''1'' \<longleftrightarrow> d = 0"
  using index_of_alphabet [of d] index_of_alphabet [of 0] by (auto simp: alphabet_def)

text \<open>The number of leading characters \<open>1\<close>: an array with a non-zero byte has exactly one per
  leading zero byte, as base58 prescribes, but an array of zero bytes only (the empty one
  included) gets one more, the digit \<open>0\<close> the loop starts from.\<close>

theorem encodeBase58_leading_ones:
  "leading_ones (encodeBase58 bytes) =
     (if list_all (\<lambda>b. b = 0) bytes then Suc (length bytes) else leading_zeros bytes)"
proof (cases "encode_digits bytes = [0]")
  case True
  then have "list_all (\<lambda>b. b = 0) bytes"
    using value58_encode [of bytes] foldl256_zero [of 0 bytes] by (simp add: value256_def)
  with True show ?thesis
    by (simp add: encodeBase58_def leading_ones_replicate leading_zeros_all) (simp add: alphabet_def)
next
  case False
  then have ne: "encode_digits bytes \<noteq> []" "last (encode_digits bytes) \<noteq> 0"
    using encode_digits_minimal [of bytes] by (auto simp: minimal_def)
  then obtain ds d where d: "encode_digits bytes = ds @ [d]" "d \<noteq> 0" by (cases "encode_digits bytes" rule: rev_cases) auto
  have "value256 bytes \<noteq> 0" using value58_pos [OF ne] value58_encode [of bytes] by simp
  then have "\<not> list_all (\<lambda>b. b = 0) bytes" using foldl256_zero [of 0 bytes] by (simp add: value256_def)
  moreover have "alphabet ! d \<noteq> CHR ''1''" using alphabet_one [of d] encode_digits_range [of d bytes] d by simp
  ultimately show ?thesis by (simp only: encodeBase58_def leading_ones_replicate d rev_append) simp
qed

end
