(* ===== verification/Allocation_Engine.thy ===== *)
theory Allocation_Engine
  imports Enums Doubles
begin

text \<open>
  The allocation engine, \<open>packages/shared/src/allocation.ts\<close>: the tip pool of a business date is
  split over the eligible shifts in proportion to worked minutes times role weight, exact to the
  cent by the largest-remainder method.  Amounts in cents are integers; scores, quotients and
  remainders are doubles (\<open>fl64\<close> at every operation).  \<open>localeCompare\<close> is implementation-defined
  collation, so it is the parameter \<open>lc\<close>; nothing below depends on which order it is.  The
  look-up \<open>roleWeights[role]\<close> is on own properties.
\<close>

section \<open>Inputs and results\<close>

record tip_input =
  ti_tipType :: tip_type
  ti_grossAmountUsdCents :: cents
  ti_paymentStatus :: "payment_status option"
  ti_refundStatus :: "refund_status option"

record shift_input =
  si_workerId :: "id option"
  si_externalWorkerId :: string
  si_provider :: string
  si_role :: string
  si_workedMinutes :: int
  si_shiftStatus :: shift_status

record policy_input =
  pi_roleWeights :: "(string \<times> rat) list"
  pi_excludedRoles :: "string list"
  pi_poolInclusion :: "(tip_type \<times> bool) list"

datatype issue_code =
    UNMAPPED_WORKER | NON_POSITIVE_MINUTES | UNKNOWN_ROLE | REFUNDED_PAYMENT_EXCLUDED
  | CANCELED_PAYMENT_EXCLUDED | EMPTY_POOL | NO_ELIGIBLE_SHIFTS

datatype detail_value = DStr string | DNum int | DTip tip_type

record issue =
  is_code :: issue_code
  is_blocking :: bool
  is_detail :: "(string \<times> detail_value) list"

record identity =
  idn_workerId :: "id option"
  idn_provider :: "string option"
  idn_externalWorkerId :: "string option"

record worker_allocation_result =
  wr_workerId :: "id option"
  wr_provider :: "string option"
  wr_externalWorkerId :: "string option"
  wr_score :: rat
  wr_pooledTipUsdCents :: cents
  wr_netAllocatedUsdCents :: cents

record batch_result =
  br_poolUsdCents :: cents
  br_totalScore :: rat
  br_allocations :: "worker_allocation_result list"
  br_issues :: "issue list"

section \<open>The pool\<close>

definition pool_step :: "policy_input \<Rightarrow> tip_input \<Rightarrow> cents \<times> issue list \<Rightarrow> cents \<times> issue list" where
  "pool_step policy tip acc = (case acc of (pool, issues) \<Rightarrow>
     if map_of (pi_poolInclusion policy) (ti_tipType tip) \<noteq> Some True then (pool, issues)
     else if ti_refundStatus tip = Some RefundFULL then
       (pool, issues @ [\<lparr>is_code = REFUNDED_PAYMENT_EXCLUDED, is_blocking = False,
          is_detail = [(''tipType'', DTip (ti_tipType tip)), (''amountUsdCents'', DNum (ti_grossAmountUsdCents tip))]\<rparr>])
     else if ti_paymentStatus tip = Some PaymentCANCELED then
       (pool, issues @ [\<lparr>is_code = CANCELED_PAYMENT_EXCLUDED, is_blocking = False,
          is_detail = [(''tipType'', DTip (ti_tipType tip)), (''amountUsdCents'', DNum (ti_grossAmountUsdCents tip))]\<rparr>])
     else (pool + ti_grossAmountUsdCents tip, issues))"

section \<open>Scores\<close>

definition recipient_key :: "shift_input \<Rightarrow> string" where
  "recipient_key shift = (case si_workerId shift of
       Some w \<Rightarrow> if w \<noteq> [] then ''worker:'' @ w
                 else ''held:'' @ si_provider shift @ '':'' @ si_externalWorkerId shift
     | None \<Rightarrow> ''held:'' @ si_provider shift @ '':'' @ si_externalWorkerId shift)"

definition recipient_identity :: "shift_input \<Rightarrow> identity" where
  "recipient_identity shift =
     (if truthy (si_workerId shift)
      then \<lparr>idn_workerId = si_workerId shift, idn_provider = None, idn_externalWorkerId = None\<rparr>
      else \<lparr>idn_workerId = None, idn_provider = Some (si_provider shift),
            idn_externalWorkerId = Some (si_externalWorkerId shift)\<rparr>)"

definition shift_label :: "shift_input \<Rightarrow> string" where
  "shift_label shift = (case si_workerId shift of Some w \<Rightarrow> w
     | None \<Rightarrow> si_provider shift @ '':'' @ si_externalWorkerId shift)"

type_synonym score_state = "(string \<times> rat) list \<times> (string \<times> identity) list \<times> issue list"

definition shift_step :: "policy_input \<Rightarrow> shift_input \<Rightarrow> score_state \<Rightarrow> score_state" where
  "shift_step policy shift acc = (case acc of (scoreByKey, identityByKey, issues) \<Rightarrow>
     if si_shiftStatus shift \<noteq> ShiftCOMPLETED \<and> si_shiftStatus shift \<noteq> ShiftAPPROVED then acc
     else if si_role shift \<in> set (pi_excludedRoles policy) then acc
     else
       let issues1 = (if si_workerId shift = None
             then issues @ [\<lparr>is_code = UNMAPPED_WORKER, is_blocking = False,
               is_detail = [(''externalWorkerId'', DStr (si_externalWorkerId shift)),
                 (''provider'', DStr (si_provider shift)), (''role'', DStr (si_role shift))]\<rparr>]
             else issues)
       in if si_workedMinutes shift \<le> 0 then
            (scoreByKey, identityByKey, issues1 @ [\<lparr>is_code = NON_POSITIVE_MINUTES, is_blocking = True,
               is_detail = [(''workerId'', DStr (shift_label shift)), (''workedMinutes'', DNum (si_workedMinutes shift))]\<rparr>])
          else case map_of (pi_roleWeights policy) (si_role shift) of
            None \<Rightarrow> (scoreByKey, identityByKey, issues1 @ [\<lparr>is_code = UNKNOWN_ROLE, is_blocking = True,
               is_detail = [(''workerId'', DStr (shift_label shift)), (''role'', DStr (si_role shift))]\<rparr>])
          | Some weight \<Rightarrow>
              let score = fl64 (of_int (si_workedMinutes shift) * weight);
                  key = recipient_key shift;
                  old = (case map_of scoreByKey key of Some s \<Rightarrow> s | None \<Rightarrow> 0)
              in (map_set key (fl64 (old + score)) scoreByKey,
                  map_set key (recipient_identity shift) identityByKey, issues1))"

section \<open>The largest-remainder split\<close>

record raw_share =
  rs_key :: string
  rs_score :: rat
  rs_floor :: int
  rs_remainder :: rat

definition raw_of :: "cents \<Rightarrow> rat \<Rightarrow> string \<times> rat \<Rightarrow> raw_share" where
  "raw_of pool totalScore entry =
     (let exact = fl64 (fl64 (of_int pool * snd entry) / totalScore)
      in \<lparr>rs_key = fst entry, rs_score = snd entry, rs_floor = \<lfloor>exact\<rfloor>,
          rs_remainder = fl64 (exact - of_int \<lfloor>exact\<rfloor>)\<rparr>)"

definition remainder_cmp :: "(string \<Rightarrow> string \<Rightarrow> rat) \<Rightarrow> raw_share \<Rightarrow> raw_share \<Rightarrow> rat" where
  "remainder_cmp lc a b =
     (let d = fl64 (rs_remainder b - rs_remainder a) in if d \<noteq> 0 then d else lc (rs_key a) (rs_key b))"

text \<open>
  The loop over \<open>byRemainder\<close> increments the objects that \<open>raw\<close> also holds.  The keys are those
  of a \<open>Map\<close>, so the objects are identified by their key: the loop returns the keys it bumped.
\<close>

fun bump_loop :: "raw_share list \<Rightarrow> int \<Rightarrow> string list" where
  "bump_loop [] leftover = []"
| "bump_loop (r # rs) leftover = (if leftover \<le> 0 then [] else rs_key r # bump_loop rs (leftover - 1))"

definition bump :: "string list \<Rightarrow> raw_share \<Rightarrow> raw_share" where
  "bump ks r = (if rs_key r \<in> set ks then r\<lparr>rs_floor := rs_floor r + 1\<rparr> else r)"

text \<open>\<open>identityByKey.get(r.key)!\<close>: a missing identity would be a TypeError.\<close>

definition allocation_of :: "(string \<times> identity) list \<Rightarrow> raw_share \<Rightarrow> worker_allocation_result option" where
  "allocation_of identityByKey r = map_option
     (\<lambda>i. \<lparr>wr_workerId = idn_workerId i, wr_provider = idn_provider i,
           wr_externalWorkerId = idn_externalWorkerId i, wr_score = rs_score r,
           wr_pooledTipUsdCents = rs_floor r, wr_netAllocatedUsdCents = rs_floor r\<rparr>)
     (map_of identityByKey (rs_key r))"

definition split_pool :: "(string \<Rightarrow> string \<Rightarrow> rat) \<Rightarrow> cents \<Rightarrow> rat \<Rightarrow> (string \<times> rat) list \<Rightarrow> raw_share list" where
  "split_pool lc pool totalScore scoreByKey =
     (let entries = js_sort (\<lambda>a b. lc (fst a) (fst b)) scoreByKey;
          raw = map (raw_of pool totalScore) entries;
          leftover = pool - sum_list (map rs_floor raw);
          byRemainder = js_sort (remainder_cmp lc) raw
      in map (bump (bump_loop byRemainder leftover)) raw)"

definition total_score :: "(string \<times> rat) list \<Rightarrow> rat" where
  "total_score scoreByKey = foldl (\<lambda>a b. fl64 (a + b)) 0 (map snd scoreByKey)"

definition computeAllocationBatch ::
  "(string \<Rightarrow> string \<Rightarrow> rat) \<Rightarrow> tip_input list \<Rightarrow> shift_input list \<Rightarrow> policy_input \<Rightarrow> http_error + batch_result" where
  "computeAllocationBatch lc tips shifts policy =
     (case fold (pool_step policy) tips (0, []) of (pool, issues0) \<Rightarrow>
      case fold (shift_step policy) shifts ([], [], issues0) of (scoreByKey, identityByKey, issues1) \<Rightarrow>
        let totalScore = total_score scoreByKey;
            issues2 = (if pool = 0
              then issues1 @ [\<lparr>is_code = EMPTY_POOL, is_blocking = False, is_detail = []\<rparr>] else issues1)
        in if totalScore = 0 then
             Inr \<lparr>br_poolUsdCents = pool, br_totalScore = totalScore, br_allocations = [],
                  br_issues = issues2 @ [\<lparr>is_code = NO_ELIGIBLE_SHIFTS, is_blocking = (pool > 0), is_detail = []\<rparr>]\<rparr>
           else
             case those (map (allocation_of identityByKey) (split_pool lc pool totalScore scoreByKey)) of
               None \<Rightarrow> Inl (Failure ''TypeError: identity is undefined'')
             | Some allocations \<Rightarrow>
                 if sum_list (map wr_pooledTipUsdCents allocations) \<noteq> pool
                 then Inl (Failure ''Allocation invariant violated: allocated ${total} != pool ${poolUsdCents}'')
                 else Inr \<lparr>br_poolUsdCents = pool, br_totalScore = totalScore,
                           br_allocations = allocations, br_issues = issues2\<rparr>)"

section \<open>The pool is the sum of the included payments\<close>

definition pool_tip :: "policy_input \<Rightarrow> tip_input \<Rightarrow> bool" where
  "pool_tip policy tip \<longleftrightarrow> map_of (pi_poolInclusion policy) (ti_tipType tip) = Some True
     \<and> ti_refundStatus tip \<noteq> Some RefundFULL \<and> ti_paymentStatus tip \<noteq> Some PaymentCANCELED"

definition pool_of :: "policy_input \<Rightarrow> tip_input list \<Rightarrow> cents" where
  "pool_of policy tips = sum_list (map ti_grossAmountUsdCents (filter (pool_tip policy) tips))"

lemma pool_fold:
  "fst (fold (pool_step policy) tips (p, iss)) = p + pool_of policy tips"
proof (induction tips arbitrary: p iss)
  case (Cons t tips)
  obtain p' iss' where s: "pool_step policy t (p, iss) = (p', iss')" by fastforce
  then have "p' = p + (if pool_tip policy t then ti_grossAmountUsdCents t else 0)"
    by (auto simp: pool_step_def pool_tip_def split: if_splits)
  with Cons s show ?case by (simp add: pool_of_def)
qed (simp add: pool_of_def)

section \<open>Scores stay in range\<close>

text \<open>
  The ranges under which the double arithmetic of the split is analysed: the pool fits the 32-bit
  column it is stored in, a business date has at most \<open>2 ^ 16\<close> shifts, and a role weight is zero
  or of ordinary magnitude.
\<close>

definition score_lo :: rat where "score_lo = 2 powi (- 200)"
definition score_hi :: rat where "score_hi = 2 powi 231"

definition weight_ok :: "rat \<Rightarrow> bool" where
  "weight_ok w \<longleftrightarrow> w = 0 \<or> score_lo \<le> w \<and> w \<le> 2 powi 200"

definition engine_ranges :: "policy_input \<Rightarrow> tip_input list \<Rightarrow> shift_input list \<Rightarrow> bool" where
  "engine_ranges policy tips shifts \<longleftrightarrow>
     (\<forall>t \<in> set tips. 0 \<le> ti_grossAmountUsdCents t) \<and> pool_of policy tips \<le> 2 ^ 31
     \<and> length shifts \<le> 2 ^ 16 \<and> (\<forall>s \<in> set shifts. si_workedMinutes s \<le> 2 ^ 31)
     \<and> (\<forall>w \<in> set (map snd (pi_roleWeights policy)). weight_ok w)"

definition score_range :: "nat \<Rightarrow> rat \<Rightarrow> bool" where
  "score_range n s \<longleftrightarrow> (s = 0 \<or> score_lo \<le> s) \<and> s \<le> of_nat n * score_hi"

definition score_inv :: "nat \<Rightarrow> score_state \<Rightarrow> bool" where
  "score_inv n st = (case st of (scores, ids, issues) \<Rightarrow>
     map fst scores = map fst ids \<and> distinct (map fst scores) \<and> length scores \<le> n
     \<and> (\<forall>s \<in> snd ` set scores. score_range n s))"

lemma score_pos [simp]: "0 < score_lo" "0 < score_hi" "score_lo \<noteq> 0" "0 \<le> score_lo" "0 \<le> score_hi"
  by (simp_all add: score_lo_def score_hi_def)

lemma is_double_score_lo: "is_double score_lo"
  unfolding score_lo_def by (rule is_double_powi) simp

lemma is_double_score_hi: "is_double score_hi"
  unfolding score_hi_def by (rule is_double_powi) simp

lemma is_double_nat_score_hi: "k < 2 ^ 53 \<Longrightarrow> is_double (of_nat k * score_hi)"
  unfolding score_hi_def using is_double_mult [of "int k" 231] by simp

lemma score_range_mono: "score_range m s \<Longrightarrow> m \<le> n \<Longrightarrow> score_range n s"
  by (auto simp: score_range_def elim!: order_trans intro!: mult_right_mono)

lemma score_range_nonneg: "score_range n s \<Longrightarrow> 0 \<le> s"
  unfolding score_range_def by (metis order_refl order_trans score_pos(4))

lemma score_range_zero: "score_range n 0"
  by (simp add: score_range_def)

lemma score_range_add:
  assumes "score_range m x" "score_range n y" "m + n < 2 ^ 53"
  shows "score_range (m + n) (fl64 (x + y))"
proof -
  have nn: "0 \<le> x" "0 \<le> y" using assms score_range_nonneg by blast+
  have up: "x + y \<le> of_nat (m + n) * score_hi"
    using assms by (simp add: score_range_def distrib_right)
  have low: "x + y = 0 \<or> score_lo \<le> x + y"
    using assms nn by (auto simp: score_range_def)
  show ?thesis
    using low up is_double_nat_score_hi [OF assms(3)]
    by (auto simp: score_range_def is_double_score_lo intro: fl64_ge_double fl64_le_double)
qed

lemma map_fst_map_set: "map fst xs = map fst ys \<Longrightarrow> map fst (map_set k v xs) = map fst (map_set k w ys)"
proof (induction xs arbitrary: ys)
  case (Cons x xs)
  then show ?case by (cases x; cases ys; auto)
qed simp

lemma score_range_step:
  assumes w: "weight_ok w" and m: "0 < m" "m \<le> 2 ^ 31" and n: "n < 2 ^ 50"
    and old: "score_range n old"
  defines "new \<equiv> fl64 (old + fl64 (of_int m * w))"
  shows "score_range (Suc n) new"
proof -
  have m': "1 \<le> (of_int m :: rat)" "(of_int m :: rat) \<le> 2 ^ 31"
    using m by (simp, metis of_int_le_iff of_int_numeral of_int_power)
  define s where "s = fl64 (of_int m * w)"
  have s: "score_range 1 s"
  proof (cases "w = 0")
    case False
    with w have wb: "score_lo \<le> w" "w \<le> 2 powi 200" by (auto simp: weight_ok_def)
    have "1 * score_lo \<le> of_int m * w"
      using m'(1) wb(1) by (intro mult_mono) auto
    moreover have "of_int m * w \<le> score_hi"
    proof -
      have "of_int m * w \<le> 2 ^ 31 * 2 powi 200"
        using m' wb score_pos(1) by (intro mult_mono) linarith+
      also have "\<dots> = score_hi" by (simp add: score_hi_def)
      finally show ?thesis .
    qed
    ultimately show ?thesis
      unfolding s_def score_range_def
      by (intro conjI disjI2 fl64_ge_double) (simp_all add: is_double_score_lo is_double_score_hi fl64_le_double)
  qed (simp add: s_def score_range_zero)
  show ?thesis
    unfolding new_def s_def [symmetric] using score_range_add [OF old s] n by simp
qed

definition add_score :: "shift_input \<Rightarrow> rat \<Rightarrow> (string \<times> rat) list \<Rightarrow> (string \<times> rat) list" where
  "add_score sh weight scores = map_set (recipient_key sh)
     (fl64 ((case map_of scores (recipient_key sh) of Some s \<Rightarrow> s | None \<Rightarrow> 0)
        + fl64 (of_int (si_workedMinutes sh) * weight))) scores"

text \<open>A shift either leaves both maps alone or adds its score under its key.\<close>

lemma shift_step_shape:
  "(\<exists>iss'. shift_step policy sh (scores, ids, issues) = (scores, ids, iss'))
   \<or> (\<exists>weight iss'. 0 < si_workedMinutes sh \<and> map_of (pi_roleWeights policy) (si_role sh) = Some weight
        \<and> shift_step policy sh (scores, ids, issues)
          = (add_score sh weight scores, map_set (recipient_key sh) (recipient_identity sh) ids, iss'))"
  unfolding shift_step_def prod.case Let_def add_score_def
  by (cases "map_of (pi_roleWeights policy) (si_role sh)") (simp_all add: not_le)

lemma shift_step_inv:
  assumes inv: "score_inv n st" and n: "n < 2 ^ 50" and m: "si_workedMinutes sh \<le> 2 ^ 31"
    and w: "\<forall>w \<in> set (map snd (pi_roleWeights policy)). weight_ok w"
  shows "score_inv (Suc n) (shift_step policy sh st)"
proof -
  obtain scores ids issues where st: "st = (scores, ids, issues)" by (cases st)
  have weaken: "score_inv (Suc n) (scores, ids, issues')" for issues'
    using inv score_range_mono [of n _ "Suc n"] by (auto simp: score_inv_def st)
  have upd: "score_inv (Suc n)
      (add_score sh weight scores,
       map_set (recipient_key sh) (recipient_identity sh) ids, issues')"
    if pos: "0 < si_workedMinutes sh" and wt: "map_of (pi_roleWeights policy) (si_role sh) = Some weight"
    for weight issues'
  proof -
    define old where "old = (case map_of scores (recipient_key sh) of Some s \<Rightarrow> s | None \<Rightarrow> 0)"
    have "score_range n old"
      using inv by (auto simp: old_def score_inv_def st score_range_zero split: option.splits dest!: map_of_SomeD)
    moreover have "weight_ok weight" using w wt by (force dest: map_of_SomeD)
    ultimately have new: "score_range (Suc n)
        (fl64 (old + fl64 (of_int (si_workedMinutes sh) * weight)))"
      using score_range_step pos m n by blast
    have olds: "\<forall>s \<in> snd ` set scores. score_range (Suc n) s"
      using weaken [of "[]"] by (simp add: score_inv_def)
    have basic: "map fst scores = map fst ids" "distinct (map fst scores)" "length scores \<le> n"
      using inv by (auto simp: score_inv_def st)
    have "\<forall>s \<in> snd ` set (add_score sh weight scores).
        score_range (Suc n) s"
      unfolding add_score_def old_def [symmetric]
      by (rule ballI, drule subsetD [OF snd_map_set]) (use new olds in blast)
    moreover have "length (add_score sh weight scores) \<le> Suc n"
      unfolding add_score_def using length_map_set basic(3) by (meson Suc_le_mono order_trans)
    moreover have "map fst (add_score sh weight scores) = map fst (map_set (recipient_key sh) (recipient_identity sh) ids)"
      unfolding add_score_def by (rule map_fst_map_set [OF basic(1)])
    moreover have "distinct (map fst (add_score sh weight scores))"
      unfolding add_score_def by (rule distinct_map_set [OF basic(2)])
    ultimately show ?thesis
      unfolding score_inv_def prod.case by blast
  qed
  show ?thesis
    unfolding st
    using shift_step_shape [of policy sh scores ids issues] by (elim disjE exE conjE) (simp_all only: weaken upd)
qed

lemma shift_fold_inv:
  assumes "score_inv n st" "n + length shifts < 2 ^ 50" "\<forall>s \<in> set shifts. si_workedMinutes s \<le> 2 ^ 31"
    "\<forall>w \<in> set (map snd (pi_roleWeights policy)). weight_ok w"
  shows "score_inv (n + length shifts) (fold (shift_step policy) shifts st)"
  using assms
proof (induction shifts arbitrary: n st)
  case (Cons sh shifts)
  then have "score_inv (Suc n) (shift_step policy sh st)"
    by (intro shift_step_inv) auto
  then show ?case using Cons.IH [of "Suc n"] Cons.prems by simp
qed simp

section \<open>The split is exact to the cent\<close>

lemma rs_key_raw_of [simp]: "rs_key (raw_of pool T e) = fst e"
  and rs_score_raw_of [simp]: "rs_score (raw_of pool T e) = snd e"
  and rs_floor_raw_of: "rs_floor (raw_of pool T e) = \<lfloor>f64.share (of_int pool) T (snd e)\<rfloor>"
  by (simp_all add: raw_of_def f64.share_def Let_def)

lemma rs_key_bump [simp]: "rs_key (bump ks r) = rs_key r"
  and rs_score_bump [simp]: "rs_score (bump ks r) = rs_score r"
  and rs_floor_bump: "rs_floor (bump ks r) = rs_floor r + (if rs_key r \<in> set ks then 1 else 0)"
  by (simp_all add: bump_def)

lemma bump_loop_take: "bump_loop rs leftover = map rs_key (take (nat leftover) rs)"
proof (induction rs leftover rule: bump_loop.induct)
  case (2 r rs leftover)
  then show ?case
    by (cases "leftover \<le> 0") (simp_all add: take_Cons' nat_diff_distrib)
qed simp

lemma total_score_fsum: "total_score scores = f64.fsum 0 (map snd scores)"
  by (simp add: total_score_def f64.fsum_def)

lemma sum_bump:
  assumes "distinct (map rs_key raw)" "set ks \<subseteq> rs_key ` set raw" "distinct ks"
  shows "sum_list (map rs_floor (map (bump ks) raw)) = sum_list (map rs_floor raw) + int (length ks)"
proof -
  have "sum_list (map rs_floor (map (bump ks) raw))
      = sum_list (map rs_floor raw) + sum_list (map (\<lambda>r. if rs_key r \<in> set ks then 1 else 0) raw)"
    by (simp add: rs_floor_bump comp_def sum_list_addf)
  then show ?thesis using sum_list_if_member [OF assms] by simp
qed

lemma split_pool_keys:
  "map rs_key (split_pool lc pool T scores) = map fst (js_sort (\<lambda>a b. lc (fst a) (fst b)) scores)"
  by (simp add: split_pool_def Let_def comp_def)

lemma split_pool_sum:
  assumes "distinct (map fst scores)"
    and le: "sum_list (map (\<lambda>e. \<lfloor>f64.share (of_int pool) T (snd e)\<rfloor>) scores) \<le> pool"
    and ge: "pool - int (length scores) \<le> sum_list (map (\<lambda>e. \<lfloor>f64.share (of_int pool) T (snd e)\<rfloor>) scores)"
  shows "sum_list (map rs_floor (split_pool lc pool T scores)) = pool"
proof -
  define entries where "entries = js_sort (\<lambda>a b. lc (fst a) (fst b)) scores"
  define raw where "raw = map (raw_of pool T) entries"
  define left where "left = pool - sum_list (map rs_floor raw)"
  define order where "order = js_sort (remainder_cmp lc) raw"
  have floors: "sum_list (map rs_floor raw) = sum_list (map (\<lambda>e. \<lfloor>f64.share (of_int pool) T (snd e)\<rfloor>) scores)"
    by (simp add: raw_def entries_def comp_def rs_floor_raw_of)
  have keys: "distinct (map rs_key raw)"
    using assms(1) by (simp add: raw_def entries_def comp_def)
  then have order_keys: "distinct (map rs_key order)" by (simp add: order_def)
  have len: "length order = length scores" by (simp add: order_def raw_def entries_def)
  define ks where "ks = bump_loop order left"
  have ks: "ks = take (nat left) (map rs_key order)"
    by (simp add: ks_def bump_loop_take take_map)
  have "set ks \<subseteq> rs_key ` set raw"
    using set_take_subset [of "nat left" "map rs_key order"] by (auto simp: ks order_def)
  moreover have "distinct ks" using order_keys by (simp add: ks)
  moreover have "length ks = nat left"
    using ge floors len by (simp add: ks left_def)
  ultimately have "sum_list (map rs_floor (map (bump ks) raw)) = sum_list (map rs_floor raw) + int (nat left)"
    using sum_bump [OF keys] by simp
  also have "\<dots> = pool" using le floors by (simp add: left_def)
  finally show ?thesis
    by (simp add: split_pool_def Let_def ks_def order_def left_def raw_def entries_def)
qed

text \<open>The double arithmetic of the shares, in the ranges of the engine.\<close>

lemma fsum_upper:
  assumes "\<And>x. x \<in> set xs \<Longrightarrow> x \<le> of_nat B * score_hi" "a \<le> of_nat A * score_hi"
    "A + length xs * B < 2 ^ 53"
  shows "f64.fsum a xs \<le> of_nat (A + length xs * B) * score_hi"
  using assms
proof (induction xs arbitrary: a A)
  case (Cons x xs)
  have "a + x \<le> of_nat A * score_hi + of_nat B * score_hi"
    using Cons.prems by (intro add_mono) auto
  then have "a + x \<le> of_nat (A + B) * score_hi" by (simp add: distrib_right)
  moreover have "is_double (of_nat (A + B) * score_hi)"
    using Cons.prems(3) by (intro is_double_nat_score_hi) simp
  ultimately have "fl64 (a + x) \<le> of_nat (A + B) * score_hi" by (intro fl64_le_double)
  then show ?case
    using Cons.IH [of "fl64 (a + x)" "A + B"] Cons.prems by (simp add: algebra_simps)
qed simp

lemma shares_near_pool:
  assumes pool: "0 \<le> pool" "pool \<le> 2 ^ 31" and n: "length ss \<le> 2 ^ 16"
    and range: "\<And>s. s \<in> set ss \<Longrightarrow> score_range (2 ^ 16) s"
    and T: "f64.fsum 0 ss \<noteq> 0"
  shows "\<bar>sum_list (map (f64.share (of_int pool) (f64.fsum 0 ss)) ss) - of_int pool\<bar> < 1"
proof -
  let ?T = "f64.fsum 0 ss"
  have nb: "(of_nat (length ss) :: rat) \<le> 2 ^ 16"
    using n by (metis of_nat_le_iff of_nat_numeral of_nat_power)
  have g: "lo64 \<le> (1 - u64) ^ length ss * score_lo"
  proof -
    have "1 / 2 \<le> 1 - of_nat (length ss) * u64" using nb by (simp add: u64_def)
    also have "\<dots> \<le> (1 - u64) ^ length ss" by (rule f64.pow_lower)
    finally have "1 / 2 * score_lo \<le> (1 - u64) ^ length ss * score_lo"
      by (intro mult_right_mono) auto
    moreover have "lo64 \<le> 1 / 2 * score_lo"
      using power_int_increasing [of "- 1022" "- 201" "2 :: rat"] powi_Suc [of "- 201"]
      unfolding lo64_def score_lo_def by simp
    ultimately show ?thesis by linarith
  qed
  have sp: "f64.spaced (score_lo) s" if "s \<in> set ss" for s
    using range [OF that] by (auto simp: f64.spaced_def score_range_def)
  have sp0: "f64.spaced (score_lo) 0" by (simp add: f64.spaced_def)
  have Tb: "(1 - u64) ^ length ss * sum_list ss \<le> ?T" "?T \<le> (1 + u64) ^ length ss * sum_list ss"
    using f64.fsum_bounds [OF sp0 sp g] by auto
  have S0: "0 \<le> sum_list ss"
    using range score_range_nonneg by (intro sum_list_nonneg) blast
  then have "0 \<le> (1 - u64) ^ length ss * sum_list ss" by (simp add: u64_def)
  with Tb(1) T have Tpos: "0 < ?T" by linarith
  have Tup: "?T \<le> 2 powi 263"
  proof -
    have "?T \<le> of_nat (0 + length ss * 2 ^ 16) * score_hi"
      using range n by (intro fsum_upper) (auto simp: score_range_def)
    also have "\<dots> \<le> 2 ^ 32 * score_hi"
      using nb by (intro mult_right_mono) auto
    finally show ?thesis by (simp add: score_hi_def power_int_def)
  qed
  have nP: "f64.normal (of_int pool * s) \<and> f64.normal (fl64 (of_int pool * s) / ?T)" if "s \<in> set ss" for s
  proof (cases "pool = 0 \<or> s = 0")
    case False
    then have P1: "1 \<le> (of_int pool :: rat)" and s: "score_lo \<le> s"
      using pool range [OF that] by (auto simp: score_range_def)
    have ps: "score_lo \<le> of_int pool * s"
      using mult_mono [OF P1 s] pool by simp
    have low: "lo64 \<le> score_lo" unfolding lo64_def score_lo_def by (intro power_int_increasing) auto
    have fl: "score_lo \<le> fl64 (of_int pool * s)"
      using ps by (intro fl64_ge_double is_double_score_lo) auto
    have "lo64 \<le> 2 powi (- 200 - 263)" unfolding lo64_def by (intro power_int_increasing) auto
    then have "lo64 * ?T \<le> 2 powi (- 200 - 263) * 2 powi 263"
      using Tup Tpos by (intro mult_mono) auto
    also have "\<dots> = score_lo" unfolding score_lo_def by (simp only: powi_add [symmetric]) simp
    finally have "lo64 \<le> fl64 (of_int pool * s) / ?T"
      using fl Tpos by (simp add: pos_le_divide_eq)
    then show ?thesis using ps low by (simp add: f64.normal_def)
  qed (auto simp: f64.normal_def)
  have small: "(of_int pool + 1) * (of_nat (length ss + 2) * u64) < 1"
  proof -
    have "(of_int pool :: rat) \<le> 2 ^ 31"
      using pool(2) by (metis of_int_le_iff of_int_numeral of_int_power)
    then have "(of_int pool + 1) * (of_nat (length ss + 2) * u64) \<le> (2 ^ 31 + 1) * ((2 ^ 16 + 2) * u64)"
      using nb pool by (intro mult_mono) (auto simp: u64_def)
    then show ?thesis by (simp add: u64_def)
  qed
  show ?thesis
    using f64.sum_share_near [OF nP Tpos Tb] pool small by simp
qed

lemma fsum_nonneg: "0 \<le> a \<Longrightarrow> (\<And>x. x \<in> set xs \<Longrightarrow> 0 \<le> x) \<Longrightarrow> 0 \<le> f64.fsum a xs"
  by (induction xs arbitrary: a) (simp_all add: fl64_nonneg)

lemma split_pool_nonneg:
  assumes "0 \<le> pool" "0 \<le> T" "\<And>e. e \<in> set scores \<Longrightarrow> 0 \<le> snd e"
    "x \<in> set (map rs_floor (split_pool lc pool T scores))"
  shows "0 \<le> x"
proof -
  obtain ks e where "e \<in> set scores" "x = rs_floor (bump ks (raw_of pool T e))"
    using assms(4) by (auto simp: split_pool_def Let_def)
  moreover from this have "0 \<le> f64.share (of_int pool) T (snd e)"
    using assms by (intro f64.share_nonneg) auto
  ultimately show ?thesis by (simp add: rs_floor_bump rs_floor_raw_of)
qed

lemma those_map_Some: "(\<And>x. x \<in> set xs \<Longrightarrow> f x = Some (g x)) \<Longrightarrow> those (map f xs) = Some (map g xs)"
  by (induction xs) auto

section \<open>The engine as a whole\<close>

lemma pool_of_nonneg: "\<forall>t \<in> set tips. 0 \<le> ti_grossAmountUsdCents t \<Longrightarrow> 0 \<le> pool_of policy tips"
  by (auto simp: pool_of_def intro!: sum_list_nonneg)

lemma score_inv_init: "score_inv 0 ([], [], iss)"
  by (simp add: score_inv_def)

lemma wr_of_allocation_of:
  "allocation_of ids r = Some a \<Longrightarrow> wr_pooledTipUsdCents a = rs_floor r \<and> wr_netAllocatedUsdCents a = rs_floor r
     \<and> wr_score a = rs_score r"
  by (auto simp: allocation_of_def)

lemma those_SomeD: "those xs = Some ys \<Longrightarrow> xs = map Some ys"
  by (induction xs arbitrary: ys) (auto split: option.splits)

lemma those_allocations:
  assumes "map fst scores = map fst ids"
  obtains allocs where "those (map (allocation_of ids) (split_pool lc pool T scores)) = Some allocs"
    "map wr_pooledTipUsdCents allocs = map rs_floor (split_pool lc pool T scores)"
    "map wr_netAllocatedUsdCents allocs = map rs_floor (split_pool lc pool T scores)"
    "map wr_score allocs = map rs_score (split_pool lc pool T scores)"
proof -
  have "\<exists>a. allocation_of ids r = Some a" if "r \<in> set (split_pool lc pool T scores)" for r
  proof -
    have "rs_key r \<in> set (map rs_key (split_pool lc pool T scores))" using that by simp
    then have "rs_key r \<in> set (map fst ids)"
      using assms by (simp add: split_pool_keys flip: assms)
    then show ?thesis by (auto simp: allocation_of_def map_of_eq_None_iff dest: weak_map_of_SomeI)
  qed
  then obtain f where f: "\<And>r. r \<in> set (split_pool lc pool T scores) \<Longrightarrow> allocation_of ids r = Some (f r)"
    by metis
  show ?thesis
    by (rule that [OF those_map_Some [of _ _ f]]) (auto simp: f dest!: f wr_of_allocation_of)
qed

text \<open>
  In the engine's ranges the split never trips its own invariant check: the run returns a result,
  its pool is the sum of the included payments, and the allocations add up to that pool.
\<close>

lemma compute_exact:
  assumes "engine_ranges policy tips shifts"
  shows "\<exists>r. computeAllocationBatch lc tips shifts policy = Inr r
     \<and> br_poolUsdCents r = pool_of policy tips
     \<and> (if br_totalScore r = 0 then br_allocations r = []
        else sum_list (map wr_pooledTipUsdCents (br_allocations r)) = pool_of policy tips
           \<and> (\<forall>a \<in> set (br_allocations r). 0 \<le> wr_pooledTipUsdCents a
                 \<and> wr_netAllocatedUsdCents a = wr_pooledTipUsdCents a))"
proof -
  let ?pool = "pool_of policy tips"
  obtain iss0 where p0: "fold (pool_step policy) tips (0, []) = (?pool, iss0)"
    using pool_fold [of policy tips 0 "[]"] by (metis add_0 prod.collapse)
  obtain scores ids iss1 where s1: "fold (shift_step policy) shifts ([], [], iss0) = (scores, ids, iss1)"
    by (metis prod.exhaust)
  have len: "length shifts \<le> 2 ^ 16" using assms by (simp add: engine_ranges_def)
  have "score_inv (0 + length shifts) (scores, ids, iss1)"
  proof -
    have "0 + length shifts < 2 ^ 50" using len by simp
    then have "score_inv (0 + length shifts) (fold (shift_step policy) shifts ([], [], iss0))"
      using assms by (intro shift_fold_inv score_inv_init) (simp_all add: engine_ranges_def)
    then show ?thesis using s1 by simp
  qed
  then have inv: "map fst scores = map fst ids" "distinct (map fst scores)" "length scores \<le> length shifts"
    and rng: "\<forall>s \<in> snd ` set scores. score_range (length shifts) s"
    by (auto simp: score_inv_def)
  show ?thesis
  proof (cases "total_score scores = 0")
    case True
    then show ?thesis by (simp add: computeAllocationBatch_def p0 s1)
  next
    case False
    have T: "total_score scores = f64.fsum 0 (map snd scores)" by (rule total_score_fsum)
    have pool0: "0 \<le> ?pool" "?pool \<le> 2 ^ 31"
      using assms pool_of_nonneg by (auto simp: engine_ranges_def)
    have n: "length (map snd scores) \<le> 2 ^ 16" using inv(3) len by simp
    have range: "score_range (2 ^ 16) s" if "s \<in> set (map snd scores)" for s
      using rng that len by (auto intro: score_range_mono)
    have near: "\<bar>sum_list (map (\<lambda>e. f64.share (of_int ?pool) (total_score scores) (snd e)) scores) - of_int ?pool\<bar> < 1"
      using shares_near_pool [OF pool0 n range] False by (simp add: T comp_def)
    have ne: "scores \<noteq> []" using False by (auto simp: total_score_def)
    have sum: "sum_list (map rs_floor (split_pool lc ?pool (total_score scores) scores)) = ?pool"
      using f64.sum_floor_near [OF near ne] by (intro split_pool_sum inv(2))
    obtain allocs where al: "those (map (allocation_of ids) (split_pool lc ?pool (total_score scores) scores)) = Some allocs"
      "map wr_pooledTipUsdCents allocs = map rs_floor (split_pool lc ?pool (total_score scores) scores)"
      "map wr_netAllocatedUsdCents allocs = map rs_floor (split_pool lc ?pool (total_score scores) scores)"
      using those_allocations [OF inv(1)] by metis
    have T0: "0 \<le> total_score scores"
      unfolding T using range score_range_nonneg by (intro fsum_nonneg) auto
    have floors: "0 \<le> x" if "x \<in> set (map rs_floor (split_pool lc ?pool (total_score scores) scores))" for x
      using pool0 T0 range score_range_nonneg by (intro split_pool_nonneg [OF _ _ _ that]) auto
    have "0 \<le> wr_pooledTipUsdCents a \<and> wr_netAllocatedUsdCents a = wr_pooledTipUsdCents a" if "a \<in> set allocs" for a
    proof -
      have "wr_pooledTipUsdCents a \<in> set (map wr_pooledTipUsdCents allocs)" using that by simp
      moreover have "map wr_pooledTipUsdCents allocs = map wr_netAllocatedUsdCents allocs" using al by simp
      ultimately show ?thesis using that floors al(2) by (metis map_eq_conv)
    qed
    then show ?thesis
      using False al sum by (simp add: computeAllocationBatch_def p0 s1)
  qed
qed

section \<open>The leftover cents go to the largest remainders\<close>

text \<open>What the sort relies on: \<open>localeCompare\<close> is a consistent total comparison.\<close>

definition collates :: "(string \<Rightarrow> string \<Rightarrow> rat) \<Rightarrow> bool" where
  "collates lc \<longleftrightarrow> (\<forall>x y. lc x y \<le> 0 \<or> lc y x \<le> 0) \<and> (\<forall>x y z. lc x y \<le> 0 \<longrightarrow> lc y z \<le> 0 \<longrightarrow> lc x z \<le> 0)"

definition on_grid :: "rat \<Rightarrow> bool" where
  "on_grid x \<longleftrightarrow> (\<exists>n. x = of_int n * 2 powi (- 1074))"

lemma fl64_on_grid: "on_grid (fl64 x)"
proof (cases "x = 0")
  case True
  then show ?thesis by (auto simp: on_grid_def intro: exI [of _ 0])
next
  case False
  let ?k = "max (ilog2 \<bar>x\<bar> - 52) (- 1074)"
  have "- 1074 \<le> ?k" by (rule max.cobounded2)
  then have "int (nat (?k + 1074)) + (- 1074) = ?k" by linarith
  then have "quantum x = 2 powi (int (nat (?k + 1074)) + (- 1074))" by (simp only: quantum_def)
  also have "\<dots> = of_int (2 ^ nat (?k + 1074)) * 2 powi (- 1074)"
    by (simp only: powi_add powi_nat) simp
  finally have "fl64 x = of_int (rne (x / quantum x) * 2 ^ nat (?k + 1074)) * 2 powi (- 1074)"
    using False by (simp add: fl64_def)
  then show ?thesis unfolding on_grid_def ..
qed

text \<open>A subtraction of doubles never rounds a difference to zero, nor changes its sign.\<close>

lemma fl64_diff_sign:
  assumes "on_grid x" "on_grid y"
  shows "fl64 (x - y) < 0 \<longleftrightarrow> x < y" "0 < fl64 (x - y) \<longleftrightarrow> y < x"
proof -
  let ?t = "2 powi (- 1074) :: rat"
  obtain m n where "x = of_int m * ?t" "y = of_int n * ?t" using assms by (auto simp: on_grid_def)
  then have d: "x - y = of_int (m - n) * ?t" by (simp add: left_diff_distrib)
  have tiny: "is_double ?t" "is_double (- ?t)"
    using is_double_mult [of 1 "- 1074"] is_double_mult [of "- 1" "- 1074"] by simp_all
  consider "m < n" | "m = n" | "n < m" by linarith
  then have "(fl64 (x - y) < 0 \<longleftrightarrow> x < y) \<and> (0 < fl64 (x - y) \<longleftrightarrow> y < x)"
  proof cases
    case 1
    then have "of_int (m - n) * ?t \<le> of_int (- 1) * ?t" by (intro mult_right_mono) (simp_all flip: of_int_le_iff)
    then have "fl64 (x - y) \<le> - ?t" "x - y \<le> - ?t" using fl64_le_double [OF tiny(2)] d by simp_all
    moreover have "0 < ?t" by simp
    ultimately show ?thesis by linarith
  next
    case 2
    then show ?thesis using d by simp
  next
    case 3
    then have "of_int 1 * ?t \<le> of_int (m - n) * ?t" by (intro mult_right_mono) (simp_all flip: of_int_le_iff)
    then have "?t \<le> fl64 (x - y)" "?t \<le> x - y" using fl64_ge_double [OF tiny(1)] d by simp_all
    moreover have "0 < ?t" by simp
    ultimately show ?thesis by linarith
  qed
  then show "fl64 (x - y) < 0 \<longleftrightarrow> x < y" "0 < fl64 (x - y) \<longleftrightarrow> y < x" by simp_all
qed

lemma remainder_cmp_le:
  assumes "on_grid (rs_remainder a)" "on_grid (rs_remainder b)"
  shows "remainder_cmp lc a b \<le> 0 \<longleftrightarrow>
     rs_remainder b < rs_remainder a \<or> rs_remainder b = rs_remainder a \<and> lc (rs_key a) (rs_key b) \<le> 0"
  using fl64_diff_sign [OF assms(2,1)] by (auto simp: remainder_cmp_def Let_def)

lemma sorted_by_remainder:
  assumes "collates lc" and grid: "\<forall>r \<in> set raw. on_grid (rs_remainder r)"
  shows "sorted_wrt (\<lambda>a b. rs_remainder b \<le> rs_remainder a) (js_sort (remainder_cmp lc) raw)"
proof -
  let ?A = "{r. on_grid (rs_remainder r)}"
  have tr: "lc x y \<le> 0 \<Longrightarrow> lc y z \<le> 0 \<Longrightarrow> lc x z \<le> 0" for x y z
    using assms(1) unfolding collates_def by blast
  have "sorted_wrt (\<lambda>a b. remainder_cmp lc a b \<le> 0) (js_sort (remainder_cmp lc) raw)"
  proof (rule sorted_js_sort [of ?A])
    show "remainder_cmp lc x y \<le> 0 \<or> remainder_cmp lc y x \<le> 0" if "x \<in> ?A" "y \<in> ?A" for x y
    proof -
      have g: "on_grid (rs_remainder x)" "on_grid (rs_remainder y)" using that by simp_all
      have "lc (rs_key x) (rs_key y) \<le> 0 \<or> lc (rs_key y) (rs_key x) \<le> 0"
        using assms(1) unfolding collates_def by blast
      then show ?thesis unfolding remainder_cmp_le [OF g] remainder_cmp_le [OF g(2,1)] by linarith
    qed
    show "remainder_cmp lc x z \<le> 0"
      if "x \<in> ?A" "y \<in> ?A" "z \<in> ?A" "remainder_cmp lc x y \<le> 0" "remainder_cmp lc y z \<le> 0" for x y z
    proof -
      have g: "on_grid (rs_remainder x)" "on_grid (rs_remainder y)" "on_grid (rs_remainder z)" using that by simp_all
      from that(4,5) show ?thesis
        unfolding remainder_cmp_le [OF g(1,2)] remainder_cmp_le [OF g(2,3)] remainder_cmp_le [OF g(1,3)]
        using tr [of "rs_key x" "rs_key y" "rs_key z"] by linarith
    qed
  qed (use grid in auto)
  then show ?thesis
    by (rule sorted_wrt_mono_rel [rotated]) (use grid in \<open>auto simp: remainder_cmp_le\<close>)
qed

lemma sorted_wrt_take:
  assumes "sorted_wrt R xs" "x \<in> set (take n xs)" "y \<in> set xs" "y \<notin> set (take n xs)"
  shows "R x y"
proof -
  have "y \<in> set (drop n xs)" using assms(3,4) by (metis append_take_drop_id set_append Un_iff)
  moreover have "sorted_wrt R (take n xs @ drop n xs)" using assms(1) by simp
  ultimately show ?thesis using assms(2) by (simp only: sorted_wrt_append)
qed

definition base_share :: "cents \<Rightarrow> rat \<Rightarrow> raw_share \<Rightarrow> raw_share" where
  "base_share pool totalScore s = raw_of pool totalScore (rs_key s, rs_score s)"

lemma base_share_raw_of [simp]: "base_share pool T (raw_of pool T e) = raw_of pool T e"
  by (simp add: base_share_def raw_of_def Let_def)

lemma base_share_bump [simp]: "base_share pool T (bump ks r) = base_share pool T r"
  by (simp add: base_share_def bump_def)

text \<open>(C22) The split is the largest-remainder method: every recipient gets the floor of its
  quotient or one cent more, and a recipient who gets the extra cent has a remainder at least as
  large as every recipient who does not.\<close>

theorem split_pool_largest_remainder:
  assumes "collates lc" "distinct (map fst scores)"
    and "s \<in> set (split_pool lc pool totalScore scores)" "s' \<in> set (split_pool lc pool totalScore scores)"
  shows "rs_floor s - rs_floor (base_share pool totalScore s) \<in> {0, 1}
     \<and> (rs_floor s > rs_floor (base_share pool totalScore s)
          \<and> rs_floor s' = rs_floor (base_share pool totalScore s')
        \<longrightarrow> rs_remainder s' \<le> rs_remainder s)"
proof -
  let ?raw = "map (raw_of pool totalScore) (js_sort (\<lambda>a b. lc (fst a) (fst b)) scores)"
  let ?by = "js_sort (remainder_cmp lc) ?raw"
  let ?n = "nat (pool - sum_list (map rs_floor ?raw))"
  let ?ks = "map rs_key (take ?n ?by)"
  have sp: "split_pool lc pool totalScore scores = map (bump ?ks) ?raw"
    by (simp add: split_pool_def Let_def bump_loop_take)
  obtain r r' where r: "r \<in> set ?raw" "s = bump ?ks r" and r': "r' \<in> set ?raw" "s' = bump ?ks r'"
    using assms(3,4) unfolding sp by auto
  have base: "base_share pool totalScore s = r" "base_share pool totalScore s' = r'"
    using r r' by auto
  have dist: "distinct (map rs_key ?by)" using assms(2) by (simp add: comp_def)
  have key: "q \<in> set (take ?n ?by)" if q: "q \<in> set ?raw" "rs_key q \<in> set ?ks" for q
  proof -
    obtain p where p: "p \<in> set (take ?n ?by)" "rs_key p = rs_key q" using q(2) by auto
    moreover have "p \<in> set ?by" "q \<in> set ?by" using p(1) q(1) by (auto dest: in_set_takeD)
    ultimately have "p = q" using dist by (auto simp: distinct_map dest: inj_onD)
    with p show ?thesis by simp
  qed
  have "rs_remainder r' \<le> rs_remainder r" if "rs_key r \<in> set ?ks" "rs_key r' \<notin> set ?ks"
  proof -
    have "\<forall>q \<in> set ?raw. on_grid (rs_remainder q)" by (auto simp: raw_of_def Let_def fl64_on_grid)
    then have "sorted_wrt (\<lambda>a b. rs_remainder b \<le> rs_remainder a) ?by" by (rule sorted_by_remainder [OF assms(1)])
    moreover have "r \<in> set (take ?n ?by)" using key r(1) that(1) by simp
    moreover have "r' \<in> set ?by" using r'(1) by simp
    moreover have "r' \<notin> set (take ?n ?by)" using that(2) by auto
    ultimately show ?thesis by (rule sorted_wrt_take)
  qed
  then show ?thesis unfolding base using r(2) r'(2) by (auto simp: bump_def split: if_splits)
qed

text \<open>Three cents over two equal scores: each gets one, and the third goes to the first key.\<close>

definition lc_ascii :: "string \<Rightarrow> string \<Rightarrow> rat" where
  "lc_ascii a b = (let x = foldl (\<lambda>n c. 256 * n + of_char c) (1::int) a; y = foldl (\<lambda>n c. 256 * n + of_char c) 1 b
     in if x < y then -1 else if y < x then 1 else 0)"

lemma lc_ascii_collates: "collates lc_ascii"
  by (auto simp: collates_def lc_ascii_def Let_def split: if_splits)

lemma split_pool_example:
  "split_pool lc_ascii 3 960 [(''worker:a'', 480), (''worker:b'', 480)] =
   [\<lparr>rs_key = ''worker:a'', rs_score = 480, rs_floor = 2, rs_remainder = 1 / 2\<rparr>,
    \<lparr>rs_key = ''worker:b'', rs_score = 480, rs_floor = 1, rs_remainder = 1 / 2\<rparr>]"
  by code_simp

theorem split_pool_largest_remainder_witness:
  "(2::int) - rs_floor (base_share 3 960 \<lparr>rs_key = ''worker:a'', rs_score = 480, rs_floor = 2, rs_remainder = 1 / 2\<rparr>) \<in> {0, 1}"
  using split_pool_largest_remainder [OF lc_ascii_collates, of "[(''worker:a'', 480), (''worker:b'', 480)]"
     "\<lparr>rs_key = ''worker:a'', rs_score = 480, rs_floor = 2, rs_remainder = 1 / 2\<rparr>" 3 960
     "\<lparr>rs_key = ''worker:b'', rs_score = 480, rs_floor = 1, rs_remainder = 1 / 2\<rparr>"]
  by (simp add: split_pool_example)

section \<open>Properties\<close>

text \<open>(C1) The pool is split exactly.  With amounts and minutes that fit the 32-bit columns they
  come from, at most \<open>2^16\<close> shifts and role weights of ordinary magnitude, the double arithmetic of
  the engine never trips its own invariant check: it returns a result whose pool is the sum of the
  included, not refunded, not cancelled tips, and (when any shift scores) non-negative
  allocations that add up to that pool to the cent.\<close>

theorem allocation_exact:
  assumes "engine_ranges policy tips shifts"
  shows "\<exists>r. computeAllocationBatch lc tips shifts policy = Inr r
     \<and> br_poolUsdCents r = pool_of policy tips
     \<and> (if br_totalScore r = 0 then br_allocations r = []
        else sum_list (map wr_pooledTipUsdCents (br_allocations r)) = pool_of policy tips
           \<and> (\<forall>a \<in> set (br_allocations r). 0 \<le> wr_pooledTipUsdCents a
                 \<and> wr_netAllocatedUsdCents a = wr_pooledTipUsdCents a))"
  using assms by (rule compute_exact)

theorem allocation_exact_witness:
  "\<exists>r. computeAllocationBatch lc_ascii
        [\<lparr>ti_tipType = CARD_TIP, ti_grossAmountUsdCents = 1001, ti_paymentStatus = Some PaymentCOMPLETED, ti_refundStatus = None\<rparr>]
        [\<lparr>si_workerId = Some ''w1'', si_externalWorkerId = ''e1'', si_provider = ''square'', si_role = ''server'',
          si_workedMinutes = 480, si_shiftStatus = ShiftCOMPLETED\<rparr>]
        \<lparr>pi_roleWeights = [(''server'', 1)], pi_excludedRoles = [], pi_poolInclusion = [(CARD_TIP, True)]\<rparr> = Inr r
     \<and> br_poolUsdCents r = 1001"
  using allocation_exact [of "\<lparr>pi_roleWeights = [(''server'', 1)], pi_excludedRoles = [], pi_poolInclusion = [(CARD_TIP, True)]\<rparr>"
     "[\<lparr>ti_tipType = CARD_TIP, ti_grossAmountUsdCents = 1001, ti_paymentStatus = Some PaymentCOMPLETED, ti_refundStatus = None\<rparr>]"
     "[\<lparr>si_workerId = Some ''w1'', si_externalWorkerId = ''e1'', si_provider = ''square'', si_role = ''server'',
          si_workedMinutes = 480, si_shiftStatus = ShiftCOMPLETED\<rparr>]" lc_ascii]
  by (auto simp: engine_ranges_def pool_of_def pool_tip_def weight_ok_def score_lo_def power_int_def field_simps)

end
