(* ===== verification/Schema.thy ===== *)
theory Schema
  imports Allocation_Engine
begin

text \<open>
  The database the services share: one record per Prisma model
  (\<open>packages/db/prisma/schema.prisma\<close>) and the record \<open>db\<close> of all tables.  A table is the
  list of its rows in creation order, so an \<open>orderBy createdAt\<close> is the list order or its
  reverse.  A nullable column is an \<open>option\<close>.  The identifier a \<open>create\<close> draws from
  \<open>@default(uuid())\<close> and the current time are arguments of the operations.
  \<open>updatedAt\<close> columns, and \<open>createdAt\<close> where only the order is read, are not kept.
\<close>

datatype json = JNull | JStr string | JNum int | JBool bool | JRail payout_rail
  | JList "json list" | JObj "(string \<times> json) list"

section \<open>Tenancy and identity\<close>

record user =
  usr_id :: id
  usr_authUserId :: string
  usr_email :: string
  usr_displayName :: string
  usr_role :: global_role

record organization =
  org_id :: id
  org_legalName :: string
  org_displayName :: string
  org_country :: string
  org_timezone :: string

record org_member =
  om_organizationId :: id
  om_userId :: id
  om_role :: org_role

record venue =
  ven_id :: id
  ven_organizationId :: id
  ven_name :: string
  ven_timezone :: string
  ven_payoutSignerWallet :: "string option"
  ven_vaultTokenAccount :: "string option"
  ven_externalIds :: "(string \<times> string) list"

record provider_connection =
  pc_id :: id
  pc_venueId :: id
  pc_provider :: string
  pc_environment :: string
  pc_status :: connection_status
  pc_merchantId :: "string option"
  pc_locationId :: "string option"
  pc_encryptedAccessToken :: "string option"
  pc_encryptedRefreshToken :: "string option"
  pc_tokenExpiresAt :: "instant option"
  pc_oauthStateHash :: "string option"
  pc_oauthStateExpiresAt :: "instant option"
  pc_lastSyncStartedAt :: "instant option"
  pc_lastSyncSucceededAt :: "instant option"
  pc_lastSyncFailedAt :: "instant option"
  pc_lastError :: "string option"
  pc_consecutiveFailures :: int

record worker =
  wk_id :: id
  wk_userId :: id
  wk_defaultWalletId :: "id option"

record wallet =
  wal_id :: id
  wal_workerId :: id
  wal_address :: string
  wal_walletType :: wallet_type
  wal_status :: wallet_status
  wal_isDefault :: bool

record external_account =
  ext_id :: id
  ext_workerId :: id
  ext_venueId :: id
  ext_provider :: string
  ext_externalWorkerId :: string
  ext_mappingStatus :: mapping_status
  ext_verifiedBy :: "id option"
  ext_verifiedAt :: "instant option"

record refresh_token =
  rt_id :: id
  rt_userId :: id
  rt_tokenHash :: string
  rt_expiresAt :: instant
  rt_revokedAt :: "instant option"

section \<open>Evidence\<close>

record tip_evidence =
  te_id :: id
  te_provider :: string
  te_ingestSource :: ingest_source
  te_venueId :: id
  te_externalPaymentId :: string
  te_externalOrderId :: "string option"
  te_tipType :: tip_type
  te_grossAmountUsdCents :: cents
  te_paymentStatus :: payment_status
  te_refundStatus :: refund_status
  te_businessDate :: string
  te_sourceHash :: string
  te_sourcePayoutRail :: "payout_rail option"
  te_sourcePayrollStatus :: "string option"

record shift_evidence =
  se_id :: id
  se_provider :: string
  se_ingestSource :: ingest_source
  se_venueId :: id
  se_externalShiftId :: string
  se_externalWorkerId :: string
  se_mappedWorkerId :: "id option"
  se_role :: string
  se_clockIn :: instant
  se_clockOut :: "instant option"
  se_workedMinutes :: int
  se_shiftStatus :: shift_status
  se_businessDate :: string
  se_sourceHash :: string
  se_sourcePayoutRail :: "payout_rail option"
  se_sourcePayrollStatus :: "string option"

section \<open>Staffing\<close>

record open_shift =
  os_id :: id
  os_venueId :: id
  os_role :: string
  os_description :: "string option"
  os_startsAt :: instant
  os_endsAt :: instant
  os_hourlyRateUsdCents :: cents
  os_expectedTipUsdCents :: cents
  os_headcount :: int
  os_status :: open_shift_status
  os_createdByUserId :: id
  os_publishedAt :: "instant option"
  os_cancelledAt :: "instant option"

record shift_assignment =
  sa_id :: id
  sa_openShiftId :: id
  sa_workerId :: id
  sa_status :: assignment_status
  sa_invitedByUserId :: "id option"
  sa_respondedAt :: "instant option"
  sa_checkInAt :: "instant option"
  sa_checkOutAt :: "instant option"
  sa_approvedAt :: "instant option"
  sa_approvedByUserId :: "id option"
  sa_shiftEvidenceId :: "id option"
  sa_cancellationReason :: "string option"

section \<open>Allocation and settlement\<close>

record allocation_policy =
  pol_id :: id
  pol_venueId :: id
  pol_version :: int
  pol_status :: policy_status
  pol_allocationType :: allocation_type
  pol_roleWeights :: "(string \<times> rat) list"
  pol_poolInclusion :: "(tip_type \<times> bool) list"
  pol_excludedRoles :: "string list"
  pol_tipOutRules :: "json list"
  pol_effectiveFrom :: instant
  pol_effectiveTo :: "instant option"
  pol_createdBy :: id

record allocation_batch =
  ab_id :: id
  ab_venueId :: id
  ab_businessDate :: string
  ab_tipPoolAmountUsdCents :: cents
  ab_policyId :: id
  ab_policyVersion :: int
  ab_status :: batch_status
  ab_evidenceHash :: "string option"
  ab_allocationHash :: "string option"
  ab_reviewIssues :: "issue list"
  ab_calculatedAt :: "instant option"
  ab_calculatedBy :: "id option"
  ab_approvedAt :: "instant option"
  ab_approvedBy :: "id option"

record worker_allocation =
  wa_id :: id
  wa_batchId :: id
  wa_workerId :: "id option"
  wa_provider :: "string option"
  wa_externalWorkerId :: "string option"
  wa_pooledTipUsdCents :: cents
  wa_netAllocatedUsdCents :: cents
  wa_plannedPayoutRail :: "payout_rail option"
  wa_payoutRail :: "payout_rail option"
  wa_payoutStatus :: alloc_payout_status

record payout =
  po_id :: id
  po_paymentId :: id
  po_paymentIdHash :: string
  po_allocationId :: id
  po_workerId :: id
  po_venueId :: id
  po_walletId :: "id option"
  po_rail :: payout_rail
  po_asset :: string
  po_amountBaseUnits :: int
  po_amountUsdCents :: cents
  po_status :: payout_status
  po_externalReference :: "string option"
  po_txSignature :: "string option"
  po_settlementPda :: "string option"
  po_recentBlockhash :: "string option"
  po_lastValidBlockHeight :: "int option"
  po_signedTransactionBase64 :: "string option"
  po_lastBroadcastAt :: "instant option"
  po_broadcastAttempts :: int
  po_slot :: "int option"
  po_blockTime :: "instant option"
  po_initiatedAt :: "instant option"
  po_initiatedByUserId :: "id option"
  po_submittedByUserId :: "id option"
  po_signerWallet :: "string option"
  po_settledAt :: "instant option"
  po_failedReason :: "string option"

section \<open>Payroll, income and disclosure\<close>

record payroll_record =
  pr_id :: id
  pr_workerId :: id
  pr_venueId :: id
  pr_periodStart :: instant
  pr_periodEnd :: instant
  pr_reportedTipUsdCents :: cents
  pr_federalWithholdingUsdCents :: "cents option"
  pr_stateWithholdingUsdCents :: "cents option"
  pr_socialSecurityUsdCents :: "cents option"
  pr_medicareUsdCents :: "cents option"
  pr_status :: payroll_status
  pr_providerReference :: "string option"

record income_entry =
  ie_id :: id
  ie_workerId :: id
  ie_venueId :: id
  ie_shiftId :: "id option"
  ie_payoutId :: "id option"
  ie_earnedUsdCents :: cents
  ie_allocatedUsdCents :: cents
  ie_paidUsdCents :: cents
  ie_payrollReportedUsdCents :: cents
  ie_withholdingStatus :: withholding_status
  ie_payoutRail :: "payout_rail option"
  ie_evidenceGrade :: evidence_grade
  ie_effectiveStatus :: entry_status
  ie_originalEntryId :: "id option"
  ie_correctionOfId :: "id option"
  ie_correctionReason :: "string option"
  ie_createdAt :: instant

record discrepancy_alert =
  da_id :: id
  da_workerId :: "id option"
  da_venueId :: id
  da_shiftId :: "id option"
  da_type :: discrepancy_type
  da_detail :: json
  da_resolvedAt :: "instant option"

record disclosure_grant =
  dg_id :: id
  dg_workerId :: id
  dg_recipientEmail :: "string option"
  dg_accessMode :: access_mode
  dg_purpose :: string
  dg_level :: disclosure_level
  dg_thresholdUsdCents :: "cents option"
  dg_dateRangeStart :: instant
  dg_dateRangeEnd :: instant
  dg_expiresAt :: instant
  dg_allowDownload :: bool
  dg_revokedAt :: "instant option"
  dg_accessTokenHash :: string

record audit_log =
  al_venueId :: "id option"
  al_actorUserId :: "id option"
  al_action :: string
  al_entityType :: string
  al_entityId :: "id option"
  al_detail :: json

text \<open>
  The snapshot of a verification report.  A LEVEL_1 snapshot holds the criterion (here its
  threshold; the source formats it into a sentence) and its truth value only.
\<close>

record snapshot_entry =
  sn_businessDate :: string
  sn_venue :: string
  sn_role :: string
  sn_allocatedUsdCents :: cents
  sn_paidUsdCents :: cents
  sn_payrollReportedUsdCents :: cents
  sn_withholdingStatus :: withholding_status
  sn_payoutRail :: "payout_rail option"
  sn_evidenceGrade :: evidence_grade
  sn_ingestSource :: "ingest_source option"
  sn_corrected :: bool

record snapshot_totals =
  st_level :: disclosure_level
  st_avgMonthlyIncomeUsdCents :: cents
  st_monthsCovered :: nat
  st_payerCount :: nat
  st_verificationGrades :: "(evidence_grade \<times> nat) list"
  st_bestGrade :: evidence_grade
  st_hasCorrections :: bool
  st_totalVerifiedIncomeUsdCents :: cents
  st_totalPaidUsdCents :: cents
  st_posVerifiedSharePct :: int
  st_monthlyBreakdown :: "(string \<times> cents) list"
  st_observedShiftDays :: nat

datatype snapshot =
    Level1Snapshot cents bool
  | Level2Snapshot snapshot_totals
  | Level3Snapshot snapshot_totals "snapshot_entry list"

record verification_report =
  vr_id :: id
  vr_workerId :: id
  vr_disclosureGrantId :: id
  vr_reportHash :: string
  vr_reportUri :: "string option"
  vr_snapshot :: snapshot
  vr_status :: report_status
  vr_issuedAt :: "instant option"
  vr_expiresAt :: "instant option"
  vr_revokedAt :: "instant option"
  vr_previousReportId :: "id option"

record access_log =
  ac_grantId :: id
  ac_ip :: "string option"
  ac_userAgent :: "string option"

section \<open>All tables\<close>

record db =
  db_users :: "user list"
  db_organizations :: "organization list"
  db_members :: "org_member list"
  db_venues :: "venue list"
  db_connections :: "provider_connection list"
  db_workers :: "worker list"
  db_wallets :: "wallet list"
  db_externals :: "external_account list"
  db_refreshTokens :: "refresh_token list"
  db_tips :: "tip_evidence list"
  db_shifts :: "shift_evidence list"
  db_openShifts :: "open_shift list"
  db_assignments :: "shift_assignment list"
  db_policies :: "allocation_policy list"
  db_batches :: "allocation_batch list"
  db_allocations :: "worker_allocation list"
  db_payouts :: "payout list"
  db_payrolls :: "payroll_record list"
  db_incomes :: "income_entry list"
  db_alerts :: "discrepancy_alert list"
  db_grants :: "disclosure_grant list"
  db_reports :: "verification_report list"
  db_accessLogs :: "access_log list"
  db_audit :: "audit_log list"

definition empty_db :: db where
  "empty_db = \<lparr>db_users = [], db_organizations = [], db_members = [], db_venues = [], db_connections = [],
      db_workers = [], db_wallets = [],
     db_externals = [], db_refreshTokens = [], db_tips = [], db_shifts = [], db_openShifts = [],
     db_assignments = [], db_policies = [], db_batches = [], db_allocations = [], db_payouts = [],
     db_payrolls = [], db_incomes = [], db_alerts = [], db_grants = [], db_reports = [],
     db_accessLogs = [], db_audit = []\<rparr>"

definition write_audit :: "id \<Rightarrow> id option \<Rightarrow> string \<Rightarrow> string \<Rightarrow> id \<Rightarrow> json \<Rightarrow> db \<Rightarrow> db" where
  "write_audit venueId actor action entityType entityId detail d =
     d\<lparr>db_audit := db_audit d @ [\<lparr>al_venueId = Some venueId, al_actorUserId = actor, al_action = action,
        al_entityType = entityType, al_entityId = Some entityId, al_detail = detail\<rparr>]\<rparr>"

lemma write_audit_frame [simp]:
  "db_users (write_audit v a ac t e j d) = db_users d"
  "db_organizations (write_audit v a ac t e j d) = db_organizations d"
  "db_members (write_audit v a ac t e j d) = db_members d"
  "db_venues (write_audit v a ac t e j d) = db_venues d"
  "db_connections (write_audit v a ac t e j d) = db_connections d"
  "db_workers (write_audit v a ac t e j d) = db_workers d"
  "db_wallets (write_audit v a ac t e j d) = db_wallets d"
  "db_externals (write_audit v a ac t e j d) = db_externals d"
  "db_refreshTokens (write_audit v a ac t e j d) = db_refreshTokens d"
  "db_tips (write_audit v a ac t e j d) = db_tips d"
  "db_shifts (write_audit v a ac t e j d) = db_shifts d"
  "db_openShifts (write_audit v a ac t e j d) = db_openShifts d"
  "db_assignments (write_audit v a ac t e j d) = db_assignments d"
  "db_policies (write_audit v a ac t e j d) = db_policies d"
  "db_batches (write_audit v a ac t e j d) = db_batches d"
  "db_allocations (write_audit v a ac t e j d) = db_allocations d"
  "db_payouts (write_audit v a ac t e j d) = db_payouts d"
  "db_payrolls (write_audit v a ac t e j d) = db_payrolls d"
  "db_incomes (write_audit v a ac t e j d) = db_incomes d"
  "db_alerts (write_audit v a ac t e j d) = db_alerts d"
  "db_grants (write_audit v a ac t e j d) = db_grants d"
  "db_reports (write_audit v a ac t e j d) = db_reports d"
  "db_accessLogs (write_audit v a ac t e j d) = db_accessLogs d"
  by (simp_all add: write_audit_def)

end
