(* ===== verification/Allocations.thy ===== *)
theory Allocations
  imports Schema
begin

text \<open>
  \<open>apps/api/src/allocations/allocations.service.ts\<close>: calculating, approving and rejecting a tip
  batch and choosing the settlement rails of its allocations.  Parameters: \<open>lc\<close> is
  \<open>localeCompare\<close>, \<open>evidence_hash\<close> and \<open>allocation_hash\<close> are the sha256 of the JSON of their
  arguments; the ids of created rows and the current time are arguments.  A
  \<open>$transaction\<close> is one state update.
\<close>

section \<open>Look-ups\<close>

definition find_venue :: "db \<Rightarrow> id \<Rightarrow> venue option" where
  "find_venue d i = find (\<lambda>v. ven_id v = i) (db_venues d)"

definition find_batch :: "db \<Rightarrow> id \<Rightarrow> allocation_batch option" where
  "find_batch d i = find (\<lambda>b. ab_id b = i) (db_batches d)"

definition find_allocation :: "db \<Rightarrow> id \<Rightarrow> worker_allocation option" where
  "find_allocation d i = find (\<lambda>a. wa_id a = i) (db_allocations d)"

definition find_worker :: "db \<Rightarrow> id \<Rightarrow> worker option" where
  "find_worker d i = find (\<lambda>w. wk_id w = i) (db_workers d)"

definition find_user :: "db \<Rightarrow> id \<Rightarrow> user option" where
  "find_user d i = find (\<lambda>u. usr_id u = i) (db_users d)"

definition find_wallet :: "db \<Rightarrow> id \<Rightarrow> wallet option" where
  "find_wallet d i = find (\<lambda>w. wal_id w = i) (db_wallets d)"

text \<open>\<open>worker.defaultWallet\<close> of a worker that may be absent.\<close>

definition default_wallet :: "db \<Rightarrow> id option \<Rightarrow> wallet option" where
  "default_wallet d workerId =
     Option.bind workerId (\<lambda>w. Option.bind (find_worker d w) (\<lambda>wk. Option.bind (wk_defaultWalletId wk) (find_wallet d)))"

text \<open>A required relation that is missing makes the query fail.\<close>

definition relation_error :: http_error where
  "relation_error = Failure ''Inconsistent query result: required relation is null''"

section \<open>Calculation\<close>

record calculate_input =
  ci_venueId :: id
  ci_businessDate :: string
  ci_policyVersion :: "int option"

definition batch_policy :: "db \<Rightarrow> calculate_input \<Rightarrow> allocation_policy option" where
  "batch_policy d inp = (case ci_policyVersion inp of
       Some v \<Rightarrow> if v \<noteq> 0
         then find (\<lambda>p. pol_venueId p = ci_venueId inp \<and> pol_version p = v) (db_policies d)
         else List.find (\<lambda>_. True) (js_sort (\<lambda>a b. of_int (pol_version b - pol_version a))
           (filter (\<lambda>p. pol_venueId p = ci_venueId inp \<and> pol_status p = PolicyACTIVE) (db_policies d)))
     | None \<Rightarrow> List.find (\<lambda>_. True) (js_sort (\<lambda>a b. of_int (pol_version b - pol_version a))
           (filter (\<lambda>p. pol_venueId p = ci_venueId inp \<and> pol_status p = PolicyACTIVE) (db_policies d))))"

definition engine_tip :: "tip_evidence \<Rightarrow> tip_input" where
  "engine_tip t = \<lparr>ti_tipType = te_tipType t, ti_grossAmountUsdCents = te_grossAmountUsdCents t,
     ti_paymentStatus = Some (te_paymentStatus t), ti_refundStatus = Some (te_refundStatus t)\<rparr>"

definition engine_shift :: "shift_evidence \<Rightarrow> shift_input" where
  "engine_shift s = \<lparr>si_workerId = se_mappedWorkerId s, si_externalWorkerId = se_externalWorkerId s,
     si_provider = se_provider s, si_role = se_role s, si_workedMinutes = se_workedMinutes s,
     si_shiftStatus = se_shiftStatus s\<rparr>"

definition engine_policy :: "allocation_policy \<Rightarrow> policy_input" where
  "engine_policy p = \<lparr>pi_roleWeights = pol_roleWeights p, pi_excludedRoles = pol_excludedRoles p,
     pi_poolInclusion = pol_poolInclusion p\<rparr>"

text \<open>The loop that collects the rail each worker's shifts agree on: \<open>plannedRailByWorker\<close> and
  \<open>conflictingRailWorkers\<close>.\<close>

definition rail_step :: "shift_evidence \<Rightarrow> (id \<times> payout_rail) list \<times> id set \<Rightarrow> (id \<times> payout_rail) list \<times> id set" where
  "rail_step shift acc = (case acc of (planned, conflicting) \<Rightarrow>
     case se_mappedWorkerId shift of None \<Rightarrow> acc | Some w \<Rightarrow>
     if w = [] then acc
     else case se_sourcePayoutRail shift of None \<Rightarrow> acc | Some rail \<Rightarrow>
       (case map_of planned w of
          Some previous \<Rightarrow>
            if previous \<noteq> rail then (map_delete w planned, insert w conflicting)
            else if w \<notin> conflicting then (map_set w rail planned, conflicting) else acc
        | None \<Rightarrow> if w \<notin> conflicting then (map_set w rail planned, conflicting) else acc))"

definition planned_rails :: "shift_evidence list \<Rightarrow> (id \<times> payout_rail) list" where
  "planned_rails shifts = fst (fold rail_step shifts ([], {}))"

text \<open>The default \<open>Array.sort\<close> of strings: by code units.\<close>

fun str_cmp :: "string \<Rightarrow> string \<Rightarrow> rat" where
  "str_cmp [] [] = 0"
| "str_cmp [] (_ # _) = -1"
| "str_cmp (_ # _) [] = 1"
| "str_cmp (a # as) (b # bs) =
     (if (of_char a :: nat) < of_char b then -1 else if (of_char b :: nat) < of_char a then 1 else str_cmp as bs)"

definition batch_key :: "id \<Rightarrow> string \<Rightarrow> int \<Rightarrow> allocation_batch \<Rightarrow> bool" where
  "batch_key venueId businessDate version b \<longleftrightarrow>
     ab_venueId b = venueId \<and> ab_businessDate b = businessDate \<and> ab_policyVersion b = version"

definition recalculable :: "batch_status \<Rightarrow> bool" where
  "recalculable s \<longleftrightarrow> s \<in> {BatchDRAFT, CALCULATED, REVIEW_REQUIRED}"

definition allocation_row :: "(nat \<Rightarrow> id) \<Rightarrow> id \<Rightarrow> (id \<times> payout_rail) list \<Rightarrow> nat \<times> worker_allocation_result \<Rightarrow> worker_allocation" where
  "allocation_row new_id batchId planned na = (case na of (n, a) \<Rightarrow>
     \<lparr>wa_id = new_id n, wa_batchId = batchId, wa_workerId = wr_workerId a, wa_provider = wr_provider a,
      wa_externalWorkerId = wr_externalWorkerId a, wa_pooledTipUsdCents = wr_pooledTipUsdCents a,
      wa_netAllocatedUsdCents = wr_netAllocatedUsdCents a,
      wa_plannedPayoutRail = (if truthy (wr_workerId a) then map_of planned (the (wr_workerId a)) else None),
      wa_payoutRail = None, wa_payoutStatus = UNPAID\<rparr>)"

text \<open>\<open>include\<close> of \<open>getBatch\<close>: each allocation with its worker's name and its latest finalised payout.\<close>

record allocation_view =
  av_allocation :: worker_allocation
  av_displayName :: "string option"
  av_payout :: "(payout_rail \<times> payout_status \<times> string option \<times> string option) option"

record batch_view =
  bv_batch :: allocation_batch
  bv_allocations :: "allocation_view list"

definition view_allocation :: "db \<Rightarrow> worker_allocation \<Rightarrow> allocation_view" where
  "view_allocation d a = \<lparr>av_allocation = a,
     av_displayName = Option.bind (wa_workerId a) (\<lambda>w. Option.bind (find_worker d w)
        (\<lambda>wk. map_option usr_displayName (find_user d (wk_userId wk)))),
     av_payout = map_option (\<lambda>p. (po_rail p, po_status p, po_txSignature p, po_externalReference p))
        (find (\<lambda>p. po_allocationId p = wa_id a \<and> po_status p = FINALIZED) (rev (db_payouts d)))\<rparr>"

definition getBatch :: "id \<Rightarrow> db \<Rightarrow> http_error + batch_view" where
  "getBatch i d = (case find_batch d i of
       None \<Rightarrow> Inl (NotFoundException ''Batch ${id} not found'')
     | Some b \<Rightarrow> Inr \<lparr>bv_batch = b,
         bv_allocations = map (view_allocation d) (filter (\<lambda>a. wa_batchId a = i) (db_allocations d))\<rparr>)"

text \<open>The body of the transaction: drop the old allocations, upsert the batch, create the new rows.\<close>

definition save_batch ::
  "(nat \<Rightarrow> id) \<Rightarrow> allocation_batch \<Rightarrow> worker_allocation_result list \<Rightarrow> (id \<times> payout_rail) list \<Rightarrow> allocation_batch option \<Rightarrow> db \<Rightarrow> db" where
  "save_batch new_id saved results planned existing d =
     (let kept = (case existing of
            Some e \<Rightarrow> delete_where (\<lambda>a. wa_batchId a = ab_id e) (db_allocations d)
          | None \<Rightarrow> db_allocations d)
      in d\<lparr>db_batches := (case existing of
             Some e \<Rightarrow> update_where (\<lambda>b. ab_id b = ab_id e) (\<lambda>_. saved) (db_batches d)
           | None \<Rightarrow> db_batches d @ [saved]),
           db_allocations := kept @ map (allocation_row new_id (ab_id saved) planned)
             (zip [0..<length results] results)\<rparr>)"

definition saved_batch ::
  "id \<Rightarrow> instant \<Rightarrow> calculate_input \<Rightarrow> id option \<Rightarrow> allocation_policy \<Rightarrow> batch_result \<Rightarrow> string \<Rightarrow> string \<Rightarrow> allocation_batch option \<Rightarrow> allocation_batch" where
  "saved_batch batchId now inp calculatedBy policy result evidenceHash allocationHash existing =
     (let status = (if list_ex is_blocking (br_issues result) then REVIEW_REQUIRED else CALCULATED)
      in case existing of
           Some e \<Rightarrow> e\<lparr>ab_status := status, ab_tipPoolAmountUsdCents := br_poolUsdCents result,
             ab_evidenceHash := Some evidenceHash, ab_allocationHash := Some allocationHash,
             ab_reviewIssues := br_issues result, ab_calculatedAt := Some now,
             ab_calculatedBy := calculatedBy, ab_approvedAt := None, ab_approvedBy := None\<rparr>
         | None \<Rightarrow> \<lparr>ab_id = batchId, ab_venueId = ci_venueId inp, ab_businessDate = ci_businessDate inp,
             ab_tipPoolAmountUsdCents = br_poolUsdCents result, ab_policyId = pol_id policy,
             ab_policyVersion = pol_version policy, ab_status = status,
             ab_evidenceHash = Some evidenceHash, ab_allocationHash = Some allocationHash,
             ab_reviewIssues = br_issues result, ab_calculatedAt = Some now,
             ab_calculatedBy = calculatedBy, ab_approvedAt = None, ab_approvedBy = None\<rparr>)"

definition day_tips :: "db \<Rightarrow> calculate_input \<Rightarrow> tip_evidence list" where
  "day_tips d inp = filter (\<lambda>t. te_venueId t = ci_venueId inp \<and> te_businessDate t = ci_businessDate inp) (db_tips d)"

definition day_shifts :: "db \<Rightarrow> calculate_input \<Rightarrow> shift_evidence list" where
  "day_shifts d inp = filter (\<lambda>s. se_venueId s = ci_venueId inp \<and> se_businessDate s = ci_businessDate inp) (db_shifts d)"

definition calculate ::
  "(string \<Rightarrow> string \<Rightarrow> rat) \<Rightarrow> (string list \<Rightarrow> string list \<Rightarrow> string) \<Rightarrow>
   (int \<Rightarrow> cents \<Rightarrow> worker_allocation_result list \<Rightarrow> string) \<Rightarrow> id \<Rightarrow> (nat \<Rightarrow> id) \<Rightarrow> instant \<Rightarrow>
   calculate_input \<Rightarrow> id option \<Rightarrow> db \<Rightarrow> (batch_view, db) outcome" where
  "calculate lc evidence_hash allocation_hash new_batch new_alloc now inp calculatedBy d =
     (case find_venue d (ci_venueId inp) of
        None \<Rightarrow> (Inl (NotFoundException ''Venue ${input.venueId} not found''), d)
      | Some _ \<Rightarrow>
      case batch_policy d inp of
        None \<Rightarrow> (Inl (NotFoundException ''No allocation policy found for venue''), d)
      | Some policy \<Rightarrow>
        let tips = day_tips d inp; shifts = day_shifts d inp;
            existing = find (batch_key (ci_venueId inp) (ci_businessDate inp) (pol_version policy)) (db_batches d)
        in if tips = [] \<and> shifts = []
           then (Inl (BadRequestException ''No evidence for venue on business date ${input.businessDate}''), d)
           else if (case existing of Some e \<Rightarrow> \<not> recalculable (ab_status e) | None \<Rightarrow> False)
           then (Inl (ConflictException ''Batch ${existing.id} is ${existing.status}; corrections must go through the correction ledger''), d)
           else case computeAllocationBatch lc (map engine_tip tips) (map engine_shift shifts) (engine_policy policy) of
             Inl e \<Rightarrow> (Inl e, d)
           | Inr result \<Rightarrow>
               let evidenceHash = evidence_hash (js_sort str_cmp (map te_sourceHash tips)) (js_sort str_cmp (map se_sourceHash shifts));
                   allocationHash = allocation_hash (pol_version policy) (br_poolUsdCents result) (br_allocations result);
                   saved = saved_batch new_batch now inp calculatedBy policy result evidenceHash allocationHash existing;
                   d' = save_batch new_alloc saved (br_allocations result) (planned_rails shifts) existing d
               in (getBatch (ab_id saved) d', d'))"

section \<open>Approval\<close>

definition getAllocation :: "id \<Rightarrow> db \<Rightarrow> http_error + worker_allocation \<times> id" where
  "getAllocation i d = (case find_allocation d i of
       None \<Rightarrow> Inl (NotFoundException ''Allocation ${id} not found'')
     | Some a \<Rightarrow> (case find_batch d (wa_batchId a) of
         None \<Rightarrow> Inl relation_error | Some b \<Rightarrow> Inr (a, ab_venueId b)))"

definition update_batch :: "id \<Rightarrow> (allocation_batch \<Rightarrow> allocation_batch) \<Rightarrow> db \<Rightarrow> db" where
  "update_batch i f d = d\<lparr>db_batches := update_where (\<lambda>b. ab_id b = i) f (db_batches d)\<rparr>"

definition update_allocation :: "id \<Rightarrow> (worker_allocation \<Rightarrow> worker_allocation) \<Rightarrow> db \<Rightarrow> db" where
  "update_allocation i f d = d\<lparr>db_allocations := update_where (\<lambda>a. wa_id a = i) f (db_allocations d)\<rparr>"

definition opt_str :: "string option \<Rightarrow> json" where
  "opt_str s = (case s of None \<Rightarrow> JNull | Some t \<Rightarrow> JStr t)"

definition opt_rail :: "payout_rail option \<Rightarrow> json" where
  "opt_rail s = (case s of None \<Rightarrow> JNull | Some t \<Rightarrow> JRail t)"

definition approve :: "id \<Rightarrow> id \<Rightarrow> instant \<Rightarrow> db \<Rightarrow> (allocation_batch, db) outcome" where
  "approve i approvedBy now d = (case find_batch d i of
       None \<Rightarrow> (Inl (NotFoundException ''Batch ${id} not found''), d)
     | Some b \<Rightarrow>
         if ab_status b = REVIEW_REQUIRED
         then (Inl (BadRequestException ''Batch has blocking review issues; resolve them first''), d)
         else if ab_status b \<noteq> CALCULATED
         then (Inl (ConflictException ''Batch is ${batch.status}; only CALCULATED can be approved''), d)
         else let f = (\<lambda>b. b\<lparr>ab_status := PAYABLE, ab_approvedBy := Some approvedBy, ab_approvedAt := Some now\<rparr>)
              in (Inr (f b),
                  write_audit (ab_venueId b) (Some approvedBy) ''ALLOCATION_BATCH_APPROVED'' ''AllocationBatch'' i
                    (JObj [(''allocationHash'', opt_str (ab_allocationHash b)), (''evidenceHash'', opt_str (ab_evidenceHash b)),
                           (''tipPoolAmountUsdCents'', JNum (ab_tipPoolAmountUsdCents b))])
                    (update_batch i f d)))"

definition reject :: "id \<Rightarrow> id \<Rightarrow> string \<Rightarrow> db \<Rightarrow> (allocation_batch, db) outcome" where
  "reject i rejectedBy reason d = (case find_batch d i of
       None \<Rightarrow> (Inl (NotFoundException ''Batch ${id} not found''), d)
     | Some b \<Rightarrow>
         if ab_status b \<noteq> CALCULATED \<and> ab_status b \<noteq> REVIEW_REQUIRED
         then (Inl (ConflictException ''Batch is ${batch.status}; cannot reject''), d)
         else let f = (\<lambda>b. b\<lparr>ab_status := BatchDRAFT\<rparr>)
              in (Inr (f b),
                  write_audit (ab_venueId b) (Some rejectedBy) ''ALLOCATION_BATCH_REJECTED'' ''AllocationBatch'' i
                    (JObj [(''reason'', JStr reason)]) (update_batch i f d)))"

section \<open>Settlement rails\<close>

record auto_assign_result =
  aa_assigned :: nat
  aa_usdc :: nat
  aa_payroll :: nat
  aa_batch :: batch_view

definition auto_assignments :: "db \<Rightarrow> id \<Rightarrow> (id \<times> payout_rail) list" where
  "auto_assignments d batchId =
     map (\<lambda>a. (wa_id a, case default_wallet d (wa_workerId a) of
            Some w \<Rightarrow> if wal_status w = WalletACTIVE then USDC else PAYROLL
          | None \<Rightarrow> PAYROLL))
       (filter (\<lambda>a. wa_batchId a = batchId \<and> truthy (wa_workerId a)
            \<and> wa_plannedPayoutRail a = None \<and> wa_payoutStatus a \<noteq> AllocPAID) (db_allocations d))"

definition autoAssignRails :: "id \<Rightarrow> id \<Rightarrow> db \<Rightarrow> (auto_assign_result, db) outcome" where
  "autoAssignRails batchId actor d = (case find_batch d batchId of
       None \<Rightarrow> (Inl (NotFoundException ''Batch ${batchId} not found''), d)
     | Some b \<Rightarrow>
         let assignments = auto_assignments d batchId;
             usdc = length (filter (\<lambda>p. snd p = USDC) assignments);
             payroll = length assignments - usdc;
             d' = (if assignments = [] then d
                   else write_audit (ab_venueId b) (Some actor) ''ALLOCATION_RAILS_AUTO_ASSIGNED'' ''AllocationBatch'' batchId
                     (JObj [(''assigned'', JNum (int (length assignments))), (''usdc'', JNum (int usdc)), (''payroll'', JNum (int payroll))])
                     (fold (\<lambda>(i, rail). update_allocation i (\<lambda>a. a\<lparr>wa_plannedPayoutRail := Some rail\<rparr>)) assignments d))
         in case getBatch batchId d' of
              Inl e \<Rightarrow> (Inl e, d')
            | Inr v \<Rightarrow> (Inr \<lparr>aa_assigned = length assignments, aa_usdc = usdc, aa_payroll = payroll, aa_batch = v\<rparr>, d'))"

definition setPlannedRail :: "id \<Rightarrow> payout_rail \<Rightarrow> id \<Rightarrow> db \<Rightarrow> (worker_allocation, db) outcome" where
  "setPlannedRail allocationId rail actor d = (case find_allocation d allocationId of
       None \<Rightarrow> (Inl (NotFoundException ''Allocation ${allocationId} not found''), d)
     | Some a \<Rightarrow> (case find_batch d (wa_batchId a) of
         None \<Rightarrow> (Inl relation_error, d)
       | Some b \<Rightarrow>
         if wa_payoutStatus a = AllocPAID
         then (Inl (ConflictException ''A paid allocation's settlement route cannot be changed''), d)
         else let f = (\<lambda>a. a\<lparr>wa_plannedPayoutRail := Some rail\<rparr>)
              in (Inr (f a),
                  write_audit (ab_venueId b) (Some actor) ''ALLOCATION_PLANNED_RAIL_CHANGED'' ''WorkerAllocation'' allocationId
                    (JObj [(''previous'', opt_rail (wa_plannedPayoutRail a)), (''next'', JRail rail)])
                    (update_allocation allocationId f d))))"

section \<open>The ledger invariant\<close>

text \<open>
  What every component relies on: ids are unique, evidence is non-negative, and the allocations of
  a batch past review add up to its pool.
\<close>

definition batch_total :: "db \<Rightarrow> id \<Rightarrow> cents" where
  "batch_total d i = sum_list (map wa_netAllocatedUsdCents (filter (\<lambda>a. wa_batchId a = i) (db_allocations d)))"

definition balanced_status :: "batch_status \<Rightarrow> bool" where
  "balanced_status s \<longleftrightarrow> s \<noteq> BatchDRAFT \<and> s \<noteq> REVIEW_REQUIRED"

definition ledger_inv :: "db \<Rightarrow> bool" where
  "ledger_inv d \<longleftrightarrow> distinct (map ab_id (db_batches d))
     \<and> (\<forall>a \<in> set (db_allocations d). wa_batchId a \<in> ab_id ` set (db_batches d))
     \<and> (\<forall>t \<in> set (db_tips d). 0 \<le> te_grossAmountUsdCents t)
     \<and> (\<forall>b \<in> set (db_batches d). balanced_status (ab_status b) \<longrightarrow> batch_total d (ab_id b) = ab_tipPoolAmountUsdCents b)"

text \<open>
  The operations of the other services touch neither the evidence amounts nor a batch's pool nor
  an allocation's amount: it is enough that the keys and amounts are the same lists.
\<close>

definition ledger_view :: "db \<Rightarrow> (id \<times> cents) list \<times> (id \<times> cents) list \<times> cents list" where
  "ledger_view d = (map (\<lambda>b. (ab_id b, ab_tipPoolAmountUsdCents b)) (db_batches d),
     map (\<lambda>a. (wa_batchId a, wa_netAllocatedUsdCents a)) (db_allocations d),
     map te_grossAmountUsdCents (db_tips d))"

lemma batch_total_view: "batch_total d i = sum_list (map snd (filter (\<lambda>p. fst p = i) (fst (snd (ledger_view d)))))"
  by (simp add: batch_total_def ledger_view_def filter_map comp_def)

lemma ledger_inv_view:
  assumes "ledger_inv d" "ledger_view d' = ledger_view d"
    and "\<And>b'. b' \<in> set (db_batches d') \<Longrightarrow> balanced_status (ab_status b') \<Longrightarrow>
       \<exists>b \<in> set (db_batches d). ab_id b = ab_id b' \<and> balanced_status (ab_status b)"
  shows "ledger_inv d'"
proof -
  have ids: "map ab_id (db_batches d') = map ab_id (db_batches d)"
  proof -
    have "map fst (fst (ledger_view d')) = map fst (fst (ledger_view d))" using assms(2) by simp
    then show ?thesis by (simp add: ledger_view_def comp_def)
  qed
  have "wa_batchId ` set (db_allocations d') = fst ` set (fst (snd (ledger_view d')))" for d'
    by (force simp: ledger_view_def)
  then have allocs: "wa_batchId ` set (db_allocations d') = wa_batchId ` set (db_allocations d)"
    using assms(2) by metis
  have tips: "map te_grossAmountUsdCents (db_tips d') = map te_grossAmountUsdCents (db_tips d)"
    using assms(2) by (simp add: ledger_view_def)
  have pools: "(i, p) \<in> set (fst (ledger_view d)) \<longleftrightarrow> (\<exists>b \<in> set (db_batches d). i = ab_id b \<and> p = ab_tipPoolAmountUsdCents b)" for d i p
    by (force simp: ledger_view_def)
  have "batch_total d' (ab_id b') = ab_tipPoolAmountUsdCents b'"
    if b': "b' \<in> set (db_batches d')" "balanced_status (ab_status b')" for b'
  proof -
    obtain b where b: "b \<in> set (db_batches d)" "ab_id b = ab_id b'" "balanced_status (ab_status b)"
      using assms(3) b' by blast
    obtain c where c: "c \<in> set (db_batches d)" "ab_id b' = ab_id c" "ab_tipPoolAmountUsdCents b' = ab_tipPoolAmountUsdCents c"
      using pools [of "ab_id b'" "ab_tipPoolAmountUsdCents b'" d'] pools [of "ab_id b'" "ab_tipPoolAmountUsdCents b'" d] b' assms(2) by auto
    have "b = c" using assms(1) b c by (auto simp: ledger_inv_def distinct_map dest: inj_onD)
    then show ?thesis using assms(1,2) b c by (auto simp: ledger_inv_def batch_total_view)
  qed
  moreover have "wa_batchId a \<in> ab_id ` set (db_batches d')" if "a \<in> set (db_allocations d')" for a
  proof -
    have "wa_batchId a \<in> wa_batchId ` set (db_allocations d)" using that allocs by blast
    then have "wa_batchId a \<in> set (map ab_id (db_batches d))" using assms(1) by (auto simp: ledger_inv_def)
    then show ?thesis using ids by (metis list.set_map)
  qed
  moreover have "0 \<le> te_grossAmountUsdCents t" if "t \<in> set (db_tips d')" for t
  proof -
    have "te_grossAmountUsdCents t \<in> set (map te_grossAmountUsdCents (db_tips d'))" using that by simp
    then have "te_grossAmountUsdCents t \<in> set (map te_grossAmountUsdCents (db_tips d))" by (simp only: tips)
    then show ?thesis using assms(1) by (auto simp: ledger_inv_def)
  qed
  moreover have "distinct (map ab_id (db_batches d'))" using assms(1) ids by (simp add: ledger_inv_def)
  ultimately show ?thesis unfolding ledger_inv_def by blast
qed

section \<open>What the engine returns\<close>

lemma pool_nonneg:
  "fold (pool_step policy) tips (p, iss) = (p', iss') \<Longrightarrow> 0 \<le> p \<Longrightarrow> \<forall>t \<in> set tips. 0 \<le> ti_grossAmountUsdCents t \<Longrightarrow> 0 \<le> p'"
  by (induction tips arbitrary: p iss) (auto simp: pool_step_def split: if_splits)

lemma engine_balanced:
  assumes "computeAllocationBatch lc tips shifts policy = Inr r" "\<forall>t \<in> set tips. 0 \<le> ti_grossAmountUsdCents t"
    and "\<not> list_ex is_blocking (br_issues r)"
  shows "sum_list (map wr_netAllocatedUsdCents (br_allocations r)) = br_poolUsdCents r"
proof -
  obtain p iss where p: "fold (pool_step policy) tips (0, []) = (p, iss)" by fastforce
  obtain sc ids iss1 where s: "fold (shift_step policy) shifts ([], [], iss) = (sc, ids, iss1)" by (metis prod.exhaust)
  have p0: "0 \<le> p" using pool_nonneg [OF p] assms(2) by simp
  show ?thesis
  proof (cases "total_score sc = 0")
    case True
    then have "\<not> p > 0" "br_poolUsdCents r = p" "br_allocations r = []"
      using assms(1,3) by (auto simp: computeAllocationBatch_def p s Let_def list_ex_append)
    then show ?thesis using p0 by simp
  next
    case False
    then obtain allocs where al: "those (map (allocation_of ids) (split_pool lc p (total_score sc) sc)) = Some allocs"
      "sum_list (map wr_pooledTipUsdCents allocs) = p" "br_allocations r = allocs" "br_poolUsdCents r = p"
      using assms(1) by (auto simp: computeAllocationBatch_def p s Let_def split: option.splits if_splits)
    have "wr_netAllocatedUsdCents a = wr_pooledTipUsdCents a" if "a \<in> set allocs" for a
    proof -
      have "Some a \<in> set (map (allocation_of ids) (split_pool lc p (total_score sc) sc))"
        using those_SomeD [OF al(1)] that by simp
      then obtain q where "allocation_of ids q = Some a" by fastforce
      then show ?thesis by (auto simp: allocation_of_def)
    qed
    then show ?thesis using al by (metis map_eq_conv)
  qed
qed

section \<open>Saving a batch\<close>

lemma save_batch_frame [simp]:
  "db_tips (save_batch n sv rs pl ex d) = db_tips d"
  "db_shifts (save_batch n sv rs pl ex d) = db_shifts d"
  "db_payouts (save_batch n sv rs pl ex d) = db_payouts d"
  "db_incomes (save_batch n sv rs pl ex d) = db_incomes d"
  by (simp_all add: save_batch_def Let_def)

lemma new_rows:
  "sum_list (map wa_netAllocatedUsdCents (map (allocation_row n bid planned) (zip [0..<length results] results)))
     = sum_list (map wr_netAllocatedUsdCents results)"
proof -
  have "map wa_netAllocatedUsdCents (map (allocation_row n bid planned) zs) = map wr_netAllocatedUsdCents (map snd zs)" for zs
    by (simp add: allocation_row_def case_prod_unfold)
  then show ?thesis by (simp only: map_snd_zip length_upt diff_zero)
qed

lemma save_batch_total:
  assumes "\<And>e. existing = Some e \<Longrightarrow> ab_id saved = ab_id e"
    and "existing = None \<Longrightarrow> \<forall>a \<in> set (db_allocations d). wa_batchId a \<noteq> ab_id saved"
  shows "filter (\<lambda>a. wa_batchId a = i) (db_allocations (save_batch n saved results planned existing d)) =
     (if i = ab_id saved then map (allocation_row n (ab_id saved) planned) (zip [0..<length results] results)
      else filter (\<lambda>a. wa_batchId a = i) (db_allocations d))"
proof -
  let ?rows = "map (allocation_row n (ab_id saved) planned) (zip [0..<length results] results)"
  have rows: "filter (\<lambda>a. wa_batchId a = i) ?rows = (if i = ab_id saved then ?rows else [])"
    by (auto simp: filter_empty_conv filter_id_conv allocation_row_def)
  show ?thesis
  proof (cases existing)
    case None
    then have "filter (\<lambda>a. wa_batchId a = ab_id saved) (db_allocations d) = []"
      using assms(2) by (simp add: filter_empty_conv)
    then show ?thesis using None rows by (simp add: save_batch_def)
  next
    case (Some e)
    have "filter (\<lambda>a. wa_batchId a = i) (delete_where (\<lambda>a. wa_batchId a = ab_id e) (db_allocations d))
      = (if i = ab_id e then [] else filter (\<lambda>a. wa_batchId a = i) (db_allocations d))"
      by (auto simp: delete_where_def filter_empty_conv intro: filter_cong)
    then show ?thesis using Some rows assms(1) by (simp add: save_batch_def)
  qed
qed

lemma save_batch_batches:
  assumes "distinct (map ab_id (db_batches d))"
    and "\<And>e. existing = Some e \<Longrightarrow> e \<in> set (db_batches d) \<and> ab_id saved = ab_id e"
  shows "set (db_batches (save_batch n saved results planned existing d)) =
     insert saved {b \<in> set (db_batches d). existing = None \<or> ab_id b \<noteq> ab_id saved}"
  using assms(2) by (cases existing) (auto simp: save_batch_def in_update_where split: if_splits)

lemma save_batch_ledger:
  assumes "ledger_inv d"
    and ex: "\<And>e. existing = Some e \<Longrightarrow> e \<in> set (db_batches d) \<and> ab_id saved = ab_id e"
    and new: "existing = None \<Longrightarrow> ab_id saved \<notin> ab_id ` set (db_batches d)"
    and bal: "balanced_status (ab_status saved) \<Longrightarrow> sum_list (map wr_netAllocatedUsdCents results) = ab_tipPoolAmountUsdCents saved"
  shows "ledger_inv (save_batch n saved results planned existing d)"
proof -
  let ?d = "save_batch n saved results planned existing d"
  have inv: "distinct (map ab_id (db_batches d))" "\<forall>a \<in> set (db_allocations d). wa_batchId a \<in> ab_id ` set (db_batches d)"
    using assms(1) by (simp_all add: ledger_inv_def)
  have tot: "filter (\<lambda>a. wa_batchId a = i) (db_allocations ?d) =
     (if i = ab_id saved then map (allocation_row n (ab_id saved) planned) (zip [0..<length results] results)
      else filter (\<lambda>a. wa_batchId a = i) (db_allocations d))" for i
    using inv(2) ex new by (intro save_batch_total) (simp, metis)
  have ids: "distinct (map ab_id (db_batches ?d))"
  proof (cases existing)
    case None
    then show ?thesis using inv(1) new by (simp add: save_batch_def)
  next
    case (Some e)
    have "map ab_id (update_where (\<lambda>b. ab_id b = ab_id e) (\<lambda>_. saved) (db_batches d)) = map ab_id (db_batches d)"
      using ex [OF Some] by (simp add: update_where_def)
    then show ?thesis using inv(1) Some by (simp add: save_batch_def)
  qed
  have bs: "set (db_batches ?d) = insert saved {b \<in> set (db_batches d). existing = None \<or> ab_id b \<noteq> ab_id saved}"
    using inv(1) ex by (rule save_batch_batches)
  have fk: "wa_batchId a \<in> ab_id ` set (db_batches ?d)" if "a \<in> set (db_allocations ?d)" for a
  proof (cases "wa_batchId a = ab_id saved")
    case True
    then show ?thesis using bs by auto
  next
    case False
    have "a \<in> set (filter (\<lambda>x. wa_batchId x = wa_batchId a) (db_allocations ?d))" using that by simp
    then have "a \<in> set (db_allocations d)" using False by (simp only: tot) simp
    then obtain b where "b \<in> set (db_batches d)" "ab_id b = wa_batchId a" using inv(2) by auto
    then have "b \<in> set (db_batches ?d)" using bs False by auto
    then show ?thesis using \<open>ab_id b = wa_batchId a\<close> by (metis imageI)
  qed
  have sums: "batch_total ?d (ab_id b) = ab_tipPoolAmountUsdCents b"
    if b: "b \<in> set (db_batches ?d)" "balanced_status (ab_status b)" for b
  proof (cases "b = saved")
    case True
    then show ?thesis using b(2) bal new_rows [of n "ab_id saved" planned results] by (simp add: batch_total_def tot)
  next
    case False
    then have bd: "b \<in> set (db_batches d)" "existing = None \<or> ab_id b \<noteq> ab_id saved" using b(1) bs by auto
    moreover have "ab_id b \<noteq> ab_id saved" using bd new by (metis imageI)
    ultimately show ?thesis using assms(1) b(2) by (simp add: batch_total_def tot ledger_inv_def)
  qed
  show ?thesis
    unfolding ledger_inv_def using ids fk sums assms(1) by (auto simp: ledger_inv_def)
qed

section \<open>Calculating\<close>

lemma saved_batch_id: "ab_id (saved_batch bid now inp by policy result eh ah existing) = (case existing of Some e \<Rightarrow> ab_id e | None \<Rightarrow> bid)"
  by (simp add: saved_batch_def Let_def split: option.splits)

lemma saved_batch_status:
  "ab_status (saved_batch bid now inp by policy result eh ah existing) = (if list_ex is_blocking (br_issues result) then REVIEW_REQUIRED else CALCULATED)"
  "ab_tipPoolAmountUsdCents (saved_batch bid now inp by policy result eh ah existing) = br_poolUsdCents result"
  by (simp_all add: saved_batch_def Let_def split: option.splits)

text \<open>A calculation fails without a write, or it saves the engine's result over a batch that was
  still open.\<close>

lemma calculate_cases:
  assumes "calculate lc eh ah new_batch new_alloc now inp by d = (r, d')"
  obtains (error) "\<not> is_ok r" "d' = d"
  | (saved) policy result existing evh alh saved where
      "batch_policy d inp = Some policy"
      "existing = find (batch_key (ci_venueId inp) (ci_businessDate inp) (pol_version policy)) (db_batches d)"
      "\<And>e. existing = Some e \<Longrightarrow> recalculable (ab_status e)"
      "computeAllocationBatch lc (map engine_tip (day_tips d inp)) (map engine_shift (day_shifts d inp)) (engine_policy policy) = Inr result"
      "saved = saved_batch new_batch now inp by policy result evh alh existing"
      "d' = save_batch new_alloc saved (br_allocations result) (planned_rails (day_shifts d inp)) existing d"
      "r = getBatch (ab_id saved) d'"
proof -
  let ?ex = "\<lambda>policy. find (batch_key (ci_venueId inp) (ci_businessDate inp) (pol_version policy)) (db_batches d)"
  show thesis
  proof (cases "find_venue d (ci_venueId inp)")
    case None
    then show thesis using assms by (intro error) (auto simp: calculate_def)
  next
    case v: (Some v)
    show thesis
    proof (cases "batch_policy d inp")
      case None
      then show thesis using assms v by (intro error) (auto simp: calculate_def)
    next
      case pol: (Some policy)
      show thesis
      proof (cases "day_tips d inp = [] \<and> day_shifts d inp = []
          \<or> (case ?ex policy of Some e \<Rightarrow> \<not> recalculable (ab_status e) | None \<Rightarrow> False)")
        case True
        then show thesis using assms v pol by (intro error) (auto simp: calculate_def Let_def split: if_splits)
      next
        case opn: False
        show thesis
        proof (cases "computeAllocationBatch lc (map engine_tip (day_tips d inp)) (map engine_shift (day_shifts d inp)) (engine_policy policy)")
          case (Inl e)
          then show thesis using assms v pol opn by (intro error) (auto simp: calculate_def Let_def)
        next
          case (Inr result)
          have "recalculable (ab_status e)" if "?ex policy = Some e" for e using opn that by simp
          then show thesis using assms v pol opn Inr by (intro saved [OF pol refl _ Inr refl]) (auto simp: calculate_def Let_def)
        qed
      qed
    qed
  qed
qed

lemma calculate_ledger:
  assumes "ledger_inv d" "new_batch \<notin> ab_id ` set (db_batches d)"
    and "calculate lc eh ah new_batch new_alloc now inp by d = (r, d')"
  shows "ledger_inv d'"
  using assms(3)
proof (cases rule: calculate_cases)
  case error
  then show ?thesis using assms(1) by simp
next
  case (saved policy result existing evh alh sv)
  have nn: "\<forall>t \<in> set (map engine_tip (day_tips d inp)). 0 \<le> ti_grossAmountUsdCents t"
    using assms(1) by (auto simp: ledger_inv_def engine_tip_def day_tips_def)
  show ?thesis unfolding saved(6)
  proof (rule save_batch_ledger [OF assms(1)])
    show "e \<in> set (db_batches d) \<and> ab_id sv = ab_id e" if "existing = Some e" for e
      using that saved(2,5) by (auto simp: saved_batch_id dest: find_SomeD)
    show "ab_id sv \<notin> ab_id ` set (db_batches d)" if "existing = None"
      using that saved(5) assms(2) by (simp add: saved_batch_id)
    show "sum_list (map wr_netAllocatedUsdCents (br_allocations result)) = ab_tipPoolAmountUsdCents sv"
      if "balanced_status (ab_status sv)"
      using that engine_balanced [OF saved(4) nn] saved(5)
      by (auto simp: saved_batch_status balanced_status_def split: if_splits)
  qed
qed

lemma calculate_untouched:
  assumes "ledger_inv d" "new_batch \<notin> ab_id ` set (db_batches d)"
    and "calculate lc eh ah new_batch new_alloc now inp by d = (r, d')"
    and "b \<in> set (db_batches d)" "\<not> recalculable (ab_status b)"
  shows "b \<in> set (db_batches d')
     \<and> filter (\<lambda>a. wa_batchId a = ab_id b) (db_allocations d') = filter (\<lambda>a. wa_batchId a = ab_id b) (db_allocations d)"
  using assms(3)
proof (cases rule: calculate_cases)
  case error
  then show ?thesis using assms(4) by simp
next
  case (saved policy result existing evh alh sv)
  have ex: "e \<in> set (db_batches d) \<and> ab_id sv = ab_id e" if "existing = Some e" for e
    using that saved(2,5) by (auto simp: saved_batch_id dest: find_SomeD)
  have dist: "distinct (map ab_id (db_batches d))" and fk: "\<forall>a \<in> set (db_allocations d). wa_batchId a \<in> ab_id ` set (db_batches d)"
    using assms(1) by (simp_all add: ledger_inv_def)
  have fresh: "\<forall>a \<in> set (db_allocations d). wa_batchId a \<noteq> new_batch" using fk assms(2) by metis
  have new: "existing = None \<Longrightarrow> ab_id sv = new_batch" using saved(5) by (simp add: saved_batch_id)
  have ne: "ab_id b \<noteq> ab_id sv"
  proof (cases existing)
    case None
    then show ?thesis using new assms(2,4) by (metis imageI)
  next
    case (Some e)
    then have "b \<noteq> e" using saved(3) assms(5) by auto
    then show ?thesis using ex [OF Some] dist assms(4) by (auto simp: distinct_map dest: inj_onD)
  qed
  have "set (db_batches d') = insert sv {b \<in> set (db_batches d). existing = None \<or> ab_id b \<noteq> ab_id sv}"
    unfolding saved(6) using dist ex by (rule save_batch_batches)
  then have "b \<in> set (db_batches d')" using assms(4) ne by simp
  moreover have "filter (\<lambda>a. wa_batchId a = ab_id b) (db_allocations d') = filter (\<lambda>a. wa_batchId a = ab_id b) (db_allocations d)"
    unfolding saved(6) by (subst save_batch_total) (use ex ne new fresh in auto)
  ultimately show ?thesis ..
qed

lemma calculate_batch_ids:
  assumes "ledger_inv d" "calculate lc eh ah new_batch new_alloc now inp by d = (r, d')"
  shows "ab_id ` set (db_batches d') \<subseteq> insert new_batch (ab_id ` set (db_batches d))"
  using assms(2)
proof (cases rule: calculate_cases)
  case error
  then show ?thesis by auto
next
  case (saved policy result existing evh alh sv)
  have ex: "e \<in> set (db_batches d) \<and> ab_id sv = ab_id e" if "existing = Some e" for e
    using that saved(2,5) by (auto simp: saved_batch_id dest: find_SomeD)
  have dist: "distinct (map ab_id (db_batches d))" using assms(1) by (simp add: ledger_inv_def)
  have "set (db_batches d') = insert sv {b \<in> set (db_batches d). existing = None \<or> ab_id b \<noteq> ab_id sv}"
    unfolding saved(6) using dist ex by (rule save_batch_batches)
  moreover have "ab_id sv \<in> insert new_batch (ab_id ` set (db_batches d))"
    using ex saved(5) by (cases existing) (auto simp: saved_batch_id)
  ultimately show ?thesis by auto
qed

text \<open>(C3) Calculating a batch keeps the ledger: whatever the outcome, the allocations of every batch
  past review still add up to its pool, and a batch that has been approved (any status other than
  draft, calculated or review-required) is left exactly as it was, allocations included.\<close>

theorem calculate_keeps_ledger:
  assumes "ledger_inv d" "new_batch \<notin> ab_id ` set (db_batches d)"
    and "calculate lc eh ah new_batch new_alloc now inp by d = (r, d')"
    and "b \<in> set (db_batches d)" "\<not> recalculable (ab_status b)"
  shows "ledger_inv d' \<and> b \<in> set (db_batches d')
     \<and> filter (\<lambda>a. wa_batchId a = ab_id b) (db_allocations d') = filter (\<lambda>a. wa_batchId a = ab_id b) (db_allocations d)"
  using calculate_ledger [OF assms(1-3)] calculate_untouched [OF assms] by simp

text \<open>A small database: one venue with a policy, a tip and a mapped shift on one day, and an earlier
  batch that has been paid.\<close>

definition demo_batch :: allocation_batch where
  "demo_batch = \<lparr>ab_id = ''b0'', ab_venueId = ''v1'', ab_businessDate = ''2026-01-01'', ab_tipPoolAmountUsdCents = 500,
     ab_policyId = ''p1'', ab_policyVersion = 1, ab_status = BatchPAID, ab_evidenceHash = None, ab_allocationHash = None,
     ab_reviewIssues = [], ab_calculatedAt = None, ab_calculatedBy = None, ab_approvedAt = None, ab_approvedBy = None\<rparr>"

definition demo_allocation :: worker_allocation where
  "demo_allocation = \<lparr>wa_id = ''a0'', wa_batchId = ''b0'', wa_workerId = Some ''w1'', wa_provider = None,
     wa_externalWorkerId = None, wa_pooledTipUsdCents = 500, wa_netAllocatedUsdCents = 500,
     wa_plannedPayoutRail = None, wa_payoutRail = None, wa_payoutStatus = UNPAID\<rparr>"

definition demo_db :: db where
  "demo_db = empty_db\<lparr>
     db_venues := [\<lparr>ven_id = ''v1'', ven_organizationId = ''o1'', ven_name = ''Bar'', ven_timezone = ''UTC'', ven_payoutSignerWallet = Some ''S'',
        ven_vaultTokenAccount = None, ven_externalIds = []\<rparr>],
     db_policies := [\<lparr>pol_id = ''p1'', pol_venueId = ''v1'', pol_version = 1, pol_status = PolicyACTIVE,
        pol_allocationType = ROLE_WEIGHTED_HOURS, pol_roleWeights = [(''server'', 1)], pol_poolInclusion = [(CARD_TIP, True)],
        pol_excludedRoles = [], pol_tipOutRules = [], pol_effectiveFrom = 0, pol_effectiveTo = None, pol_createdBy = ''u1''\<rparr>],
     db_tips := [\<lparr>te_id = ''t1'', te_provider = ''csv'', te_ingestSource = CSV_UPLOAD, te_venueId = ''v1'',
        te_externalPaymentId = ''csv:s1'', te_externalOrderId = None, te_tipType = CARD_TIP, te_grossAmountUsdCents = 1000, te_paymentStatus = PaymentCOMPLETED,
        te_refundStatus = RefundNONE, te_businessDate = ''2026-01-02'', te_sourceHash = ''h1'', te_sourcePayoutRail = None,
        te_sourcePayrollStatus = None\<rparr>],
     db_shifts := [\<lparr>se_id = ''s1'', se_provider = ''csv'', se_ingestSource = CSV_UPLOAD, se_venueId = ''v1'', se_externalShiftId = ''s1'',
        se_externalWorkerId = ''e1'', se_mappedWorkerId = Some ''w1'', se_role = ''server'', se_clockIn = 0,
        se_clockOut = Some 28800000, se_workedMinutes = 480, se_shiftStatus = ShiftCOMPLETED, se_businessDate = ''2026-01-02'',
        se_sourceHash = ''h2'', se_sourcePayoutRail = Some USDC, se_sourcePayrollStatus = None\<rparr>],
     db_batches := [demo_batch], db_allocations := [demo_allocation]\<rparr>"

lemma demo_db_ledger: "ledger_inv demo_db"
  by (simp add: ledger_inv_def demo_db_def demo_batch_def demo_allocation_def empty_db_def batch_total_def balanced_status_def)

definition demo_input :: calculate_input where
  "demo_input = \<lparr>ci_venueId = ''v1'', ci_businessDate = ''2026-01-02'', ci_policyVersion = None\<rparr>"

theorem calculate_keeps_ledger_witness:
  "ledger_inv (snd (calculate lc_ascii (\<lambda>_ _. ''e'') (\<lambda>_ _ _. ''a'') ''b1'' (\<lambda>_. ''a1'') 0 demo_input (Some ''u1'') demo_db))"
  using calculate_keeps_ledger [OF demo_db_ledger _ prod.collapse [symmetric], of "''b1''" demo_batch]
  by (simp add: demo_db_def demo_batch_def recalculable_def)

section \<open>Approving and rejecting\<close>

lemma find_batch_update:
  "(\<And>b. ab_id (f b) = ab_id b) \<Longrightarrow> find_batch (update_batch j f d) i = map_option (\<lambda>b. if ab_id b = j then f b else b) (find_batch d i)"
  by (simp add: find_batch_def update_batch_def find_update_where)

lemma update_batch_frame [simp]:
  "db_allocations (update_batch i f d) = db_allocations d" "db_tips (update_batch i f d) = db_tips d"
  "db_payouts (update_batch i f d) = db_payouts d" "db_audit (update_batch i f d) = db_audit d"
  "db_venues (update_batch i f d) = db_venues d" "db_shifts (update_batch i f d) = db_shifts d"
  "db_incomes (update_batch i f d) = db_incomes d" "db_alerts (update_batch i f d) = db_alerts d"
  "db_batches (update_batch i f d) = update_where (\<lambda>b. ab_id b = i) f (db_batches d)"
  by (simp_all add: update_batch_def)

lemma write_audit_find_batch [simp]: "find_batch (write_audit v a ac t e j d) i = find_batch d i"
  by (simp add: find_batch_def)

lemma find_batchD: "find_batch d i = Some b \<Longrightarrow> b \<in> set (db_batches d) \<and> ab_id b = i"
  by (auto simp: find_batch_def dest: find_SomeD)

lemma update_batch_ledger:
  assumes "ledger_inv d" "find_batch d i = Some b"
    and "\<And>b. ab_id (f b) = ab_id b \<and> ab_tipPoolAmountUsdCents (f b) = ab_tipPoolAmountUsdCents b"
    and "balanced_status (ab_status (f b)) \<Longrightarrow> balanced_status (ab_status b)"
  shows "ledger_inv (update_batch i f d)"
proof (rule ledger_inv_view [OF assms(1)])
  show "ledger_view (update_batch i f d) = ledger_view d"
    using assms(3) by (auto simp: ledger_view_def update_where_def)
  show "\<exists>c \<in> set (db_batches d). ab_id c = ab_id b' \<and> balanced_status (ab_status c)"
    if b': "b' \<in> set (db_batches (update_batch i f d))" "balanced_status (ab_status b')" for b'
  proof -
    obtain c where c: "c \<in> set (db_batches d)" "b' = (if ab_id c = i then f c else c)"
      using b'(1) by (auto simp: in_update_where)
    show ?thesis
    proof (cases "ab_id c = i")
      case True
      then have "c = b" using assms(1) c(1) find_batchD [OF assms(2)] by (auto simp: ledger_inv_def distinct_map dest: inj_onD)
      then show ?thesis using True assms(3,4) b'(2) c by auto
    next
      case False
      then show ?thesis using c b'(2) by auto
    qed
  qed
qed

lemma ledger_audit [simp]: "ledger_inv (write_audit v a ac t e j d) = ledger_inv d"
  by (simp add: ledger_inv_def batch_total_def)

text \<open>(C23) The approval gate.  A batch becomes payable exactly when a calculated one is approved, and
  goes back to draft exactly when a calculated or review-required one is rejected; the approval is
  recorded with its author and an audit entry; any other request fails and writes nothing; the
  allocations are never touched and the ledger stays balanced.\<close>

theorem approval_gate:
  assumes "ledger_inv d" "find_batch d i = Some b"
  shows "(case approve i u now d of (r, d') \<Rightarrow>
           (is_ok r \<longleftrightarrow> ab_status b = CALCULATED)
         \<and> (if is_ok r
            then find_batch d' i = Some (b\<lparr>ab_status := PAYABLE, ab_approvedBy := Some u, ab_approvedAt := Some now\<rparr>)
               \<and> (\<exists>al. db_audit d' = db_audit d @ [al] \<and> al_actorUserId al = Some u \<and> al_entityId al = Some i)
            else d' = d)
         \<and> db_allocations d' = db_allocations d \<and> ledger_inv d')
     \<and> (case reject i u reason d of (r, d') \<Rightarrow>
           (is_ok r \<longleftrightarrow> ab_status b \<in> {CALCULATED, REVIEW_REQUIRED})
         \<and> (if is_ok r then find_batch d' i = Some (b\<lparr>ab_status := BatchDRAFT\<rparr>) else d' = d)
         \<and> db_allocations d' = db_allocations d \<and> ledger_inv d')"
proof -
  have id: "ab_id b = i" using find_batchD [OF assms(2)] by simp
  let ?f = "\<lambda>b. b\<lparr>ab_status := PAYABLE, ab_approvedBy := Some u, ab_approvedAt := Some now\<rparr>"
  let ?g = "\<lambda>b. b\<lparr>ab_status := BatchDRAFT\<rparr>"
  have "ledger_inv (update_batch i ?f d)" if "ab_status b = CALCULATED"
    using that by (intro update_batch_ledger [OF assms]) (simp_all add: balanced_status_def)
  moreover have "ledger_inv (update_batch i ?g d)"
    by (intro update_batch_ledger [OF assms]) (simp_all add: balanced_status_def)
  ultimately show ?thesis
    using assms id by (auto simp: approve_def reject_def find_batch_update Let_def) (simp_all add: write_audit_def)
qed

theorem approval_gate_witness:
  "\<not> is_ok (fst (approve ''b0'' ''u1'' 5 demo_db)) \<and> \<not> is_ok (fst (reject ''b0'' ''u1'' ''x'' demo_db))"
  using approval_gate [OF demo_db_ledger, where i = "''b0''" and b = demo_batch and u = "''u1''" and now = 5 and reason = "''x''"]
  by (auto simp: find_batch_def demo_db_def demo_batch_def split: prod.splits)

section \<open>Choosing rails\<close>

text \<open>What \<open>autoAssignRails\<close> is meant to do to one allocation.\<close>

definition unassigned :: "id \<Rightarrow> worker_allocation \<Rightarrow> bool" where
  "unassigned batchId a \<longleftrightarrow> wa_batchId a = batchId \<and> truthy (wa_workerId a)
     \<and> wa_plannedPayoutRail a = None \<and> wa_payoutStatus a \<noteq> AllocPAID"

definition auto_rail :: "db \<Rightarrow> worker_allocation \<Rightarrow> payout_rail" where
  "auto_rail d a = (case default_wallet d (wa_workerId a) of
      Some w \<Rightarrow> if wal_status w = WalletACTIVE then USDC else PAYROLL | None \<Rightarrow> PAYROLL)"

lemma auto_assignments_alt:
  "auto_assignments d i = map (\<lambda>a. (wa_id a, auto_rail d a)) (filter (unassigned i) (db_allocations d))"
  by (simp add: auto_assignments_def unassigned_def [abs_def] auto_rail_def)

lemma fold_assign:
  assumes "distinct (map fst asg)"
  shows "db_allocations (fold (\<lambda>(i, rail). update_allocation i (\<lambda>a. a\<lparr>wa_plannedPayoutRail := Some rail\<rparr>)) asg d) =
     map (\<lambda>a. case map_of asg (wa_id a) of Some rail \<Rightarrow> a\<lparr>wa_plannedPayoutRail := Some rail\<rparr> | None \<Rightarrow> a) (db_allocations d)"
  using assms
proof (induction asg arbitrary: d)
  case (Cons p asg)
  obtain i rail where p: "p = (i, rail)" by fastforce
  have "map_of asg i = None" using Cons.prems p by (simp add: map_of_eq_None_iff)
  then show ?case
    using Cons.IH [of "update_allocation i (\<lambda>a. a\<lparr>wa_plannedPayoutRail := Some rail\<rparr>) d"] Cons.prems
    by (auto simp: p update_allocation_def update_where_def)
qed simp

lemma map_of_rows:
  assumes "distinct (map k xs)" "x \<in> set xs"
  shows "map_of (map (\<lambda>y. (k y, v y)) (filter P xs)) (k x) = (if P x then Some (v x) else None)"
  using assms
proof (induction xs)
  case (Cons a xs)
  show ?case
  proof (cases "x = a")
    case True
    have "k a \<notin> k ` set xs" using Cons.prems(1) by simp
    then have "map_of (map (\<lambda>y. (k y, v y)) (filter P xs)) (k a) = None" by (auto simp: map_of_eq_None_iff)
    with True show ?thesis by simp
  next
    case False
    then have "x \<in> set xs" "k x \<noteq> k a" using Cons.prems by (auto, metis imageI)
    then show ?thesis using Cons by simp
  qed
qed simp

text \<open>\<open>autoAssignRails\<close> fills only unassigned rails: every unpaid allocation of the batch that has
  a worker and no planned rail gets USDC when the worker's default wallet is active and payroll
  otherwise; explicit choices, paid rows, held shares and other batches are untouched, and the
  reported counts are those of the rows it changed.\<close>

theorem autoAssign_fills_unassigned:
  assumes "distinct (map wa_id (db_allocations d))" "find_batch d i = Some b"
    and "autoAssignRails i actor d = (r, d')"
  shows "db_allocations d' = map (\<lambda>a. if unassigned i a then a\<lparr>wa_plannedPayoutRail := Some (auto_rail d a)\<rparr> else a) (db_allocations d)
     \<and> (\<exists>v. r = Inr v \<and> aa_assigned v = length (filter (unassigned i) (db_allocations d))
          \<and> aa_usdc v + aa_payroll v = aa_assigned v)"
proof -
  let ?asg = "auto_assignments d i"
  let ?d = "fold (\<lambda>(i, rail). update_allocation i (\<lambda>a. a\<lparr>wa_plannedPayoutRail := Some rail\<rparr>)) ?asg d"
  have keep: "db_batches (fold (\<lambda>(i, rail). update_allocation i (\<lambda>a. a\<lparr>wa_plannedPayoutRail := Some rail\<rparr>)) asg d) = db_batches d" for asg d
    by (induction asg arbitrary: d) (auto simp: update_allocation_def)
  have "distinct (map fst ?asg)"
    using assms(1) by (simp add: auto_assignments_alt comp_def distinct_map_filter)
  then have rows: "db_allocations ?d = map (\<lambda>a. if unassigned i a then a\<lparr>wa_plannedPayoutRail := Some (auto_rail d a)\<rparr> else a) (db_allocations d)"
    by (auto simp: fold_assign auto_assignments_alt map_of_rows [OF assms(1)])
  have none: "?d = d" if "?asg = []" using that by simp
  have len: "length (filter P ?asg) \<le> length ?asg" for P by simp
  have "d' = (if ?asg = [] then d else d')" "db_allocations d' = db_allocations ?d" "db_batches d' = db_batches d"
    using assms(2,3) none keep by (auto simp: autoAssignRails_def Let_def getBatch_def split: option.splits if_splits sum.splits)
  moreover have "\<exists>v. r = Inr v \<and> aa_assigned v = length ?asg \<and> aa_usdc v + aa_payroll v = aa_assigned v"
    using assms(2,3) len keep
    by (auto simp: autoAssignRails_def Let_def getBatch_def find_batch_def split: option.splits if_splits)
  ultimately show ?thesis using rows by (simp add: auto_assignments_alt)
qed

theorem autoAssign_fills_unassigned_witness:
  "map wa_plannedPayoutRail (db_allocations (snd (autoAssignRails ''b0'' ''u1'' demo_db))) = [Some PAYROLL]"
  using autoAssign_fills_unassigned [OF _ _ prod.collapse [symmetric], of demo_db "''b0''" demo_batch "''u1''"]
  by (simp add: demo_db_def demo_batch_def demo_allocation_def empty_db_def find_batch_def unassigned_def auto_rail_def
      default_wallet_def find_worker_def)

end
