(* ===== verification/Income_Projector.thy ===== *)
theory Income_Projector
  imports Allocations
begin

text \<open>
  \<open>packages/db/src/income-projector.ts\<close>: the materialised income view of a venue, rebuilt from its
  evidence, approved batches, payouts and payroll records under the venue's row lock, so one
  rebuild is one state update.  Amounts and weights are integers (JavaScript sums of integers
  below \<open>2 ^ 53\<close> are exact); quotients are doubles.  Parameters: \<open>noon\<close> is the instant
  \<open>new Date(`${businessDate}T12:00:00Z`)\<close>; ids of created rows are drawn from \<open>new_entry\<close> and
  \<open>new_alert\<close>.
\<close>

section \<open>Proportional split\<close>

definition fraction_cmp :: "rat \<times> nat \<Rightarrow> rat \<times> nat \<Rightarrow> rat" where
  "fraction_cmp a b = (let d = fl64 (fst b - fst a) in if d \<noteq> 0 then d else of_nat (snd a) - of_nat (snd b))"

text \<open>The \<open>for\<close> loop that hands out the remainder, one cent per step.\<close>

fun spread :: "nat list \<Rightarrow> nat \<Rightarrow> nat \<Rightarrow> int list \<Rightarrow> int list" where
  "spread order 0 cursor slices = slices"
| "spread order (Suc remainder) cursor slices =
     (let index = (if cursor < length order then order ! cursor else 0)
      in spread order remainder ((cursor + 1) mod length order) (slices[index := slices ! index + 1]))"

definition splitProportionally :: "cents \<Rightarrow> int list \<Rightarrow> int list" where
  "splitProportionally totalCents weights =
     (if weights = [] then []
      else let weightSum = foldl (\<lambda>s w. fl64 (s + of_int w)) 0 weights;
               effective = (if weightSum > 0 then map of_int weights else map (\<lambda>_. 1) weights);
               effectiveSum = (if weightSum > 0 then weightSum else of_nat (length weights));
               raw = map (\<lambda>w. fl64 (fl64 (of_int totalCents * w) / effectiveSum)) effective;
               slices = map floor raw;
               remainder = totalCents - sum_list slices;
               order = map snd (js_sort fraction_cmp (zip (map (\<lambda>v. fl64 (v - of_int \<lfloor>v\<rfloor>)) raw) [0..<length raw]))
           in spread order (nat remainder) 0 slices)"

section \<open>Grades\<close>

definition computeGrade :: "bool \<Rightarrow> bool \<Rightarrow> bool \<Rightarrow> bool \<Rightarrow> bool \<Rightarrow> bool \<Rightarrow> evidence_grade" where
  "computeGrade hasTipEvidence hasShiftEvidence hasApprovedAllocation usdcFinalized venueAttestedPayout payrollConfirmed =
     (let base = hasTipEvidence \<and> hasShiftEvidence
      in if base \<and> hasApprovedAllocation \<and> (usdcFinalized \<or> venueAttestedPayout) \<and> payrollConfirmed then GradeA
         else if base \<and> hasApprovedAllocation \<and> usdcFinalized then GradeB
         else if base \<and> hasApprovedAllocation \<and> venueAttestedPayout then GradeC
         else if base then GradeD else GradeE)"

section \<open>Shares per shift\<close>

definition get0 :: "'k \<Rightarrow> ('k \<times> cents) list \<Rightarrow> cents" where
  "get0 k m = (case map_of m k of Some v \<Rightarrow> v | None \<Rightarrow> 0)"

definition strip_csv :: "string \<Rightarrow> string" where
  "strip_csv s = (if take 4 s = ''csv:'' then drop 4 s else s)"

definition tip_key_step :: "tip_evidence \<Rightarrow> (string \<times> cents) list \<Rightarrow> (string \<times> cents) list" where
  "tip_key_step tip m =
     (if te_refundStatus tip = RefundFULL \<or> te_paymentStatus tip = PaymentCANCELED then m
      else let key = te_provider tip @ '':'' @ strip_csv (te_externalPaymentId tip)
           in map_set key (get0 key m + te_grossAmountUsdCents tip) m)"

definition group_step :: "shift_evidence \<Rightarrow> (string \<times> shift_evidence list) list \<Rightarrow> (string \<times> shift_evidence list) list" where
  "group_step shift m =
     (let key = the (se_mappedWorkerId shift) @ '':'' @ se_businessDate shift
      in map_set key ((case map_of m key of Some ss \<Rightarrow> ss | None \<Rightarrow> []) @ [shift]) m)"

definition day_batch :: "db \<Rightarrow> id \<Rightarrow> string \<Rightarrow> allocation_batch option" where
  "day_batch d venueId businessDate =
     find (\<lambda>b. ab_venueId b = venueId \<and> ab_status b \<in> {PAYABLE, PARTIALLY_PAID, BatchPAID} \<and> ab_businessDate b = businessDate)
       (db_batches d)"

definition day_allocation :: "db \<Rightarrow> id \<Rightarrow> string \<Rightarrow> id \<Rightarrow> worker_allocation option" where
  "day_allocation d venueId businessDate workerId =
     Option.bind (day_batch d venueId businessDate)
       (\<lambda>b. find (\<lambda>a. wa_batchId a = ab_id b \<and> wa_workerId a = Some workerId) (db_allocations d))"

definition finalized_payout :: "db \<Rightarrow> worker_allocation option \<Rightarrow> payout option" where
  "finalized_payout d a =
     Option.bind a (\<lambda>a. find (\<lambda>p. po_allocationId p = wa_id a \<and> po_status p = FINALIZED) (db_payouts d))"

text \<open>\<open>dayShifts.forEach\<close>: one share per shift, keyed by the shift's id.\<close>

definition set_shares :: "shift_evidence list \<Rightarrow> cents list \<Rightarrow> (id \<times> cents) list \<Rightarrow> (id \<times> cents) list" where
  "set_shares shifts slices m =
     fold (\<lambda>(i, s). map_set (se_id s) (if i < length slices then slices ! i else 0)) (zip [0..<length shifts] shifts) m"

definition share_step :: "db \<Rightarrow> id \<Rightarrow> shift_evidence list \<Rightarrow> (id \<times> cents) list \<times> (id \<times> cents) list \<Rightarrow> (id \<times> cents) list \<times> (id \<times> cents) list" where
  "share_step d venueId dayShifts acc = (case acc of (allocationShare, paidShare) \<Rightarrow>
     case dayShifts of [] \<Rightarrow> acc
     | first # _ \<Rightarrow>
         let workerId = the (se_mappedWorkerId first);
             allocation = day_allocation d venueId (se_businessDate first) workerId;
             weights = map (\<lambda>s. max (se_workedMinutes s) 0) dayShifts;
             allocationSlices = splitProportionally (case allocation of Some a \<Rightarrow> wa_netAllocatedUsdCents a | None \<Rightarrow> 0) weights;
             paidSlices = splitProportionally (case finalized_payout d allocation of Some p \<Rightarrow> po_amountUsdCents p | None \<Rightarrow> 0) weights
         in (set_shares dayShifts allocationSlices allocationShare, set_shares dayShifts paidSlices paidShare))"

definition covers :: "(string \<Rightarrow> instant) \<Rightarrow> payroll_record \<Rightarrow> id \<Rightarrow> string \<Rightarrow> bool" where
  "covers noon record workerId businessDate \<longleftrightarrow>
     pr_workerId record = workerId \<and> pr_periodStart record \<le> noon businessDate \<and> noon businessDate \<le> pr_periodEnd record"

definition payroll_step ::
  "(string \<Rightarrow> instant) \<Rightarrow> shift_evidence list \<Rightarrow> (id \<times> cents) list \<Rightarrow> payroll_record \<Rightarrow> (id \<times> cents) list \<Rightarrow> (id \<times> cents) list" where
  "payroll_step noon mappedShifts allocationShare record payrollShare =
     (let periodShifts = filter (\<lambda>s. covers noon record (the (se_mappedWorkerId s)) (se_businessDate s)) mappedShifts
      in if periodShifts = [] then payrollShare
         else set_shares periodShifts
           (splitProportionally (pr_reportedTipUsdCents record) (map (\<lambda>s. get0 (se_id s) allocationShare) periodShifts)) payrollShare)"

section \<open>Entries and alerts\<close>

record alert_data =
  ad_workerId :: "id option"
  ad_shiftId :: "id option"
  ad_type :: discrepancy_type
  ad_detail :: json

record projection =
  pj_entries :: "income_entry list"
  pj_upserted :: nat
  pj_alerts :: "alert_data list"

record shift_facts =
  sf_earned :: cents
  sf_allocated :: cents
  sf_paid :: cents
  sf_payrollReported :: cents
  sf_withholding :: withholding_status
  sf_payoutRail :: "payout_rail option"
  sf_payoutId :: "id option"
  sf_grade :: evidence_grade

text \<open>The values computed for one mapped shift, from the maps of the first part.\<close>

definition shift_facts_of ::
  "(string \<Rightarrow> instant) \<Rightarrow> db \<Rightarrow> id \<Rightarrow> (string \<times> cents) list \<Rightarrow> (id \<times> cents) list \<times> (id \<times> cents) list \<Rightarrow> (id \<times> cents) list \<Rightarrow>
   id \<Rightarrow> shift_evidence \<Rightarrow> shift_facts" where
  "shift_facts_of noon d venueId tipsByShiftKey shares payrollShare workerId shift =
     (let earned = get0 (se_provider shift @ '':'' @ se_externalShiftId shift) tipsByShiftKey;
          batch = day_batch d venueId (se_businessDate shift);
          allocation = day_allocation d venueId (se_businessDate shift) workerId;
          allocated = get0 (se_id shift) (fst shares);
          payout = finalized_payout d allocation;
          paid = get0 (se_id shift) (snd shares);
          payroll = find (\<lambda>r. pr_venueId r = venueId \<and> covers noon r workerId (se_businessDate shift)) (db_payrolls d);
          withholding = (case payroll of None \<Rightarrow> WithholdingUNKNOWN
            | Some r \<Rightarrow> if pr_federalWithholdingUsdCents r \<noteq> None \<and> pr_status r = PROVIDER_CONFIRMED
                        then WithholdingCONFIRMED else WithholdingPENDING)
      in \<lparr>sf_earned = earned, sf_allocated = allocated, sf_paid = paid,
          sf_payrollReported = (if payroll = None then 0 else get0 (se_id shift) payrollShare),
          sf_withholding = withholding,
          sf_payoutRail = (case payout of Some p \<Rightarrow> Some (po_rail p) | None \<Rightarrow> Option.bind allocation wa_payoutRail),
          sf_payoutId = map_option po_id payout,
          sf_grade = computeGrade
            (earned > 0 \<or> (case batch of Some b \<Rightarrow> ab_tipPoolAmountUsdCents b | None \<Rightarrow> 0) > 0)
            True (allocated > 0)
            (map_option po_rail payout = Some USDC)
            (case payout of Some p \<Rightarrow> po_rail p \<noteq> USDC | None \<Rightarrow> False)
            (withholding = WithholdingCONFIRMED)\<rparr>)"

definition entry_data :: "id \<Rightarrow> id \<Rightarrow> id \<Rightarrow> shift_facts \<Rightarrow> income_entry \<Rightarrow> income_entry" where
  "entry_data venueId workerId shiftId f e = e\<lparr>ie_workerId := workerId, ie_venueId := venueId, ie_shiftId := Some shiftId,
     ie_payoutId := sf_payoutId f, ie_earnedUsdCents := sf_earned f, ie_allocatedUsdCents := sf_allocated f,
     ie_paidUsdCents := sf_paid f, ie_payrollReportedUsdCents := sf_payrollReported f,
     ie_withholdingStatus := sf_withholding f, ie_payoutRail := sf_payoutRail f, ie_evidenceGrade := sf_grade f,
     ie_effectiveStatus := EntryACTIVE\<rparr>"

definition blank_entry :: "id \<Rightarrow> instant \<Rightarrow> income_entry" where
  "blank_entry i now = \<lparr>ie_id = i, ie_workerId = [], ie_venueId = [], ie_shiftId = None, ie_payoutId = None,
     ie_earnedUsdCents = 0, ie_allocatedUsdCents = 0, ie_paidUsdCents = 0, ie_payrollReportedUsdCents = 0,
     ie_withholdingStatus = WithholdingUNKNOWN, ie_payoutRail = None, ie_evidenceGrade = GradeE,
     ie_effectiveStatus = EntryACTIVE, ie_originalEntryId = None, ie_correctionOfId = None,
     ie_correctionReason = None, ie_createdAt = now\<rparr>"

text \<open>\<open>findFirst\<close> of an existing entry, then update or create.\<close>

definition upsert_entry :: "id \<Rightarrow> instant \<Rightarrow> id \<Rightarrow> id \<Rightarrow> id \<Rightarrow> shift_facts \<Rightarrow> income_entry list \<Rightarrow> income_entry list" where
  "upsert_entry new_id now venueId workerId shiftId f es =
     (case find (\<lambda>e. ie_workerId e = workerId \<and> ie_shiftId e = Some shiftId \<and> ie_correctionOfId e = None) es of
        Some x \<Rightarrow> update_where (\<lambda>e. ie_id e = ie_id x) (entry_data venueId workerId shiftId f) es
      | None \<Rightarrow> es @ [entry_data venueId workerId shiftId f (blank_entry new_id now)])"

definition gap_alerts :: "id \<Rightarrow> id \<Rightarrow> shift_facts \<Rightarrow> alert_data list" where
  "gap_alerts workerId shiftId f =
     (let mk = (\<lambda>t det. \<lparr>ad_workerId = Some workerId, ad_shiftId = Some shiftId, ad_type = t, ad_detail = JObj det\<rparr>)
      in (if sf_earned f > 0 \<and> sf_allocated f = 0
          then [mk ALLOCATION_GAP [(''earnedUsdCents'', JNum (sf_earned f)), (''allocatedUsdCents'', JNum (sf_allocated f))]] else [])
       @ (if sf_allocated f > 0 \<and> sf_paid f = 0
          then [mk PAYOUT_GAP [(''allocatedUsdCents'', JNum (sf_allocated f)), (''paidUsdCents'', JNum (sf_paid f))]] else [])
       @ (if sf_paid f > 0 \<and> sf_payrollReported f = 0
          then [mk PAYROLL_GAP [(''paidUsdCents'', JNum (sf_paid f)), (''payrollReportedUsdCents'', JNum (sf_payrollReported f)),
                  (''payoutRail'', opt_rail (sf_payoutRail f))]] else [])
       @ (if sf_payrollReported f > 0 \<and> sf_withholding f \<noteq> WithholdingCONFIRMED
          then [mk WITHHOLDING_UNKNOWN [(''payrollReportedUsdCents'', JNum (sf_payrollReported f))]] else []))"

definition project_shift ::
  "(nat \<Rightarrow> id) \<Rightarrow> instant \<Rightarrow> id \<Rightarrow> (id \<Rightarrow> shift_evidence \<Rightarrow> shift_facts) \<Rightarrow> shift_evidence \<Rightarrow> projection \<Rightarrow> projection" where
  "project_shift new_entry now venueId facts shift p =
     (if \<not> truthy (se_mappedWorkerId shift)
      then p\<lparr>pj_alerts := pj_alerts p @ [\<lparr>ad_workerId = None, ad_shiftId = Some (se_id shift), ad_type = UNMAPPED_WORKER_ALERT,
             ad_detail = JObj [(''externalWorkerId'', JStr (se_externalWorkerId shift)), (''provider'', JStr (se_provider shift))]\<rparr>]\<rparr>
      else let workerId = the (se_mappedWorkerId shift); f = facts workerId shift
           in if find (\<lambda>e. ie_workerId e = workerId \<and> ie_shiftId e = Some (se_id shift) \<and> ie_effectiveStatus e = EntrySUPERSEDED) (pj_entries p) \<noteq> None
              then p
              else p\<lparr>pj_entries := upsert_entry (new_entry (pj_upserted p)) now venueId workerId (se_id shift) f (pj_entries p),
                     pj_upserted := pj_upserted p + 1,
                     pj_alerts := pj_alerts p @ gap_alerts workerId (se_id shift) f\<rparr>)"

definition json_refund :: "refund_status \<Rightarrow> json" where
  "json_refund s = JStr (case s of RefundNONE \<Rightarrow> ''NONE'' | RefundPARTIAL \<Rightarrow> ''PARTIAL'' | RefundFULL \<Rightarrow> ''FULL'')"

definition refund_alerts :: "db \<Rightarrow> id \<Rightarrow> tip_evidence list \<Rightarrow> alert_data list" where
  "refund_alerts d venueId tips =
     map (\<lambda>t. \<lparr>ad_workerId = None, ad_shiftId = None, ad_type = REFUND_ADJUSTMENT_REQUIRED,
              ad_detail = JObj [(''tipEvidenceId'', JStr (te_id t)), (''refundStatus'', json_refund (te_refundStatus t))]\<rparr>)
       (filter (\<lambda>t. te_refundStatus t \<noteq> RefundNONE
          \<and> (case day_batch d venueId (te_businessDate t) of None \<Rightarrow> False
             | Some b \<Rightarrow> list_ex (\<lambda>a. wa_batchId a = ab_id b \<and> wa_payoutStatus a = AllocPAID) (db_allocations d))) tips)"

definition alert_row :: "(nat \<Rightarrow> id) \<Rightarrow> id \<Rightarrow> nat \<times> alert_data \<Rightarrow> discrepancy_alert" where
  "alert_row new_alert venueId na = (case na of (n, a) \<Rightarrow>
     \<lparr>da_id = new_alert n, da_workerId = ad_workerId a, da_venueId = venueId, da_shiftId = ad_shiftId a,
      da_type = ad_type a, da_detail = ad_detail a, da_resolvedAt = None\<rparr>)"

datatype projection_source = MANUAL | PAYROLL_IMPORT | SYSTEM

definition source_name :: "projection_source \<Rightarrow> string" where
  "source_name s = (case s of MANUAL \<Rightarrow> ''MANUAL'' | PAYROLL_IMPORT \<Rightarrow> ''PAYROLL_IMPORT'' | SYSTEM \<Rightarrow> ''SYSTEM'')"

text \<open>The maps of the first part of the rebuild.\<close>

definition venue_shifts :: "db \<Rightarrow> id \<Rightarrow> shift_evidence list" where
  "venue_shifts d venueId = filter (\<lambda>s. se_venueId s = venueId) (db_shifts d)"

definition mapped_shifts :: "db \<Rightarrow> id \<Rightarrow> shift_evidence list" where
  "mapped_shifts d venueId = filter (\<lambda>s. truthy (se_mappedWorkerId s)) (venue_shifts d venueId)"

definition worker_days :: "db \<Rightarrow> id \<Rightarrow> (string \<times> shift_evidence list) list" where
  "worker_days d venueId = fold group_step (mapped_shifts d venueId) []"

definition day_shares :: "db \<Rightarrow> id \<Rightarrow> (id \<times> cents) list \<times> (id \<times> cents) list" where
  "day_shares d venueId = fold (share_step d venueId) (map snd (worker_days d venueId)) ([], [])"

definition tips_by_shift :: "db \<Rightarrow> id \<Rightarrow> (string \<times> cents) list" where
  "tips_by_shift d venueId = fold tip_key_step (filter (\<lambda>t. te_venueId t = venueId) (db_tips d)) []"

definition payroll_shares :: "(string \<Rightarrow> instant) \<Rightarrow> db \<Rightarrow> id \<Rightarrow> (id \<times> cents) list" where
  "payroll_shares noon d venueId =
     fold (payroll_step noon (mapped_shifts d venueId) (fst (day_shares d venueId)))
       (filter (\<lambda>r. pr_venueId r = venueId) (db_payrolls d)) []"

definition projected :: "(string \<Rightarrow> instant) \<Rightarrow> (nat \<Rightarrow> id) \<Rightarrow> instant \<Rightarrow> id \<Rightarrow> db \<Rightarrow> projection" where
  "projected noon new_entry now venueId d =
     fold (project_shift new_entry now venueId
            (shift_facts_of noon d venueId (tips_by_shift d venueId) (day_shares d venueId) (payroll_shares noon d venueId)))
       (venue_shifts d venueId) \<lparr>pj_entries = db_incomes d, pj_upserted = 0, pj_alerts = []\<rparr>"

definition rebuildVenueIncomeLocked ::
  "(string \<Rightarrow> instant) \<Rightarrow> (nat \<Rightarrow> id) \<Rightarrow> (nat \<Rightarrow> id) \<Rightarrow> instant \<Rightarrow> id \<Rightarrow> id option \<Rightarrow> projection_source \<Rightarrow> db \<Rightarrow> (nat \<times> nat) \<times> db" where
  "rebuildVenueIncomeLocked noon new_entry new_alert now venueId actor source d =
     (let p = projected noon new_entry now venueId d;
          alerts = pj_alerts p @ refund_alerts d venueId (filter (\<lambda>t. te_venueId t = venueId) (db_tips d));
          d' = d\<lparr>db_incomes := pj_entries p,
                 db_alerts := delete_where (\<lambda>a. da_venueId a = venueId \<and> da_resolvedAt a = None) (db_alerts d)
                   @ map (alert_row new_alert venueId) (zip [0..<length alerts] alerts)\<rparr>
      in ((pj_upserted p, length alerts),
          write_audit venueId actor ''INCOME_ENTRIES_REBUILT'' ''Venue'' venueId
            (JObj [(''source'', JStr (source_name source)), (''entriesUpserted'', JNum (int (pj_upserted p))), (''alerts'', JNum (int (length alerts)))])
            d'))"

definition rebuildVenueIncome ::
  "(string \<Rightarrow> instant) \<Rightarrow> (nat \<Rightarrow> id) \<Rightarrow> (nat \<Rightarrow> id) \<Rightarrow> instant \<Rightarrow> id \<Rightarrow> id option \<Rightarrow> projection_source \<Rightarrow> db \<Rightarrow> (nat \<times> nat) option \<times> db" where
  "rebuildVenueIncome noon new_entry new_alert now venueId actor source d =
     (if find_venue d venueId = None then (None, d)
      else case rebuildVenueIncomeLocked noon new_entry new_alert now venueId actor source d of (r, d') \<Rightarrow> (Some r, d'))"

section \<open>The split is exact\<close>

lemma sum_list_step: "i < length xs \<Longrightarrow> sum_list (xs[i := xs ! i + 1]) = sum_list xs + (1 :: int)"
  by (induction xs arbitrary: i) (auto split: nat.splits)

lemma spread_props:
  assumes "slices \<noteq> []" "\<forall>i \<in> set order. i < length slices"
  shows "sum_list (spread order r cursor slices) = sum_list slices + int r
     \<and> length (spread order r cursor slices) = length slices
     \<and> ((\<forall>x \<in> set slices. 0 \<le> x) \<longrightarrow> (\<forall>x \<in> set (spread order r cursor slices). 0 \<le> x))"
  using assms
proof (induction order r cursor slices rule: spread.induct)
  case (2 order r cursor slices)
  define index where "index = (if cursor < length order then order ! cursor else 0)"
  define slices' where "slices' = slices[index := slices ! index + 1]"
  have i: "index < length slices" using "2.prems" by (auto simp: index_def)
  have len: "slices' \<noteq> []" "length slices' = length slices" using "2.prems"(1) by (auto simp: slices'_def)
  then have ih: "sum_list (spread order r ((cursor + 1) mod length order) slices') = sum_list slices' + int r
     \<and> length (spread order r ((cursor + 1) mod length order) slices') = length slices'
     \<and> ((\<forall>x \<in> set slices'. 0 \<le> x) \<longrightarrow> (\<forall>x \<in> set (spread order r ((cursor + 1) mod length order) slices'). 0 \<le> x))"
    using "2.IH" [OF index_def] "2.prems"(2) by (simp add: slices'_def)
  have "sum_list slices' = sum_list slices + 1" using i by (simp add: slices'_def sum_list_step)
  moreover have "(\<forall>x \<in> set slices. 0 \<le> x) \<longrightarrow> (\<forall>x \<in> set slices'. 0 \<le> x)"
    using i by (auto simp: slices'_def all_set_conv_all_nth nth_list_update)
  ultimately show ?case using ih len by (simp add: index_def [symmetric] slices'_def [symmetric] Let_def)
qed simp

definition weight_range :: "int list \<Rightarrow> bool" where
  "weight_range weights \<longleftrightarrow> length weights \<le> 2 ^ 16 \<and> (\<forall>w \<in> set weights. 0 \<le> w \<and> w \<le> 2 ^ 31)"

lemma int_score_range: "0 \<le> w \<Longrightarrow> w \<le> 2 ^ 31 \<Longrightarrow> score_range (2 ^ 16) (of_int w)"
proof -
  assume w: "0 \<le> w" "w \<le> 2 ^ 31"
  have "(of_int w :: rat) \<le> 2 ^ 31" using w(2) by (metis of_int_le_iff of_int_numeral of_int_power)
  also have "(2 ^ 31 :: rat) \<le> 2 powi 231" by (simp add: power_int_def)
  also have "(2 powi 231 :: rat) \<le> of_nat (2 ^ 16) * score_hi" by (simp add: score_hi_def power_int_def)
  finally have up: "(of_int w :: rat) \<le> of_nat (2 ^ 16) * score_hi" .
  have "score_lo \<le> 1" using power_int_increasing [of "- 200" 0 "2 :: rat"] by (simp add: score_lo_def)
  then have "of_int w = (0 :: rat) \<or> score_lo \<le> of_int w"
    using w(1) by (cases "w = 0") (auto intro: order_trans [of _ 1])
  then show ?thesis using up by (simp add: score_range_def)
qed

lemma fsum_map_of_int: "foldl (\<lambda>s w. fl64 (s + of_int w)) a ws = f64.fsum a (map of_int ws)"
  by (induction ws arbitrary: a) simp_all

lemma fsum_ones: "a + int n \<le> 2 ^ 53 \<Longrightarrow> 0 \<le> a \<Longrightarrow> f64.fsum (of_int a) (replicate n 1) = of_int a + of_nat n"
proof (induction n arbitrary: a)
  case (Suc n)
  have "fl64 (of_int (a + 1)) = of_int (a + 1)" using Suc.prems by (intro fl64_of_int) simp
  then show ?case using Suc.IH [of "a + 1"] Suc.prems by simp
qed simp

text \<open>Either way the quotients are shares of weights in range whose rounded sum is not zero.\<close>

lemma split_weights:
  assumes "weights \<noteq> []" "weight_range weights"
  obtains ss where "length ss = length weights" "\<And>s. s \<in> set ss \<Longrightarrow> score_range (2 ^ 16) s" "f64.fsum 0 ss \<noteq> 0"
    "\<And>amount. splitProportionally amount weights =
       (let raw = map (f64.share (of_int amount) (f64.fsum 0 ss)) ss;
            order = map snd (js_sort fraction_cmp (zip (map (\<lambda>v. fl64 (v - of_int \<lfloor>v\<rfloor>)) raw) [0..<length raw]))
        in spread order (nat (amount - sum_list (map floor raw))) 0 (map floor raw))"
proof (cases "f64.fsum 0 (map of_int weights) > 0")
  case True
  show thesis
  proof (rule that [of "map of_int weights"])
    show "score_range (2 ^ 16) s" if "s \<in> set (map of_int weights)" for s
      using that assms(2) int_score_range unfolding weight_range_def by (metis (no_types, lifting) imageE list.set_map)
    show "f64.fsum 0 (map of_int weights) \<noteq> 0" using True by simp
  qed (use assms(1) True in \<open>simp_all add: splitProportionally_def fsum_map_of_int Let_def f64.share_def comp_def\<close>)
next
  case False
  have ones: "f64.fsum 0 (replicate (length weights) 1) = of_nat (length weights)"
    using fsum_ones [of 0 "length weights"] assms(2) by (simp add: weight_range_def)
  have rep: "map (\<lambda>_. 1 :: rat) weights = replicate (length weights) 1" by (simp add: map_replicate_const)
  show thesis
  proof (rule that [of "replicate (length weights) 1"])
    show "score_range (2 ^ 16) s" if "s \<in> set (replicate (length weights) 1)" for s
      using that int_score_range [of 1] by simp
    show "f64.fsum 0 (replicate (length weights) 1) \<noteq> 0" using ones assms(1) by simp
  qed (use assms(1) False ones rep in \<open>simp_all add: splitProportionally_def fsum_map_of_int Let_def f64.share_def comp_def del: map_replicate\<close>)
qed

lemma split_exact:
  assumes "weights \<noteq> []" "weight_range weights" "0 \<le> amount" "amount \<le> 2 ^ 31"
  shows "sum_list (splitProportionally amount weights) = amount
     \<and> length (splitProportionally amount weights) = length weights
     \<and> (\<forall>x \<in> set (splitProportionally amount weights). 0 \<le> x)"
proof -
  obtain ss where ss: "length ss = length weights" "\<And>s. s \<in> set ss \<Longrightarrow> score_range (2 ^ 16) s" "f64.fsum 0 ss \<noteq> 0"
    and sp: "splitProportionally amount weights =
       (let raw = map (f64.share (of_int amount) (f64.fsum 0 ss)) ss;
            order = map snd (js_sort fraction_cmp (zip (map (\<lambda>v. fl64 (v - of_int \<lfloor>v\<rfloor>)) raw) [0..<length raw]))
        in spread order (nat (amount - sum_list (map floor raw))) 0 (map floor raw))"
    by (rule split_weights [OF assms(1,2)]) blast
  define raw where "raw = map (f64.share (of_int amount) (f64.fsum 0 ss)) ss"
  define order where "order = map snd (js_sort fraction_cmp (zip (map (\<lambda>v. fl64 (v - of_int \<lfloor>v\<rfloor>)) raw) [0..<length raw]))"
  have len: "length ss \<le> 2 ^ 16" "ss \<noteq> []" using ss(1) assms(1,2) by (auto simp: weight_range_def)
  have near: "\<bar>sum_list (map (f64.share (of_int amount) (f64.fsum 0 ss)) ss) - of_int amount\<bar> < 1"
    using shares_near_pool [OF assms(3,4) len(1) ss(2,3)] .
  have low: "sum_list (map floor raw) \<le> amount"
    using f64.sum_floor_near(1) [OF near len(2)] by (simp add: raw_def comp_def)
  have T: "0 \<le> f64.fsum 0 ss" using ss(2) score_range_nonneg by (intro fsum_nonneg) auto
  have nn: "\<forall>x \<in> set (map floor raw). 0 \<le> x"
    using ss(2) score_range_nonneg assms(3) T by (auto simp: raw_def intro!: f64.share_nonneg)
  have ord: "\<forall>i \<in> set order. i < length (map floor raw)"
    by (auto simp: order_def dest: set_zip_rightD)
  have "map floor raw \<noteq> []" using len by (simp add: raw_def)
  from spread_props [OF this ord, of "nat (amount - sum_list (map floor raw))" 0] low nn
  show ?thesis unfolding sp by (simp add: Let_def raw_def [symmetric] order_def [symmetric] ss(1)) (simp add: raw_def ss(1))
qed

text \<open>Splitting an amount over a worker's shifts loses nothing: for weights (worked minutes or
  cents) and a total that fit their 32-bit columns, the slices are non-negative, one per shift, and
  add up to the total, whether or not any weight is positive.\<close>

theorem splitProportionally_exact:
  assumes "weights \<noteq> []" "length weights \<le> 2 ^ 16" "\<forall>w \<in> set weights. 0 \<le> w \<and> w \<le> 2 ^ 31"
    and "0 \<le> amount" "amount \<le> 2 ^ 31"
  shows "sum_list (splitProportionally amount weights) = amount
     \<and> length (splitProportionally amount weights) = length weights
     \<and> (\<forall>x \<in> set (splitProportionally amount weights). 0 \<le> x)"
  using assms by (intro split_exact) (simp_all add: weight_range_def)

theorem splitProportionally_exact_witness: "sum_list (splitProportionally 1000 [480, 0, 241]) = 1000"
  using splitProportionally_exact [of "[480, 0, 241]" 1000] by simp

section \<open>A worker's day adds up\<close>

definition day_key :: "shift_evidence \<Rightarrow> string" where
  "day_key s = the (se_mappedWorkerId s) @ '':'' @ se_businessDate s"

lemma map_of_group_fold:
  "map_of (fold group_step ss m) k =
     (let old = (case map_of m k of Some xs \<Rightarrow> xs | None \<Rightarrow> []); new = filter (\<lambda>s. day_key s = k) ss
      in if new = [] then map_of m k else Some (old @ new))"
proof (induction ss arbitrary: m)
  case (Cons s ss)
  have "group_step s m = map_set (day_key s) ((case map_of m (day_key s) of Some xs \<Rightarrow> xs | None \<Rightarrow> []) @ [s]) m"
    by (simp add: group_step_def day_key_def Let_def)
  then show ?case by (simp only: fold.simps comp_apply Cons.IH) (auto simp: Let_def split: option.splits)
qed (simp add: Let_def)

lemma distinct_group_fold: "distinct (map fst m) \<Longrightarrow> distinct (map fst (fold group_step ss m))"
  by (induction ss arbitrary: m) (auto simp: group_step_def Let_def)

lemma worker_day_group:
  assumes "(k, ds) \<in> set (worker_days d v)"
  shows "ds = filter (\<lambda>s. day_key s = k) (mapped_shifts d v)"
proof -
  have "distinct (map fst (worker_days d v))" by (simp add: worker_days_def distinct_group_fold)
  then have "map_of (worker_days d v) k = Some ds" using assms by simp
  then show ?thesis by (simp add: worker_days_def map_of_group_fold Let_def split: if_splits)
qed

lemma set_shares_other: "i \<notin> se_id ` set ds \<Longrightarrow> map_of (set_shares ds sl m) i = map_of m i"
proof -
  have "map_of (fold (\<lambda>(i, s). map_set (se_id s) (f i)) ps m) i = map_of m i"
    if "i \<notin> (se_id \<circ> snd) ` set ps" for ps :: "(nat \<times> shift_evidence) list" and f :: "nat \<Rightarrow> cents" and m
    using that by (induction ps arbitrary: m) (auto simp: case_prod_unfold)
  moreover assume "i \<notin> se_id ` set ds"
  ultimately show ?thesis unfolding set_shares_def by (force dest: set_zip_rightD)
qed

lemma set_shares_snoc:
  "set_shares (ds @ [s]) sl m = map_set (se_id s) (if length ds < length sl then sl ! length ds else 0) (set_shares ds sl m)"
  by (simp add: set_shares_def)

lemma set_shares_same:
  assumes "distinct (map se_id ds)" "length sl = length ds"
  shows "map (\<lambda>s. get0 (se_id s) (set_shares ds sl m)) ds = sl"
proof -
  have "map (\<lambda>s. get0 (se_id s) (set_shares ds sl m)) ds = take (length ds) sl" if "length ds \<le> length sl" for sl
    using assms(1) that
  proof (induction ds arbitrary: sl rule: rev_induct)
    case (snoc s ds)
    have ne: "se_id x \<noteq> se_id s" if "x \<in> set ds" for x using snoc.prems(1) that by (metis (no_types, lifting) distinct_append image_eqI list.set_map map_append not_distinct_conv_prefix list.simps(8,9))
    have "map (\<lambda>x. get0 (se_id x) (set_shares (ds @ [s]) sl m)) ds = map (\<lambda>x. get0 (se_id x) (set_shares ds sl m)) ds"
      using ne by (intro map_cong) (auto simp: set_shares_snoc get0_def)
    also have "\<dots> = take (length ds) sl" using snoc by simp
    finally have pre: "map (\<lambda>x. get0 (se_id x) (set_shares (ds @ [s]) sl m)) ds = take (length ds) sl" .
    have "get0 (se_id s) (set_shares (ds @ [s]) sl m) = sl ! length ds"
      using snoc.prems(2) by (simp add: set_shares_snoc get0_def)
    then show ?case using snoc.prems(2) pre by (simp add: take_Suc_conv_app_nth)
  qed simp
  from this [of sl] show ?thesis using assms(2) by simp
qed

text \<open>The slices the rebuild computes for the shifts of one worker and day.\<close>

definition alloc_slices :: "db \<Rightarrow> id \<Rightarrow> shift_evidence list \<Rightarrow> cents list" where
  "alloc_slices d v ds = splitProportionally
     (case day_allocation d v (se_businessDate (hd ds)) (the (se_mappedWorkerId (hd ds))) of Some a \<Rightarrow> wa_netAllocatedUsdCents a | None \<Rightarrow> 0)
     (map (\<lambda>s. max (se_workedMinutes s) 0) ds)"

definition paid_slices :: "db \<Rightarrow> id \<Rightarrow> shift_evidence list \<Rightarrow> cents list" where
  "paid_slices d v ds = splitProportionally
     (case finalized_payout d (day_allocation d v (se_businessDate (hd ds)) (the (se_mappedWorkerId (hd ds)))) of Some p \<Rightarrow> po_amountUsdCents p | None \<Rightarrow> 0)
     (map (\<lambda>s. max (se_workedMinutes s) 0) ds)"

lemma share_step_eq:
  "ds \<noteq> [] \<Longrightarrow> share_step d v ds (A, P) = (set_shares ds (alloc_slices d v ds) A, set_shares ds (paid_slices d v ds) P)"
  by (cases ds) (simp_all add: share_step_def alloc_slices_def paid_slices_def Let_def)

lemma share_fold_other:
  assumes "\<forall>ds \<in> set gs. i \<notin> se_id ` set ds"
  shows "map_of (fst (fold (share_step d v) gs acc)) i = map_of (fst acc) i"
    and "map_of (snd (fold (share_step d v) gs acc)) i = map_of (snd acc) i"
proof -
  have "map_of (fst (fold (share_step d v) gs acc)) i = map_of (fst acc) i
    \<and> map_of (snd (fold (share_step d v) gs acc)) i = map_of (snd acc) i"
    using assms
  proof (induction gs arbitrary: acc)
    case (Cons g gs)
    obtain A P where acc: "acc = (A, P)" by fastforce
    show ?case
    proof (cases "g = []")
      case True
      then show ?thesis using Cons by (simp add: share_step_def acc)
    next
      case False
      then show ?thesis using Cons by (simp add: share_step_eq acc set_shares_other)
    qed
  qed simp
  then show "map_of (fst (fold (share_step d v) gs acc)) i = map_of (fst acc) i"
    "map_of (snd (fold (share_step d v) gs acc)) i = map_of (snd acc) i" by simp_all
qed

lemma share_fold_group:
  assumes "distinct (map fst gs)" "(k, ds) \<in> set gs" "distinct (map se_id ds)" "ds \<noteq> []"
    and sep: "\<And>k' ds' k ds s s'. (k', ds') \<in> set gs \<Longrightarrow> (k, ds) \<in> set gs \<Longrightarrow> k' \<noteq> k \<Longrightarrow> s \<in> set ds \<Longrightarrow> s' \<in> set ds' \<Longrightarrow> se_id s \<noteq> se_id s'"
    and "length (alloc_slices d v ds) = length ds" "length (paid_slices d v ds) = length ds"
  shows "map (\<lambda>s. get0 (se_id s) (fst (fold (share_step d v) (map snd gs) acc))) ds = alloc_slices d v ds
     \<and> map (\<lambda>s. get0 (se_id s) (snd (fold (share_step d v) (map snd gs) acc))) ds = paid_slices d v ds"
proof -
  obtain gs1 gs2 where gs: "gs = gs1 @ (k, ds) # gs2" using assms(2) by (auto dest: split_list)
  obtain A P where acc': "fold (share_step d v) (map snd gs1) acc = (A, P)" by fastforce
  have later: "se_id s \<notin> se_id ` set g" if sg: "s \<in> set ds" "g \<in> set (map snd gs2)" for s g
  proof -
    obtain k' where k': "(k', g) \<in> set gs2" using sg(2) by auto
    then have "k' \<noteq> k" using assms(1) gs by force
    then show ?thesis using sep [of k' g k ds s] k' sg gs by auto
  qed
  have "get0 (se_id s) (fst (fold (share_step d v) (map snd gs) acc)) = get0 (se_id s) (set_shares ds (alloc_slices d v ds) A)
    \<and> get0 (se_id s) (snd (fold (share_step d v) (map snd gs) acc)) = get0 (se_id s) (set_shares ds (paid_slices d v ds) P)"
    if "s \<in> set ds" for s
    using later [OF that] share_fold_other [of "map snd gs2" "se_id s" d v] assms(4)
    by (simp add: gs acc' share_step_eq get0_def)
  then show ?thesis
    using set_shares_same [OF assms(3) assms(6), of A] set_shares_same [OF assms(3) assms(7), of P] by (simp cong: map_cong)
qed

text \<open>The shifts of a worker on a day: the group of their key, as long as the key can be read back.\<close>

definition shifts_of :: "db \<Rightarrow> id \<Rightarrow> id \<Rightarrow> string \<Rightarrow> shift_evidence list" where
  "shifts_of d venueId workerId businessDate =
     filter (\<lambda>s. se_mappedWorkerId s = Some workerId \<and> se_businessDate s = businessDate) (venue_shifts d venueId)"

definition no_colon :: "id \<Rightarrow> bool" where
  "no_colon w \<longleftrightarrow> CHR '':'' \<notin> set w"

lemma key_split: "no_colon w \<Longrightarrow> no_colon w' \<Longrightarrow> w @ '':'' @ b = w' @ '':'' @ b' \<longleftrightarrow> w = w' \<and> b = b'"
proof (induction w arbitrary: w')
  case Nil
  then show ?case by (cases w') (auto simp: no_colon_def)
next
  case (Cons c w)
  then show ?case by (cases w') (auto simp: no_colon_def)
qed

definition ids_ok :: "db \<Rightarrow> id \<Rightarrow> bool" where
  "ids_ok d venueId \<longleftrightarrow> distinct (map se_id (db_shifts d))
     \<and> (\<forall>s \<in> set (mapped_shifts d venueId). no_colon (the (se_mappedWorkerId s)))"

lemma shifts_of_group:
  assumes "ids_ok d v" "w \<noteq> []" "shifts_of d v w b \<noteq> []"
  shows "(w @ '':'' @ b, shifts_of d v w b) \<in> set (worker_days d v)"
proof -
  have sub: "s \<in> set (mapped_shifts d v)" if "s \<in> set (shifts_of d v w b)" for s
    using that assms(2) by (auto simp: shifts_of_def mapped_shifts_def)
  obtain s0 where s0: "s0 \<in> set (shifts_of d v w b)" using assms(3) by (cases "shifts_of d v w b") auto
  then have "se_mappedWorkerId s0 = Some w" by (simp add: shifts_of_def)
  then have nw: "no_colon w" using assms(1) sub [OF s0] by (auto simp: ids_ok_def)
  have "filter (\<lambda>s. day_key s = w @ '':'' @ b) (mapped_shifts d v) = shifts_of d v w b"
    unfolding shifts_of_def mapped_shifts_def filter_filter
  proof (rule filter_cong [OF refl])
    fix s assume s: "s \<in> set (venue_shifts d v)"
    show "(truthy (se_mappedWorkerId s) \<and> day_key s = w @ '':'' @ b) = (se_mappedWorkerId s = Some w \<and> se_businessDate s = b)"
    proof (cases "truthy (se_mappedWorkerId s)")
      case True
      then obtain x where x: "se_mappedWorkerId s = Some x" by (cases "se_mappedWorkerId s") auto
      have "s \<in> set (mapped_shifts d v)" using s True by (simp add: mapped_shifts_def)
      then have "no_colon x" using assms(1) x by (auto simp: ids_ok_def)
      then show ?thesis using x key_split [of x w] nw True by (simp add: day_key_def)
    next
      case False
      then show ?thesis using assms(2) by auto
    qed
  qed
  then have "map_of (worker_days d v) (w @ '':'' @ b) = Some (shifts_of d v w b)"
    using assms(3) by (simp add: worker_days_def map_of_group_fold)
  then show ?thesis by (rule map_of_SomeD)
qed

lemma day_shares_slices:
  assumes "ids_ok d v" "w \<noteq> []" "shifts_of d v w b \<noteq> []"
    and "length (alloc_slices d v (shifts_of d v w b)) = length (shifts_of d v w b)"
    and "length (paid_slices d v (shifts_of d v w b)) = length (shifts_of d v w b)"
  shows "map (\<lambda>s. get0 (se_id s) (fst (day_shares d v))) (shifts_of d v w b) = alloc_slices d v (shifts_of d v w b)
     \<and> map (\<lambda>s. get0 (se_id s) (snd (day_shares d v))) (shifts_of d v w b) = paid_slices d v (shifts_of d v w b)"
proof -
  have dist: "distinct (map se_id (mapped_shifts d v))" "distinct (map se_id (shifts_of d v w b))"
    using assms(1) by (simp_all add: ids_ok_def mapped_shifts_def shifts_of_def venue_shifts_def distinct_map_filter)
  have sep: "se_id s \<noteq> se_id s'"
    if g: "(k', ds') \<in> set (worker_days d v)" "(k, ds) \<in> set (worker_days d v)" "k' \<noteq> k" "s \<in> set ds" "s' \<in> set ds'" for k' ds' k ds s s'
  proof -
    have "s \<in> set (mapped_shifts d v)" "day_key s = k" "s' \<in> set (mapped_shifts d v)" "day_key s' = k'"
      using worker_day_group [OF g(1)] worker_day_group [OF g(2)] g(4,5) by auto
    then show ?thesis using g(3) dist(1) by (auto simp: distinct_map dest: inj_onD)
  qed
  show ?thesis
    unfolding day_shares_def
    using share_fold_group [OF _ shifts_of_group [OF assms(1-3)] dist(2) assms(3) sep assms(4,5)]
    by (simp add: worker_days_def distinct_group_fold)
qed

text \<open>(C20) The rebuild conserves a worker's day.  For the shifts a worker has on a business date at the
  venue, the allocated amounts the projection writes add up to the worker's allocation in that
  day's approved batch (or to zero without one), and the paid amounts add up to the finalised
  payout, whatever the number of shifts and their minutes.\<close>

theorem worker_day_conserved:
  assumes "ids_ok d v" "w \<noteq> []" "shifts_of d v w b \<noteq> []"
    and "length (shifts_of d v w b) \<le> 2 ^ 16" "\<forall>s \<in> set (shifts_of d v w b). se_workedMinutes s \<le> 2 ^ 31"
    and "owed = (case day_allocation d v b w of Some a \<Rightarrow> wa_netAllocatedUsdCents a | None \<Rightarrow> 0)" "0 \<le> owed" "owed \<le> 2 ^ 31"
    and "paid = (case finalized_payout d (day_allocation d v b w) of Some p \<Rightarrow> po_amountUsdCents p | None \<Rightarrow> 0)" "0 \<le> paid" "paid \<le> 2 ^ 31"
  shows "sum_list (map (\<lambda>s. sf_allocated (shift_facts_of noon d v tipsByShift (day_shares d v) payroll w s)) (shifts_of d v w b)) = owed
     \<and> sum_list (map (\<lambda>s. sf_paid (shift_facts_of noon d v tipsByShift (day_shares d v) payroll w s)) (shifts_of d v w b)) = paid"
proof -
  let ?ds = "shifts_of d v w b"
  have "hd ?ds \<in> set ?ds" using assms(3) by simp
  then have hd: "se_businessDate (hd ?ds) = b" "se_mappedWorkerId (hd ?ds) = Some w" by (auto simp: shifts_of_def)
  have wr: "weight_range (map (\<lambda>s. max (se_workedMinutes s) 0) ?ds)" using assms(4,5) by (auto simp: weight_range_def)
  have al: "sum_list (alloc_slices d v ?ds) = owed \<and> length (alloc_slices d v ?ds) = length ?ds"
    using split_exact [OF _ wr assms(7,8)] assms(3,6) by (simp add: alloc_slices_def hd)
  have pl: "sum_list (paid_slices d v ?ds) = paid \<and> length (paid_slices d v ?ds) = length ?ds"
    using split_exact [OF _ wr assms(10,11)] assms(3,9) by (simp add: paid_slices_def hd)
  show ?thesis
    using day_shares_slices [OF assms(1-3)] al pl by (simp add: shift_facts_of_def Let_def)
qed

definition income_demo :: db where
  "income_demo = demo_db\<lparr>db_batches := [demo_batch\<lparr>ab_businessDate := ''2026-01-02''\<rparr>]\<rparr>"

theorem worker_day_conserved_witness:
  "sum_list (map (\<lambda>s. sf_allocated (shift_facts_of (\<lambda>_. 0) income_demo ''v1'' [] (day_shares income_demo ''v1'') [] ''w1'' s))
     (shifts_of income_demo ''v1'' ''w1'' ''2026-01-02'')) = 500"
proof -
  have ids: "ids_ok income_demo ''v1''"
    by (simp add: income_demo_def demo_db_def empty_db_def ids_ok_def mapped_shifts_def venue_shifts_def no_colon_def)
  have ds: "shifts_of income_demo ''v1'' ''w1'' ''2026-01-02'' = db_shifts demo_db"
    by (simp add: income_demo_def demo_db_def empty_db_def venue_shifts_def shifts_of_def)
  have al: "day_allocation income_demo ''v1'' ''2026-01-02'' ''w1'' = Some demo_allocation"
    by (simp add: income_demo_def demo_db_def demo_batch_def demo_allocation_def empty_db_def day_allocation_def day_batch_def)
  have po: "finalized_payout income_demo (Some demo_allocation) = None"
    by (simp add: income_demo_def demo_db_def empty_db_def finalized_payout_def)
  have sh: "db_shifts demo_db \<noteq> []" "length (db_shifts demo_db) \<le> 2 ^ 16" "\<forall>s \<in> set (db_shifts demo_db). se_workedMinutes s \<le> 2 ^ 31"
    by (simp_all add: demo_db_def empty_db_def)
  have am: "wa_netAllocatedUsdCents demo_allocation = 500" by (simp add: demo_allocation_def)
  show ?thesis
    using worker_day_conserved [OF ids, of "''w1''" "''2026-01-02''" 500 0 "\<lambda>_. 0" "[]" "[]"] sh am
    by (simp add: ds al po)
qed

section \<open>History is kept\<close>

lemma entry_data_key [simp]:
  "ie_id (entry_data v w s f e) = ie_id e" "ie_correctionOfId (entry_data v w s f e) = ie_correctionOfId e"
  by (simp_all add: entry_data_def)

lemma blank_entry_key [simp]: "ie_id (blank_entry i now) = i" "ie_correctionOfId (blank_entry i now) = None"
  by (simp_all add: blank_entry_def)

lemma upsert_entry_ids:
  "map ie_id (upsert_entry n now v w s f es) = map ie_id es \<or> map ie_id (upsert_entry n now v w s f es) = map ie_id es @ [n]"
  by (auto simp: upsert_entry_def update_where_def split: option.splits)

text \<open>The entries a projection of the venue may write: uncorrected ones of its own shifts that no
  correction has superseded.\<close>

definition writable :: "id set \<Rightarrow> income_entry \<Rightarrow> bool" where
  "writable shiftIds e \<longleftrightarrow> ie_correctionOfId e = None \<and> ie_effectiveStatus e \<noteq> EntrySUPERSEDED
     \<and> (\<exists>s. ie_shiftId e = Some s \<and> s \<in> shiftIds)"

definition proj_inv :: "(nat \<Rightarrow> id) \<Rightarrow> id set \<Rightarrow> income_entry list \<Rightarrow> projection \<Rightarrow> bool" where
  "proj_inv new_entry shiftIds es p \<longleftrightarrow> distinct (map ie_id (pj_entries p))
     \<and> ie_id ` set (pj_entries p) \<subseteq> ie_id ` set es \<union> new_entry ` {..<pj_upserted p}
     \<and> (\<forall>e \<in> set es. \<not> writable shiftIds e \<longrightarrow> e \<in> set (pj_entries p))"

lemma project_shift_inv:
  assumes "proj_inv new_entry shiftIds es p" "inj new_entry" "range new_entry \<inter> ie_id ` set es = {}" "se_id shift \<in> shiftIds"
  shows "proj_inv new_entry shiftIds es (project_shift new_entry now v facts shift p)"
proof -
  let ?w = "the (se_mappedWorkerId shift)" and ?n = "new_entry (pj_upserted p)"
  let ?f = "facts ?w shift"
  let ?es = "upsert_entry ?n now v ?w (se_id shift) ?f (pj_entries p)"
  show ?thesis
  proof (cases "truthy (se_mappedWorkerId shift)
      \<and> find (\<lambda>e. ie_workerId e = ?w \<and> ie_shiftId e = Some (se_id shift) \<and> ie_effectiveStatus e = EntrySUPERSEDED) (pj_entries p) = None")
    case False
    then have "pj_entries (project_shift new_entry now v facts shift p) = pj_entries p"
      "pj_upserted (project_shift new_entry now v facts shift p) = pj_upserted p"
      by (auto simp: project_shift_def Let_def)
    then show ?thesis using assms(1) by (simp add: proj_inv_def)
  next
    case True
    then have res: "pj_entries (project_shift new_entry now v facts shift p) = ?es"
      "pj_upserted (project_shift new_entry now v facts shift p) = Suc (pj_upserted p)"
      by (auto simp: project_shift_def Let_def)
    have fresh: "?n \<notin> ie_id ` set (pj_entries p)"
    proof
      assume "?n \<in> ie_id ` set (pj_entries p)"
      then have "?n \<in> ie_id ` set es \<or> ?n \<in> new_entry ` {..<pj_upserted p}" using assms(1) by (auto simp: proj_inv_def)
      then show False using assms(2,3) by (auto dest: injD)
    qed
    have dist: "distinct (map ie_id ?es)"
      using upsert_entry_ids [of ?n now v ?w "se_id shift" ?f "pj_entries p"] assms(1) fresh by (auto simp: proj_inv_def)
    have "ie_id ` set ?es \<subseteq> insert ?n (ie_id ` set (pj_entries p))"
      using upsert_entry_ids [of ?n now v ?w "se_id shift" ?f "pj_entries p"]
      by (metis (no_types, lifting) list.set_map Un_insert_right list.simps(15) set_append set_empty2 subset_insertI sup_bot.right_neutral list.set(1) order_refl)
    then have ids: "ie_id ` set ?es \<subseteq> ie_id ` set es \<union> new_entry ` {..<Suc (pj_upserted p)}"
      using assms(1) unfolding proj_inv_def lessThan_Suc image_insert by blast
    have keep: "e \<in> set ?es" if "e \<in> set es" "\<not> writable shiftIds e" for e
    proof -
      have e: "e \<in> set (pj_entries p)" using assms(1) that by (simp add: proj_inv_def)
      show ?thesis
      proof (cases "find (\<lambda>e. ie_workerId e = ?w \<and> ie_shiftId e = Some (se_id shift) \<and> ie_correctionOfId e = None) (pj_entries p)")
        case None
        then show ?thesis using e by (simp add: upsert_entry_def)
      next
        case (Some x)
        then have x: "x \<in> set (pj_entries p)" "ie_workerId x = ?w" "ie_shiftId x = Some (se_id shift)" "ie_correctionOfId x = None"
          by (auto dest: find_SomeD)
        then have "ie_effectiveStatus x \<noteq> EntrySUPERSEDED" using True by (auto simp: find_None_iff_all)
        then have "writable shiftIds x" using x assms(4) by (simp add: writable_def)
        then have "x \<noteq> e" using that by auto
        then have "ie_id e \<noteq> ie_id x" using assms(1) e x(1) by (auto simp: proj_inv_def distinct_map dest: inj_onD)
        then show ?thesis using Some e by (auto simp: upsert_entry_def in_update_where intro!: bexI [of _ e])
      qed
    qed
    show ?thesis using dist ids keep by (simp add: proj_inv_def res)
  qed
qed

lemma project_fold_inv:
  assumes "proj_inv new_entry shiftIds es p" "inj new_entry" "range new_entry \<inter> ie_id ` set es = {}" "se_id ` set ss \<subseteq> shiftIds"
  shows "proj_inv new_entry shiftIds es (fold (project_shift new_entry now v facts) ss p)"
  using assms(1,4)
proof (induction ss arbitrary: p)
  case (Cons s ss)
  then show ?case using project_shift_inv [OF _ assms(2,3)] by simp
qed simp

text \<open>(C21) A rebuild never rewrites history: income entries that a correction superseded, the
  corrections themselves and the entries of shifts of other venues survive it unchanged; only the
  incomes, the venue's unresolved alerts and the audit log change, and entry ids stay unique.\<close>

theorem rebuild_keeps_history:
  assumes "distinct (map ie_id (db_incomes d))" "inj new_entry" "range new_entry \<inter> ie_id ` set (db_incomes d) = {}"
    and "rebuildVenueIncome noon new_entry new_alert now v actor source d = (r, d')"
    and "e \<in> set (db_incomes d)"
    and "ie_effectiveStatus e = EntrySUPERSEDED \<or> ie_correctionOfId e \<noteq> None
      \<or> (\<forall>s \<in> set (db_shifts d). se_venueId s = v \<longrightarrow> ie_shiftId e \<noteq> Some (se_id s))"
  shows "e \<in> set (db_incomes d') \<and> distinct (map ie_id (db_incomes d'))
     \<and> db_payouts d' = db_payouts d \<and> db_allocations d' = db_allocations d \<and> db_batches d' = db_batches d
     \<and> (\<forall>a \<in> set (db_alerts d). da_venueId a \<noteq> v \<or> da_resolvedAt a \<noteq> None \<longrightarrow> a \<in> set (db_alerts d'))"
proof (cases "find_venue d v = None")
  case True
  then show ?thesis using assms by (simp add: rebuildVenueIncome_def)
next
  case False
  let ?ids = "se_id ` set (venue_shifts d v)"
  let ?p = "projected noon new_entry now v d"
  have "proj_inv new_entry ?ids (db_incomes d) ?p"
    unfolding projected_def
    by (intro project_fold_inv [OF _ assms(2,3)]) (use assms(1) in \<open>simp_all add: proj_inv_def\<close>)
  moreover have "\<not> writable ?ids e" using assms(6) by (auto simp: writable_def venue_shifts_def)
  ultimately have "e \<in> set (pj_entries ?p)" "distinct (map ie_id (pj_entries ?p))"
    using assms(5) by (simp_all add: proj_inv_def)
  moreover have "d' = snd (rebuildVenueIncomeLocked noon new_entry new_alert now v actor source d)"
    using assms(4) False by (auto simp: rebuildVenueIncome_def split: prod.splits)
  ultimately show ?thesis by (simp add: rebuildVenueIncomeLocked_def Let_def delete_where_def)
qed

definition demo_entry :: income_entry where
  "demo_entry = (blank_entry ''e0'' 0)\<lparr>ie_workerId := ''w1'', ie_venueId := ''v1'', ie_shiftId := Some ''s1'',
     ie_effectiveStatus := EntrySUPERSEDED\<rparr>"

definition demo_new_id :: "nat \<Rightarrow> id" where
  "demo_new_id n = CHR ''n'' # replicate n (CHR ''x'')"

theorem rebuild_keeps_history_witness:
  "demo_entry \<in> set (db_incomes (snd (rebuildVenueIncome (\<lambda>_. 0) demo_new_id demo_new_id 0 ''v1'' None SYSTEM (income_demo\<lparr>db_incomes := [demo_entry]\<rparr>))))"
proof -
  have inj: "inj demo_new_id" by (auto simp: inj_def demo_new_id_def dest: arg_cong [where f = length])
  have fresh: "range demo_new_id \<inter> {''e0''} = {}" by (auto simp: demo_new_id_def)
  show ?thesis
    using rebuild_keeps_history [OF _ inj _ prod.collapse [symmetric], of "income_demo\<lparr>db_incomes := [demo_entry]\<rparr>" demo_entry] fresh
    by (simp add: demo_entry_def)
qed

end
