(* ===== verification/Solana_Client.thy ===== *)
theory Solana_Client
  imports Income_Projector Base58 Money
begin

text \<open>
  What the settlement code reads from outside, and the pure decisions it takes on it:
  \<open>packages/shared/src/solana-transaction.ts\<close> and \<open>packages/solana/src/index.ts\<close>.  The record
  \<open>world\<close> holds one call's observations of the cluster (RPC answers, account and
  transaction decoding, all by \<open>@solana/web3.js\<close> and Anchor), the environment, the clock, the
  ids that created rows draw, and sha256.  Nothing is assumed about them unless a
  theorem says so.
\<close>

section \<open>Transaction validity\<close>

text \<open>\<open>null\<close> is \<open>None\<close>.\<close>

datatype confirmation_status = ConfProcessed | ConfConfirmed | ConfFinalized

definition isBlockhashExpired :: "int \<Rightarrow> int \<Rightarrow> bool" where
  "isBlockhashExpired currentBlockHeight lastValidBlockHeight \<longleftrightarrow> currentBlockHeight > lastValidBlockHeight"

definition shouldRebroadcastSignedTransaction :: "confirmation_status option \<Rightarrow> bool \<Rightarrow> bool" where
  "shouldRebroadcastSignedTransaction confirmationStatus blockhashExpired \<longleftrightarrow>
     \<not> blockhashExpired \<and> (confirmationStatus = None \<or> confirmationStatus = Some ConfProcessed)"

definition canReplaceTransactionBlockhash :: "confirmation_status option \<Rightarrow> bool \<Rightarrow> bool" where
  "canReplaceTransactionBlockhash confirmationStatus blockhashExpired \<longleftrightarrow>
     blockhashExpired \<and> confirmationStatus = None"

section \<open>Observations\<close>

record settlement_record =
  sr_amount :: int
  sr_settledAt :: int

record settle_params =
  stp_venueId :: id
  stp_paymentId :: id
  stp_allocationHash :: "nat list"
  stp_amountBaseUnits :: int
  stp_venueAuthority :: string
  stp_workerWallet :: string
  stp_usdcMint :: string

record signed_transaction =
  stx_recentBlockhash :: "string option"
  stx_signature :: "nat list option"   \<comment> \<open>\<open>signatures[0]?.signature\<close>\<close>
  stx_serialize :: "http_error + string"   \<comment> \<open>base64 of \<open>serialize()\<close>, which verifies the signatures\<close>

record signature_status =
  sst_err :: "string option"    \<comment> \<open>JSON of the on-chain error\<close>
  sst_confirmation :: "confirmation_status option"
  sst_slot :: int

record world =
  w_now :: instant
  w_noon :: "string \<Rightarrow> instant"
  w_new_id :: id
  w_entry_id :: "nat \<Rightarrow> id"
  w_alert_id :: "nat \<Rightarrow> id"
  w_sha256 :: "string \<Rightarrow> string"
  w_valid_pubkey :: "string \<Rightarrow> bool"
  w_usdc_mint :: "string option"
  w_block_height :: int
  w_finalized_slot :: int
  w_latest_blockhash :: "string \<times> int"
  w_settlement_pda :: "id \<Rightarrow> string"
  w_unsigned_tx :: "settle_params \<Rightarrow> string \<Rightarrow> string"
  w_confirmed_record :: "id \<Rightarrow> settlement_record option"  \<comment> \<open>\<open>fetchSettlementRecord\<close> at commitment confirmed\<close>
  w_finalized_record :: "id \<Rightarrow> settlement_record option"  \<comment> \<open>the same at commitment finalized\<close>
  w_decode_tx :: "string \<Rightarrow> signed_transaction option"
  w_send :: "string \<Rightarrow> string option"      \<comment> \<open>the error message, when the send fails\<close>
  w_signature_status :: "string \<Rightarrow> signature_status option"
  w_finalized_tx :: "string \<Rightarrow> bool"
  w_block_time :: "int \<Rightarrow> int option"

text \<open>What a handler does to the outside: bytes sent to the cluster, jobs queued.\<close>

datatype effect = Broadcast id string string | EnqueueConfirmation id string

section \<open>Client\<close>

definition parsePubkey :: "world \<Rightarrow> string \<Rightarrow> http_error + string" where
  "parsePubkey w address =
     (if w_valid_pubkey w address then Inr address else Inl (Failure ''Invalid Solana address: ${address}''))"

definition hex_digit :: "char \<Rightarrow> nat option" where
  "hex_digit c = (let n = of_char c :: nat in
     if 48 \<le> n \<and> n \<le> 57 then Some (n - 48)
     else if 97 \<le> n \<and> n \<le> 102 then Some (n - 87)
     else if 65 \<le> n \<and> n \<le> 70 then Some (n - 55) else None)"

text \<open>\<open>Buffer.from(s, "hex")\<close> decodes pairs up to the first that is not hexadecimal.\<close>

fun hex_bytes :: "string \<Rightarrow> nat list" where
  "hex_bytes (a # b # s) = (case (hex_digit a, hex_digit b) of
       (Some x, Some y) \<Rightarrow> (16 * x + y) # hex_bytes s | _ \<Rightarrow> [])"
| "hex_bytes _ = []"

record built_tx =
  bt_transactionBase64 :: string
  bt_blockhash :: string
  bt_lastValidBlockHeight :: int
  bt_settlementPda :: string
  bt_paymentIdHashHex :: string

definition buildSettlePayoutTx ::
  "world \<Rightarrow> id \<Rightarrow> id \<Rightarrow> string \<Rightarrow> int \<Rightarrow> string \<Rightarrow> string \<Rightarrow> string \<Rightarrow> http_error + built_tx" where
  "buildSettlePayoutTx w venueId paymentId allocationHashHex amountBaseUnits venueAuthority workerWallet usdcMint =
     (let allocationHash = hex_bytes allocationHashHex in
      if length allocationHash \<noteq> 32 then Inl (Failure ''allocationHashHex must be 32 bytes of hex'')
      else Inr \<lparr>bt_transactionBase64 = w_unsigned_tx w
                  \<lparr>stp_venueId = venueId, stp_paymentId = paymentId, stp_allocationHash = allocationHash,
                   stp_amountBaseUnits = amountBaseUnits, stp_venueAuthority = venueAuthority,
                   stp_workerWallet = workerWallet, stp_usdcMint = usdcMint\<rparr> (fst (w_latest_blockhash w)),
                bt_blockhash = fst (w_latest_blockhash w),
                bt_lastValidBlockHeight = snd (w_latest_blockhash w),
                bt_settlementPda = w_settlement_pda w paymentId,
                bt_paymentIdHashHex = w_sha256 w paymentId\<rparr>)"

section \<open>The income projection after a payment\<close>

definition rebuildIncomeProjection :: "world \<Rightarrow> id \<Rightarrow> id option \<Rightarrow> db \<Rightarrow> db" where
  "rebuildIncomeProjection w venueId actor d =
     snd (rebuildVenueIncome (w_noon w) (w_entry_id w) (w_alert_id w) (w_now w) venueId actor SYSTEM d)"

lemma rebuildIncomeProjection_frame [simp]:
  "db_payouts (rebuildIncomeProjection w v a d) = db_payouts d"
  "db_allocations (rebuildIncomeProjection w v a d) = db_allocations d"
  "db_batches (rebuildIncomeProjection w v a d) = db_batches d"
  "db_tips (rebuildIncomeProjection w v a d) = db_tips d"
  "db_shifts (rebuildIncomeProjection w v a d) = db_shifts d"
  "db_workers (rebuildIncomeProjection w v a d) = db_workers d"
  "db_wallets (rebuildIncomeProjection w v a d) = db_wallets d"
  "db_venues (rebuildIncomeProjection w v a d) = db_venues d"
  by (simp_all add: rebuildIncomeProjection_def rebuildVenueIncome_def rebuildVenueIncomeLocked_def Let_def)

text \<open>Settlement never lets a signature be replaced while it can still land, and never re-sends one
  that has been confirmed.\<close>

lemma replace_excludes_rebroadcast:
  "canReplaceTransactionBlockhash s e \<Longrightarrow> \<not> shouldRebroadcastSignedTransaction s' e"
  by (simp add: canReplaceTransactionBlockhash_def shouldRebroadcastSignedTransaction_def)

end
