(* ===== verification/Payouts.thy ===== *)
theory Payouts
  imports Solana_Client
begin

text \<open>
  \<open>apps/api/src/payouts/payouts.service.ts\<close>: creating the payout of an allocation, building and
  submitting its transaction, registering venue-attested payments, and the roll-up of a batch's
  status.  Submission and building each read a row, wait for the cluster and then claim the row with a
  conditional update; \<open>submit_read\<close>/\<open>submit_claim\<close> and \<open>build_read\<close>/\<open>build_claim\<close>
  are the two halves, so that other requests may run in between.
\<close>

section \<open>Rows\<close>

definition find_payout :: "db \<Rightarrow> id \<Rightarrow> payout option" where
  "find_payout d i = find (\<lambda>p. po_id p = i) (db_payouts d)"

definition payout_by_payment :: "db \<Rightarrow> id \<Rightarrow> payout option" where
  "payout_by_payment d i = find (\<lambda>p. po_paymentId p = i) (db_payouts d)"

definition update_payouts :: "(payout \<Rightarrow> bool) \<Rightarrow> (payout \<Rightarrow> payout) \<Rightarrow> db \<Rightarrow> db" where
  "update_payouts P f d = d\<lparr>db_payouts := update_where P f (db_payouts d)\<rparr>"

definition update_payout :: "id \<Rightarrow> (payout \<Rightarrow> payout) \<Rightarrow> db \<Rightarrow> db" where
  "update_payout i f d = update_payouts (\<lambda>p. po_id p = i) f d"

section \<open>Batch roll-up\<close>

definition paid_status :: "nat \<Rightarrow> nat \<Rightarrow> batch_status" where
  "paid_status paid n = (if paid = 0 then PAYABLE else if paid = n then BatchPAID else PARTIALLY_PAID)"

definition refreshBatchPaymentStatus :: "id \<Rightarrow> db \<Rightarrow> db" where
  "refreshBatchPaymentStatus batchId d =
     (let allocations = filter (\<lambda>a. wa_batchId a = batchId) (db_allocations d);
          paid = count_where (\<lambda>a. wa_payoutStatus a = AllocPAID) allocations;
          status = paid_status paid (length allocations)
      in d\<lparr>db_batches := update_where (\<lambda>b. ab_id b = batchId \<and> ab_status b \<in> {PAYABLE, PARTIALLY_PAID, BatchPAID})
             (\<lambda>b. b\<lparr>ab_status := status\<rparr>) (db_batches d)\<rparr>)"

section \<open>Creating a payout\<close>

definition payout_attempt :: "world \<Rightarrow> worker_allocation \<Rightarrow> allocation_batch \<Rightarrow> id \<Rightarrow> wallet \<Rightarrow> id option \<Rightarrow> int \<Rightarrow> payout \<Rightarrow> payout" where
  "payout_attempt w a b workerId wallet initiatedBy amountBaseUnits p = p\<lparr>po_paymentId := wa_id a, po_paymentIdHash := w_sha256 w (wa_id a),
     po_allocationId := wa_id a, po_workerId := workerId, po_venueId := ab_venueId b, po_walletId := Some (wal_id wallet),
     po_rail := USDC, po_asset := ''tUSDC'', po_amountBaseUnits := amountBaseUnits, po_amountUsdCents := wa_netAllocatedUsdCents a,
     po_status := CREATED, po_txSignature := None, po_settlementPda := None, po_recentBlockhash := None,
     po_lastValidBlockHeight := None, po_signedTransactionBase64 := None, po_lastBroadcastAt := None, po_broadcastAttempts := 0,
     po_initiatedAt := None, po_initiatedByUserId := initiatedBy, po_submittedByUserId := None, po_signerWallet := None,
     po_settledAt := None, po_failedReason := None\<rparr>"

definition blank_payout :: "id \<Rightarrow> payout" where
  "blank_payout i = \<lparr>po_id = i, po_paymentId = [], po_paymentIdHash = [], po_allocationId = [], po_workerId = [], po_venueId = [],
     po_walletId = None, po_rail = USDC, po_asset = [], po_amountBaseUnits = 0, po_amountUsdCents = 0, po_status = CREATED,
     po_externalReference = None, po_txSignature = None, po_settlementPda = None, po_recentBlockhash = None,
     po_lastValidBlockHeight = None, po_signedTransactionBase64 = None, po_lastBroadcastAt = None, po_broadcastAttempts = 0,
     po_slot = None, po_blockTime = None, po_initiatedAt = None, po_initiatedByUserId = None, po_submittedByUserId = None,
     po_signerWallet = None, po_settledAt = None, po_failedReason = None\<rparr>"

text \<open>The allocation status an in-flight or final payout stands for.\<close>

definition healed_status :: "payout_status \<Rightarrow> alloc_payout_status option" where
  "healed_status s = (if s = FINALIZED then Some AllocPAID
     else if s \<in> {CREATED, INITIATED, SUBMITTED, CONFIRMED} then Some AllocPENDING else None)"

definition heal_allocation :: "world \<Rightarrow> id option \<Rightarrow> worker_allocation \<Rightarrow> allocation_batch \<Rightarrow> payout \<Rightarrow> db \<Rightarrow> db" where
  "heal_allocation w initiatedBy a b existing d = (case healed_status (po_status existing) of
       None \<Rightarrow> d
     | Some s \<Rightarrow>
         if wa_payoutStatus a \<noteq> s \<or> wa_payoutRail a \<noteq> Some USDC
         then let d1 = update_allocation (wa_id a) (\<lambda>x. x\<lparr>wa_payoutRail := Some USDC, wa_payoutStatus := s\<rparr>) d
              in if s = AllocPAID
                 then rebuildIncomeProjection w (ab_venueId b) initiatedBy (refreshBatchPaymentStatus (wa_batchId a) d1)
                 else d1
         else d)"

text \<open>The previous attempt of a failed payout may still land until its blockhash expires.\<close>

definition previous_still_valid :: "world \<Rightarrow> payout option \<Rightarrow> bool" where
  "previous_still_valid w existing = (case Option.bind existing po_lastValidBlockHeight of
       None \<Rightarrow> False | Some lastValid \<Rightarrow> \<not> isBlockhashExpired (w_block_height w) lastValid)"

definition create_or_retry :: "world \<Rightarrow> id option \<Rightarrow> worker_allocation \<Rightarrow> allocation_batch \<Rightarrow> id \<Rightarrow> wallet \<Rightarrow> db \<Rightarrow> (payout, db) outcome" where
  "create_or_retry w initiatedBy a b workerId wallet d =
     (let existing = payout_by_payment d (wa_id a) in
      if (case existing of Some e \<Rightarrow> po_status e \<noteq> PayoutFAILED | None \<Rightarrow> False)
      then (Inr (the existing), heal_allocation w initiatedBy a b (the existing) d)
      else if previous_still_valid w existing
      then (Inl (ConflictException ''Previous payout blockhash is still valid through height ${existing.lastValidBlockHeight}''), d)
      else case centsToUsdcBaseUnits (of_int (wa_netAllocatedUsdCents a)) of
        Inl e \<Rightarrow> (Inl e, d)
      | Inr amountBaseUnits \<Rightarrow>
          let data = payout_attempt w a b workerId wallet initiatedBy amountBaseUnits;
              d1 = (case existing of
                 Some e \<Rightarrow> update_payout (po_id e) data d
               | None \<Rightarrow> d\<lparr>db_payouts := db_payouts d @ [data (blank_payout (w_new_id w))]\<rparr>)
          in (Inr (case existing of Some e \<Rightarrow> data e | None \<Rightarrow> data (blank_payout (w_new_id w))),
              update_allocation (wa_id a) (\<lambda>x. x\<lparr>wa_payoutRail := Some USDC, wa_payoutStatus := AllocPENDING\<rparr>) d1))"

definition createUsdcPayout :: "world \<Rightarrow> id \<Rightarrow> id option \<Rightarrow> db \<Rightarrow> (payout, db) outcome" where
  "createUsdcPayout w allocationId initiatedBy d = (case find_allocation d allocationId of
       None \<Rightarrow> (Inl (NotFoundException ''Allocation ${allocationId} not found''), d)
     | Some a \<Rightarrow> (case find_batch d (wa_batchId a) of
         None \<Rightarrow> (Inl relation_error, d)
       | Some b \<Rightarrow>
         if \<not> truthy (wa_workerId a) \<or> find_worker d (the (wa_workerId a)) = None
         then (Inl (BadRequestException ''This share is held for a worker who has not connected their account yet''), d)
         else if ab_status b \<noteq> PAYABLE \<and> ab_status b \<noteq> PARTIALLY_PAID
         then (Inl (BadRequestException ''Batch is ${allocation.batch.status}; payouts require an approved (PAYABLE) batch''), d)
         else if wa_payoutStatus a = AllocPAID
         then (Inl (ConflictException ''Allocation is already paid''), d)
         else if wa_netAllocatedUsdCents a \<le> 0
         then (Inl (BadRequestException ''Allocation amount must be positive''), d)
         else case default_wallet d (wa_workerId a) of
             None \<Rightarrow> (Inl (BadRequestException ''Worker has no active default wallet''), d)
           | Some wallet \<Rightarrow>
             if wal_status wallet \<noteq> WalletACTIVE
             then (Inl (BadRequestException ''Worker has no active default wallet''), d)
             else case parsePubkey w (wal_address wallet) of
               Inl e \<Rightarrow> (Inl e, d)
             | Inr _ \<Rightarrow> create_or_retry w initiatedBy a b (the (wa_workerId a)) wallet d))"

section \<open>Building the transaction\<close>

record build_claim =
  bc_built :: built_tx
  bc_signer :: string
  bc_previousInitiatedBy :: "id option"

definition buildable :: "payout_status \<Rightarrow> bool" where
  "buildable s \<longleftrightarrow> s \<in> {CREATED, INITIATED, PayoutFAILED}"

text \<open>Everything up to the conditional update: it only reads.\<close>

definition build_read :: "world \<Rightarrow> id \<Rightarrow> db \<Rightarrow> http_error + build_claim" where
  "build_read w payoutId d = (case find_payout d payoutId of
       None \<Rightarrow> Inl (NotFoundException ''Payout ${payoutId} not found'')
     | Some p \<Rightarrow>
       (case Option.bind (find_allocation d (po_allocationId p)) (\<lambda>a. find_batch d (wa_batchId a)) of
         None \<Rightarrow> Inl relation_error
       | Some batch \<Rightarrow>
         if \<not> buildable (po_status p)
         then Inl (ConflictException ''Payout is ${payout.status}; cannot rebuild transaction'')
         else if w_confirmed_record w (po_paymentId p) \<noteq> None
         then Inl (ConflictException ''Settlement already exists on-chain; run reconciliation'')
         else if po_status p \<in> {INITIATED, PayoutFAILED} \<and> previous_still_valid w (Some p)
         then Inl (ConflictException ''Previous payout blockhash is still valid through height ${payout.lastValidBlockHeight}'')
         else case Option.bind (find_venue d (po_venueId p)) ven_payoutSignerWallet of
           None \<Rightarrow> Inl (BadRequestException ''Venue payout signer wallet is not configured'')
         | Some signer \<Rightarrow>
           if signer = [] then Inl (BadRequestException ''Venue payout signer wallet is not configured'')
           else case Option.bind (po_walletId p) (find_wallet d) of
             None \<Rightarrow> Inl (BadRequestException ''Payout has no worker wallet'')
           | Some wallet \<Rightarrow>
             if \<not> truthy (ab_allocationHash batch) then Inl (BadRequestException ''Batch is missing its allocation hash'')
             else if \<not> truthy (w_usdc_mint w) then Inl (BadRequestException ''USDC_MINT is not configured'')
             else case parsePubkey w signer of Inl e \<Rightarrow> Inl e | Inr venueAuthority \<Rightarrow>
                  case parsePubkey w (wal_address wallet) of Inl e \<Rightarrow> Inl e | Inr workerWallet \<Rightarrow>
                  case parsePubkey w (the (w_usdc_mint w)) of Inl e \<Rightarrow> Inl e | Inr usdcMint \<Rightarrow>
                  case buildSettlePayoutTx w (po_venueId p) (po_paymentId p) (the (ab_allocationHash batch))
                         (po_amountBaseUnits p) venueAuthority workerWallet usdcMint of
                    Inl e \<Rightarrow> Inl e
                  | Inr built \<Rightarrow> Inr \<lparr>bc_built = built, bc_signer = signer, bc_previousInitiatedBy = po_initiatedByUserId p\<rparr>))"

record build_result =
  br_payoutId :: id
  br_transactionBase64 :: string
  br_blockhash :: string
  br_lastValid :: int
  br_settlementPda :: string
  br_signer :: string

definition initiated :: "world \<Rightarrow> build_claim \<Rightarrow> id option \<Rightarrow> payout \<Rightarrow> payout" where
  "initiated w c initiatedBy p = p\<lparr>po_status := INITIATED, po_settlementPda := Some (bt_settlementPda (bc_built c)),
     po_recentBlockhash := Some (bt_blockhash (bc_built c)),
     po_lastValidBlockHeight := Some (bt_lastValidBlockHeight (bc_built c)),
     po_signedTransactionBase64 := None, po_txSignature := None, po_lastBroadcastAt := None, po_broadcastAttempts := 0,
     po_initiatedAt := Some (w_now w),
     po_initiatedByUserId := (case initiatedBy of Some u \<Rightarrow> Some u | None \<Rightarrow> bc_previousInitiatedBy c),
     po_submittedByUserId := None, po_signerWallet := Some (bc_signer c), po_failedReason := None\<rparr>"

definition build_claim_rows :: "world \<Rightarrow> id \<Rightarrow> id option \<Rightarrow> build_claim \<Rightarrow> db \<Rightarrow> (build_result, db) outcome" where
  "build_claim_rows w payoutId initiatedBy c d =
     (let claims = (\<lambda>p. po_id p = payoutId \<and> buildable (po_status p)) in
      if count_where claims (db_payouts d) = 0
      then (Inl (ConflictException ''Payout is ${current?.status}; cannot rebuild transaction''), d)
      else (Inr \<lparr>br_payoutId = payoutId, br_transactionBase64 = bt_transactionBase64 (bc_built c),
                 br_blockhash = bt_blockhash (bc_built c), br_lastValid = bt_lastValidBlockHeight (bc_built c),
                 br_settlementPda = bt_settlementPda (bc_built c), br_signer = bc_signer c\<rparr>,
            update_payouts claims (initiated w c initiatedBy) d))"

definition buildTransaction :: "world \<Rightarrow> id \<Rightarrow> id option \<Rightarrow> db \<Rightarrow> (build_result, db) outcome" where
  "buildTransaction w payoutId initiatedBy d = (case build_read w payoutId d of
       Inl e \<Rightarrow> (Inl e, d) | Inr c \<Rightarrow> build_claim_rows w payoutId initiatedBy c d)"

section \<open>Submitting the signed transaction\<close>

record submit_claim =
  sc_payout :: payout          \<comment> \<open>the row as read\<close>
  sc_signature :: string
  sc_raw :: string
  sc_expired :: bool

definition submitted_or_later :: "payout_status \<Rightarrow> bool" where
  "submitted_or_later s \<longleftrightarrow> s \<in> {SUBMITTED, CONFIRMED, FINALIZED}"

text \<open>Up to the conditional updates; \<open>Inr (Inl p)\<close> is the idempotent success.\<close>

definition submit_read :: "world \<Rightarrow> id \<Rightarrow> string \<Rightarrow> db \<Rightarrow> http_error + (payout + submit_claim)" where
  "submit_read w payoutId signedTx d = (case find_payout d payoutId of
       None \<Rightarrow> Inl (NotFoundException ''Payout ${payoutId} not found'')
     | Some p \<Rightarrow>
       if submitted_or_later (po_status p) then Inr (Inl p)
       else if po_status p \<noteq> INITIATED then Inl (ConflictException ''Payout is ${payout.status}; expected INITIATED'')
       else if \<not> truthy (po_recentBlockhash p) \<or> po_lastValidBlockHeight p = None
       then Inl (ConflictException ''Payout is missing its blockhash validity metadata; rebuild it'')
       else case w_decode_tx w signedTx of
         None \<Rightarrow> Inl (Failure ''Transaction.from'')
       | Some tx \<Rightarrow>
         if stx_recentBlockhash tx \<noteq> po_recentBlockhash p
         then Inl (BadRequestException ''Signed transaction blockhash does not match this payout'')
         else case stx_signature tx of
           None \<Rightarrow> Inl (BadRequestException ''Transaction is not signed'')
         | Some signatureBytes \<Rightarrow>
           (case stx_serialize tx of
              Inl e \<Rightarrow> Inl e
            | Inr raw \<Rightarrow> Inr (Inr \<lparr>sc_payout = p, sc_signature = encodeBase58 signatureBytes, sc_raw = raw,
                 sc_expired = isBlockhashExpired (w_block_height w) (the (po_lastValidBlockHeight p))\<rparr>)))"

definition current_or_conflict :: "id \<Rightarrow> db \<Rightarrow> http_error + payout" where
  "current_or_conflict payoutId d = (case find_payout d payoutId of
       Some current \<Rightarrow> if submitted_or_later (po_status current) then Inr current
         else Inl (ConflictException ''Payout is ${current?.status}; expected INITIATED'')
     | None \<Rightarrow> Inl (ConflictException ''Payout is ${current?.status}; expected INITIATED''))"

definition submitted :: "world \<Rightarrow> id option \<Rightarrow> submit_claim \<Rightarrow> payout \<Rightarrow> payout" where
  "submitted w submittedBy c p = p\<lparr>po_status := SUBMITTED, po_txSignature := Some (sc_signature c),
     po_signedTransactionBase64 := Some (sc_raw c), po_lastBroadcastAt := Some (w_now w), po_broadcastAttempts := 1,
     po_submittedByUserId := (case submittedBy of Some u \<Rightarrow> Some u | None \<Rightarrow> po_submittedByUserId (sc_payout c))\<rparr>"

definition submit_claim_rows :: "world \<Rightarrow> id \<Rightarrow> id option \<Rightarrow> submit_claim \<Rightarrow> db \<Rightarrow> (http_error + payout) \<times> db \<times> effect list" where
  "submit_claim_rows w payoutId submittedBy c d =
     (let claims = (\<lambda>p. po_id p = payoutId \<and> po_status p = INITIATED) in
      if sc_expired c then
        if count_where claims (db_payouts d) > 0
        then (Inl (ConflictException ''Payout blockhash expired before submission; rebuild and sign again''),
              update_allocation (po_allocationId (sc_payout c)) (\<lambda>a. a\<lparr>wa_payoutStatus := AllocFAILED\<rparr>)
                (update_payouts claims (\<lambda>p. p\<lparr>po_status := PayoutFAILED, po_failedReason := Some ''blockhash_expired_before_submit''\<rparr>) d), [])
        else (current_or_conflict payoutId d, d, [])
      else if count_where claims (db_payouts d) = 0 then (current_or_conflict payoutId d, d, [])
      else
        let d1 = update_payouts claims (submitted w submittedBy c) d;
            d2 = (case w_send w (sc_raw c) of
                None \<Rightarrow> d1
              | Some message \<Rightarrow> update_payouts (\<lambda>p. po_id p = payoutId \<and> po_status p = SUBMITTED)
                  (\<lambda>p. p\<lparr>po_failedReason := Some (take 500 (''initial_broadcast:'' @ message))\<rparr>) d1)
        in (case find_payout d1 payoutId of None \<Rightarrow> Inl (NotFoundException ''No Payout found'') | Some p \<Rightarrow> Inr p,
            d2, [Broadcast payoutId (sc_signature c) (sc_raw c), EnqueueConfirmation payoutId (sc_signature c)]))"

definition submitSigned :: "world \<Rightarrow> id \<Rightarrow> string \<Rightarrow> id option \<Rightarrow> db \<Rightarrow> (http_error + payout) \<times> db \<times> effect list" where
  "submitSigned w payoutId signedTx submittedBy d = (case submit_read w payoutId signedTx d of
       Inl e \<Rightarrow> (Inl e, d, [])
     | Inr (Inl p) \<Rightarrow> (Inr p, d, [])
     | Inr (Inr c) \<Rightarrow> submit_claim_rows w payoutId submittedBy c d)"

record payout_view =
  pv_payout :: payout
  pv_walletAddress :: "string option"
  pv_displayName :: "string option"

definition getPayout :: "id \<Rightarrow> db \<Rightarrow> http_error + payout_view" where
  "getPayout payoutId d = (case find_payout d payoutId of
       None \<Rightarrow> Inl (NotFoundException ''Payout ${payoutId} not found'')
     | Some p \<Rightarrow> Inr \<lparr>pv_payout = p, pv_walletAddress = map_option wal_address (Option.bind (po_walletId p) (find_wallet d)),
         pv_displayName = Option.bind (find_worker d (po_workerId p)) (\<lambda>wk. map_option usr_displayName (find_user d (wk_userId wk)))\<rparr>)"

section \<open>Venue-attested payments\<close>

definition legacy_update :: "world \<Rightarrow> payout_rail \<Rightarrow> string \<Rightarrow> id option \<Rightarrow> payout \<Rightarrow> payout" where
  "legacy_update w rail reference submittedBy p = p\<lparr>po_rail := rail, po_externalReference := Some reference,
     po_status := FINALIZED, po_settledAt := Some (w_now w), po_submittedByUserId := submittedBy\<rparr>"

definition legacy_create :: "world \<Rightarrow> worker_allocation \<Rightarrow> allocation_batch \<Rightarrow> payout_rail \<Rightarrow> string \<Rightarrow> id option \<Rightarrow> payout" where
  "legacy_create w a b rail reference submittedBy = (blank_payout (w_new_id w))\<lparr>po_paymentId := wa_id a,
     po_paymentIdHash := w_sha256 w (wa_id a), po_allocationId := wa_id a, po_workerId := the (wa_workerId a),
     po_venueId := ab_venueId b, po_rail := rail, po_asset := ''USD'', po_amountUsdCents := wa_netAllocatedUsdCents a,
     po_externalReference := Some reference, po_status := FINALIZED, po_settledAt := Some (w_now w),
     po_initiatedByUserId := submittedBy, po_submittedByUserId := submittedBy\<rparr>"

definition registerLegacyEvidence :: "world \<Rightarrow> id \<Rightarrow> payout_rail \<Rightarrow> string \<Rightarrow> id option \<Rightarrow> db \<Rightarrow> (payout, db) outcome" where
  "registerLegacyEvidence w allocationId rail reference submittedBy d = (case find_allocation d allocationId of
       None \<Rightarrow> (Inl (NotFoundException ''Allocation ${allocationId} not found''), d)
     | Some a \<Rightarrow> (case find_batch d (wa_batchId a) of
         None \<Rightarrow> (Inl relation_error, d)
       | Some b \<Rightarrow>
         if \<not> truthy (wa_workerId a)
         then (Inl (BadRequestException ''This share is held for a worker who has not connected their account yet''), d)
         else if wa_payoutStatus a = AllocPAID then
           (case find (\<lambda>p. po_allocationId p = wa_id a \<and> po_status p = FINALIZED) (db_payouts d) of
              None \<Rightarrow> (Inl (ConflictException ''Allocation is already paid''), d)
            | Some finalized \<Rightarrow> (Inr finalized, rebuildIncomeProjection w (ab_venueId b) submittedBy d))
         else if ab_status b \<noteq> PAYABLE \<and> ab_status b \<noteq> PARTIALLY_PAID
         then (Inl (BadRequestException ''Batch is ${allocation.batch.status}''), d)
         else
           let existing = payout_by_payment d (wa_id a);
               d1 = (case existing of
                   Some e \<Rightarrow> update_payout (po_id e) (legacy_update w rail reference submittedBy) d
                 | None \<Rightarrow> d\<lparr>db_payouts := db_payouts d @ [legacy_create w a b rail reference submittedBy]\<rparr>);
               d2 = update_allocation (wa_id a) (\<lambda>x. x\<lparr>wa_payoutRail := Some rail, wa_payoutStatus := AllocPAID\<rparr>) d1;
               d3 = rebuildIncomeProjection w (ab_venueId b) submittedBy (refreshBatchPaymentStatus (wa_batchId a) d2)
           in (Inr (case existing of Some e \<Rightarrow> legacy_update w rail reference submittedBy e
                    | None \<Rightarrow> legacy_create w a b rail reference submittedBy), d3)))"

end
