(* ===== verification/Settlement.thy ===== *)
theory Settlement
  imports Payouts
begin

text \<open>
  \<open>apps/worker/src/solana-settlement.service.ts\<close>: the worker that follows submitted transactions
  (event indexer, confirmation jobs, reconciliation sweep), re-sends the same signed bytes while they can
  still land, and finalises or fails a payout.  A handler's result is \<open>Inl\<close> when it throws (the
  queue retries it), together with the database and the bytes it sent.
\<close>

type_synonym 'a job = "(http_error + 'a) \<times> db \<times> effect list"

section \<open>Outcomes of a payout\<close>

definition refreshBatchOfAllocation :: "id \<Rightarrow> db \<Rightarrow> db" where
  "refreshBatchOfAllocation allocationId d = (case find_allocation d allocationId of
       None \<Rightarrow> d | Some a \<Rightarrow> refreshBatchPaymentStatus (wa_batchId a) d)"

definition markFailed :: "id \<Rightarrow> id \<Rightarrow> string \<Rightarrow> db \<Rightarrow> db" where
  "markFailed payoutId allocationId reason d =
     update_allocation allocationId (\<lambda>a. a\<lparr>wa_payoutStatus := AllocFAILED\<rparr>)
       (update_payout payoutId (\<lambda>p. p\<lparr>po_status := PayoutFAILED, po_failedReason := Some reason\<rparr>) d)"

definition finalized :: "world \<Rightarrow> settlement_record \<Rightarrow> int option \<Rightarrow> payout \<Rightarrow> payout" where
  "finalized w record slot p =
     (let slot' = (case slot of Some s \<Rightarrow> if s \<noteq> 0 then Some s else None | None \<Rightarrow> None);
          blockTime = Option.bind slot' (w_block_time w)
      in p\<lparr>po_status := FINALIZED,
           po_slot := (if slot' = None then po_slot p else slot'),
           po_blockTime := (case blockTime of Some t \<Rightarrow> if t \<noteq> 0 then Some (t * 1000) else po_blockTime p | None \<Rightarrow> po_blockTime p),
           po_settledAt := Some (sr_settledAt record * 1000), po_failedReason := None\<rparr>)"

text \<open>An amount mismatch with the record is logged, and the payout is finalised all the same.\<close>

definition finalizeFromChain :: "world \<Rightarrow> id \<Rightarrow> id \<Rightarrow> int option \<Rightarrow> db \<Rightarrow> (unit, db) outcome" where
  "finalizeFromChain w payoutId allocationId slot d = (case find_payout d payoutId of
       None \<Rightarrow> (Inr (), d)
     | Some p \<Rightarrow>
       if po_status p = FINALIZED then (Inr (), rebuildIncomeProjection w (po_venueId p) None d)
       else (case w_finalized_record w (po_paymentId p) of
           None \<Rightarrow> (Inl (Failure ''finalize requested but SettlementRecord not found''), d)
         | Some record \<Rightarrow>
             let d1 = update_payout payoutId (finalized w record slot) d;
                 d2 = update_allocation allocationId (\<lambda>a. a\<lparr>wa_payoutStatus := AllocPAID\<rparr>) d1
             in (Inr (), rebuildIncomeProjection w (po_venueId p) None (refreshBatchOfAllocation allocationId d2))))"

section \<open>Sending again\<close>

definition rebroadcastSameTransaction :: "world \<Rightarrow> payout \<Rightarrow> db \<Rightarrow> db \<times> effect list" where
  "rebroadcastSameTransaction w payout d =
     (if \<not> truthy (po_txSignature payout) \<or> \<not> truthy (po_signedTransactionBase64 payout) then (d, [])
      else (update_payouts (\<lambda>p. po_id p = po_id payout \<and> po_status p \<in> {SUBMITTED, CONFIRMED})
              (\<lambda>p. p\<lparr>po_broadcastAttempts := po_broadcastAttempts p + 1, po_lastBroadcastAt := Some (w_now w)\<rparr>) d,
            [Broadcast (po_id payout) (the (po_txSignature payout)) (the (po_signedTransactionBase64 payout))]))"

text \<open>\<open>true\<close> when the payout was settled one way or the other.\<close>

definition failIfObservedForkWasDropped ::
  "world \<Rightarrow> payout \<Rightarrow> string \<Rightarrow> int \<Rightarrow> bool \<Rightarrow> db \<Rightarrow> (bool, db) outcome" where
  "failIfObservedForkWasDropped w payout signature observedSlot blockhashExpired d =
     (if \<not> blockhashExpired then (Inr False, d)
      else if w_finalized_slot w \<le> observedSlot then (Inr False, d)
      else if w_finalized_tx w signature then (Inr False, d)
      else if w_finalized_record w (po_paymentId payout) \<noteq> None
      then (case finalizeFromChain w (po_id payout) (po_allocationId payout) None d of
              (Inl e, d') \<Rightarrow> (Inl e, d') | (Inr _, d') \<Rightarrow> (Inr True, d'))
      else (Inr True, markFailed (po_id payout) (po_allocationId payout) ''fork_dropped_after_blockhash_expiry'' d))"

section \<open>Event indexer\<close>

definition set_status :: "id \<Rightarrow> payout_status \<Rightarrow> db \<Rightarrow> db" where
  "set_status payoutId s d = update_payout payoutId (\<lambda>p. p\<lparr>po_status := s\<rparr>) d"

definition onPayoutSettled :: "string \<Rightarrow> db \<Rightarrow> db" where
  "onPayoutSettled hashHex d = (case find (\<lambda>p. po_paymentIdHash p = hashHex) (db_payouts d) of
       None \<Rightarrow> d
     | Some payout \<Rightarrow> if po_status payout \<in> {SUBMITTED, INITIATED} then set_status (po_id payout) CONFIRMED d else d)"

section \<open>Confirmation job\<close>

definition awaiting :: "string \<Rightarrow> db \<Rightarrow> effect list \<Rightarrow> unit job" where
  "awaiting msg d es = (Inl (Failure msg), d, es)"

definition done_job :: "(unit, db) outcome \<Rightarrow> unit job" where
  "done_job rd = (fst rd, snd rd, [])"

definition blockhash_expired :: "world \<Rightarrow> payout \<Rightarrow> bool" where
  "blockhash_expired w payout = (case po_lastValidBlockHeight payout of
       None \<Rightarrow> False | Some lastValid \<Rightarrow> isBlockhashExpired (w_block_height w) lastValid)"

text \<open>A settled record decides; without one the payout has failed.\<close>

definition finalize_or_fail :: "world \<Rightarrow> payout \<Rightarrow> string \<Rightarrow> db \<Rightarrow> (unit, db) outcome" where
  "finalize_or_fail w payout reason d =
     (if w_finalized_record w (po_paymentId payout) \<noteq> None
      then finalizeFromChain w (po_id payout) (po_allocationId payout) None d
      else (Inr (), markFailed (po_id payout) (po_allocationId payout) reason d))"

text \<open>Go on with \<open>k\<close> unless the fork check settled the payout.\<close>

definition after_fork :: "(bool, db) outcome \<Rightarrow> (db \<Rightarrow> unit job) \<Rightarrow> unit job" where
  "after_fork r k = (case r of
       (Inl e, d') \<Rightarrow> (Inl e, d', [])
     | (Inr settled, d') \<Rightarrow> if settled then (Inr (), d', []) else k d')"

definition await_unless_dropped :: "world \<Rightarrow> payout \<Rightarrow> string \<Rightarrow> int \<Rightarrow> bool \<Rightarrow> string \<Rightarrow> db \<Rightarrow> unit job" where
  "await_unless_dropped w payout signature slot expired msg d =
     after_fork (failIfObservedForkWasDropped w payout signature slot expired d) (\<lambda>d'. awaiting msg d' [])"

definition processConfirmation :: "world \<Rightarrow> id \<Rightarrow> string \<Rightarrow> db \<Rightarrow> unit job" where
  "processConfirmation w payoutId signature d = (case find_payout d payoutId of
       None \<Rightarrow> (Inr (), d, [])
     | Some payout \<Rightarrow>
       if po_status payout = FINALIZED then (Inr (), rebuildIncomeProjection w (po_venueId payout) None d, [])
       else if po_status payout = PayoutFAILED then (Inr (), d, [])
       else if po_txSignature payout \<noteq> Some signature then (Inr (), d, [])
       else
         let status = w_signature_status w signature;
             conf = Option.bind status sst_confirmation;
             expired = blockhash_expired w payout
         in if Option.bind status sst_err \<noteq> None
            then done_job (finalize_or_fail w payout (the (Option.bind status sst_err)) d)
            else if conf = Some ConfFinalized
            then done_job (finalizeFromChain w (po_id payout) (po_allocationId payout) (Some (sst_slot (the status))) d)
            else if conf = Some ConfConfirmed
            then let d1 = (if po_status payout = SUBMITTED then set_status (po_id payout) CONFIRMED d else d)
                 in await_unless_dropped w payout signature (sst_slot (the status)) expired ''awaiting finalization'' d1
            else if po_lastValidBlockHeight payout \<noteq> None \<and> status = None \<and> canReplaceTransactionBlockhash None expired
            then done_job (finalize_or_fail w payout ''transaction_dropped'' d)
            else if po_lastValidBlockHeight payout \<noteq> None \<and> expired
            then (case status of
                Some st \<Rightarrow> await_unless_dropped w payout signature (sst_slot st) expired
                  ''expired blockhash has an observed signature; awaiting fork outcome'' d
              | None \<Rightarrow> awaiting ''expired blockhash has an observed signature; awaiting fork outcome'' d [])
            else
              let (d1, es) = (if shouldRebroadcastSignedTransaction conf False
                              then rebroadcastSameTransaction w payout d else (d, []));
                  d2 = (if po_status payout = SUBMITTED \<and> conf = Some ConfProcessed
                        then set_status (po_id payout) SUBMITTED d1 else d1)
              in awaiting ''awaiting confirmation for ${signature}'' d2 es)"

section \<open>Reconciliation\<close>

definition initiated_cmp :: "payout \<Rightarrow> payout \<Rightarrow> rat" where
  "initiated_cmp a b = (case (po_initiatedAt a, po_initiatedAt b) of
       (Some x, Some y) \<Rightarrow> of_int (x - y) | (Some _, None) \<Rightarrow> -1 | (None, Some _) \<Rightarrow> 1 | (None, None) \<Rightarrow> 0)"

definition stale_payouts :: "db \<Rightarrow> payout list" where
  "stale_payouts d = take 50 (js_sort initiated_cmp
     (filter (\<lambda>p. po_rail p = USDC \<and> po_status p \<in> {INITIATED, SUBMITTED, CONFIRMED}) (db_payouts d)))"

definition fork_check :: "world \<Rightarrow> payout \<Rightarrow> signature_status option \<Rightarrow> bool \<Rightarrow> db \<Rightarrow> (bool, db) outcome" where
  "fork_check w payout status expired d =
     (if truthy (po_txSignature payout)
      then failIfObservedForkWasDropped w payout (the (po_txSignature payout)) (sst_slot (the status)) expired d
      else (Inr False, d))"

definition rebroadcast_job :: "world \<Rightarrow> payout \<Rightarrow> db \<Rightarrow> unit job" where
  "rebroadcast_job w payout d = (Inr (), rebroadcastSameTransaction w payout d)"

definition reconcile_step :: "world \<Rightarrow> payout \<Rightarrow> db \<Rightarrow> unit job" where
  "reconcile_step w payout d =
     (if w_finalized_record w (po_paymentId payout) \<noteq> None
      then done_job (finalizeFromChain w (po_id payout) (po_allocationId payout) None d)
      else
        let status = (if truthy (po_txSignature payout) then w_signature_status w (the (po_txSignature payout)) else None);
            conf = Option.bind status sst_confirmation;
            expired = blockhash_expired w payout;
            fail = (\<lambda>reason. (Inr (), markFailed (po_id payout) (po_allocationId payout) reason d, []))
        in if Option.bind status sst_err \<noteq> None then fail (the (Option.bind status sst_err))
           else if conf = Some ConfFinalized then fail ''finalized_without_settlement''
           else if conf = Some ConfConfirmed
           then after_fork (fork_check w payout status expired
                  (if po_status payout = SUBMITTED then set_status (po_id payout) CONFIRMED d else d)) (\<lambda>d'. (Inr (), d', []))
           else if conf = Some ConfProcessed
           then after_fork (fork_check w payout status expired d)
                  (\<lambda>d'. if shouldRebroadcastSignedTransaction (Some ConfProcessed) expired
                        then rebroadcast_job w payout d' else (Inr (), d', []))
           else if status = None \<and> po_lastValidBlockHeight payout \<noteq> None \<and> canReplaceTransactionBlockhash None expired
           then fail (if truthy (po_txSignature payout) then ''transaction_dropped'' else ''blockhash_expired_before_submit'')
           else if po_lastValidBlockHeight payout \<noteq> None \<and> shouldRebroadcastSignedTransaction None expired
           then rebroadcast_job w payout d
           else if po_lastValidBlockHeight payout = None
              \<and> (case po_initiatedAt payout of Some t \<Rightarrow> t < w_now w - 10 * 60 * 1000 | None \<Rightarrow> False)
           then fail ''legacy_attempt_timeout''
           else (Inr (), d, []))"

fun reconcile_loop :: "world \<Rightarrow> payout list \<Rightarrow> db \<Rightarrow> effect list \<Rightarrow> unit job" where
  "reconcile_loop w [] d es = (Inr (), d, es)"
| "reconcile_loop w (p # ps) d es = (case reconcile_step w p d of
       (Inl e, d', es') \<Rightarrow> (Inl e, d', es @ es')
     | (Inr _, d', es') \<Rightarrow> reconcile_loop w ps d' (es @ es'))"

definition reconcileStalePayouts :: "world \<Rightarrow> db \<Rightarrow> unit job" where
  "reconcileStalePayouts w d = reconcile_loop w (stale_payouts d) d []"

text \<open>\<open>onModuleInit\<close>: one rebuild per venue that has a finalised payout.\<close>

definition backfillFinalizedIncomeProjections :: "world \<Rightarrow> db \<Rightarrow> db" where
  "backfillFinalizedIncomeProjections w d =
     fold (\<lambda>v. rebuildIncomeProjection w v None)
       (remdups (map po_venueId (filter (\<lambda>p. po_status p = FINALIZED) (db_payouts d)))) d"

end
