(* ===== verification/Settlement_Safety.thy ===== *)
theory Settlement_Safety
  imports Settlement
begin

text \<open>
  Invariants of the settlement of allocations, kept by every operation of \<open>Payouts\<close> and
  \<open>Settlement\<close>: one payout per allocation, and an allocation is paid exactly when its payout is
  final.
\<close>

section \<open>One payout per allocation, paid when final\<close>

definition final_ids :: "db \<Rightarrow> id set" where
  "final_ids d = po_allocationId ` {p \<in> set (db_payouts d). po_status p = FINALIZED}"

lemma in_final_ids: "i \<in> final_ids d \<longleftrightarrow> (\<exists>p \<in> set (db_payouts d). po_allocationId p = i \<and> po_status p = FINALIZED)"
  by (auto simp: final_ids_def)

lemma bex_update_where: "(\<exists>x \<in> set (update_where P f t). Q x) \<longleftrightarrow> (\<exists>x \<in> set t. Q (if P x then f x else x))"
  by (induction t) auto

definition settle_inv :: "db \<Rightarrow> bool" where
  "settle_inv d \<longleftrightarrow> distinct (map po_id (db_payouts d)) \<and> distinct (map po_allocationId (db_payouts d))
     \<and> (\<forall>p \<in> set (db_payouts d). po_paymentId p = po_allocationId p)
     \<and> distinct (map wa_id (db_allocations d))
     \<and> po_allocationId ` set (db_payouts d) \<subseteq> wa_id ` set (db_allocations d)
     \<and> (\<forall>a \<in> set (db_allocations d). wa_payoutStatus a = AllocPAID \<longleftrightarrow> wa_id a \<in> final_ids d)"

lemma settle_inv_cong:
  "db_payouts d' = db_payouts d \<Longrightarrow> db_allocations d' = db_allocations d \<Longrightarrow> settle_inv d' = settle_inv d"
  by (simp add: settle_inv_def final_ids_def)

lemma update_payouts_frame [simp]:
  "db_payouts (update_payouts P f d) = update_where P f (db_payouts d)"
  "db_allocations (update_payouts P f d) = db_allocations d"
  "db_batches (update_payouts P f d) = db_batches d"
  "db_tips (update_payouts P f d) = db_tips d"
  "db_venues (update_payouts P f d) = db_venues d"
  by (simp_all add: update_payouts_def)

lemma update_payout_frame [simp]:
  "db_payouts (update_payout i f d) = update_where (\<lambda>p. po_id p = i) f (db_payouts d)"
  "db_allocations (update_payout i f d) = db_allocations d"
  "db_batches (update_payout i f d) = db_batches d"
  "db_tips (update_payout i f d) = db_tips d"
  "db_venues (update_payout i f d) = db_venues d"
  by (simp_all add: update_payout_def)

lemma update_allocation_frame [simp]:
  "db_allocations (update_allocation i f d) = update_where (\<lambda>a. wa_id a = i) f (db_allocations d)"
  "db_payouts (update_allocation i f d) = db_payouts d"
  "db_batches (update_allocation i f d) = db_batches d"
  "db_tips (update_allocation i f d) = db_tips d"
  "db_venues (update_allocation i f d) = db_venues d"
  by (simp_all add: update_allocation_def)

lemma refresh_frame [simp]:
  "db_payouts (refreshBatchPaymentStatus i d) = db_payouts d"
  "db_allocations (refreshBatchPaymentStatus i d) = db_allocations d"
  "db_tips (refreshBatchPaymentStatus i d) = db_tips d"
  "db_venues (refreshBatchPaymentStatus i d) = db_venues d"
  by (simp_all add: refreshBatchPaymentStatus_def Let_def)

lemma refresh_of_frame [simp]:
  "db_payouts (refreshBatchOfAllocation i d) = db_payouts d"
  "db_allocations (refreshBatchOfAllocation i d) = db_allocations d"
  "db_tips (refreshBatchOfAllocation i d) = db_tips d"
  by (simp_all add: refreshBatchOfAllocation_def split: option.splits)

lemma settle_rebuild [simp]: "settle_inv (rebuildIncomeProjection w v a d) = settle_inv d"
  by (rule settle_inv_cong) simp_all

lemma settle_refresh [simp]:
  "settle_inv (refreshBatchPaymentStatus i d) = settle_inv d"
  "settle_inv (refreshBatchOfAllocation i d) = settle_inv d"
  by (rule settle_inv_cong; simp)+

text \<open>An update of payout columns that keeps the keys and the finality of the rows it changes.\<close>

definition keeps_keys :: "(payout \<Rightarrow> payout) \<Rightarrow> bool" where
  "keeps_keys f \<longleftrightarrow> (\<forall>p. po_id (f p) = po_id p \<and> po_paymentId (f p) = po_paymentId p \<and> po_allocationId (f p) = po_allocationId p)"

lemma map_keys:
  assumes "keeps_keys f"
  shows "map po_id (update_where P f t) = map po_id t" "map po_allocationId (update_where P f t) = map po_allocationId t"
    "map po_paymentId (update_where P f t) = map po_paymentId t"
  using assms by (simp_all add: map_update_where keeps_keys_def)

lemma payments_kept:
  assumes "keeps_keys f" "\<forall>p \<in> set t. po_paymentId p = po_allocationId p" "p \<in> set (update_where P f t)"
  shows "po_paymentId p = po_allocationId p"
  using assms by (auto simp: in_update_where keeps_keys_def)

lemma settle_update_payouts:
  assumes "settle_inv d" "keeps_keys f"
    and "\<And>p. p \<in> set (db_payouts d) \<Longrightarrow> P p \<Longrightarrow> po_status (f p) = FINALIZED \<longleftrightarrow> po_status p = FINALIZED"
  shows "settle_inv (update_payouts P f d)"
proof -
  have "final_ids (update_payouts P f d) = final_ids d"
  proof (intro set_eqI)
    fix i
    have "i \<in> final_ids (update_payouts P f d) \<longleftrightarrow>
       (\<exists>p \<in> set (db_payouts d). po_allocationId (if P p then f p else p) = i \<and> po_status (if P p then f p else p) = FINALIZED)"
      by (simp only: in_final_ids update_payouts_frame bex_update_where)
    also have "\<dots> \<longleftrightarrow> i \<in> final_ids d"
      unfolding in_final_ids using assms(2,3) by (intro bex_cong refl) (simp add: keeps_keys_def)
    finally show "i \<in> final_ids (update_payouts P f d) \<longleftrightarrow> i \<in> final_ids d" .
  qed
  moreover have "po_allocationId ` set (update_where P f (db_payouts d)) = po_allocationId ` set (db_payouts d)"
    using map_keys(2) [OF assms(2), of P "db_payouts d"] by (metis list.set_map)
  ultimately show ?thesis
    using assms(1) map_keys [OF assms(2), of P "db_payouts d"] payments_kept [OF assms(2)]
    by (auto simp: settle_inv_def simp del: list.set_map)
qed

lemma settle_update_allocation:
  assumes "settle_inv d" "\<And>a. wa_id (g a) = wa_id a"
    and "\<And>a. a \<in> set (db_allocations d) \<Longrightarrow> wa_id a = i \<Longrightarrow> wa_payoutStatus (g a) = AllocPAID \<longleftrightarrow> wa_payoutStatus a = AllocPAID"
  shows "settle_inv (update_allocation i g d)"
proof -
  have ids: "map wa_id (update_where (\<lambda>a. wa_id a = i) g (db_allocations d)) = map wa_id (db_allocations d)"
    using assms(2) by (simp add: map_update_where)
  then have "wa_id ` set (update_where (\<lambda>a. wa_id a = i) g (db_allocations d)) = wa_id ` set (db_allocations d)"
    by (metis list.set_map)
  moreover have "wa_payoutStatus a = AllocPAID \<longleftrightarrow> wa_id a \<in> final_ids d"
    if "a \<in> set (update_where (\<lambda>a. wa_id a = i) g (db_allocations d))" for a
    using that assms by (auto simp: in_update_where settle_inv_def split: if_splits)
  moreover have "final_ids (update_allocation i g d) = final_ids d" by (simp add: final_ids_def)
  ultimately show ?thesis using assms(1) ids by (simp add: settle_inv_def)
qed

text \<open>Settling one payout together with its allocation.\<close>

lemma final_ids_update_payout:
  assumes "settle_inv d" "p \<in> set (db_payouts d)" "keeps_keys f"
  shows "final_ids (update_payout (po_id p) f d) =
     (if po_status (f p) = FINALIZED then insert (po_allocationId p) (final_ids d) else final_ids d - {po_allocationId p})"
proof -
  have same: "q = p" if "q \<in> set (db_payouts d)" "po_id q = po_id p \<or> po_allocationId q = po_allocationId p" for q
    using assms(1,2) that by (auto simp: settle_inv_def distinct_map dest: inj_onD)
  have "i \<in> final_ids (update_payout (po_id p) f d) \<longleftrightarrow>
     (if po_status (f p) = FINALIZED then i = po_allocationId p \<or> i \<in> final_ids d else i \<in> final_ids d \<and> i \<noteq> po_allocationId p)" for i
  proof -
    have "i \<in> final_ids (update_payout (po_id p) f d) \<longleftrightarrow>
        (\<exists>q \<in> set (db_payouts d). po_allocationId q = i \<and> po_status (if po_id q = po_id p then f q else q) = FINALIZED)"
      unfolding in_final_ids update_payout_frame bex_update_where
      using assms(3) by (intro bex_cong refl) (simp add: keeps_keys_def)
    also have "\<dots> \<longleftrightarrow> (if i = po_allocationId p then po_status (f p) = FINALIZED else i \<in> final_ids d)"
    proof (cases "i = po_allocationId p")
      case True
      then show ?thesis using same assms(2) by (metis (mono_tags, lifting))
    next
      case False
      then have "po_id q \<noteq> po_id p" if "q \<in> set (db_payouts d)" "po_allocationId q = i" for q
        using same that by blast
      then show ?thesis using False by (auto simp: in_final_ids)
    qed
    finally show ?thesis by (cases "i = po_allocationId p") simp_all
  qed
  then show ?thesis by (cases "po_status (f p) = FINALIZED") (simp_all add: set_eq_iff)
qed

lemma settle_both:
  assumes "settle_inv d" "p \<in> set (db_payouts d)" "keeps_keys f" "\<And>a. wa_id (g a) = wa_id a"
    and "\<And>a. wa_payoutStatus (g a) = AllocPAID \<longleftrightarrow> po_status (f p) = FINALIZED"
  shows "settle_inv (update_allocation (po_allocationId p) g (update_payout (po_id p) f d))"
proof -
  let ?d = "update_allocation (po_allocationId p) g (update_payout (po_id p) f d)"
  have fin: "final_ids ?d = (if po_status (f p) = FINALIZED then insert (po_allocationId p) (final_ids d) else final_ids d - {po_allocationId p})"
    using final_ids_update_payout [OF assms(1-3)] by (simp add: final_ids_def)
  have ids: "map wa_id (db_allocations ?d) = map wa_id (db_allocations d)" using assms(4) by (simp add: map_update_where)
  then have wids: "wa_id ` set (db_allocations ?d) = wa_id ` set (db_allocations d)" by (metis list.set_map)
  have pids: "po_allocationId ` set (db_payouts ?d) = po_allocationId ` set (db_payouts d)"
    using map_keys(2) [OF assms(3), of _ "db_payouts d"] by simp (metis list.set_map)
  have paid: "wa_payoutStatus a = AllocPAID \<longleftrightarrow> wa_id a \<in> final_ids ?d" if a: "a \<in> set (db_allocations ?d)" for a
  proof -
    obtain b where b: "b \<in> set (db_allocations d)" "a = (if wa_id b = po_allocationId p then g b else b)"
      using a by (auto simp: in_update_where)
    then have "wa_payoutStatus b = AllocPAID \<longleftrightarrow> wa_id b \<in> final_ids d" using assms(1) by (simp add: settle_inv_def)
    then show ?thesis using b(2) assms(4,5) unfolding fin by (auto split: if_splits)
  qed
  show ?thesis
    unfolding settle_inv_def using assms(1) ids wids pids paid map_keys [OF assms(3)] payments_kept [OF assms(3)]
    by (auto simp: settle_inv_def simp del: list.set_map)
qed

lemma settle_new_payout:
  assumes "settle_inv d" "a \<in> set (db_allocations d)" "payout_by_payment d (wa_id a) = None"
    and "po_id q \<notin> po_id ` set (db_payouts d)" "po_paymentId q = wa_id a" "po_allocationId q = wa_id a"
    and "\<And>x. wa_id (g x) = wa_id x" "\<And>x. wa_payoutStatus (g x) = AllocPAID \<longleftrightarrow> po_status q = FINALIZED"
  shows "settle_inv (update_allocation (wa_id a) g (d\<lparr>db_payouts := db_payouts d @ [q]\<rparr>))"
proof -
  let ?d = "update_allocation (wa_id a) g (d\<lparr>db_payouts := db_payouts d @ [q]\<rparr>)"
  have new: "wa_id a \<notin> po_allocationId ` set (db_payouts d)"
    using assms(1,3) by (auto simp: payout_by_payment_def find_None_iff_all settle_inv_def)
  then have old: "wa_id a \<notin> final_ids d" by (auto simp: final_ids_def)
  have fin: "final_ids ?d = (if po_status q = FINALIZED then insert (wa_id a) (final_ids d) else final_ids d)"
    using assms(6) by (auto simp: in_final_ids)
  have ids: "map wa_id (db_allocations ?d) = map wa_id (db_allocations d)" using assms(7) by (simp add: map_update_where)
  then have wids: "wa_id ` set (db_allocations ?d) = wa_id ` set (db_allocations d)" by (metis list.set_map)
  have paid: "wa_payoutStatus x = AllocPAID \<longleftrightarrow> wa_id x \<in> final_ids ?d" if x: "x \<in> set (db_allocations ?d)" for x
  proof -
    obtain b where b: "b \<in> set (db_allocations d)" "x = (if wa_id b = wa_id a then g b else b)"
      using x by (auto simp: in_update_where)
    then have "wa_payoutStatus b = AllocPAID \<longleftrightarrow> wa_id b \<in> final_ids d" using assms(1) by (simp add: settle_inv_def)
    then show ?thesis using b(2) assms(7,8) old unfolding fin by (auto split: if_splits)
  qed
  have "po_allocationId ` set (db_payouts ?d) \<subseteq> wa_id ` set (db_allocations ?d)"
    using assms(1,2,6) unfolding wids by (auto simp: settle_inv_def)
  then show ?thesis
    unfolding settle_inv_def using assms(1,4,5,6) ids paid new
    by (auto simp: settle_inv_def)
qed

section \<open>Every operation keeps the invariant\<close>

definition row_in :: "db \<Rightarrow> payout \<Rightarrow> bool" where
  "row_in d p \<longleftrightarrow> (\<exists>q \<in> set (db_payouts d). po_id q = po_id p \<and> po_allocationId q = po_allocationId p)"

definition others_kept :: "id \<Rightarrow> db \<Rightarrow> db \<Rightarrow> bool" where
  "others_kept i d d' \<longleftrightarrow> (\<forall>q \<in> set (db_payouts d). po_id q \<noteq> i \<longrightarrow> q \<in> set (db_payouts d'))"

lemma row_in_self [simp]: "p \<in> set (db_payouts d) \<Longrightarrow> row_in d p"
  by (auto simp: row_in_def)

lemma find_payoutD: "find_payout d i = Some p \<Longrightarrow> p \<in> set (db_payouts d) \<and> po_id p = i"
  by (auto simp: find_payout_def dest: find_SomeD)

lemma payout_by_paymentD: "payout_by_payment d i = Some p \<Longrightarrow> p \<in> set (db_payouts d) \<and> po_paymentId p = i"
  by (auto simp: payout_by_payment_def dest: find_SomeD)

lemma find_allocationD: "find_allocation d i = Some a \<Longrightarrow> a \<in> set (db_allocations d) \<and> wa_id a = i"
  by (auto simp: find_allocation_def dest: find_SomeD)

lemma settle_both_row:
  assumes "settle_inv d" "row_in d p" "keeps_keys f" "\<And>a. wa_id (g a) = wa_id a"
    and "\<And>a q. wa_payoutStatus (g a) = AllocPAID \<longleftrightarrow> po_status (f q) = FINALIZED"
  shows "settle_inv (update_allocation (po_allocationId p) g (update_payout (po_id p) f d))"
proof -
  obtain q where "q \<in> set (db_payouts d)" "po_id q = po_id p" "po_allocationId q = po_allocationId p"
    using assms(2) by (auto simp: row_in_def)
  then show ?thesis using settle_both [OF assms(1) _ assms(3,4), of q] assms(5) by simp
qed

lemma settle_markFailed: "settle_inv d \<Longrightarrow> row_in d p \<Longrightarrow> settle_inv (markFailed (po_id p) (po_allocationId p) reason d)"
  unfolding markFailed_def by (rule settle_both_row) (simp_all add: keeps_keys_def)

lemma finalized_keys [simp]:
  "po_status (finalized w r s p) = FINALIZED" "keeps_keys (finalized w r s)"
  by (simp_all add: finalized_def Let_def keeps_keys_def)

lemma settle_finalize:
  assumes "settle_inv d" "row_in d p"
  shows "settle_inv (snd (finalizeFromChain w (po_id p) (po_allocationId p) slot d))"
proof (cases "find_payout d (po_id p)")
  case (Some q)
  then show ?thesis
    using settle_both_row [OF assms, of "finalized w r slot" "\<lambda>a. a\<lparr>wa_payoutStatus := AllocPAID\<rparr>" for r] assms(1)
    by (simp add: finalizeFromChain_def Let_def split: option.splits)
qed (use assms in \<open>simp add: finalizeFromChain_def\<close>)

lemma settle_set_status:
  assumes "settle_inv d" "s \<noteq> FINALIZED" "\<And>q. q \<in> set (db_payouts d) \<Longrightarrow> po_id q = i \<Longrightarrow> po_status q \<noteq> FINALIZED"
  shows "settle_inv (set_status i s d)"
  unfolding set_status_def update_payout_def
  by (rule settle_update_payouts [OF assms(1)]) (use assms(2,3) in \<open>auto simp: keeps_keys_def\<close>)

lemma row_in_update [simp]: "keeps_keys f \<Longrightarrow> row_in (update_payout i f d) p = row_in d p"
  unfolding row_in_def update_payout_frame bex_update_where by (intro bex_cong refl) (simp add: keeps_keys_def)

lemma row_in_set_status [simp]: "row_in (set_status i s d) p = row_in d p"
  by (simp add: set_status_def keeps_keys_def)

lemma settle_fork:
  assumes "settle_inv d" "row_in d p"
  shows "settle_inv (snd (failIfObservedForkWasDropped w p sig slot e d))"
  using settle_finalize [OF assms, of w None] settle_markFailed [OF assms] assms(1)
  by (auto simp: failIfObservedForkWasDropped_def split: prod.splits sum.splits)

lemma settle_finalize_or_fail:
  "settle_inv d \<Longrightarrow> row_in d p \<Longrightarrow> settle_inv (snd (finalize_or_fail w p reason d))"
  by (simp add: finalize_or_fail_def settle_finalize settle_markFailed)

lemma settle_rebroadcast: "settle_inv d \<Longrightarrow> settle_inv (fst (rebroadcastSameTransaction w p d))"
  by (auto simp: rebroadcastSameTransaction_def keeps_keys_def intro!: settle_update_payouts)

lemma settle_after_fork:
  assumes "settle_inv (snd r)" "\<And>d'. settle_inv d' \<Longrightarrow> settle_inv (fst (snd (k d')))"
  shows "settle_inv (fst (snd (after_fork r k)))"
  using assms by (cases r) (auto simp: after_fork_def split: sum.splits)

lemma settle_await:
  assumes "settle_inv d" "row_in d p"
  shows "settle_inv (fst (snd (await_unless_dropped w p sig slot e msg d)))"
  unfolding await_unless_dropped_def
  by (rule settle_after_fork [OF settle_fork [OF assms]]) (simp add: awaiting_def)

lemma unique_payout: "settle_inv d \<Longrightarrow> p \<in> set (db_payouts d) \<Longrightarrow> q \<in> set (db_payouts d) \<Longrightarrow> po_id q = po_id p \<Longrightarrow> q = p"
  by (auto simp: settle_inv_def distinct_map dest: inj_onD)

lemma unique_status: "settle_inv d \<Longrightarrow> p \<in> set (db_payouts d) \<Longrightarrow> q \<in> set (db_payouts d) \<Longrightarrow> po_id q = po_id p \<Longrightarrow> po_status q = po_status p"
  using unique_payout by blast

lemma count_where_pos: "0 < count_where P t \<longleftrightarrow> (\<exists>r \<in> set t. P r)"
  by (auto simp: count_where_def filter_empty_conv)

lemma settle_processConfirmation:
  assumes "settle_inv d"
  shows "settle_inv (fst (snd (processConfirmation w i sig d)))"
proof (cases "find_payout d i")
  case None
  then show ?thesis using assms by (simp add: processConfirmation_def)
next
  case (Some p)
  then have p: "p \<in> set (db_payouts d)" using find_payoutD by blast
  have nf: "settle_inv (set_status (po_id p) s d)" if "po_status p \<noteq> FINALIZED" "s \<noteq> FINALIZED" for s
    using that unique_payout [OF assms p] by (intro settle_set_status [OF assms]) auto
  have nf2: "settle_inv (set_status (po_id p) s (fst (rebroadcastSameTransaction w p d)))" if "po_status p \<noteq> FINALIZED" "s \<noteq> FINALIZED" for s
  proof (rule settle_set_status [OF settle_rebroadcast [OF assms] that(2)])
    fix q assume "q \<in> set (db_payouts (fst (rebroadcastSameTransaction w p d)))" "po_id q = po_id p"
    then show "po_status q \<noteq> FINALIZED"
      using that(1) unique_payout [OF assms p] by (auto simp: rebroadcastSameTransaction_def in_update_where split: if_splits)
  qed
  show ?thesis
    using Some p assms nf nf2
    by (simp add: processConfirmation_def Let_def done_job_def awaiting_def settle_finalize settle_finalize_or_fail settle_await
        settle_rebroadcast case_prod_unfold split: option.splits)
qed

lemma settle_reconcile_step:
  assumes "settle_inv d" "p \<in> set (db_payouts d)" "po_status p \<noteq> FINALIZED"
  shows "settle_inv (fst (snd (reconcile_step w p d)))"
proof -
  let ?d = "if po_status p = SUBMITTED then set_status (po_id p) CONFIRMED d else d"
  have nf: "settle_inv ?d" "row_in ?d p"
    using assms unique_payout [OF assms(1,2)] by (auto intro!: settle_set_status)
  have chk: "settle_inv (snd (fork_check w p status e d))" "settle_inv (snd (fork_check w p status e ?d))" for status e
    using settle_fork [OF nf] settle_fork [OF assms(1)] assms(1,2) nf(1) by (simp_all add: fork_check_def)
  have reb: "settle_inv (fst (snd (rebroadcast_job w p d')))" if "settle_inv d'" for d'
    using that by (simp add: rebroadcast_job_def settle_rebroadcast)
  show ?thesis
    unfolding reconcile_step_def Let_def done_job_def
    using assms(1,2) chk reb
    by (simp add: settle_finalize settle_markFailed settle_after_fork split: if_split)
qed

lemma reconcile_others:
  "others_kept (po_id p) d (fst (snd (reconcile_step w p d)))"
proof -
  have upd: "others_kept (po_id p) d (update_payout (po_id p) f d)" for f and d :: db
    by (auto simp: others_kept_def in_update_where)
  have updP: "others_kept (po_id p) d (update_payouts P f d)" if "\<And>q. P q \<Longrightarrow> po_id q = po_id p" for P f and d :: db
    using that by (auto simp: others_kept_def in_update_where)
  have tr: "others_kept i d d2" if "others_kept i d d1" "db_payouts d2 = db_payouts d1" for i and d d1 d2 :: db
    using that by (simp add: others_kept_def)
  have tr2: "others_kept i d d2" if "others_kept i d d1" "others_kept i d1 d2" for i and d d1 d2 :: db
    using that by (simp add: others_kept_def)
  have refl: "others_kept (po_id p) d d" for d :: db by (simp add: others_kept_def)
  have fail: "others_kept (po_id p) d (markFailed (po_id p) a r d)" for a r and d :: db
    unfolding markFailed_def by (rule tr [OF upd]) simp
  have fin: "others_kept (po_id p) d (snd (finalizeFromChain w (po_id p) a sl d))" for a sl and d :: db
    unfolding finalizeFromChain_def Let_def
    by (auto simp: refl split: option.splits intro: tr [OF refl] tr [OF upd])
  have frk: "others_kept (po_id p) d (snd (fork_check w p st e d))" for st e and d :: db
    using fin [of d "po_allocationId p" None] fail
    by (auto simp: fork_check_def failIfObservedForkWasDropped_def refl split: prod.splits sum.splits)
  have set: "others_kept (po_id p) d (set_status (po_id p) s d)" for s and d :: db
    by (simp add: set_status_def upd)
  have reb: "others_kept (po_id p) d (fst (rebroadcastSameTransaction w p d))" for d :: db
    by (auto simp: rebroadcastSameTransaction_def refl intro: updP)
  have aft: "others_kept (po_id p) d (fst (snd (after_fork r k)))"
    if "others_kept (po_id p) d (snd r)" "\<And>d'. others_kept (po_id p) d' (fst (snd (k d')))" for r k and d :: db
    using that by (cases r) (auto simp: after_fork_def split: sum.splits intro: tr2)
  have c: "others_kept (po_id p) d (fst (snd (after_fork (fork_check w p st e (if b then set_status (po_id p) s d else d)) (\<lambda>d'. (Inr (), d', [])))))" for st e b s
    by (rule aft) (cases b; simp add: refl frk tr2 [OF set frk])+
  have r: "others_kept (po_id p) d (fst (snd (rebroadcast_job w p d)))" for d
    using reb by (simp add: rebroadcast_job_def)
  have pr: "others_kept (po_id p) d (fst (snd (after_fork (fork_check w p st e d) (\<lambda>d'. if b then rebroadcast_job w p d' else (Inr (), d', [])))))" for st e b
    by (rule aft) (simp_all add: refl frk r)
  show ?thesis
    unfolding reconcile_step_def Let_def done_job_def by (simp add: fin fail refl c r pr split: if_split)
qed

lemma settle_reconcile_loop:
  assumes "settle_inv d" "set ps \<subseteq> set (db_payouts d)" "\<forall>p \<in> set ps. po_status p \<noteq> FINALIZED" "distinct (map po_id ps)"
  shows "settle_inv (fst (snd (reconcile_loop w ps d es)))"
  using assms
proof (induction ps arbitrary: d es)
  case (Cons p ps)
  obtain r d' es' where r: "reconcile_step w p d = (r, d', es')" by (metis prod.exhaust)
  have inv: "settle_inv d'" using settle_reconcile_step [of d p w] Cons.prems r by simp
  have kept: "others_kept (po_id p) d d'" using reconcile_others [of p d w] r by simp
  have sub: "set ps \<subseteq> set (db_payouts d')"
  proof
    fix q assume q: "q \<in> set ps"
    then have "po_id q \<noteq> po_id p" using Cons.prems(4) by (metis distinct.simps(2) imageI list.set_map list.simps(9))
    moreover have "q \<in> set (db_payouts d)" using q Cons.prems(2) by auto
    ultimately show "q \<in> set (db_payouts d')" using kept by (simp add: others_kept_def)
  qed
  have "settle_inv (fst (snd (reconcile_loop w ps d' (es @ es'))))"
    by (rule Cons.IH [OF inv sub]) (use Cons.prems in simp_all)
  then show ?case using r inv by (cases r) simp_all
qed simp

lemma settle_reconcile:
  assumes "settle_inv d"
  shows "settle_inv (fst (snd (reconcileStalePayouts w d)))"
  unfolding reconcileStalePayouts_def
proof (rule settle_reconcile_loop [OF assms])
  have sub: "set (stale_payouts d) \<subseteq> {p \<in> set (db_payouts d). po_status p \<in> {INITIATED, SUBMITTED, CONFIRMED}}"
    unfolding stale_payouts_def by (rule order_trans [OF set_take_subset]) auto
  then show "set (stale_payouts d) \<subseteq> set (db_payouts d)" "\<forall>p \<in> set (stale_payouts d). po_status p \<noteq> FINALIZED" by auto
  have "distinct (map po_id (db_payouts d))" using assms by (simp add: settle_inv_def)
  then show "distinct (map po_id (stale_payouts d))"
    unfolding stale_payouts_def take_map [symmetric] by (intro distinct_take) (simp add: distinct_map_filter)
qed

lemma settle_event: "settle_inv d \<Longrightarrow> settle_inv (onPayoutSettled h d)"
proof -
  assume inv: "settle_inv d"
  show ?thesis
  proof (cases "find (\<lambda>p. po_paymentIdHash p = h) (db_payouts d)")
    case (Some p)
    then have p: "p \<in> set (db_payouts d)" by (auto dest: find_SomeD)
    have "settle_inv (set_status (po_id p) CONFIRMED d)" if "po_status p \<in> {SUBMITTED, INITIATED}"
      using that unique_status [OF inv p] by (intro settle_set_status [OF inv]) auto
    then show ?thesis using Some inv by (simp add: onPayoutSettled_def)
  qed (simp add: onPayoutSettled_def inv)
qed

lemma settle_build: "settle_inv d \<Longrightarrow> settle_inv (snd (build_claim_rows w i u c d))"
  by (auto simp: build_claim_rows_def Let_def initiated_def keeps_keys_def buildable_def intro!: settle_update_payouts)

lemma settle_submit:
  assumes "settle_inv d" "row_in d (sc_payout c)" "po_id (sc_payout c) = i"
  shows "settle_inv (fst (snd (submit_claim_rows w i u c d)))"
proof -
  let ?claims = "\<lambda>p. po_id p = i \<and> po_status p = INITIATED"
  let ?fail = "\<lambda>p. p\<lparr>po_status := PayoutFAILED, po_failedReason := Some ''blockhash_expired_before_submit''\<rparr>"
  obtain q where q: "q \<in> set (db_payouts d)" "po_id q = i" "po_allocationId q = po_allocationId (sc_payout c)"
    using assms(2,3) by (auto simp: row_in_def)
  have "settle_inv (update_payouts ?claims ?fail d)"
    by (rule settle_update_payouts [OF assms(1)]) (auto simp: keeps_keys_def)
  then have fail: "settle_inv (update_allocation (po_allocationId (sc_payout c)) (\<lambda>a. a\<lparr>wa_payoutStatus := AllocFAILED\<rparr>) (update_payouts ?claims ?fail d))"
    if pos: "count_where ?claims (db_payouts d) > 0"
  proof (rule settle_update_allocation)
    fix a assume a: "a \<in> set (db_allocations (update_payouts ?claims ?fail d))" "wa_id a = po_allocationId (sc_payout c)"
    obtain r where "r \<in> set (db_payouts d)" "?claims r" using pos by (auto simp: count_where_pos)
    then have "r = q" using unique_payout [OF assms(1) q(1)] q(2) by auto
    then have "po_status q \<noteq> FINALIZED" using \<open>?claims r\<close> by auto
    then have "po_allocationId q \<notin> final_ids d"
      using assms(1) q(1) by (auto simp: in_final_ids settle_inv_def distinct_map dest: inj_onD)
    then show "(wa_payoutStatus (a\<lparr>wa_payoutStatus := AllocFAILED\<rparr>) = AllocPAID) = (wa_payoutStatus a = AllocPAID)"
      using assms(1) a q(3) by (auto simp: settle_inv_def)
  qed simp
  have sub: "settle_inv (update_payouts ?claims (submitted w u c) d)"
    by (rule settle_update_payouts [OF assms(1)]) (auto simp: keeps_keys_def submitted_def)
  then have "settle_inv (update_payouts (\<lambda>p. po_id p = i \<and> po_status p = SUBMITTED) (\<lambda>p. p\<lparr>po_failedReason := x\<rparr>)
      (update_payouts ?claims (submitted w u c) d))" for x
    by (rule settle_update_payouts) (auto simp: keeps_keys_def)
  then show ?thesis using assms(1) fail sub by (auto simp: submit_claim_rows_def Let_def split: option.splits)
qed

lemma update_where_cong:
  "t = t' \<Longrightarrow> (\<And>r. r \<in> set t' \<Longrightarrow> P r \<Longrightarrow> f r = g r) \<Longrightarrow> update_where P f t = update_where P g t'"
  by (auto simp: update_where_def)

lemma settle_create:
  assumes "settle_inv d" "w_new_id w \<notin> po_id ` set (db_payouts d)"
  shows "settle_inv (snd (createUsdcPayout w i u d))"
proof -
  have step: "settle_inv (snd (create_or_retry w u a b wid wal d))"
    if a: "a \<in> set (db_allocations d)" "wa_payoutStatus a \<noteq> AllocPAID" for a b wid wal
  proof -
    let ?data = "payout_attempt w a b wid wal u"
    have data: "keeps_keys (\<lambda>p. ?data n p\<lparr>po_paymentId := po_paymentId p, po_allocationId := po_allocationId p\<rparr>)" for n
      by (simp add: keeps_keys_def payout_attempt_def)
    show ?thesis
    proof (cases "payout_by_payment d (wa_id a)")
      case None
      have "settle_inv (update_allocation (wa_id a) (\<lambda>x. x\<lparr>wa_payoutRail := Some USDC, wa_payoutStatus := AllocPENDING\<rparr>)
          (d\<lparr>db_payouts := db_payouts d @ [?data n (blank_payout (w_new_id w))]\<rparr>))" for n
        by (rule settle_new_payout [OF assms(1) a(1) None]) (use assms(2) in \<open>simp_all add: payout_attempt_def blank_payout_def\<close>)
      then show ?thesis using None assms(1) by (simp add: create_or_retry_def Let_def split: sum.splits)
    next
      case (Some e)
      then have e: "e \<in> set (db_payouts d)" "po_paymentId e = wa_id a" "po_allocationId e = wa_id a"
        using payout_by_paymentD [OF Some] assms(1) by (auto simp: settle_inv_def)
      have same: "update_payout (po_id e) (?data n) d
          = update_payout (po_id e) (\<lambda>p. ?data n p\<lparr>po_paymentId := po_paymentId p, po_allocationId := po_allocationId p\<rparr>) d" for n
      proof -
        have "?data n q = ?data n q\<lparr>po_paymentId := po_paymentId q, po_allocationId := po_allocationId q\<rparr>"
          if "q \<in> set (db_payouts d)" "po_id q = po_id e" for q
          using unique_payout [OF assms(1) e(1) that] e(2,3) by (simp add: payout_attempt_def)
        then show ?thesis unfolding update_payout_def update_payouts_def by (simp cong: update_where_cong)
      qed
      have retry: "settle_inv (update_allocation (wa_id a) (\<lambda>x. x\<lparr>wa_payoutRail := Some USDC, wa_payoutStatus := AllocPENDING\<rparr>)
          (update_payout (po_id e) (?data n) d))" for n
        unfolding same e(3) [symmetric]
        by (rule settle_both [OF assms(1) e(1) data]) (simp_all add: payout_attempt_def)
      have "settle_inv (heal_allocation w u a b e d)"
      proof (cases "po_status e = FINALIZED")
        case True
        then have "wa_id a \<in> final_ids d" using e by (auto simp: in_final_ids)
        then show ?thesis using a assms(1) by (auto simp: settle_inv_def)
      next
        case False
        have "settle_inv (update_allocation (wa_id a) (\<lambda>x. x\<lparr>wa_payoutRail := Some USDC, wa_payoutStatus := AllocPENDING\<rparr>) d)"
        proof (rule settle_update_allocation [OF assms(1)])
          fix x assume "x \<in> set (db_allocations d)" "wa_id x = wa_id a"
          then have "x = a" using assms(1) a by (auto simp: settle_inv_def distinct_map dest: inj_onD)
          then show "(wa_payoutStatus (x\<lparr>wa_payoutRail := Some USDC, wa_payoutStatus := AllocPENDING\<rparr>) = AllocPAID) = (wa_payoutStatus x = AllocPAID)"
            using a by simp
        qed simp
        then show ?thesis using False assms(1) by (auto simp: heal_allocation_def healed_status_def Let_def)
      qed
      then show ?thesis using Some retry assms(1) by (simp add: create_or_retry_def Let_def split: sum.splits)
    qed
  qed
  show ?thesis
    using assms(1) step find_allocationD
    by (auto simp: createUsdcPayout_def split: option.splits sum.splits)
qed

lemma settle_legacy:
  assumes "settle_inv d" "w_new_id w \<notin> po_id ` set (db_payouts d)"
  shows "settle_inv (snd (registerLegacyEvidence w i rail ref u d))"
proof -
  have step: "settle_inv (update_allocation (wa_id a) (\<lambda>x. x\<lparr>wa_payoutRail := Some rail, wa_payoutStatus := AllocPAID\<rparr>)
      (case payout_by_payment d (wa_id a) of
         Some e \<Rightarrow> update_payout (po_id e) (legacy_update w rail ref u) d
       | None \<Rightarrow> d\<lparr>db_payouts := db_payouts d @ [legacy_create w a b rail ref u]\<rparr>))"
    if a: "a \<in> set (db_allocations d)" for a b
  proof (cases "payout_by_payment d (wa_id a)")
    case None
    have "settle_inv (update_allocation (wa_id a) (\<lambda>x. x\<lparr>wa_payoutRail := Some rail, wa_payoutStatus := AllocPAID\<rparr>)
        (d\<lparr>db_payouts := db_payouts d @ [legacy_create w a b rail ref u]\<rparr>))"
      by (rule settle_new_payout [OF assms(1) a None]) (use assms(2) in \<open>simp_all add: legacy_create_def blank_payout_def\<close>)
    then show ?thesis using None by simp
  next
    case (Some e)
    then have e: "e \<in> set (db_payouts d)" "po_allocationId e = wa_id a"
      using payout_by_paymentD [OF Some] assms(1) by (auto simp: settle_inv_def)
    have "settle_inv (update_allocation (po_allocationId e) (\<lambda>x. x\<lparr>wa_payoutRail := Some rail, wa_payoutStatus := AllocPAID\<rparr>)
        (update_payout (po_id e) (legacy_update w rail ref u) d))"
      by (rule settle_both [OF assms(1) e(1)]) (simp_all add: keeps_keys_def legacy_update_def)
    then show ?thesis using Some e(2) by simp
  qed
  show ?thesis
  proof (cases "find_allocation d i")
    case None
    then show ?thesis using assms(1) by (simp add: registerLegacyEvidence_def)
  next
    case a: (Some a)
    show ?thesis
    proof (cases "find_batch d (wa_batchId a)")
      case None
      then show ?thesis using assms(1) a by (simp add: registerLegacyEvidence_def)
    next
      case b: (Some b)
      have "settle_inv (snd (case find (\<lambda>p. po_allocationId p = wa_id a \<and> po_status p = FINALIZED) (db_payouts d) of
          None \<Rightarrow> (Inl e, d) | Some x \<Rightarrow> (Inr x, rebuildIncomeProjection w v u d)))" for e :: http_error and v
        using assms(1) by (simp split: option.split)
      then show ?thesis
        using assms(1) a b step [of a b] find_allocationD [OF a] by (simp add: registerLegacyEvidence_def Let_def)
    qed
  qed
qed

section \<open>The worker decides by the settlement record\<close>

text \<open>How one worker run may change a payout row.\<close>

definition worker_rel :: "world \<Rightarrow> payout \<Rightarrow> payout \<Rightarrow> bool" where
  "worker_rel w q q' \<longleftrightarrow> po_id q' = po_id q \<and> po_paymentId q' = po_paymentId q
     \<and> po_txSignature q' = po_txSignature q \<and> po_lastValidBlockHeight q' = po_lastValidBlockHeight q
     \<and> po_recentBlockhash q' = po_recentBlockhash q
     \<and> (po_status q' = FINALIZED \<longrightarrow> po_status q = FINALIZED \<or> w_finalized_record w (po_paymentId q) \<noteq> None)
     \<and> (po_status q' = PayoutFAILED \<longrightarrow> po_status q = PayoutFAILED \<or> w_finalized_record w (po_paymentId q) = None)
     \<and> (po_status q' \<in> {CREATED, INITIATED} \<longrightarrow> po_status q' = po_status q)"

definition worker_ok :: "world \<Rightarrow> db \<Rightarrow> db \<Rightarrow> bool" where
  "worker_ok w d d' \<longleftrightarrow> list_all2 (worker_rel w) (db_payouts d) (db_payouts d')"

lemma worker_rel_refl [simp]: "worker_rel w q q"
  by (simp add: worker_rel_def)

lemma worker_rel_trans: "worker_rel w p q \<Longrightarrow> worker_rel w q r \<Longrightarrow> worker_rel w p r"
  unfolding worker_rel_def by auto

lemma worker_ok_refl [simp]: "worker_ok w d d"
  by (simp add: worker_ok_def list.rel_refl)

lemma worker_ok_trans: "worker_ok w d d1 \<Longrightarrow> worker_ok w d1 d2 \<Longrightarrow> worker_ok w d d2"
  unfolding worker_ok_def by (rule list_all2_trans [of "worker_rel w" "worker_rel w" "worker_rel w"]) (rule worker_rel_trans)

lemma worker_ok_same: "db_payouts d' = db_payouts e \<Longrightarrow> worker_ok w d d' = worker_ok w d e"
  by (simp add: worker_ok_def)

lemma worker_ok_update:
  assumes "\<And>p. p \<in> set (db_payouts d) \<Longrightarrow> P p \<Longrightarrow> worker_rel w p (f p)"
  shows "worker_ok w d (update_payouts P f d)"
  using assms by (auto simp: worker_ok_def update_where_def list_all2_conv_all_nth)

text \<open>A row the handler works on: some row of the database with the same id has its payment id.\<close>

definition row_key :: "db \<Rightarrow> payout \<Rightarrow> bool" where
  "row_key d p \<longleftrightarrow> (\<forall>q \<in> set (db_payouts d). po_id q = po_id p \<longrightarrow> po_paymentId q = po_paymentId p)"

lemma row_key_self: "distinct (map po_id (db_payouts d)) \<Longrightarrow> p \<in> set (db_payouts d) \<Longrightarrow> row_key d p"
  by (auto simp: row_key_def distinct_map dest: inj_onD)

lemma worker_ok_back: "worker_ok w d d' \<Longrightarrow> q' \<in> set (db_payouts d') \<Longrightarrow> \<exists>q \<in> set (db_payouts d). worker_rel w q q'"
  unfolding worker_ok_def by (metis in_set_conv_nth list_all2_lengthD list_all2_nthD2)

lemma row_key_ok: "row_key d p \<Longrightarrow> worker_ok w d d' \<Longrightarrow> row_key d' p"
  using worker_ok_back unfolding row_key_def worker_rel_def by metis

lemma worker_markFailed:
  assumes "row_key d p" "w_finalized_record w (po_paymentId p) = None"
  shows "worker_ok w d (markFailed (po_id p) a reason d)"
proof -
  have "worker_ok w d (update_payout (po_id p) (\<lambda>q. q\<lparr>po_status := PayoutFAILED, po_failedReason := Some reason\<rparr>) d)"
    unfolding update_payout_def
    by (rule worker_ok_update) (use assms in \<open>auto simp: worker_rel_def row_key_def\<close>)
  then show ?thesis by (simp add: markFailed_def worker_ok_def)
qed

lemma worker_finalize:
  assumes "row_key d p"
  shows "worker_ok w d (snd (finalizeFromChain w (po_id p) a slot d))"
proof (cases "find_payout d (po_id p)")
  case (Some q)
  then have q: "po_paymentId q = po_paymentId p" using assms find_payoutD [OF Some] by (simp add: row_key_def)
  have "worker_ok w d (update_payout (po_id p) (finalized w r slot) d)" if "w_finalized_record w (po_paymentId p) \<noteq> None" for r
    unfolding update_payout_def
    by (rule worker_ok_update) (use assms that in \<open>auto simp: worker_rel_def row_key_def finalized_def Let_def\<close>)
  then show ?thesis using Some q worker_ok_refl [of w d]
    by (simp add: finalizeFromChain_def Let_def worker_ok_def del: worker_ok_refl split: option.splits)
qed (simp add: finalizeFromChain_def)

lemma worker_fork:
  assumes "row_key d p"
  shows "worker_ok w d (snd (failIfObservedForkWasDropped w p sig slot e d))"
  using worker_finalize [OF assms, of w "po_allocationId p" None] worker_markFailed [OF assms, of w]
  by (cases "finalizeFromChain w (po_id p) (po_allocationId p) None d")
    (auto simp: failIfObservedForkWasDropped_def split: sum.splits)

lemma worker_finalize_or_fail: "row_key d p \<Longrightarrow> worker_ok w d (snd (finalize_or_fail w p reason d))"
  by (simp add: finalize_or_fail_def worker_finalize worker_markFailed)

lemma worker_rebroadcast: "worker_ok w d (fst (rebroadcastSameTransaction w p d))"
  by (auto simp: rebroadcastSameTransaction_def worker_rel_def intro!: worker_ok_update)

lemma worker_set_status: "s \<in> {SUBMITTED, CONFIRMED} \<Longrightarrow> worker_ok w d (set_status i s d)"
  unfolding set_status_def update_payout_def by (rule worker_ok_update) (auto simp: worker_rel_def)

lemma worker_after_fork:
  assumes "worker_ok w d (snd r)" "\<And>d'. worker_ok w d' (fst (snd (k d')))"
  shows "worker_ok w d (fst (snd (after_fork r k)))"
  using assms by (cases r) (auto simp: after_fork_def split: sum.splits intro: worker_ok_trans)

lemma worker_await: "row_key d p \<Longrightarrow> worker_ok w d (fst (snd (await_unless_dropped w p sig slot e msg d)))"
  unfolding await_unless_dropped_def
  by (rule worker_after_fork) (simp_all add: worker_fork awaiting_def)

lemma worker_processConfirmation:
  assumes "distinct (map po_id (db_payouts d))"
  shows "worker_ok w d (fst (snd (processConfirmation w i sig d)))"
proof (cases "find_payout d i")
  case None
  then show ?thesis by (simp add: processConfirmation_def)
next
  case (Some p)
  then have k: "row_key d p" using find_payoutD row_key_self [OF assms] by blast
  have st: "worker_ok w d (set_status (po_id p) CONFIRMED d)" by (rule worker_set_status) simp
  have aw: "worker_ok w d (fst (snd (await_unless_dropped w p sg slot e msg (set_status (po_id p) CONFIRMED d))))" for sg slot e msg
    by (rule worker_ok_trans [OF st worker_await [OF row_key_ok [OF k st]]])
  have rb: "worker_ok w d (set_status (po_id p) SUBMITTED (fst (rebroadcastSameTransaction w p d)))"
    by (rule worker_ok_trans [OF worker_rebroadcast worker_set_status]) simp
  have rs: "worker_ok w d (rebuildIncomeProjection w v n d)" for v n by (simp add: worker_ok_same [where e = d])
  show ?thesis
    using Some k
    by (simp add: processConfirmation_def Let_def done_job_def awaiting_def worker_finalize worker_finalize_or_fail worker_await
        worker_rebroadcast aw rb rs worker_set_status case_prod_unfold split: option.splits)
qed

lemma worker_reconcile_step:
  assumes k: "row_key d p"
  shows "worker_ok w d (fst (snd (reconcile_step w p d)))"
proof -
  have frk: "worker_ok w d (snd (fork_check w p st e d))" if "row_key d p" for st e d
    using worker_fork [OF that] by (simp add: fork_check_def)
  have st: "worker_ok w d (if b then set_status (po_id p) CONFIRMED d else d)" for b
    by (simp add: worker_set_status)
  have c: "worker_ok w d (fst (snd (after_fork (fork_check w p st e (if b then set_status (po_id p) CONFIRMED d else d)) (\<lambda>d'. (Inr (), d', [])))))" for st e b
    by (rule worker_after_fork [OF worker_ok_trans [OF st frk [OF row_key_ok [OF k st]]]]) simp
  have r: "worker_ok w d (fst (snd (rebroadcast_job w p d)))" for d by (simp add: rebroadcast_job_def worker_rebroadcast)
  have pr: "worker_ok w d (fst (snd (after_fork (fork_check w p st e d) (\<lambda>d'. if b then rebroadcast_job w p d' else (Inr (), d', [])))))" for st e b
    by (rule worker_after_fork [OF frk [OF k]]) (simp add: r)
  show ?thesis
    unfolding reconcile_step_def Let_def done_job_def
    by (simp add: worker_finalize [OF k] worker_markFailed [OF k] c r pr split: if_split)
qed

lemma worker_reconcile_loop:
  "\<forall>p \<in> set ps. row_key d p \<Longrightarrow> worker_ok w d (fst (snd (reconcile_loop w ps d es)))"
proof (induction ps arbitrary: d es)
  case (Cons p ps)
  obtain r d' es' where r: "reconcile_step w p d = (r, d', es')" by (metis prod.exhaust)
  have ok: "worker_ok w d d'" using worker_reconcile_step [of d p w] Cons.prems r by simp
  have "\<forall>q \<in> set ps. row_key d' q" using Cons.prems row_key_ok [OF _ ok] by simp
  then have "worker_ok w d (fst (snd (reconcile_loop w ps d' (es @ es'))))"
    by (intro worker_ok_trans [OF ok] Cons.IH)
  then show ?case using r ok by (cases r) simp_all
qed simp

lemma worker_reconcile: "distinct (map po_id (db_payouts d)) \<Longrightarrow> worker_ok w d (fst (snd (reconcileStalePayouts w d)))"
  unfolding reconcileStalePayouts_def
proof (rule worker_reconcile_loop)
  assume inv: "distinct (map po_id (db_payouts d))"
  have "set (stale_payouts d) \<subseteq> set (db_payouts d)"
    unfolding stale_payouts_def by (rule order_trans [OF set_take_subset]) auto
  then show "\<forall>p \<in> set (stale_payouts d). row_key d p" using row_key_self [OF inv] by blast
qed

section \<open>Properties\<close>

text \<open>(C5) One payout per allocation, paid when final.  Creating a payout, building and submitting
  its transaction, registering a venue-attested payment, the event indexer, a confirmation job and a
  reconciliation sweep all keep: payout ids and payment ids are unique, each payout belongs to an existing
  allocation, and an allocation is marked paid exactly when its payout is final.\<close>

theorem settlement_invariant:
  assumes "settle_inv d" "w_new_id w \<notin> po_id ` set (db_payouts d)"
  shows "settle_inv (snd (createUsdcPayout w i u d))
     \<and> settle_inv (snd (buildTransaction w i u d))
     \<and> settle_inv (fst (snd (submitSigned w i signedTx u d)))
     \<and> settle_inv (snd (registerLegacyEvidence w i rail ref u d))
     \<and> settle_inv (onPayoutSettled hash d)
     \<and> settle_inv (fst (snd (processConfirmation w i sig d)))
     \<and> settle_inv (fst (snd (reconcileStalePayouts w d)))"
proof -
  have "settle_inv (fst (snd (submitSigned w i signedTx u d)))"
  proof (cases "submit_read w i signedTx d")
    case (Inr r)
    show ?thesis
    proof (cases r)
      case c: (Inr c)
      then have "sc_payout c \<in> set (db_payouts d)" "po_id (sc_payout c) = i"
        using Inr find_payoutD by (auto simp: submit_read_def split: option.splits if_splits sum.splits)
      then show ?thesis using Inr c settle_submit [OF assms(1)] by (simp add: submitSigned_def)
    qed (use Inr assms(1) in \<open>simp add: submitSigned_def\<close>)
  qed (use assms(1) in \<open>simp add: submitSigned_def\<close>)
  then show ?thesis
    using assms settle_create settle_build settle_legacy settle_event settle_processConfirmation settle_reconcile
    by (simp add: buildTransaction_def split: sum.splits)
qed

text \<open>(C6) The settlement record decides.  In one run of a confirmation job or of the
  reconciliation sweep, a payout becomes final only if its settlement record exists on chain at
  commitment finalized, and becomes failed only if it does not; the run changes neither the
  signature nor the blockhash of any payout, and adds or drops no row.\<close>

theorem worker_decides_by_record:
  assumes "distinct (map po_id (db_payouts d))"
    and "d' = fst (snd (processConfirmation w i sig d)) \<or> d' = fst (snd (reconcileStalePayouts w d))"
  shows "length (db_payouts d') = length (db_payouts d)
     \<and> (\<forall>k < length (db_payouts d). let p = db_payouts d ! k; p' = db_payouts d' ! k in
          po_id p' = po_id p \<and> po_txSignature p' = po_txSignature p \<and> po_recentBlockhash p' = po_recentBlockhash p
        \<and> po_lastValidBlockHeight p' = po_lastValidBlockHeight p
        \<and> (po_status p' = FINALIZED \<longrightarrow> po_status p = FINALIZED \<or> w_finalized_record w (po_paymentId p) \<noteq> None)
        \<and> (po_status p' = PayoutFAILED \<longrightarrow> po_status p = PayoutFAILED \<or> w_finalized_record w (po_paymentId p) = None))"
proof -
  have "worker_ok w d d'" using assms worker_processConfirmation worker_reconcile by blast
  then have ok: "list_all2 (worker_rel w) (db_payouts d) (db_payouts d')" by (simp add: worker_ok_def)
  have "worker_rel w (db_payouts d ! k) (db_payouts d' ! k)" if "k < length (db_payouts d)" for k
    using list_all2_nthD [OF ok that] .
  then show ?thesis using list_all2_lengthD [OF ok] by (simp add: worker_rel_def Let_def)
qed

text \<open>A cluster at height 50, and a payout initiated with a blockhash that is valid through 100.\<close>

definition demo_world :: world where
  "demo_world = \<lparr>w_now = 0, w_noon = \<lambda>_. 0, w_new_id = ''new'', w_entry_id = demo_new_id, w_alert_id = demo_new_id,
     w_sha256 = \<lambda>s. s, w_valid_pubkey = \<lambda>_. True, w_usdc_mint = Some ''M'', w_block_height = 50, w_finalized_slot = 40,
     w_latest_blockhash = (''B'', 100), w_settlement_pda = \<lambda>s. s, w_unsigned_tx = \<lambda>_ b. b,
     w_confirmed_record = \<lambda>_. None, w_finalized_record = \<lambda>_. None,
     w_decode_tx = \<lambda>s. Some \<lparr>stx_recentBlockhash = Some ''B'', stx_signature = Some [7], stx_serialize = Inr s\<rparr>,
     w_send = \<lambda>_. None, w_signature_status = \<lambda>_. None, w_finalized_tx = \<lambda>_. False, w_block_time = \<lambda>_. None\<rparr>"

definition demo_payout :: payout where
  "demo_payout = (blank_payout ''p0'')\<lparr>po_paymentId := ''a0'', po_allocationId := ''a0'', po_workerId := ''w1'',
     po_venueId := ''v1'', po_amountUsdCents := 500, po_amountBaseUnits := 5000000, po_status := INITIATED,
     po_recentBlockhash := Some ''B'', po_lastValidBlockHeight := Some 100\<rparr>"

definition settle_demo :: db where
  "settle_demo = demo_db\<lparr>db_batches := [demo_batch\<lparr>ab_status := PAYABLE\<rparr>], db_payouts := [demo_payout]\<rparr>"

lemma settle_demo_inv: "settle_inv settle_demo"
  by (simp add: settle_inv_def settle_demo_def demo_db_def demo_allocation_def demo_payout_def blank_payout_def in_final_ids)

theorem settlement_invariant_witness:
  "settle_inv (fst (snd (submitSigned demo_world ''p0'' ''T'' None settle_demo)))"
  using settlement_invariant [OF settle_demo_inv, of demo_world "''p0''" None "''T''" USDC "''''" "''''" "''''"]
  by (simp add: settle_demo_def demo_payout_def blank_payout_def demo_world_def)

theorem worker_decides_by_record_witness:
  "length (db_payouts (fst (snd (reconcileStalePayouts demo_world settle_demo)))) = 1"
  using worker_decides_by_record [of settle_demo "fst (snd (reconcileStalePayouts demo_world settle_demo))" demo_world]
  by (simp add: settle_demo_def)

text \<open>(C25) Registering a venue-attested payment does not look at a payout in flight.  An unpaid
  allocation of a payable batch whose USDC payout is already submitted is accepted: the same row
  becomes final under the other rail while the broadcast signature, the signed bytes and the test
  asset \<open>tUSDC\<close> stay on it, so the transaction can still pay the worker a second time.\<close>

theorem legacy_over_submitted:
  assumes "find_allocation d i = Some a" "find_batch d (wa_batchId a) = Some b" "truthy (wa_workerId a)"
    and "wa_payoutStatus a \<noteq> AllocPAID" "ab_status b \<in> {PAYABLE, PARTIALLY_PAID}"
    and "payout_by_payment d (wa_id a) = Some p" "po_status p = SUBMITTED"
  shows "\<exists>q. fst (registerLegacyEvidence w i rail ref u d) = Inr q \<and> po_id q = po_id p
     \<and> po_status q = FINALIZED \<and> po_rail q = rail \<and> po_txSignature q = po_txSignature p
     \<and> po_signedTransactionBase64 q = po_signedTransactionBase64 p \<and> po_asset q = po_asset p"
  using assms by (auto simp: registerLegacyEvidence_def Let_def legacy_update_def)

theorem legacy_over_submitted_witness:
  "\<exists>q. fst (registerLegacyEvidence demo_world ''a0'' CASH_DRAWER ''till 3'' None
       (settle_demo\<lparr>db_payouts := [demo_payout\<lparr>po_status := SUBMITTED, po_txSignature := Some ''S''\<rparr>]\<rparr>)) = Inr q
     \<and> po_status q = FINALIZED \<and> po_txSignature q = Some ''S''"
  using legacy_over_submitted [of "settle_demo\<lparr>db_payouts := [demo_payout\<lparr>po_status := SUBMITTED, po_txSignature := Some ''S''\<rparr>]\<rparr>"
      "''a0''" demo_allocation "demo_batch\<lparr>ab_status := PAYABLE\<rparr>" "demo_payout\<lparr>po_status := SUBMITTED, po_txSignature := Some ''S''\<rparr>"
      demo_world CASH_DRAWER "''till 3''" None]
  by (auto simp: settle_demo_def demo_db_def demo_batch_def demo_allocation_def demo_payout_def blank_payout_def
      find_allocation_def find_batch_def payout_by_payment_def)

lemma payment_unique: "settle_inv d \<Longrightarrow> p \<in> set (db_payouts d) \<Longrightarrow> payout_by_payment d (po_paymentId p) = Some p"
proof -
  assume inv: "settle_inv d" and p: "p \<in> set (db_payouts d)"
  have "map po_paymentId (db_payouts d) = map po_allocationId (db_payouts d)" using inv by (simp add: settle_inv_def)
  moreover have "distinct (map po_allocationId (db_payouts d))" using inv by (simp add: settle_inv_def)
  ultimately have "distinct (map po_paymentId (db_payouts d))" by (simp only:)
  then show ?thesis using p unfolding payout_by_payment_def by (rule find_unique_key)
qed

lemma find_allocation_update:
  "(\<And>x. wa_id (g x) = wa_id x) \<Longrightarrow> find_allocation (update_allocation j g d) i = map_option (\<lambda>x. if wa_id x = j then g x else x) (find_allocation d i)"
  by (simp add: find_allocation_def find_update_where)

lemma heal_payouts [simp]: "db_payouts (heal_allocation w u a b e d) = db_payouts d"
  by (simp add: heal_allocation_def Let_def split: option.splits)

text \<open>A later call that finds a payout which has not failed returns it.\<close>

lemma create_again:
  assumes "find_allocation d i = Some a" "find_batch d (wa_batchId a) = Some b" "truthy (wa_workerId a)"
    "find_worker d (the (wa_workerId a)) \<noteq> None" "ab_status b = PAYABLE \<or> ab_status b = PARTIALLY_PAID"
    "wa_payoutStatus a \<noteq> AllocPAID" "0 < wa_netAllocatedUsdCents a" "default_wallet d (wa_workerId a) = Some wal"
    "wal_status wal = WalletACTIVE" "w_valid_pubkey w (wal_address wal)"
    "payout_by_payment d i = Some q" "po_status q \<noteq> PayoutFAILED"
  shows "fst (createUsdcPayout w i u d) = Inr q \<and> db_payouts (snd (createUsdcPayout w i u d)) = db_payouts d"
proof -
  have "wa_id a = i" using find_allocationD [OF assms(1)] by simp
  then show ?thesis using assms by (auto simp: createUsdcPayout_def parsePubkey_def create_or_retry_def Let_def)
qed

text \<open>What a successful call leaves: the payout it returns, and an allocation that differs only in its
  settlement columns.\<close>

lemma create_or_retry_cases:
  assumes "settle_inv d" "a \<in> set (db_allocations d)" "wa_payoutStatus a \<noteq> AllocPAID"
    and "create_or_retry w u a b wid wal d = (Inr p, d')"
  obtains d1 where "db_workers d1 = db_workers d" "db_wallets d1 = db_wallets d" "db_batches d1 = db_batches d"
    "db_allocations d1 = db_allocations d" "p \<in> set (db_payouts d1)" "po_paymentId p = wa_id a" "po_status p \<noteq> PayoutFAILED"
    "d' = d1 \<or> d' = update_allocation (wa_id a) (\<lambda>x. x\<lparr>wa_payoutRail := Some USDC, wa_payoutStatus := AllocPENDING\<rparr>) d1"
proof (cases "payout_by_payment d (wa_id a)")
  case None
  then obtain n where "p = payout_attempt w a b wid wal u n (blank_payout (w_new_id w))"
    "d' = update_allocation (wa_id a) (\<lambda>x. x\<lparr>wa_payoutRail := Some USDC, wa_payoutStatus := AllocPENDING\<rparr>)
       (d\<lparr>db_payouts := db_payouts d @ [p]\<rparr>)"
    using assms(4) by (auto simp: create_or_retry_def Let_def split: sum.splits if_splits)
  then show thesis by (intro that [of "d\<lparr>db_payouts := db_payouts d @ [p]\<rparr>"]) (simp_all add: payout_attempt_def)
next
  case (Some e)
  note e = payout_by_paymentD [OF Some]
  show thesis
  proof (cases "po_status e = PayoutFAILED")
    case False
    have "po_allocationId e = wa_id a" using assms(1) e by (auto simp: settle_inv_def)
    then have "po_status e \<noteq> FINALIZED" using assms(1-3) e by (auto simp: settle_inv_def in_final_ids)
    then have "p = e" "d' = d \<or> d' = update_allocation (wa_id a) (\<lambda>x. x\<lparr>wa_payoutRail := Some USDC, wa_payoutStatus := AllocPENDING\<rparr>) d"
      using assms(4) Some False by (auto simp: create_or_retry_def Let_def heal_allocation_def healed_status_def split: if_splits)
    then show thesis using e False by (intro that [of d]) simp_all
  next
    case True
    then obtain n where p: "p = payout_attempt w a b wid wal u n e"
      "d' = update_allocation (wa_id a) (\<lambda>x. x\<lparr>wa_payoutRail := Some USDC, wa_payoutStatus := AllocPENDING\<rparr>)
         (update_payout (po_id e) (payout_attempt w a b wid wal u n) d)"
      using assms(4) Some by (auto simp: create_or_retry_def Let_def split: sum.splits if_splits)
    have "p \<in> set (db_payouts (update_payout (po_id e) (payout_attempt w a b wid wal u n) d))"
      using e p(1) by (auto simp: in_update_where intro!: bexI [of _ e])
    then show thesis using p by (intro that [of "update_payout (po_id e) (payout_attempt w a b wid wal u n) d"])
      (simp_all add: payout_attempt_def update_payout_def update_payouts_def)
  qed
qed

text \<open>(C8) Creating a payout is idempotent.  A successful call yields a payout of that allocation;
  repeating the call right away, by any user and with any later cluster
  observation, returns a payout with the same id and leaves the payouts as they are.\<close>

theorem createUsdcPayout_idempotent:
  assumes "settle_inv d" "w_new_id w \<notin> po_id ` set (db_payouts d)"
    and "createUsdcPayout w i u d = (Inr p, d')" "w_valid_pubkey w2 = w_valid_pubkey w"
  shows "po_paymentId p = i \<and> p \<in> set (db_payouts d')
     \<and> fst (createUsdcPayout w2 i u2 d') = Inr p
     \<and> db_payouts (snd (createUsdcPayout w2 i u2 d')) = db_payouts d'"
proof -
  obtain a b where a: "find_allocation d i = Some a" and b: "find_batch d (wa_batchId a) = Some b"
    using assms(3) by (auto simp: createUsdcPayout_def split: option.splits)
  obtain wal where guards: "truthy (wa_workerId a)" "find_worker d (the (wa_workerId a)) \<noteq> None"
      "ab_status b = PAYABLE \<or> ab_status b = PARTIALLY_PAID" "wa_payoutStatus a \<noteq> AllocPAID" "0 < wa_netAllocatedUsdCents a"
      "default_wallet d (wa_workerId a) = Some wal" "wal_status wal = WalletACTIVE" "w_valid_pubkey w (wal_address wal)"
    and run: "create_or_retry w u a b (the (wa_workerId a)) wal d = (Inr p, d')"
    using assms(3) a b by (auto simp: createUsdcPayout_def parsePubkey_def split: option.splits if_splits)
  have ai: "a \<in> set (db_allocations d)" "wa_id a = i" using find_allocationD [OF a] by simp_all
  obtain d1 where d1: "db_workers d1 = db_workers d" "db_wallets d1 = db_wallets d" "db_batches d1 = db_batches d"
    "db_allocations d1 = db_allocations d" "p \<in> set (db_payouts d1)" "po_paymentId p = wa_id a" "po_status p \<noteq> PayoutFAILED"
    "d' = d1 \<or> d' = update_allocation (wa_id a) (\<lambda>x. x\<lparr>wa_payoutRail := Some USDC, wa_payoutStatus := AllocPENDING\<rparr>) d1"
    using create_or_retry_cases [OF assms(1) ai(1) guards(4) run] by blast
  have same: "db_workers d' = db_workers d" "db_wallets d' = db_wallets d" "db_batches d' = db_batches d" "db_payouts d' = db_payouts d1"
    using d1 by (auto simp: update_allocation_def)
  have "find_allocation d1 i = Some a" using a d1(4) by (simp add: find_allocation_def)
  then obtain a2 where a2: "find_allocation d' i = Some a2" "wa_workerId a2 = wa_workerId a" "wa_batchId a2 = wa_batchId a"
    "wa_netAllocatedUsdCents a2 = wa_netAllocatedUsdCents a" "wa_payoutStatus a2 \<noteq> AllocPAID"
    using d1(8) guards(4) ai(2) by (auto simp: find_allocation_update)
  have look: "find_worker d' = find_worker d" "find_wallet d' = find_wallet d" "find_batch d' = find_batch d"
    using same by (simp_all add: find_worker_def [abs_def] find_wallet_def [abs_def] find_batch_def [abs_def] fun_eq_iff)
  have "default_wallet d' = default_wallet d" by (rule ext) (simp only: default_wallet_def look(1,2))
  moreover
  have "settle_inv d'" using settle_create [OF assms(1,2), of i u] assms(3) by simp
  then have "payout_by_payment d' i = Some p" using payment_unique [of d' p] d1(5,6) ai(2) same(4) by simp
  ultimately show ?thesis
    using create_again [of d' i a2 b wal w2 p u2] a2 b guards look d1 ai(2) same(4) assms(4) by simp
qed

text \<open>A payable allocation whose worker has an active wallet.\<close>

definition payable_demo :: db where
  "payable_demo = settle_demo\<lparr>db_payouts := [],
     db_workers := [\<lparr>wk_id = ''w1'', wk_userId = ''u1'', wk_defaultWalletId = Some ''k1''\<rparr>],
     db_wallets := [\<lparr>wal_id = ''k1'', wal_workerId = ''w1'', wal_address = ''A'', wal_walletType = WalletEXTERNAL, wal_status = WalletACTIVE, wal_isDefault = True\<rparr>]\<rparr>"

theorem createUsdcPayout_idempotent_witness:
  "db_payouts (snd (createUsdcPayout demo_world ''a0'' None (snd (createUsdcPayout demo_world ''a0'' None payable_demo))))
     = db_payouts (snd (createUsdcPayout demo_world ''a0'' None payable_demo))"
proof -
  have inv: "settle_inv payable_demo"
    by (simp add: settle_inv_def payable_demo_def settle_demo_def demo_db_def demo_allocation_def in_final_ids)
  have "\<exists>p. fst (createUsdcPayout demo_world ''a0'' None payable_demo) = Inr p"
    by (simp add: createUsdcPayout_def payable_demo_def settle_demo_def demo_db_def demo_batch_def demo_allocation_def demo_world_def
        find_allocation_def find_batch_def find_worker_def default_wallet_def find_wallet_def parsePubkey_def create_or_retry_def
        payout_by_payment_def previous_still_valid_def centsToUsdcBaseUnits_def Let_def)
  then obtain p where "createUsdcPayout demo_world ''a0'' None payable_demo = (Inr p, snd (createUsdcPayout demo_world ''a0'' None payable_demo))"
    by (metis prod.collapse)
  from createUsdcPayout_idempotent [OF inv _ this refl] show ?thesis by (simp add: payable_demo_def)
qed

end
