(* ===== verification/Redis_Store.thy ===== *)
theory Redis_Store
  imports Money
begin

text \<open>
  The Redis instance the one-time codes live in, the string operations of the services that use
  it, and the two contracts their security rests on: a row that is claimed once, and a secret that can be
  guessed a bounded number of times.  A key's entry carries its expiry; an expired entry is
  still stored but never read.  A decimal string written for a counter is kept as its number.
\<close>

section \<open>Strings\<close>

definition lower_char :: "char \<Rightarrow> char" where
  "lower_char c = (let n = of_char c :: nat in if 65 \<le> n \<and> n \<le> 90 then char_of (n + 32) else c)"

text \<open>\<open>toLowerCase\<close> on ASCII text.\<close>

definition js_lower :: "string \<Rightarrow> string" where
  "js_lower s = map lower_char s"

text \<open>\<open>split\<close> at a one-character separator.\<close>

fun split_on :: "char \<Rightarrow> string \<Rightarrow> string list" where
  "split_on c [] = [[]]"
| "split_on c (x # xs) = (if x = c then [] # split_on c xs
     else case split_on c xs of [] \<Rightarrow> [[x]] | y # ys \<Rightarrow> (x # y) # ys)"

text \<open>\<open>parts[i] ?? ""\<close>.\<close>

definition part :: "nat \<Rightarrow> string list \<Rightarrow> string" where
  "part i xs = (if i < length xs then xs ! i else [])"

definition padStart :: "nat \<Rightarrow> string \<Rightarrow> string" where
  "padStart n s = replicate (n - length s) (CHR ''0'') @ s"

text \<open>\<open>String(randomInt(0, 1_000_000)).padStart(6, "0")\<close>.\<close>

definition six_digits :: "nat \<Rightarrow> string" where
  "six_digits n = padStart 6 (show_nat n)"

text \<open>The comma-separated allowlist \<open>OTP_DEVCODE_DOMAINS\<close>.\<close>

definition devcode_domains :: "string option \<Rightarrow> string list" where
  "devcode_domains v = filter (\<lambda>s. s \<noteq> []) (map (\<lambda>s. js_lower (js_trim s))
     (split_on (CHR '','') (case v of None \<Rightarrow> [] | Some s \<Rightarrow> s)))"

section \<open>Keys with expiry\<close>

datatype kv_value = KText string | KCount int

type_synonym kv = "(string \<times> kv_value \<times> instant option) list"

definition live :: "instant \<Rightarrow> instant option \<Rightarrow> bool" where
  "live now expiry = (case expiry of None \<Rightarrow> True | Some t \<Rightarrow> now < t)"

definition kv_get :: "instant \<Rightarrow> string \<Rightarrow> kv \<Rightarrow> kv_value option" where
  "kv_get now k s = (case map_of s k of None \<Rightarrow> None | Some (v, e) \<Rightarrow> if live now e then Some v else None)"

text \<open>\<open>SET k v EX ttl\<close>, with \<open>NX\<close> in the second form.\<close>

definition kv_set_ex :: "instant \<Rightarrow> string \<Rightarrow> kv_value \<Rightarrow> int \<Rightarrow> kv \<Rightarrow> kv" where
  "kv_set_ex now k v ttl s = map_set k (v, Some (now + 1000 * ttl)) s"

definition kv_set_nx_ex :: "instant \<Rightarrow> string \<Rightarrow> kv_value \<Rightarrow> int \<Rightarrow> kv \<Rightarrow> bool \<times> kv" where
  "kv_set_nx_ex now k v ttl s = (if kv_get now k s = None then (True, kv_set_ex now k v ttl s) else (False, s))"

text \<open>\<open>INCR\<close> keeps the expiry of a live counter and starts a new one, without expiry, at 1; it is
  an error on text that is not a number.\<close>

definition kv_incr :: "instant \<Rightarrow> string \<Rightarrow> kv \<Rightarrow> int option \<times> kv" where
  "kv_incr now k s = (case kv_get now k s of
       Some (KCount n) \<Rightarrow> (Some (n + 1), map_set k (KCount (n + 1), Option.bind (map_of s k) snd) s)
     | Some (KText _) \<Rightarrow> (None, s)
     | None \<Rightarrow> (Some 1, map_set k (KCount 1, None) s))"

definition kv_decr :: "instant \<Rightarrow> string \<Rightarrow> kv \<Rightarrow> int option \<times> kv" where
  "kv_decr now k s = (case kv_get now k s of
       Some (KCount n) \<Rightarrow> (Some (n - 1), map_set k (KCount (n - 1), Option.bind (map_of s k) snd) s)
     | Some (KText _) \<Rightarrow> (None, s)
     | None \<Rightarrow> (Some (-1), map_set k (KCount (-1), None) s))"

definition kv_expire :: "instant \<Rightarrow> string \<Rightarrow> int \<Rightarrow> kv \<Rightarrow> kv" where
  "kv_expire now k ttl s = (case kv_get now k s of None \<Rightarrow> s | Some v \<Rightarrow> map_set k (v, Some (now + 1000 * ttl)) s)"

definition kv_del :: "string \<Rightarrow> kv \<Rightarrow> kv" where
  "kv_del k s = map_delete k s"

lemma map_of_map_delete [simp]: "map_of (map_delete k m) = (map_of m)(k := None)"
  by (induction m) (auto simp: map_delete_def)

lemma map_of_kv_del [simp]: "map_of (kv_del k s) = (map_of s)(k := None)"
  by (simp add: kv_del_def)

lemma map_of_kv_set_ex [simp]: "map_of (kv_set_ex now k v ttl s) = (map_of s)(k \<mapsto> (v, Some (now + 1000 * ttl)))"
  by (simp add: kv_set_ex_def)

lemma live_mono: "live t' e \<Longrightarrow> t \<le> t' \<Longrightarrow> live t e"
  by (auto simp: live_def split: option.splits)

section \<open>A stored code and its counter\<close>

text \<open>The counter of the code under a key.\<close>

definition attempts_key :: "string \<Rightarrow> string" where
  "attempts_key key = key @ '':attempts''"

definition code_matches :: "(string \<Rightarrow> string) \<Rightarrow> string \<Rightarrow> kv \<Rightarrow> string \<Rightarrow> bool" where
  "code_matches sha key s c \<longleftrightarrow> (\<exists>e. map_of s key = Some (KText (sha c), e))"

definition guesses_left :: "string \<Rightarrow> instant \<Rightarrow> kv \<Rightarrow> nat" where
  "guesses_left key t s = (case map_of s key of
       None \<Rightarrow> 0
     | Some (_, e) \<Rightarrow> if \<not> live t e then 0
         else (case map_of s (attempts_key key) of Some (KCount n, _) \<Rightarrow> nat (5 - n) | _ \<Rightarrow> 5))"

text \<open>The counter of a stored code lives at least as long as the code.\<close>

definition otp_good :: "string \<Rightarrow> kv \<Rightarrow> bool" where
  "otp_good key s \<longleftrightarrow> (\<forall>v e. map_of s key = Some (v, e) \<longrightarrow>
     (\<exists>t n e2. e = Some t \<and> map_of s (attempts_key key) = Some (KCount n, e2) \<and> 0 \<le> n
        \<and> (\<forall>t2. e2 = Some t2 \<longrightarrow> t \<le> t2)))"

lemma keys_differ [simp]: "attempts_key k \<noteq> k" "k \<noteq> attempts_key k"
  by (simp_all add: attempts_key_def)

text \<open>Counting one try.\<close>

lemma incr_counter:
  assumes "otp_good key s" "map_of s key = Some (v, e)" "live t e"
  obtains n e2 where "map_of s (attempts_key key) = Some (KCount n, e2)" "0 \<le> n"
    "kv_incr t (attempts_key key) s = (Some (n + 1), map_set (attempts_key key) (KCount (n + 1), e2) s)"
proof -
  obtain te n e2 where e: "e = Some te" "map_of s (attempts_key key) = Some (KCount n, e2)" "0 \<le> n"
    "\<forall>t2. e2 = Some t2 \<longrightarrow> te \<le> t2"
    using assms(1,2) by (auto simp: otp_good_def)
  have "live t e2" using assms(3) e(1,4) by (cases e2) (auto simp: live_def)
  then show thesis using that e by (simp add: kv_incr_def kv_get_def)
qed

lemma kv_incr_other: "k' \<noteq> k \<Longrightarrow> map_of (snd (kv_incr t k s)) k' = map_of s k'"
  by (simp add: kv_incr_def split: option.split kv_value.split)

lemma kv_incr_good:
  assumes "otp_good key s"
  shows "otp_good key (snd (kv_incr t (attempts_key key) s))"
proof (cases "map_of s key")
  case (Some ve)
  then obtain v te n e2 where e: "map_of s key = Some (v, Some te)" "0 \<le> n"
    "map_of s (attempts_key key) = Some (KCount n, e2)" "\<forall>t2. e2 = Some t2 \<longrightarrow> te \<le> t2"
    using assms by (cases ve) (auto simp: otp_good_def)
  then show ?thesis
    by (cases "live t e2") (simp_all add: otp_good_def kv_incr_def kv_get_def)
next
  case None
  then show ?thesis by (simp add: otp_good_def kv_incr_other)
qed

lemma otp_good_del: "otp_good key (kv_del key s)"
  by (simp add: otp_good_def)

lemma otp_good_del2: "otp_good key (kv_del k (kv_del key s))"
  by (simp add: otp_good_def)

lemma guesses_left_later: "t \<le> t' \<Longrightarrow> guesses_left key t' s \<le> guesses_left key t s"
  using live_mono [of t' _ t] by (auto simp: guesses_left_def split: option.splits)

section \<open>A bounded number of guesses\<close>

text \<open>
  \<open>verify t c s\<close> tries the code \<open>c\<close> at time \<open>t\<close>; \<open>opens s c\<close> says that the stored secret is that
  of \<open>c\<close>, and \<open>left t s\<close> bounds how many codes will still be compared with it.
\<close>

locale guess_limit =
  fixes verify :: "instant \<Rightarrow> string \<Rightarrow> 's \<Rightarrow> bool \<times> 's"
    and opens :: "'s \<Rightarrow> string \<Rightarrow> bool"
    and left :: "instant \<Rightarrow> 's \<Rightarrow> nat"
    and good :: "'s \<Rightarrow> bool"
  assumes accepts: "good s \<Longrightarrow> fst (verify t c s) \<Longrightarrow> opens s c \<and> 0 < left t s"
    and rejects: "good s \<Longrightarrow> \<not> fst (verify t c s) \<Longrightarrow> left t (snd (verify t c s)) \<le> left t s - 1"
    and same_secret: "good s \<Longrightarrow> opens (snd (verify t c s)) c' \<Longrightarrow> opens s c'"
    and stays_good: "good s \<Longrightarrow> good (snd (verify t c s))"
    and fewer_later: "good s \<Longrightarrow> t \<le> t' \<Longrightarrow> left t' s \<le> left t s"
begin

fun guesses :: "(instant \<times> string) list \<Rightarrow> 's \<Rightarrow> 's" where
  "guesses [] s = s"
| "guesses ((t, c) # gs) s = guesses gs (snd (verify t c s))"

lemma guesses_spent:
  assumes "good s" "sorted (t0 # map fst gs)" "\<And>t c. (t, c) \<in> set gs \<Longrightarrow> \<not> opens s c"
    and "\<And>t c. (t, c) \<in> set gs \<Longrightarrow> t \<le> T" "t0 \<le> T"
  shows "good (guesses gs s) \<and> left T (guesses gs s) \<le> left t0 s - length gs
    \<and> (\<forall>c. opens (guesses gs s) c \<longrightarrow> opens s c)"
  using assms
proof (induction gs arbitrary: s t0)
  case Nil
  then show ?case using fewer_later by simp
next
  case (Cons g gs)
  obtain t c where g: "g = (t, c)" by fastforce
  let ?s = "snd (verify t c s)"
  have wrong: "\<not> fst (verify t c s)" using accepts [OF Cons.prems(1)] Cons.prems(3) [of t c] g by auto
  have "t0 \<le> t" using Cons.prems(2) g by simp
  then have less: "left t ?s \<le> left t0 s - 1"
    using rejects [OF Cons.prems(1) wrong] fewer_later [OF Cons.prems(1)] by (meson diff_le_mono le_trans)
  have step: "good (guesses gs ?s) \<and> left T (guesses gs ?s) \<le> left t ?s - length gs
     \<and> (\<forall>c. opens (guesses gs ?s) c \<longrightarrow> opens ?s c)"
  proof (rule Cons.IH)
    show "good ?s" using stays_good Cons.prems(1) by blast
    show "sorted (t # map fst gs)" using Cons.prems(2) g by simp
    show "\<not> opens ?s c'" if "(t', c') \<in> set gs" for t' c'
      using same_secret [OF Cons.prems(1)] Cons.prems(3) [of t' c'] that by auto
    show "t' \<le> T" if "(t', c') \<in> set gs" for t' c' using Cons.prems(4) [of t' c'] that by simp
    show "t \<le> T" using Cons.prems(4) [of t c] g by simp
  qed
  then show ?case using less same_secret [OF Cons.prems(1)] by (auto simp: g)
qed

lemma locked_out:
  assumes "good s" "sorted (t0 # map fst gs @ [T])" "\<And>t c. (t, c) \<in> set gs \<Longrightarrow> \<not> opens s c" "left t0 s \<le> length gs"
  shows "\<not> fst (verify T c (guesses gs s))"
proof -
  have T: "t \<le> T" if "(t, c) \<in> set gs" for t c using assms(2) that by (force simp: sorted_append)
  have "good (guesses gs s) \<and> left T (guesses gs s) \<le> left t0 s - length gs"
    using guesses_spent [OF assms(1) _ assms(3) T, of t0] assms(2) by (simp add: sorted_append)
  then show ?thesis using accepts assms(4) by force
qed

end

section \<open>A row that is claimed once\<close>

text \<open>
  The conditional update \<open>updateMany where id and eligible, set mark\<close>: marking a row makes it
  ineligible for good, so of any number of concurrent claims of one row a single one counts it.
\<close>

locale row_claim =
  fixes key :: "'r \<Rightarrow> id" and eligible :: "'c \<Rightarrow> 'r \<Rightarrow> bool" and mark :: "'c \<Rightarrow> 'r \<Rightarrow> 'r"
  assumes key_mark: "key (mark c r) = key r"
    and spent: "\<not> eligible c' (mark c r)"
begin

lemma claim_ids: "map key (update_where P (mark c) t) = map key t"
  by (rule map_update_where) (rule key_mark)

lemma claim_count: "distinct (map key t) \<Longrightarrow> count_where (\<lambda>r. key r = i \<and> eligible c r) t \<le> 1"
proof (induction t)
  case (Cons r t)
  have "filter (\<lambda>r. key r = i \<and> eligible c r) t = []" if "key r = i"
    using Cons.prems that unfolding filter_empty_conv by (auto simp: image_iff)
  then show ?case using Cons by (cases "key r = i") (simp_all add: count_where_def)
qed (simp add: count_where_def)

text \<open>The rows that can never be claimed again.\<close>

definition settled :: "id \<Rightarrow> 'r list \<Rightarrow> bool" where
  "settled i t \<longleftrightarrow> (\<forall>r \<in> set t. key r = i \<longrightarrow> (\<forall>c. \<not> eligible c r))"

lemma settled_no_claim: "settled i t \<Longrightarrow> count_where (\<lambda>r. key r = i \<and> eligible c r) t = 0"
  by (auto simp: settled_def count_where_def filter_empty_conv)

lemma settled_mark: "settled i t \<Longrightarrow> settled i (update_where P (mark c) t)"
  by (auto simp: settled_def in_update_where spent split: if_splits)

lemma claim_settles:
  assumes "distinct (map key t)" "count_where (\<lambda>r. key r = i \<and> eligible c r) t = 1"
  shows "settled i (update_where (\<lambda>r. key r = i \<and> eligible c r) (mark c) t)"
proof -
  have "filter (\<lambda>r. key r = i \<and> eligible c r) t \<noteq> []" using assms(2) by (auto simp: count_where_def)
  then obtain r where r: "r \<in> set t" "key r = i" "eligible c r" by (auto simp: filter_empty_conv)
  have only: "r' = r" if "r' \<in> set t" "key r' = i" for r'
    using assms(1) r that by (auto simp: distinct_map dest: inj_onD)
  show ?thesis
    unfolding settled_def
  proof (intro ballI impI allI)
    fix r1 c1
    assume r1: "r1 \<in> set (update_where (\<lambda>r. key r = i \<and> eligible c r) (mark c) t)" "key r1 = i"
    then obtain r0 where r0: "r0 \<in> set t" "r1 = (if key r0 = i \<and> eligible c r0 then mark c r0 else r0)"
      unfolding in_update_where by blast
    have "key r0 = i" using r0(2) r1(2) by (simp add: key_mark split: if_splits)
    then have "r0 = r" using only r0(1) by blast
    then show "\<not> eligible c1 r1" using r r0(2) by (simp add: spent)
  qed
qed

end

end
