(* ===== verification/Access.thy ===== *)
theory Access
  imports Allocations Redis_Store
begin

text \<open>
  Who may do what: the organisation-scoped roles of \<open>apps/api/src/auth/access.service.ts\<close>, the
  bearer-token guard of \<open>jwt-auth.guard.ts\<close>, and the masks of \<open>common/privacy.ts\<close> under
  which personal data leaves the API.  Verifying a JWT is \<open>@nestjs/jwt\<close> and a parameter.
\<close>

section \<open>Roles\<close>

definition VENUE_MANAGE_ROLES :: "org_role list" where
  "VENUE_MANAGE_ROLES = [OWNER, MANAGER]"

definition VENUE_READ_ROLES :: "org_role list" where
  "VENUE_READ_ROLES = [OWNER, MANAGER, PAYROLL_ADMIN, VIEWER]"

definition find_member :: "db \<Rightarrow> id \<Rightarrow> id \<Rightarrow> org_member option" where
  "find_member d organizationId userId =
     find (\<lambda>m. om_organizationId m = organizationId \<and> om_userId m = userId) (db_members d)"

definition worker_by_user :: "db \<Rightarrow> id \<Rightarrow> worker option" where
  "worker_by_user d userId = find (\<lambda>k. wk_userId k = userId) (db_workers d)"

definition find_shift :: "db \<Rightarrow> id \<Rightarrow> shift_evidence option" where
  "find_shift d i = find (\<lambda>s. se_id s = i) (db_shifts d)"

definition assertOrgRole :: "id \<Rightarrow> id \<Rightarrow> org_role list \<Rightarrow> db \<Rightarrow> http_error + unit" where
  "assertOrgRole userId organizationId allowed d = (case find_member d organizationId userId of
       None \<Rightarrow> Inl (ForbiddenException ''Insufficient organization role'')
     | Some m \<Rightarrow> if om_role m \<in> set allowed then Inr ()
         else Inl (ForbiddenException ''Insufficient organization role''))"

definition assertVenueRole :: "id \<Rightarrow> id \<Rightarrow> org_role list \<Rightarrow> db \<Rightarrow> http_error + unit" where
  "assertVenueRole userId venueId allowed d = (case find_venue d venueId of
       None \<Rightarrow> Inl (NotFoundException ''Venue ${venueId} not found'')
     | Some v \<Rightarrow> (case find_member d (ven_organizationId v) userId of
         None \<Rightarrow> Inl (ForbiddenException ''Insufficient organization role for this venue'')
       | Some m \<Rightarrow> if om_role m \<in> set allowed then Inr ()
           else Inl (ForbiddenException ''Insufficient organization role for this venue'')))"

text \<open>The abstract right: membership of the venue's organisation with one of the roles.\<close>

definition has_venue_role :: "db \<Rightarrow> id \<Rightarrow> id \<Rightarrow> org_role list \<Rightarrow> bool" where
  "has_venue_role d userId venueId allowed \<longleftrightarrow> (\<exists>v m. find_venue d venueId = Some v
     \<and> find_member d (ven_organizationId v) userId = Some m \<and> om_role m \<in> set allowed)"

lemma assertVenueRole_iff: "assertVenueRole u v rs d = Inr x \<longleftrightarrow> has_venue_role d u v rs"
  by (auto simp: assertVenueRole_def has_venue_role_def split: option.splits)

lemma manage_reads: "has_venue_role d u v VENUE_MANAGE_ROLES \<Longrightarrow> has_venue_role d u v VENUE_READ_ROLES"
  by (auto simp: has_venue_role_def VENUE_MANAGE_ROLES_def VENUE_READ_ROLES_def)

section \<open>The guard\<close>

datatype app_mode = ModeWorker | ModeStaff

record claims =
  cl_sub :: id
  cl_email :: string
  cl_role :: global_role
  cl_modes :: "app_mode list option"   \<comment> \<open>\<open>None\<close> when the claim is not an array\<close>
  cl_typ :: string

record authenticated_user =
  au_id :: id
  au_email :: string
  au_role :: global_role
  au_modes :: "app_mode list"

definition starts_with :: "string \<Rightarrow> string \<Rightarrow> bool" where
  "starts_with p s \<longleftrightarrow> take (length p) s = p"

text \<open>\<open>Inr None\<close>: a public route.  \<open>verify\<close> gives the claims of a valid, unexpired token.\<close>

definition canActivate :: "(string \<Rightarrow> claims option) \<Rightarrow> bool \<Rightarrow> string option \<Rightarrow> http_error + authenticated_user option" where
  "canActivate verify isPublic header =
     (if isPublic then Inr None
      else let token = (case header of
             Some h \<Rightarrow> if starts_with ''Bearer '' h then Some (drop 7 h) else None | None \<Rightarrow> None)
           in if \<not> truthy token then Inl (UnauthorizedException ''Missing bearer token'')
              else case verify (the token) of
                None \<Rightarrow> Inl (UnauthorizedException ''Invalid or expired token'')
              | Some p \<Rightarrow>
                  if cl_typ p \<noteq> ''access'' then Inl (UnauthorizedException ''Invalid or expired token'')
                  else Inr (Some \<lparr>au_id = cl_sub p, au_email = cl_email p, au_role = cl_role p,
                     au_modes = (case cl_modes p of None \<Rightarrow> [] | Some ms \<Rightarrow> ms)\<rparr>))"

section \<open>Masks\<close>

definition ellipsis :: string where
  "ellipsis = map char_of [226, 128, 166 :: nat]"   \<comment> \<open>U+2026 in UTF-8\<close>

definition maskEmail :: "string \<Rightarrow> string" where
  "maskEmail email =
     (let local = part 0 (split_on (CHR ''@'') email); domain = part 1 (split_on (CHR ''@'') email)
      in if domain = [] then ''***''
         else let visible = take (min 2 (length local)) local
              in visible @ replicate (max 3 (length local - length visible)) (CHR ''*'') @ ''@'' @ domain)"

definition maskWallet :: "string option \<Rightarrow> string option" where
  "maskWallet address = (case address of
       None \<Rightarrow> None
     | Some a \<Rightarrow> if a = [] then None else if length a \<le> 10 then Some a
         else Some (take 4 a @ ellipsis @ drop (length a - 4) a))"

lemma maskEmail_hides:
  assumes "split_on (CHR ''@'') e = [l, dm]" "dm \<noteq> []"
  shows "\<exists>stars. stars \<ge> 3 \<and> maskEmail e = take 2 l @ replicate stars (CHR ''*'') @ ''@'' @ dm"
  using assms by (auto simp: maskEmail_def part_def Let_def min_def intro!: exI [of _ "max 3 (length l - 2)"])

end
