(* ===== verification/Auth.thy ===== *)
theory Auth
  imports Access
begin

text \<open>
  \<open>apps/api/src/auth/auth.service.ts\<close>: login with a code sent by e-mail, rotation of refresh
  tokens, logout and the session.  The codes live in the Redis store, tokens and users in
  the database.  \<open>refresh\<close> reads the presented token's row and then claims it with a
  conditional update; \<open>refresh_read\<close> and \<open>refresh_claim\<close> are the two halves, so that other
  requests may run in between.  \<open>auth_world\<close> holds what one call draws from outside: the clock,
  the random code and token, the ids of created rows, sha256, JWT signing, mail delivery and whether
  the n-th access to the store succeeds.
\<close>

section \<open>Outside\<close>

record auth_world =
  aw_now :: instant
  aw_up :: "nat \<Rightarrow> bool"
  aw_sha256 :: "string \<Rightarrow> string"
  aw_otp :: nat
  aw_secret :: string
  aw_user_id :: id
  aw_worker_id :: id
  aw_token_id :: id
  aw_sign :: "claims \<Rightarrow> string"
  aw_appEnv :: "string option"
  aw_devCodeDomains :: "string option"
  aw_mail :: "string \<Rightarrow> string \<Rightarrow> http_error + unit"

definition OTP_TTL_SECONDS :: int where "OTP_TTL_SECONDS = 300"
definition OTP_MAX_ATTEMPTS :: int where "OTP_MAX_ATTEMPTS = 5"
definition REFRESH_TOKEN_TTL_MS :: int where "REFRESH_TOKEN_TTL_MS = 7 * 24 * 60 * 60 * 1000"

definition otp_unavailable :: http_error where
  "otp_unavailable = ServiceUnavailableException ''OTP store unavailable: ${message} (redis=${this.redis.status})''"

text \<open>An access to the store outside \<open>otpStore\<close> throws what the client throws.\<close>

definition redis_error :: http_error where
  "redis_error = Failure ''redis''"

section \<open>Codes\<close>

definition otp_key :: "string \<Rightarrow> string" where
  "otp_key email = ''otp:'' @ js_lower email"

record otp_sent =
  os_sent :: bool
  os_devCode :: "string option"

text \<open>The last component lists the mails handed to the provider, each with its code.\<close>

definition requestOtp :: "auth_world \<Rightarrow> string \<Rightarrow> kv \<Rightarrow> (http_error + otp_sent) \<times> kv \<times> (string \<times> string) list" where
  "requestOtp w email s =
     (let code = six_digits (aw_otp w); key = otp_key email;
          s1 = kv_set_ex (aw_now w) key (KText (aw_sha256 w code)) OTP_TTL_SECONDS s;
          s2 = kv_set_ex (aw_now w) (attempts_key key) (KCount 0) OTP_TTL_SECONDS s1;
          domain = part 1 (split_on (CHR ''@'') (js_lower email));
          expose = (case aw_appEnv w of None \<Rightarrow> True | Some e \<Rightarrow> e = ''local'')
            \<or> domain \<in> set (devcode_domains (aw_devCodeDomains w))
      in if \<not> aw_up w 0 then (Inl otp_unavailable, s, [])
         else if \<not> aw_up w 1 then (Inl otp_unavailable, s1, [])
         else if expose then (Inr \<lparr>os_sent = True, os_devCode = Some code\<rparr>, s2, [])
         else (case aw_mail w email code of
             Inl e \<Rightarrow> (Inl e, s2, [(email, code)])
           | Inr _ \<Rightarrow> (Inr \<lparr>os_sent = True, os_devCode = None\<rparr>, s2, [(email, code)])))"

text \<open>\<open>verifyOtp\<close> up to the point where the code is accepted and consumed.\<close>

definition checkOtp :: "auth_world \<Rightarrow> string \<Rightarrow> string \<Rightarrow> kv \<Rightarrow> (unit, kv) outcome" where
  "checkOtp w email code s =
     (let key = otp_key email in
      if \<not> aw_up w 0 then (Inl otp_unavailable, s)
      else case kv_incr (aw_now w) (attempts_key key) s of
        (None, s1) \<Rightarrow> (Inl otp_unavailable, s1)
      | (Some attempts, s1) \<Rightarrow>
          if attempts > OTP_MAX_ATTEMPTS
          then (if \<not> aw_up w 1 then (Inl redis_error, s1)
                else (Inl (UnauthorizedException ''Too many attempts; request a new code''), kv_del key s1))
          else if \<not> aw_up w 1 then (Inl otp_unavailable, s1)
          else if (case kv_get (aw_now w) key s1 of
                     Some (KText h) \<Rightarrow> h = [] \<or> h \<noteq> aw_sha256 w code | _ \<Rightarrow> True)
          then (Inl (UnauthorizedException ''Invalid or expired code''), s1)
          else if \<not> aw_up w 2 then (Inl redis_error, s1)
          else (Inr (), kv_del (attempts_key key) (kv_del key s1)))"

section \<open>Tokens\<close>

record token_pair =
  tp_accessToken :: string
  tp_refreshToken :: string

definition user_by_email :: "db \<Rightarrow> string \<Rightarrow> user option" where
  "user_by_email d email = find (\<lambda>u. usr_email u = email) (db_users d)"

definition upsert_worker :: "id \<Rightarrow> id \<Rightarrow> db \<Rightarrow> db" where
  "upsert_worker new userId d = (case worker_by_user d userId of
       Some _ \<Rightarrow> d
     | None \<Rightarrow> d\<lparr>db_workers := db_workers d @ [\<lparr>wk_id = new, wk_userId = userId, wk_defaultWalletId = None\<rparr>]\<rparr>)"

definition user_modes :: "db \<Rightarrow> id \<Rightarrow> app_mode list" where
  "user_modes d userId = (if worker_by_user d userId \<noteq> None then [ModeWorker] else [])
     @ (if \<exists>m \<in> set (db_members d). om_userId m = userId then [ModeStaff] else [])"

definition new_token :: "auth_world \<Rightarrow> id \<Rightarrow> refresh_token" where
  "new_token w userId = \<lparr>rt_id = aw_token_id w, rt_userId = userId, rt_tokenHash = aw_sha256 w (aw_secret w),
     rt_expiresAt = aw_now w + REFRESH_TOKEN_TTL_MS, rt_revokedAt = None\<rparr>"

definition issueTokens :: "auth_world \<Rightarrow> id \<Rightarrow> string \<Rightarrow> global_role \<Rightarrow> db \<Rightarrow> token_pair \<times> db" where
  "issueTokens w userId email role d =
     (let d1 = upsert_worker (aw_worker_id w) userId d;
          modes = (if find_user d1 userId = None then [] else user_modes d1 userId)
      in (\<lparr>tp_accessToken = aw_sign w \<lparr>cl_sub = userId, cl_email = email, cl_role = role,
              cl_modes = Some modes, cl_typ = ''access''\<rparr>,
           tp_refreshToken = aw_secret w\<rparr>,
          d1\<lparr>db_refreshTokens := db_refreshTokens d1 @ [new_token w userId]\<rparr>))"

definition login :: "auth_world \<Rightarrow> string \<Rightarrow> db \<Rightarrow> (token_pair \<times> id) \<times> db" where
  "login w email d =
     (let normalizedEmail = js_lower email;
          created = \<lparr>usr_id = aw_user_id w, usr_authUserId = ''otp:'' @ normalizedEmail, usr_email = normalizedEmail,
            usr_displayName = part 0 (split_on (CHR ''@'') normalizedEmail), usr_role = RoleWORKER\<rparr>;
          (user, d1) = (case user_by_email d normalizedEmail of
             Some u \<Rightarrow> (u, d) | None \<Rightarrow> (created, d\<lparr>db_users := db_users d @ [created]\<rparr>));
          (tokens, d2) = issueTokens w (usr_id user) (usr_email user) (usr_role user) d1
      in ((tokens, usr_id user), d2))"

definition verifyOtp :: "auth_world \<Rightarrow> string \<Rightarrow> string \<Rightarrow> db \<times> kv \<Rightarrow> (token_pair \<times> id, db \<times> kv) outcome" where
  "verifyOtp w email code s = (case checkOtp w email code (snd s) of
       (Inl e, k) \<Rightarrow> (Inl e, (fst s, k))
     | (Inr _, k) \<Rightarrow> (case login w email (fst s) of (r, d) \<Rightarrow> (Inr r, (d, k))))"

section \<open>Rotation\<close>

definition token_live :: "instant \<Rightarrow> refresh_token \<Rightarrow> bool" where
  "token_live now t \<longleftrightarrow> rt_revokedAt t = None \<and> rt_expiresAt t \<ge> now"

definition revoke_token :: "instant \<Rightarrow> refresh_token \<Rightarrow> refresh_token" where
  "revoke_token now t = t\<lparr>rt_revokedAt := Some now\<rparr>"

definition invalid_refresh :: http_error where
  "invalid_refresh = UnauthorizedException ''Invalid refresh token''"

definition refresh_read :: "auth_world \<Rightarrow> string \<Rightarrow> db \<Rightarrow> http_error + (refresh_token \<times> user)" where
  "refresh_read w refreshToken d =
     (case find (\<lambda>t. rt_tokenHash t = aw_sha256 w refreshToken) (db_refreshTokens d) of
        None \<Rightarrow> Inl invalid_refresh
      | Some t \<Rightarrow> (case find_user d (rt_userId t) of
          None \<Rightarrow> Inl relation_error
        | Some u \<Rightarrow> if token_live (aw_now w) t then Inr (t, u) else Inl invalid_refresh))"

definition refresh_claim :: "auth_world \<Rightarrow> refresh_token \<times> user \<Rightarrow> db \<Rightarrow> (token_pair, db) outcome" where
  "refresh_claim w tu d = (case tu of (stored, user) \<Rightarrow>
     let claim = (\<lambda>t. rt_id t = rt_id stored \<and> token_live (aw_now w) t);
         d1 = d\<lparr>db_refreshTokens := update_where claim (revoke_token (aw_now w)) (db_refreshTokens d)\<rparr>
     in if count_where claim (db_refreshTokens d) \<noteq> 1 then (Inl invalid_refresh, d1)
        else (case issueTokens w (usr_id user) (usr_email user) (usr_role user) d1 of (p, d2) \<Rightarrow> (Inr p, d2)))"

definition refresh :: "auth_world \<Rightarrow> string \<Rightarrow> db \<Rightarrow> (token_pair, db) outcome" where
  "refresh w refreshToken d = (case refresh_read w refreshToken d of
       Inl e \<Rightarrow> (Inl e, d) | Inr tu \<Rightarrow> refresh_claim w tu d)"

definition logout :: "auth_world \<Rightarrow> string \<Rightarrow> db \<Rightarrow> bool \<times> db" where
  "logout w refreshToken d =
     (let P = (\<lambda>t. rt_tokenHash t = aw_sha256 w refreshToken \<and> rt_revokedAt t = None)
      in (count_where P (db_refreshTokens d) > 0,
          d\<lparr>db_refreshTokens := update_where P (revoke_token (aw_now w)) (db_refreshTokens d)\<rparr>))"

record session =
  ses_userId :: id
  ses_email :: string
  ses_modes :: "app_mode list"

definition getSession :: "id \<Rightarrow> db \<Rightarrow> http_error + session" where
  "getSession userId d = (case find_user d userId of
       None \<Rightarrow> Inl (UnauthorizedException ''User no longer exists'')
     | Some u \<Rightarrow> Inr \<lparr>ses_userId = userId, ses_email = usr_email u, ses_modes = user_modes d userId\<rparr>)"

end
