(* ===== verification/Auth_Safety.thy ===== *)
theory Auth_Safety
  imports Auth
begin

text \<open>
  Login and token rotation are safe under interleaving: a code sent by e-mail is compared at most
  five times, and a refresh token is exchanged at most once however its requests overlap.
\<close>

section \<open>Five guesses per code\<close>

definition at_time :: "auth_world \<Rightarrow> instant \<Rightarrow> auth_world" where
  "at_time w t = w\<lparr>aw_now := t, aw_up := \<lambda>_. True\<rparr>"

definition try_code :: "auth_world \<Rightarrow> string \<Rightarrow> instant \<Rightarrow> string \<Rightarrow> kv \<Rightarrow> bool \<times> kv" where
  "try_code w email t c s = (let r = checkOtp (at_time w t) email c s in (is_ok (fst r), snd r))"

lemma at_time_simps [simp]:
  "aw_now (at_time w t) = t" "aw_up (at_time w t) n = True" "aw_sha256 (at_time w t) = aw_sha256 w"
  by (simp_all add: at_time_def)

text \<open>One try, by whether a code is stored and live.\<close>

lemma try_code_dead:
  assumes "otp_good (otp_key email) s" "guesses_left (otp_key email) t s = 0 \<or> map_of s (otp_key email) = None"
    and "\<And>v e. map_of s (otp_key email) = Some (v, e) \<Longrightarrow> \<not> live t e"
  shows "\<not> fst (try_code w email t c s) \<and> otp_good (otp_key email) (snd (try_code w email t c s))
    \<and> (map_of (snd (try_code w email t c s)) (otp_key email) = None
     \<or> map_of (snd (try_code w email t c s)) (otp_key email) = map_of s (otp_key email))"
proof -
  obtain a s1 where i: "kv_incr t (attempts_key (otp_key email)) s = (a, s1)" by fastforce
  have g: "otp_good (otp_key email) s1" using kv_incr_good [OF assms(1), of t] i by simp
  have same: "map_of s1 (otp_key email) = map_of s (otp_key email)" using kv_incr_other [of "otp_key email" _ t s] i
    by (metis keys_differ(2) snd_conv)
  have gone: "kv_get t (otp_key email) s1 = None" using assms(3) by (auto simp: kv_get_def same split: option.splits)
  show ?thesis
    using g same by (cases a) (simp_all add: try_code_def checkOtp_def Let_def i gone otp_good_del)
qed

lemma try_code_live:
  assumes "otp_good (otp_key email) s" "map_of s (otp_key email) = Some (v, e)" "live t e"
    and "map_of s (attempts_key (otp_key email)) = Some (KCount n, e2)"
    and "s1 = map_set (attempts_key (otp_key email)) (KCount (n + 1), e2) s"
  shows "try_code w email t c s =
    (if n + 1 > 5 then (False, kv_del (otp_key email) s1)
     else if v \<noteq> KText (aw_sha256 w c) \<or> aw_sha256 w c = [] then (False, s1)
     else (True, kv_del (attempts_key (otp_key email)) (kv_del (otp_key email) s1)))"
proof -
  obtain m e3 where m: "map_of s (attempts_key (otp_key email)) = Some (KCount m, e3)"
    "kv_incr t (attempts_key (otp_key email)) s = (Some (m + 1), map_set (attempts_key (otp_key email)) (KCount (m + 1), e3) s)"
    using incr_counter [OF assms(1-3)] by metis
  have i: "kv_incr t (attempts_key (otp_key email)) s = (Some (n + 1), s1)" using m assms(4,5) by simp
  have got: "kv_get t (otp_key email) s1 = Some v" using assms(2,3,5) by (simp add: kv_get_def)
  show ?thesis
    by (cases v) (auto simp: try_code_def checkOtp_def Let_def i got OTP_MAX_ATTEMPTS_def)
qed

lemma try_code_laws:
  assumes good: "otp_good (otp_key email) s"
  shows "(fst (try_code w email t c s) \<longrightarrow> code_matches (aw_sha256 w) (otp_key email) s c \<and> 0 < guesses_left (otp_key email) t s)
     \<and> (\<not> fst (try_code w email t c s) \<longrightarrow> guesses_left (otp_key email) t (snd (try_code w email t c s)) \<le> guesses_left (otp_key email) t s - 1)
     \<and> (code_matches (aw_sha256 w) (otp_key email) (snd (try_code w email t c s)) c' \<longrightarrow> code_matches (aw_sha256 w) (otp_key email) s c')
     \<and> otp_good (otp_key email) (snd (try_code w email t c s))"
proof (cases "\<exists>v e. map_of s (otp_key email) = Some (v, e) \<and> live t e")
  case True
  then obtain v e where ve: "map_of s (otp_key email) = Some (v, e)" "live t e" by blast
  then obtain te n e2 where n: "e = Some te" "map_of s (attempts_key (otp_key email)) = Some (KCount n, e2)" "0 \<le> n"
    "\<forall>t2. e2 = Some t2 \<longrightarrow> te \<le> t2" using good by (auto simp: otp_good_def)
  note run = try_code_live [OF good ve n(2) refl, of w c]
  show ?thesis
    unfolding run using ve n by (auto simp: guesses_left_def code_matches_def otp_good_def)
next
  case False
  then have "guesses_left (otp_key email) t s = 0" by (auto simp: guesses_left_def split: option.splits)
  with False good have run: "\<not> fst (try_code w email t c s) \<and> otp_good (otp_key email) (snd (try_code w email t c s))
    \<and> (map_of (snd (try_code w email t c s)) (otp_key email) = None
      \<or> map_of (snd (try_code w email t c s)) (otp_key email) = map_of s (otp_key email))"
    by (intro try_code_dead) auto
  show ?thesis
  proof (cases "map_of (snd (try_code w email t c s)) (otp_key email) = None")
    case True
    then show ?thesis using run by (simp add: guesses_left_def code_matches_def)
  next
    case gone: False
    then have 2: "map_of (snd (try_code w email t c s)) (otp_key email) = map_of s (otp_key email)" using run by metis
    have "guesses_left (otp_key email) t (snd (try_code w email t c s)) = 0"
      using False unfolding guesses_left_def 2 by (auto split: option.splits)
    then show ?thesis using run by (simp add: code_matches_def 2)
  qed
qed

interpretation otp: guess_limit "try_code w email" "code_matches (aw_sha256 w) (otp_key email)" "guesses_left (otp_key email)" "otp_good (otp_key email)" for w email
  using try_code_laws guesses_left_later by unfold_locales blast+

text \<open>Tries of an e-mail address, one after the other, by the service itself.\<close>

fun verify_run :: "auth_world \<Rightarrow> string \<Rightarrow> (instant \<times> string) list \<Rightarrow> db \<times> kv \<Rightarrow> db \<times> kv" where
  "verify_run w email [] s = s"
| "verify_run w email ((t, c) # gs) s = verify_run w email gs (snd (verifyOtp (at_time w t) email c s))"

lemma verify_run_guesses:
  assumes "otp_good (otp_key email) (snd s)" "\<And>t c. (t, c) \<in> set gs \<Longrightarrow> \<not> code_matches (aw_sha256 w) (otp_key email) (snd s) c"
  shows "snd (verify_run w email gs s) = otp.guesses w email gs (snd s)"
  using assms
proof (induction gs arbitrary: s)
  case (Cons g gs)
  obtain t c where g: "g = (t, c)" by fastforce
  let ?s = "snd (verifyOtp (at_time w t) email c s)"
  have k: "snd ?s = snd (try_code w email t c (snd s))"
    by (auto simp: verifyOtp_def try_code_def Let_def split: prod.split sum.split)
  have "otp_good (otp_key email) (snd ?s)" unfolding k by (rule otp.stays_good) (rule Cons.prems(1))
  moreover have "\<not> code_matches (aw_sha256 w) (otp_key email) (snd ?s) c'" if "(t', c') \<in> set gs" for t' c'
    using otp.same_secret [OF Cons.prems(1)] Cons.prems(2) [of t' c'] that unfolding k by auto
  ultimately have "snd (verify_run w email gs ?s) = otp.guesses w email gs (snd ?s)" by (rule Cons.IH)
  then show ?case by (simp add: g k)
qed simp

text \<open>(C12) Five guesses.  After a code was requested, five or more wrong guesses lock the address:
  whatever code is presented later, even the right one, is refused until a new code is requested.\<close>

theorem otp_locked_out:
  assumes "requestOtp w email k = (r, k', mails)" "aw_up w 0" "aw_up w 1"
    and "sorted (aw_now w # map fst gs @ [T])" "5 \<le> length gs"
    and "\<And>t c. (t, c) \<in> set gs \<Longrightarrow> aw_sha256 w c \<noteq> aw_sha256 w (six_digits (aw_otp w))"
  shows "\<not> is_ok (fst (verifyOtp (at_time w T) email code (verify_run w email gs (d, k'))))"
proof -
  have m: "map_of k' (otp_key email) = Some (KText (aw_sha256 w (six_digits (aw_otp w))), Some (aw_now w + 1000 * OTP_TTL_SECONDS))"
    "map_of k' (attempts_key (otp_key email)) = Some (KCount 0, Some (aw_now w + 1000 * OTP_TTL_SECONDS))"
    using assms(1-3) by (auto simp: requestOtp_def Let_def split: if_splits sum.splits)
  then have good: "otp_good (otp_key email) k'" by (simp add: otp_good_def)
  have wrong: "\<not> code_matches (aw_sha256 w) (otp_key email) k' c" if "(t, c) \<in> set gs" for t c
    using assms(6) [OF that] m by (simp add: code_matches_def)
  have "guesses_left (otp_key email) (aw_now w) k' \<le> length gs" using m assms(5) by (simp add: guesses_left_def)
  then have "\<not> fst (try_code w email T code (otp.guesses w email gs k'))"
    by (intro otp.locked_out [OF good assms(4)]) (use wrong in auto)
  moreover have "snd (verify_run w email gs (d, k')) = otp.guesses w email gs k'"
    using verify_run_guesses [of email "(d, k')" gs w] good wrong by auto
  ultimately show ?thesis
    by (auto simp: verifyOtp_def try_code_def Let_def split: prod.splits sum.splits)
qed

definition demo_auth :: auth_world where
  "demo_auth = \<lparr>aw_now = 0, aw_up = \<lambda>_. True, aw_sha256 = \<lambda>s. s, aw_otp = 4711, aw_secret = ''fresh'', aw_user_id = ''u9'',
     aw_worker_id = ''w9'', aw_token_id = ''t9'', aw_sign = \<lambda>c. cl_sub c, aw_appEnv = Some ''staging'',
     aw_devCodeDomains = None, aw_mail = \<lambda>_ _. Inr ()\<rparr>"

theorem otp_locked_out_witness:
  "\<not> is_ok (fst (verifyOtp (at_time demo_auth 9) ''a@b.c'' ''004711''
      (verify_run demo_auth ''a@b.c'' (replicate 5 (7, ''000000'')) (empty_db, fst (snd (requestOtp demo_auth ''a@b.c'' []))))))"
proof (rule otp_locked_out [where k = "[]" and mails = "snd (snd (requestOtp demo_auth ''a@b.c'' []))"])
  show "requestOtp demo_auth ''a@b.c'' [] = (fst (requestOtp demo_auth ''a@b.c'' []),
     fst (snd (requestOtp demo_auth ''a@b.c'' [])), snd (snd (requestOtp demo_auth ''a@b.c'' [])))" by simp
  show "aw_sha256 demo_auth c \<noteq> aw_sha256 demo_auth (six_digits (aw_otp demo_auth))"
    if "(t, c) \<in> set (replicate 5 (7, ''000000''))" for t c
    using that by (auto simp: demo_auth_def six_digits_def padStart_def show_nat.simps digit_char_def)
qed (simp_all add: demo_auth_def numeral_eq_Suc)

section \<open>A refresh token is exchanged once\<close>

interpretation tok: row_claim rt_id token_live revoke_token
  by unfold_locales (simp_all add: token_live_def revoke_token_def)

text \<open>
  The token operations of overlapping requests: the claim half of \<open>refresh\<close> with whatever row its
  read half returned, logout, login.  A run lists the rows whose claim was answered with tokens.
\<close>

datatype auth_event = ClaimEvent "refresh_token \<times> user" | LogoutEvent string | LoginEvent string

definition auth_step :: "auth_world \<times> auth_event \<Rightarrow> db \<Rightarrow> id list \<times> db" where
  "auth_step e d = (case e of (w, ev) \<Rightarrow> (case ev of
       ClaimEvent tu \<Rightarrow> (case refresh_claim w tu d of (r, d') \<Rightarrow> (if is_ok r then [rt_id (fst tu)] else [], d'))
     | LogoutEvent t \<Rightarrow> ([], snd (logout w t d))
     | LoginEvent m \<Rightarrow> ([], snd (login w m d))))"

fun auth_run :: "(auth_world \<times> auth_event) list \<Rightarrow> db \<Rightarrow> id list \<times> db" where
  "auth_run [] d = ([], d)"
| "auth_run (e # es) d = (case auth_step e d of (xs, d1) \<Rightarrow> case auth_run es d1 of (ys, d2) \<Rightarrow> (xs @ ys, d2))"

lemma issue_rows: "db_refreshTokens (snd (issueTokens w u m r d)) = db_refreshTokens d @ [new_token w u]"
  by (simp add: issueTokens_def Let_def upsert_worker_def split: option.split)

lemma login_rows: "\<exists>u. db_refreshTokens (snd (login w m d)) = db_refreshTokens d @ [new_token w u]"
proof -
  have "db_refreshTokens (snd (issueTokens w u m2 r (d\<lparr>db_users := us\<rparr>))) = db_refreshTokens d @ [new_token w u]" for u m2 r us
    by (simp add: issue_rows)
  then show ?thesis by (auto simp: login_def Let_def case_prod_unfold issue_rows split: option.split)
qed

text \<open>Every step marks rows and may append one row with the step's fresh id.\<close>

lemma auth_step_rows:
  obtains P c new where "db_refreshTokens (snd (auth_step (w, ev) d)) = update_where P (revoke_token c) (db_refreshTokens d) @ new"
    "new = [] \<or> map rt_id new = [aw_token_id w]"
proof (cases ev)
  case (ClaimEvent tu)
  obtain st u where tu: "tu = (st, u)" by fastforce
  let ?P = "\<lambda>t. rt_id t = rt_id st \<and> token_live (aw_now w) t"
  let ?d = "d\<lparr>db_refreshTokens := update_where ?P (revoke_token (aw_now w)) (db_refreshTokens d)\<rparr>"
  show thesis
  proof (cases "count_where ?P (db_refreshTokens d) = 1")
    case True
    have "snd (auth_step (w, ev) d) = snd (issueTokens w (usr_id u) (usr_email u) (usr_role u) ?d)"
      using True by (simp add: auth_step_def ClaimEvent tu refresh_claim_def Let_def case_prod_unfold)
    then show thesis
      by (intro that [of ?P "aw_now w" "[new_token w (usr_id u)]"]) (simp_all add: issue_rows new_token_def)
  next
    case False
    then show thesis
      by (intro that [of ?P "aw_now w" "[]"]) (simp_all add: auth_step_def ClaimEvent tu refresh_claim_def Let_def)
  qed
next
  case (LogoutEvent t)
  then have "db_refreshTokens (snd (auth_step (w, ev) d)) = update_where (\<lambda>r. rt_tokenHash r = aw_sha256 w t \<and> rt_revokedAt r = None)
     (revoke_token (aw_now w)) (db_refreshTokens d) @ []"
    by (simp add: auth_step_def logout_def Let_def)
  then show thesis by (rule that) simp
next
  case (LoginEvent m)
  obtain u where u: "db_refreshTokens (snd (login w m d)) = db_refreshTokens d @ [new_token w u]" using login_rows by blast
  show thesis
    by (rule that [of "\<lambda>_. False" 0 "[new_token w u]"]) (simp_all add: auth_step_def LoginEvent u new_token_def update_where_none)
qed

lemma auth_step_ids:
  "\<exists>new. map rt_id (db_refreshTokens (snd (auth_step (w, ev) d))) = map rt_id (db_refreshTokens d) @ new
     \<and> (new = [] \<or> new = [aw_token_id w])"
  by (rule auth_step_rows [of w ev d]) (auto simp: tok.claim_ids)

lemma settled_step:
  assumes "tok.settled i (db_refreshTokens d)" "aw_token_id w \<noteq> i"
  shows "tok.settled i (db_refreshTokens (snd (auth_step (w, ev) d))) \<and> i \<notin> set (fst (auth_step (w, ev) d))"
proof
  show "tok.settled i (db_refreshTokens (snd (auth_step (w, ev) d)))"
  proof (rule auth_step_rows [of w ev d])
    fix P c new
    assume rows: "db_refreshTokens (snd (auth_step (w, ev) d)) = update_where P (revoke_token c) (db_refreshTokens d) @ new"
      and "new = [] \<or> map rt_id new = [aw_token_id w]"
    then have "tok.settled i new" using assms(2) by (auto simp: tok.settled_def)
    then show ?thesis using tok.settled_mark [OF assms(1), of P c] unfolding rows tok.settled_def by auto
  qed
  show "i \<notin> set (fst (auth_step (w, ev) d))"
    using tok.settled_no_claim [OF assms(1), of "aw_now w"]
    by (auto simp: auth_step_def refresh_claim_def Let_def split: auth_event.splits prod.splits if_splits)
qed

lemma settled_run:
  assumes "tok.settled i (db_refreshTokens d)" "i \<notin> set (map (\<lambda>e. aw_token_id (fst e)) es)"
  shows "i \<notin> set (fst (auth_run es d))"
  using assms
proof (induction es arbitrary: d)
  case (Cons e es)
  obtain w ev where e: "e = (w, ev)" by fastforce
  have "i \<notin> set (fst (auth_run es (snd (auth_step e d))))" "i \<notin> set (fst (auth_step e d))"
    using settled_step [OF Cons.prems(1), of w ev] Cons by (auto simp: e)
  then show ?case by (auto split: prod.split)
qed simp

lemma claim_step:
  assumes "distinct (map rt_id (db_refreshTokens d))" "aw_token_id w \<notin> rt_id ` set (db_refreshTokens d)"
    and "i \<in> set (fst (auth_step (w, ev) d))"
  shows "fst (auth_step (w, ev) d) = [i] \<and> i \<in> rt_id ` set (db_refreshTokens d)
    \<and> tok.settled i (db_refreshTokens (snd (auth_step (w, ev) d)))"
proof -
  obtain st u where ev: "ev = ClaimEvent (st, u)" "i = rt_id st"
    and ok: "is_ok (fst (refresh_claim w (st, u) d))"
    using assms(3) by (auto simp: auth_step_def split: auth_event.splits prod.splits if_splits)
  let ?P = "\<lambda>t. rt_id t = rt_id st \<and> token_live (aw_now w) t"
  have one: "count_where ?P (db_refreshTokens d) = 1" using ok by (auto simp: refresh_claim_def Let_def split: if_splits)
  then have "filter ?P (db_refreshTokens d) \<noteq> []" by (auto simp: count_where_def)
  then have "i \<in> rt_id ` set (db_refreshTokens d)" using ev(2) by (simp add: filter_empty_conv) (metis imageI)
  moreover have "db_refreshTokens (snd (refresh_claim w (st, u) d)) =
      update_where ?P (revoke_token (aw_now w)) (db_refreshTokens d) @ [new_token w (usr_id u)]"
    using one issue_rows [of w "usr_id u" "usr_email u" "usr_role u"
        "d\<lparr>db_refreshTokens := update_where ?P (revoke_token (aw_now w)) (db_refreshTokens d)\<rparr>"]
    by (auto simp: refresh_claim_def Let_def split: prod.split)
  moreover have "tok.settled i (update_where ?P (revoke_token (aw_now w)) (db_refreshTokens d))"
    unfolding ev(2) using tok.claim_settles [OF assms(1) one] .
  ultimately show ?thesis
    using assms(2) ok by (auto simp: auth_step_def ev tok.settled_def new_token_def split: prod.split)
qed

text \<open>(C13) A refresh token mints at most one pair.  However refreshes, logouts and logins overlap, and
  whatever rows the refreshes had read before, no two claims of the same row are both answered
  with tokens.\<close>

theorem refresh_single_use:
  assumes "distinct (map rt_id (db_refreshTokens d) @ map (\<lambda>e. aw_token_id (fst e)) es)"
  shows "distinct (fst (auth_run es d))"
  using assms
proof (induction es arbitrary: d)
  case (Cons e es)
  obtain w ev where e: "e = (w, ev)" by fastforce
  let ?d = "snd (auth_step e d)"
  obtain new where new: "map rt_id (db_refreshTokens ?d) = map rt_id (db_refreshTokens d) @ new" "new = [] \<or> new = [aw_token_id w]"
    using auth_step_ids [of w ev d] e by blast
  have "distinct (map rt_id (db_refreshTokens ?d) @ map (\<lambda>e. aw_token_id (fst e)) es)"
    unfolding new(1) using Cons.prems e by (rule_tac disjE [OF new(2)]) simp_all
  then have rest: "distinct (fst (auth_run es ?d))" by (rule Cons.IH)
  have first: "fst (auth_step e d) = [i] \<and> i \<notin> set (fst (auth_run es ?d))" if i: "i \<in> set (fst (auth_step e d))" for i
  proof -
    have "fst (auth_step e d) = [i] \<and> i \<in> rt_id ` set (db_refreshTokens d) \<and> tok.settled i (db_refreshTokens ?d)"
      unfolding e by (rule claim_step) (use Cons.prems i e in auto)
    moreover have "i \<notin> set (map (\<lambda>e. aw_token_id (fst e)) es)" if "i \<in> rt_id ` set (db_refreshTokens d)"
      using Cons.prems that by auto
    ultimately show ?thesis using settled_run by blast
  qed
  have "distinct (fst (auth_step e d)) \<and> set (fst (auth_step e d)) \<inter> set (fst (auth_run es ?d)) = {}"
  proof (cases "fst (auth_step e d)")
    case (Cons i xs)
    then show ?thesis using first [of i] by simp
  qed simp
  then show ?case using rest by (auto split: prod.split)
qed simp

definition demo_token :: refresh_token where
  "demo_token = \<lparr>rt_id = ''t0'', rt_userId = ''u1'', rt_tokenHash = ''h'', rt_expiresAt = 50, rt_revokedAt = None\<rparr>"

definition demo_user :: user where
  "demo_user = \<lparr>usr_id = ''u1'', usr_authUserId = ''otp:a@b.c'', usr_email = ''a@b.c'', usr_displayName = ''a'', usr_role = RoleWORKER\<rparr>"

theorem refresh_single_use_witness:
  "distinct (fst (auth_run [(demo_auth, ClaimEvent (demo_token, demo_user)), (demo_auth\<lparr>aw_token_id := ''t8''\<rparr>, ClaimEvent (demo_token, demo_user))]
      (empty_db\<lparr>db_users := [demo_user], db_refreshTokens := [demo_token]\<rparr>)))"
  by (rule refresh_single_use) (simp add: demo_auth_def demo_token_def)

end
