(* ===== verification/Disclosure.thy ===== *)
theory Disclosure
  imports Access
begin

text \<open>
  \<open>apps/api/src/disclosure/disclosure.service.ts\<close>: grants that let a worker disclose income, the
  reports issued under them, and public verification by link or by a code sent to the recipient.
  \<open>disclosure_world\<close> holds what one call draws from outside: the clock, random tokens, ids, sha256 and
  HMAC, PDF rendering, mail, and whether the n-th access to the Redis store succeeds.  Dates are
  parsed instants.
\<close>

section \<open>Outside\<close>

record disclosure_world =
  dw_now :: instant
  dw_up :: "nat \<Rightarrow> bool"
  dw_noon :: "string \<Rightarrow> instant"         \<comment> \<open>\<open>new Date(`${d}T12:00:00Z`)\<close>\<close>
  dw_sha256 :: "string \<Rightarrow> string"
  dw_hmac :: "snapshot \<Rightarrow> id \<Rightarrow> instant \<Rightarrow> string"
  dw_secret :: string                  \<comment> \<open>\<open>randomBytes\<close>, base64url\<close>
  dw_otp :: nat
  dw_grant_id :: id
  dw_report_id :: id
  dw_render :: "string list \<Rightarrow> http_error + unit"   \<comment> \<open>PDFKit and the file system\<close>
  dw_pdf_path :: "id \<Rightarrow> string"
  dw_iso :: "instant \<Rightarrow> string"
  dw_appEnv :: "string option"
  dw_devCodeDomains :: "string option"
  dw_mail :: "string \<Rightarrow> string \<Rightarrow> http_error + unit"

definition ACCESS_OTP_TTL_SECONDS :: int where "ACCESS_OTP_TTL_SECONDS = 300"
definition ACCESS_OTP_MAX_ATTEMPTS :: int where "ACCESS_OTP_MAX_ATTEMPTS = 5"
definition ACCESS_SESSION_TTL_SECONDS :: int where "ACCESS_SESSION_TTL_SECONDS = 15 * 60"
definition ACCESS_OTP_COOLDOWN_SECONDS :: int where "ACCESS_OTP_COOLDOWN_SECONDS = 60"
definition ACCESS_OTP_MAX_REQUESTS_PER_HOUR :: int where "ACCESS_OTP_MAX_REQUESTS_PER_HOUR = 5"

definition store_unavailable :: http_error where
  "store_unavailable = ServiceUnavailableException ''Disclosure access store unavailable: ${message}''"

section \<open>Masks\<close>

definition maskRecipient :: "string \<Rightarrow> string" where
  "maskRecipient email =
     (let local = part 0 (split_on (CHR ''@'') email); domain = part 1 (split_on (CHR ''@'') email)
      in take (min 2 (length local)) local @ replicate (max 3 (length local - 2)) (CHR ''*'') @ ''@'' @ domain)"

definition maskIp :: "string option \<Rightarrow> string option" where
  "maskIp ip = (case ip of
       None \<Rightarrow> None
     | Some i \<Rightarrow> if i = [] then None else
         let normalized = (if starts_with ''::ffff:'' i then drop 7 i else i);
             dotted = split_on (CHR ''.'') normalized;
             groups = filter (\<lambda>s. s \<noteq> []) (split_on (CHR '':'') normalized)
         in Some (if CHR ''.'' \<in> set normalized
              then (if length dotted = 4 then part 0 dotted @ ''.'' @ part 1 dotted @ ''.'' @ part 2 dotted @ ''.*'' else ''***'')
              else if groups \<noteq> [] then concat (map (\<lambda>g. g @ '':'') (take 3 groups)) @ ellipsis else ''***''))"

section \<open>Grants\<close>

record grant_input =
  gi_purpose :: string
  gi_level :: disclosure_level
  gi_dateRangeStart :: instant
  gi_dateRangeEnd :: instant
  gi_expiresAt :: instant
  gi_recipientEmail :: "string option"
  gi_accessMode :: "access_mode option"
  gi_allowDownload :: "bool option"
  gi_thresholdUsdCents :: "cents option"

text \<open>A worker profile with its user's name.\<close>

definition worker_of :: "id \<Rightarrow> db \<Rightarrow> http_error + (worker \<times> string)" where
  "worker_of userId d = (case worker_by_user d userId of
       None \<Rightarrow> Inl (NotFoundException ''No worker profile for this user'')
     | Some k \<Rightarrow> (case find_user d (wk_userId k) of None \<Rightarrow> Inl relation_error | Some u \<Rightarrow> Inr (k, usr_displayName u)))"

definition nonzero :: "int option \<Rightarrow> int option" where
  "nonzero n = (if n = Some 0 then None else n)"

definition createGrant :: "disclosure_world \<Rightarrow> id \<Rightarrow> grant_input \<Rightarrow> db \<Rightarrow> (disclosure_grant \<times> string, db) outcome" where
  "createGrant w userId inp d = (case worker_of userId d of
       Inl e \<Rightarrow> (Inl e, d)
     | Inr (worker, _) \<Rightarrow>
         let accessMode = (case gi_accessMode inp of None \<Rightarrow> LINK | Some m \<Rightarrow> m);
             grant = \<lparr>dg_id = dw_grant_id w, dg_workerId = wk_id worker,
               dg_recipientEmail = map_option js_lower (gi_recipientEmail inp), dg_accessMode = accessMode,
               dg_purpose = gi_purpose inp, dg_level = gi_level inp,
               dg_thresholdUsdCents = nonzero (gi_thresholdUsdCents inp),
               dg_dateRangeStart = gi_dateRangeStart inp, dg_dateRangeEnd = gi_dateRangeEnd inp,
               dg_expiresAt = gi_expiresAt inp, dg_allowDownload = (gi_allowDownload inp = Some True),
               dg_revokedAt = None, dg_accessTokenHash = dw_sha256 w (dw_secret w)\<rparr>
         in if gi_level inp = LEVEL_1 \<and> nonzero (gi_thresholdUsdCents inp) = None
            then (Inl (BadRequestException ''LEVEL_1 requires thresholdUsdCents''), d)
            else if accessMode = RECIPIENT_OTP \<and> \<not> truthy (gi_recipientEmail inp)
            then (Inl (BadRequestException ''Recipient email is required for recipient-only access''), d)
            else (Inr (grant, dw_secret w), d\<lparr>db_grants := db_grants d @ [grant]\<rparr>))"

definition find_grant :: "db \<Rightarrow> id \<Rightarrow> disclosure_grant option" where
  "find_grant d i = find (\<lambda>g. dg_id g = i) (db_grants d)"

definition reports_of :: "db \<Rightarrow> id \<Rightarrow> verification_report list" where
  "reports_of d grantId = filter (\<lambda>r. vr_disclosureGrantId r = grantId) (rev (db_reports d))"

text \<open>\<open>reports\<close> ordered by creation, newest first, \<open>take: 1\<close>.\<close>

definition latest_report :: "db \<Rightarrow> id \<Rightarrow> verification_report option" where
  "latest_report d grantId = (case reports_of d grantId of [] \<Rightarrow> None | r # _ \<Rightarrow> Some r)"

record grant_view =
  gv_grant :: disclosure_grant
  gv_report :: "(id \<times> report_status \<times> instant option \<times> instant option) option"
  gv_accesses :: "(string option \<times> string option) list"    \<comment> \<open>user agent and masked address\<close>

definition view_grant :: "db \<Rightarrow> disclosure_grant \<Rightarrow> grant_view" where
  "view_grant d g = \<lparr>gv_grant = g,
     gv_report = map_option (\<lambda>r. (vr_id r, vr_status r, vr_issuedAt r, vr_expiresAt r)) (latest_report d (dg_id g)),
     gv_accesses = map (\<lambda>a. (ac_userAgent a, maskIp (ac_ip a)))
       (take 5 (filter (\<lambda>a. ac_grantId a = dg_id g) (rev (db_accessLogs d))))\<rparr>"

definition listGrants :: "id \<Rightarrow> db \<Rightarrow> http_error + grant_view list" where
  "listGrants userId d = (case worker_of userId d of
       Inl e \<Rightarrow> Inl e
     | Inr (k, _) \<Rightarrow> Inr (map (view_grant d) (filter (\<lambda>g. dg_workerId g = wk_id k) (rev (db_grants d)))))"

definition own_grant :: "id \<Rightarrow> id \<Rightarrow> db \<Rightarrow> http_error + (worker \<times> string \<times> disclosure_grant)" where
  "own_grant userId grantId d = (case worker_of userId d of
       Inl e \<Rightarrow> Inl e
     | Inr (k, name) \<Rightarrow> (case find_grant d grantId of
         None \<Rightarrow> Inl (NotFoundException ''Disclosure grant not found'')
       | Some g \<Rightarrow> if dg_workerId g \<noteq> wk_id k then Inl (NotFoundException ''Disclosure grant not found'')
           else Inr (k, name, g)))"

definition update_reports :: "(verification_report \<Rightarrow> bool) \<Rightarrow> (verification_report \<Rightarrow> verification_report) \<Rightarrow> db \<Rightarrow> db" where
  "update_reports P f d = d\<lparr>db_reports := update_where P f (db_reports d)\<rparr>"

definition revokeGrant :: "disclosure_world \<Rightarrow> id \<Rightarrow> id \<Rightarrow> db \<Rightarrow> (unit, db) outcome" where
  "revokeGrant w userId grantId d = (case own_grant userId grantId d of
       Inl e \<Rightarrow> (Inl e, d)
     | Inr _ \<Rightarrow> (Inr (),
         update_reports (\<lambda>r. vr_disclosureGrantId r = grantId \<and> vr_status r \<in> {ISSUED, ReportCORRECTED})
           (\<lambda>r. r\<lparr>vr_status := ReportREVOKED, vr_revokedAt := Some (dw_now w)\<rparr>)
           (d\<lparr>db_grants := update_where (\<lambda>g. dg_id g = grantId) (\<lambda>g. g\<lparr>dg_revokedAt := Some (dw_now w)\<rparr>) (db_grants d)\<rparr>)))"

section \<open>Snapshots\<close>

definition entry_shift :: "db \<Rightarrow> income_entry \<Rightarrow> shift_evidence option" where
  "entry_shift d e = Option.bind (ie_shiftId e) (find_shift d)"

definition entry_date :: "db \<Rightarrow> income_entry \<Rightarrow> string" where
  "entry_date d e = (case entry_shift d e of None \<Rightarrow> [] | Some s \<Rightarrow> se_businessDate s)"

definition entry_month :: "db \<Rightarrow> income_entry \<Rightarrow> string" where
  "entry_month d e = take 7 (entry_date d e)"

definition in_range :: "(string \<Rightarrow> instant) \<Rightarrow> db \<Rightarrow> disclosure_grant \<Rightarrow> income_entry \<Rightarrow> bool" where
  "in_range noon d g e \<longleftrightarrow> entry_date d e \<noteq> [] \<and> dg_dateRangeStart g \<le> noon (entry_date d e)
     \<and> noon (entry_date d e) \<le> dg_dateRangeEnd g"

definition disclosed_entries :: "(string \<Rightarrow> instant) \<Rightarrow> db \<Rightarrow> disclosure_grant \<Rightarrow> income_entry list" where
  "disclosed_entries noon d g = filter (in_range noon d g)
     (filter (\<lambda>e. ie_workerId e = dg_workerId g \<and> ie_effectiveStatus e = EntryACTIVE) (db_incomes d))"

text \<open>\<open>acc[key] = (acc[key] ?? 0) + n\<close>.\<close>

definition bump_key :: "'k \<Rightarrow> 'n \<Rightarrow> ('k \<times> 'n) list \<Rightarrow> ('k \<times> 'n :: comm_monoid_add) list" where
  "bump_key k n m = map_set k ((case map_of m k of None \<Rightarrow> 0 | Some x \<Rightarrow> x) + n) m"

definition count_by :: "('a \<Rightarrow> 'k) \<Rightarrow> 'a list \<Rightarrow> ('k \<times> nat) list" where
  "count_by f xs = fold (\<lambda>x. bump_key (f x) 1) xs []"

definition sum_by :: "('a \<Rightarrow> 'k) \<Rightarrow> ('a \<Rightarrow> cents) \<Rightarrow> 'a list \<Rightarrow> ('k \<times> cents) list" where
  "sum_by f g xs = fold (\<lambda>x. bump_key (f x) (g x)) xs []"

definition distinct_count :: "('a \<Rightarrow> 'k) \<Rightarrow> 'a list \<Rightarrow> nat" where
  "distinct_count f xs = length (remdups (map f xs))"

definition best_grade :: "(evidence_grade \<times> nat) list \<Rightarrow> evidence_grade" where
  "best_grade grades = (case find (\<lambda>g. case map_of grades g of Some n \<Rightarrow> n \<noteq> 0 | None \<Rightarrow> False)
       [GradeA, GradeB, GradeC, GradeD, GradeE] of Some g \<Rightarrow> g | None \<Rightarrow> GradeE)"

text \<open>\<open>Math.round(a / b)\<close> on doubles, 0 for an empty divisor.\<close>

definition rounded_ratio :: "int \<Rightarrow> nat \<Rightarrow> int" where
  "rounded_ratio a b = (if b > 0 then js_round (fl64 (fl64 (of_int a) / of_nat b)) else 0)"

definition share_pct :: "nat \<Rightarrow> nat \<Rightarrow> int" where
  "share_pct a b = (if b > 0 then js_round (fl64 (fl64 (of_nat a / of_nat b) * 100)) else 0)"

definition totals_of :: "db \<Rightarrow> disclosure_level \<Rightarrow> income_entry list \<Rightarrow> snapshot_totals" where
  "totals_of d level es =
     (let grades = count_by ie_evidenceGrade es; months = distinct_count (entry_month d) es;
          totalAllocated = sum_list (map ie_allocatedUsdCents es)
      in \<lparr>st_level = level, st_avgMonthlyIncomeUsdCents = rounded_ratio totalAllocated months,
          st_monthsCovered = months, st_payerCount = distinct_count ie_venueId es,
          st_verificationGrades = grades, st_bestGrade = best_grade grades,
          st_hasCorrections = list_ex (\<lambda>e. ie_correctionOfId e \<noteq> None) es,
          st_totalVerifiedIncomeUsdCents = totalAllocated,
          st_totalPaidUsdCents = sum_list (map ie_paidUsdCents es),
          st_posVerifiedSharePct = share_pct (count_where
            (\<lambda>e. map_option se_ingestSource (entry_shift d e) = Some PROVIDER_API) es) (length es),
          st_monthlyBreakdown = sum_by (entry_month d) ie_allocatedUsdCents es,
          st_observedShiftDays = distinct_count (entry_date d) es\<rparr>)"

definition snapshot_row :: "db \<Rightarrow> income_entry \<Rightarrow> snapshot_entry" where
  "snapshot_row d e = \<lparr>sn_businessDate = entry_date d e,
     sn_venue = (case find_venue d (ie_venueId e) of Some v \<Rightarrow> ven_name v | None \<Rightarrow> []),
     sn_role = (case entry_shift d e of Some s \<Rightarrow> se_role s | None \<Rightarrow> []),
     sn_allocatedUsdCents = ie_allocatedUsdCents e, sn_paidUsdCents = ie_paidUsdCents e,
     sn_payrollReportedUsdCents = ie_payrollReportedUsdCents e, sn_withholdingStatus = ie_withholdingStatus e,
     sn_payoutRail = ie_payoutRail e, sn_evidenceGrade = ie_evidenceGrade e,
     sn_ingestSource = map_option se_ingestSource (entry_shift d e), sn_corrected = (ie_correctionOfId e \<noteq> None)\<rparr>"

definition buildSnapshot :: "(string \<Rightarrow> instant) \<Rightarrow> db \<Rightarrow> disclosure_grant \<Rightarrow> http_error + snapshot" where
  "buildSnapshot noon d g =
     (let es = disclosed_entries noon d g; t = totals_of d (dg_level g) es;
          threshold = (case dg_thresholdUsdCents g of None \<Rightarrow> 0 | Some c \<Rightarrow> c)
      in if \<exists>e \<in> set (db_incomes d). ie_workerId e = dg_workerId g \<and> ie_effectiveStatus e = EntryACTIVE
            \<and> find_venue d (ie_venueId e) = None
         then Inl relation_error
         else Inr (case dg_level g of
             LEVEL_1 \<Rightarrow> Level1Snapshot threshold (st_avgMonthlyIncomeUsdCents t \<ge> threshold)
           | LEVEL_2 \<Rightarrow> Level2Snapshot t
           | LEVEL_3 \<Rightarrow> Level3Snapshot t (map (snapshot_row d) es)))"

section \<open>The PDF\<close>

text \<open>\<open>toFixed(2)\<close>.\<close>

definition to_fixed2 :: "rat \<Rightarrow> string" where
  "to_fixed2 x = (let n = nat \<lfloor>\<bar>x\<bar> * 100 + 1 / 2\<rfloor> in
     (if x < 0 \<and> n \<noteq> 0 then ''-'' else []) @ show_nat (n div 100) @ ''.'' @ padStart2 (show_nat (n mod 100)))"

definition usd :: "cents \<Rightarrow> string" where
  "usd c = ''$'' @ to_fixed2 (fl64 (of_int c / 100))"

definition show_int :: "int \<Rightarrow> string" where
  "show_int i = (if i < 0 then ''-'' @ show_nat (nat (- i)) else show_nat (nat i))"

definition grade_name :: "evidence_grade \<Rightarrow> string" where
  "grade_name g = (case g of GradeA \<Rightarrow> ''A'' | GradeB \<Rightarrow> ''B'' | GradeC \<Rightarrow> ''C'' | GradeD \<Rightarrow> ''D'' | GradeE \<Rightarrow> ''E'')"

definition withholding_name :: "withholding_status \<Rightarrow> string" where
  "withholding_name s = (case s of WithholdingUNKNOWN \<Rightarrow> ''UNKNOWN'' | WithholdingPENDING \<Rightarrow> ''PENDING'' | WithholdingCONFIRMED \<Rightarrow> ''CONFIRMED'')"

definition middle_dot :: string where
  "middle_dot = map char_of [32, 194, 183, 32 :: nat]"   \<comment> \<open>U+00B7 between blanks\<close>

text \<open>The Korean words of the criterion, in UTF-8.\<close>

definition criterion :: "cents \<Rightarrow> string" where
  "criterion threshold = map char_of [237, 143, 137, 234, 183, 160, 32, 236, 155, 148, 236, 134, 140, 235, 147, 157, 32, 226, 137, 165, 32 :: nat] @ usd threshold"

definition entry_line :: "snapshot_entry \<Rightarrow> string" where
  "entry_line e = sn_businessDate e @ middle_dot @ sn_venue e @ middle_dot @ ''alloc '' @ usd (sn_allocatedUsdCents e)
     @ middle_dot @ ''paid '' @ usd (sn_paidUsdCents e) @ middle_dot @ ''payroll '' @ usd (sn_payrollReportedUsdCents e)
     @ middle_dot @ withholding_name (sn_withholdingStatus e) @ middle_dot @ ''grade '' @ grade_name (sn_evidenceGrade e)"

definition totals_lines :: "snapshot_totals \<Rightarrow> string list" where
  "totals_lines t =
     [''Verified income (allocated): '' @ usd (st_totalVerifiedIncomeUsdCents t),
      ''Average monthly income: '' @ usd (st_avgMonthlyIncomeUsdCents t),
      ''Months covered: '' @ show_nat (st_monthsCovered t) @ '' '' @ middle_dot @ '' Payer count: '' @ show_nat (st_payerCount t),
      ''Best evidence grade: '' @ grade_name (st_bestGrade t),
      ''Corrections present: '' @ (if st_hasCorrections t then ''yes'' else ''no''),
      ''POS-verified evidence share: '' @ show_int (st_posVerifiedSharePct t) @ ''%'',
      ''Observed shift days: '' @ show_nat (st_observedShiftDays t),
      ''Monthly breakdown (observed, not extrapolated):'']
     @ map (\<lambda>(month, c). ''  '' @ month @ '': '' @ usd c)
         (js_sort (\<lambda>a b. str_cmp (fst a @ '','' @ show_int (snd a)) (fst b @ '','' @ show_int (snd b))) (st_monthlyBreakdown t))"

definition snapshot_lines :: "snapshot \<Rightarrow> string list" where
  "snapshot_lines s = (case s of
       Level1Snapshot threshold result \<Rightarrow> [criterion threshold, if result then ''TRUE'' else ''FALSE'']
     | Level2Snapshot t \<Rightarrow> totals_lines t
     | Level3Snapshot t es \<Rightarrow> totals_lines t @ ''Shift detail:'' # map entry_line es)"

definition pdf_lines ::
  "(instant \<Rightarrow> string) \<Rightarrow> string \<Rightarrow> disclosure_grant \<Rightarrow> snapshot \<Rightarrow> id \<Rightarrow> string \<Rightarrow> instant \<Rightarrow> string \<Rightarrow> string list" where
  "pdf_lines isoString workerName g s reportId reportHash issuedAt verifyUrl =
     [''ServeProof Income Verification Report'',
      ''This report may reference Devnet test tokens with no monetary value.'',
      ''Worker: '' @ workerName, ''Purpose: '' @ dg_purpose g,
      ''Period: '' @ take 10 (isoString (dg_dateRangeStart g)) @ '' ~ '' @ take 10 (isoString (dg_dateRangeEnd g)),
      ''Issued: '' @ isoString issuedAt, ''Expires: '' @ isoString (dg_expiresAt g), ''Disclosed fields'']
     @ snapshot_lines s
     @ [''Report ID: '' @ reportId, ''Report hash: '' @ reportHash, ''Issuer: ServeProof POC'', ''Verify: '' @ verifyUrl]"

section \<open>Reports\<close>

definition issued_report :: "disclosure_world \<Rightarrow> disclosure_grant \<Rightarrow> snapshot \<Rightarrow> id option \<Rightarrow> verification_report" where
  "issued_report w g s previous = \<lparr>vr_id = dw_report_id w, vr_workerId = dg_workerId g, vr_disclosureGrantId = dg_id g,
     vr_reportHash = dw_hmac w s (dg_id g) (dw_now w), vr_reportUri = None, vr_snapshot = s, vr_status = ISSUED,
     vr_issuedAt = Some (dw_now w), vr_expiresAt = Some (dg_expiresAt g), vr_revokedAt = None, vr_previousReportId = previous\<rparr>"

definition issueReport :: "disclosure_world \<Rightarrow> id \<Rightarrow> id \<Rightarrow> string \<Rightarrow> db \<Rightarrow> (verification_report \<times> string, db) outcome" where
  "issueReport w userId grantId verifyBaseUrl d = (case own_grant userId grantId d of
       Inl e \<Rightarrow> (Inl e, d)
     | Inr (k, name, g) \<Rightarrow>
         if dg_revokedAt g \<noteq> None then (Inl (BadRequestException ''Grant is revoked''), d)
         else if dg_expiresAt g < dw_now w then (Inl (BadRequestException ''Grant is expired''), d)
         else (case buildSnapshot (dw_noon w) d g of
             Inl e \<Rightarrow> (Inl e, d)
           | Inr s \<Rightarrow>
               let previous = map_option vr_id (find (\<lambda>r. vr_status r \<in> {ISSUED, ReportCORRECTED}) (reports_of d grantId));
                   report = issued_report w g s previous;
                   d1 = d\<lparr>db_reports := db_reports d @ [report]\<rparr>;
                   pdf = dw_pdf_path w (vr_id report)
               in (case dw_render w (pdf_lines (dw_iso w) name g s (vr_id report) (vr_reportHash report) (dw_now w) verifyBaseUrl) of
                   Inl e \<Rightarrow> (Inl e, d1)
                 | Inr _ \<Rightarrow> (Inr (report, verifyBaseUrl),
                     update_reports (\<lambda>r. vr_id r = vr_id report) (\<lambda>r. r\<lparr>vr_reportUri := Some pdf\<rparr>) d1))))"

definition find_report :: "db \<Rightarrow> id \<Rightarrow> verification_report option" where
  "find_report d i = find (\<lambda>r. vr_id r = i) (db_reports d)"

definition getPdfPath :: "id \<Rightarrow> id \<Rightarrow> db \<Rightarrow> http_error + string" where
  "getPdfPath userId reportId d = (case worker_of userId d of
       Inl e \<Rightarrow> Inl e
     | Inr (k, _) \<Rightarrow> (case find_report d reportId of
         None \<Rightarrow> Inl (NotFoundException ''Report not found'')
       | Some r \<Rightarrow>
           if vr_workerId r \<noteq> wk_id k then Inl (NotFoundException ''Report not found'')
           else if vr_status r = ReportREVOKED then Inl (ForbiddenException ''Report is revoked; PDF access is blocked'')
           else if \<not> truthy (vr_reportUri r) then Inl (NotFoundException ''PDF not generated'')
           else Inr (the (vr_reportUri r))))"

section \<open>Public verification\<close>

datatype verify_status = VALID | VerifyEXPIRED | VerifyREVOKED | VerifyCORRECTED | NOT_ISSUED

definition reportStatus :: "instant \<Rightarrow> disclosure_grant \<Rightarrow> verification_report option \<Rightarrow> verify_status" where
  "reportStatus now g report =
     (if dg_revokedAt g \<noteq> None \<or> map_option vr_status report = Some ReportREVOKED then VerifyREVOKED
      else case report of
        None \<Rightarrow> NOT_ISSUED
      | Some r \<Rightarrow> if dg_expiresAt g < now \<or> vr_status r = ReportEXPIRED then VerifyEXPIRED
          else if vr_status r = ReportCORRECTED then VerifyCORRECTED else VALID)"

definition grantByToken :: "disclosure_world \<Rightarrow> string \<Rightarrow> db \<Rightarrow> http_error + (disclosure_grant \<times> string)" where
  "grantByToken w rawToken d = (case find (\<lambda>g. dg_accessTokenHash g = dw_sha256 w rawToken) (db_grants d) of
       None \<Rightarrow> Inl (NotFoundException ''Unknown verification token'')
     | Some g \<Rightarrow> (case Option.bind (find_worker d (dg_workerId g)) (\<lambda>k. find_user d (wk_userId k)) of
         None \<Rightarrow> Inl relation_error | Some u \<Rightarrow> Inr (g, usr_displayName u)))"

definition assertRecipientAccessAvailable :: "instant \<Rightarrow> disclosure_grant \<Rightarrow> verification_report option \<Rightarrow> http_error + string" where
  "assertRecipientAccessAvailable now g report =
     (if reportStatus now g report \<noteq> VALID
      then Inl (ForbiddenException ''This report is not available for recipient access'')
      else if dg_accessMode g \<noteq> RECIPIENT_OTP \<or> \<not> truthy (dg_recipientEmail g)
      then Inl (BadRequestException ''This report does not require recipient authentication'')
      else Inr (the (dg_recipientEmail g)))"

definition access_key :: "id \<Rightarrow> string" where
  "access_key grantId = ''disclosure:otp:'' @ grantId"

definition session_key :: "disclosure_world \<Rightarrow> id \<Rightarrow> string \<Rightarrow> string" where
  "session_key w grantId token = ''disclosure:session:'' @ grantId @ '':'' @ dw_sha256 w token"

record recipient_sent =
  rs_recipientEmailMasked :: string
  rs_expiresInSeconds :: int
  rs_devCode :: "string option"

definition too_many :: "string \<Rightarrow> http_error" where
  "too_many msg = TooManyRequests msg"

text \<open>The hourly counter: \<open>INCR\<close>, and an expiry when it starts, as one access to the store.\<close>

definition count_request :: "instant \<Rightarrow> string \<Rightarrow> kv \<Rightarrow> int option \<times> kv" where
  "count_request now key s = (case kv_incr now key s of
       (None, s1) \<Rightarrow> (None, s1)
     | (Some n, s1) \<Rightarrow> (Some n, if n = 1 then kv_expire now key (60 * 60) s1 else s1))"

definition undo_request :: "disclosure_world \<Rightarrow> id \<Rightarrow> kv \<Rightarrow> kv" where
  "undo_request w grantId s =
     (let key = access_key grantId in
      if \<not> dw_up w 4 then s
      else let s1 = kv_del (key @ '':cooldown'') (kv_del (attempts_key key) (kv_del key s))
           in if \<not> dw_up w 5 then s1 else snd (kv_decr (dw_now w) (key @ '':hourly-requests'') s1))"

definition requestRecipientOtp ::
  "disclosure_world \<Rightarrow> string \<Rightarrow> db \<Rightarrow> kv \<Rightarrow> (http_error + recipient_sent) \<times> kv \<times> (string \<times> string) list" where
  "requestRecipientOtp w rawToken d s = (case grantByToken w rawToken d of
       Inl e \<Rightarrow> (Inl e, s, [])
     | Inr (g, _) \<Rightarrow>
       (case assertRecipientAccessAvailable (dw_now w) g (latest_report d (dg_id g)) of
          Inl e \<Rightarrow> (Inl e, s, [])
        | Inr email \<Rightarrow>
          let key = access_key (dg_id g); now = dw_now w;
              (allowed, s1) = kv_set_nx_ex now (key @ '':cooldown'') (KText ''1'') ACCESS_OTP_COOLDOWN_SECONDS s;
              (requests, s2) = count_request now (key @ '':hourly-requests'') s1;
              code = six_digits (dw_otp w);
              s3 = kv_set_ex now key (KText (dw_sha256 w code)) ACCESS_OTP_TTL_SECONDS s2;
              s4 = kv_set_ex now (attempts_key key) (KCount 0) ACCESS_OTP_TTL_SECONDS s3;
              domain = part 1 (split_on (CHR ''@'') email);
              expose = (case dw_appEnv w of None \<Rightarrow> True | Some e \<Rightarrow> e = ''local'') \<or> domain \<in> set (devcode_domains (dw_devCodeDomains w));
              result = \<lparr>rs_recipientEmailMasked = maskRecipient email, rs_expiresInSeconds = ACCESS_OTP_TTL_SECONDS,
                rs_devCode = (if expose then Some code else None)\<rparr>
          in if \<not> dw_up w 0 then (Inl store_unavailable, s, [])
             else if \<not> allowed then (Inl (too_many ''Please wait before requesting another code''), s1, [])
             else if \<not> dw_up w 1 then (Inl store_unavailable, s1, [])
             else case requests of None \<Rightarrow> (Inl store_unavailable, s2, []) | Some n \<Rightarrow>
               if n > ACCESS_OTP_MAX_REQUESTS_PER_HOUR then (Inl (too_many ''Too many access-code requests''), s2, [])
               else if \<not> dw_up w 2 then (Inl store_unavailable, s2, [])
               else if \<not> dw_up w 3 then (Inl store_unavailable, s3, [])
               else if expose then (Inr result, s4, [])
               else (case dw_mail w email code of
                   Inl e \<Rightarrow> (Inl e, undo_request w (dg_id g) s4, [(email, code)])
                 | Inr _ \<Rightarrow> (Inr result, s4, [(email, code)]))))"

text \<open>The check of a recipient's code, up to its consumption.\<close>

definition checkRecipientCode :: "disclosure_world \<Rightarrow> id \<Rightarrow> string \<Rightarrow> kv \<Rightarrow> (unit, kv) outcome" where
  "checkRecipientCode w grantId code s =
     (let key = access_key grantId in
      if \<not> dw_up w 0 then (Inl store_unavailable, s)
      else case kv_get (dw_now w) key s of
        None \<Rightarrow> (Inl (UnauthorizedException ''Invalid or expired code''), s)
      | Some v \<Rightarrow>
          if v = KText [] then (Inl (UnauthorizedException ''Invalid or expired code''), s)
          else if \<not> dw_up w 1 then (Inl store_unavailable, s)
          else (case kv_incr (dw_now w) (attempts_key key) s of
              (None, s1) \<Rightarrow> (Inl store_unavailable, s1)
            | (Some attempts, s1) \<Rightarrow>
                let s2 = kv_del (attempts_key key) (kv_del key s1) in
                if attempts > ACCESS_OTP_MAX_ATTEMPTS
                then (if \<not> dw_up w 2 then (Inl store_unavailable, s1)
                      else (Inl (UnauthorizedException ''Too many attempts; request a new code''), s2))
                else if v \<noteq> KText (dw_sha256 w code)
                then (Inl (UnauthorizedException ''Invalid or expired code''), s1)
                else if \<not> dw_up w 2 then (Inl store_unavailable, s1)
                else (Inr (), s2)))"

definition session_seconds :: "instant \<Rightarrow> disclosure_grant \<Rightarrow> int" where
  "session_seconds now g = max 1 (min ACCESS_SESSION_TTL_SECONDS ((dg_expiresAt g - now) div 1000))"

definition verifyRecipientOtp :: "disclosure_world \<Rightarrow> string \<Rightarrow> string \<Rightarrow> db \<Rightarrow> kv \<Rightarrow> (string \<times> int, kv) outcome" where
  "verifyRecipientOtp w rawToken code d s = (case grantByToken w rawToken d of
       Inl e \<Rightarrow> (Inl e, s)
     | Inr (g, _) \<Rightarrow>
       (case assertRecipientAccessAvailable (dw_now w) g (latest_report d (dg_id g)) of
          Inl e \<Rightarrow> (Inl e, s)
        | Inr _ \<Rightarrow> (case checkRecipientCode w (dg_id g) code s of
            (Inl e, s1) \<Rightarrow> (Inl e, s1)
          | (Inr _, s1) \<Rightarrow>
              let secs = session_seconds (dw_now w) g in
              if \<not> dw_up w 3 then (Inl store_unavailable, s1)
              else (Inr (dw_secret w, secs),
                    kv_set_ex (dw_now w) (session_key w (dg_id g) (dw_secret w)) (KText ''1'') secs s1))))"

record verify_base =
  vb_status :: verify_status
  vb_purpose :: string
  vb_level :: disclosure_level
  vb_workerDisplayName :: string
  vb_issuedAt :: "instant option"
  vb_expiresAt :: instant
  vb_reportId :: "id option"
  vb_reportHash :: "string option"
  vb_accessMode :: access_mode

datatype verification =
    MetadataOnly verify_base
  | AuthRequired access_mode instant string
  | Disclosed verify_base "snapshot option"

definition session_open :: "disclosure_world \<Rightarrow> id \<Rightarrow> string option \<Rightarrow> kv \<Rightarrow> bool" where
  "session_open w grantId accessSession s \<longleftrightarrow> truthy accessSession
     \<and> (case kv_get (dw_now w) (session_key w grantId (the accessSession)) s of
          Some (KText t) \<Rightarrow> t \<noteq> [] | Some (KCount _) \<Rightarrow> True | None \<Rightarrow> False)"

definition verifyByToken ::
  "disclosure_world \<Rightarrow> string \<Rightarrow> string option \<Rightarrow> string option \<Rightarrow> string option \<Rightarrow> kv \<Rightarrow> db \<Rightarrow> (verification, db) outcome" where
  "verifyByToken w rawToken ip userAgent accessSession s d = (case grantByToken w rawToken d of
       Inl e \<Rightarrow> (Inl e, d)
     | Inr (g, name) \<Rightarrow>
       let report = latest_report d (dg_id g); status = reportStatus (dw_now w) g report;
           base = \<lparr>vb_status = status, vb_purpose = dg_purpose g, vb_level = dg_level g, vb_workerDisplayName = name,
             vb_issuedAt = Option.bind report vr_issuedAt, vb_expiresAt = dg_expiresAt g,
             vb_reportId = map_option vr_id report, vb_reportHash = map_option vr_reportHash report,
             vb_accessMode = dg_accessMode g\<rparr>;
           show = (Inr (Disclosed base (map_option vr_snapshot report)),
             d\<lparr>db_accessLogs := db_accessLogs d @ [\<lparr>ac_grantId = dg_id g, ac_ip = ip, ac_userAgent = userAgent\<rparr>]\<rparr>)
       in if status \<noteq> VALID then (Inr (MetadataOnly base), d)
          else if dg_accessMode g = RECIPIENT_OTP then
            (if truthy accessSession \<and> \<not> dw_up w 0 then (Inl store_unavailable, d)
             else if session_open w (dg_id g) accessSession s then show
             else (case dg_recipientEmail g of
                 None \<Rightarrow> (Inl (Failure ''Cannot read properties of null''), d)
               | Some email \<Rightarrow> (Inr (AuthRequired (dg_accessMode g) (dg_expiresAt g) (maskRecipient email)), d)))
          else show)"

definition expireOverdue :: "instant \<Rightarrow> db \<Rightarrow> nat \<times> db" where
  "expireOverdue now d =
     (let P = (\<lambda>r. vr_status r = ISSUED \<and> (case vr_expiresAt r of Some t \<Rightarrow> t < now | None \<Rightarrow> False))
      in (count_where P (db_reports d), update_reports P (\<lambda>r. r\<lparr>vr_status := ReportEXPIRED\<rparr>) d))"

end
