(* ===== verification/Disclosure_Safety.thy ===== *)
theory Disclosure_Safety
  imports Disclosure
begin

text \<open>
  What a disclosure gives away: a snapshot leaves the API only for a live, unrevoked grant and, in
  recipient mode, an authenticated session; never again after the grant is revoked; its figures add
  up; and the recipient's code can be guessed five times.
\<close>

section \<open>The gate\<close>

lemma reportStatus_VALID:
  "reportStatus now g r = VALID \<longleftrightarrow> dg_revokedAt g = None \<and> now \<le> dg_expiresAt g
     \<and> (\<exists>x. r = Some x \<and> vr_status x \<in> {ISSUED, ReportDRAFT})"
proof (cases r)
  case (Some x)
  then show ?thesis by (cases "vr_status x") (auto simp: reportStatus_def)
qed (simp add: reportStatus_def)

lemma grantByTokenD:
  "grantByToken w t d = Inr (g, name) \<Longrightarrow> find (\<lambda>g. dg_accessTokenHash g = dw_sha256 w t) (db_grants d) = Some g"
  by (auto simp: grantByToken_def split: option.splits)

text \<open>(C10) The gate.  A snapshot is disclosed only under the presented token's grant, while that
  grant is neither revoked nor expired and its newest report is issued, with an open session when
  the grant asks for recipient authentication; the snapshot is that report's, and the access is logged.
  Any other answer leaves the database as it was.\<close>

theorem disclosure_gate:
  assumes "verifyByToken w token ip ua sess s d = (r, d')"
  shows "case r of
     Inr (Disclosed base snap) \<Rightarrow> (\<exists>g rep. g \<in> set (db_grants d) \<and> dg_accessTokenHash g = dw_sha256 w token
        \<and> dg_revokedAt g = None \<and> dw_now w \<le> dg_expiresAt g
        \<and> latest_report d (dg_id g) = Some rep \<and> vr_status rep \<in> {ISSUED, ReportDRAFT} \<and> snap = Some (vr_snapshot rep)
        \<and> (dg_accessMode g = RECIPIENT_OTP \<longrightarrow> session_open w (dg_id g) sess s)
        \<and> d' = d\<lparr>db_accessLogs := db_accessLogs d @ [\<lparr>ac_grantId = dg_id g, ac_ip = ip, ac_userAgent = ua\<rparr>]\<rparr>)
   | _ \<Rightarrow> d' = d"
proof (cases "grantByToken w token d")
  case (Inr gn)
  obtain g name where gn: "gn = (g, name)" by fastforce
  have g: "g \<in> set (db_grants d)" "dg_accessTokenHash g = dw_sha256 w token"
    using find_SomeD [OF grantByTokenD [OF Inr [unfolded gn]]] by auto
  show ?thesis
    using assms g Inr gn
    by (auto simp: verifyByToken_def Let_def reportStatus_VALID intro!: exI [of _ g] split: if_splits option.splits)
qed (use assms in \<open>auto simp: verifyByToken_def\<close>)

section \<open>Revocation is final\<close>

datatype disclosure_event =
    CreateGrantEvent id grant_input
  | RevokeEvent id id
  | IssueEvent id id string
  | VerifyEvent string "string option" "string option" "string option" kv
  | ExpireEvent

definition disclosure_step :: "disclosure_world \<times> disclosure_event \<Rightarrow> db \<Rightarrow> db" where
  "disclosure_step e d = (case e of (w, ev) \<Rightarrow> (case ev of
       CreateGrantEvent u inp \<Rightarrow> snd (createGrant w u inp d)
     | RevokeEvent u i \<Rightarrow> snd (revokeGrant w u i d)
     | IssueEvent u i url \<Rightarrow> snd (issueReport w u i url d)
     | VerifyEvent t ip ua sess s \<Rightarrow> snd (verifyByToken w t ip ua sess s d)
     | ExpireEvent \<Rightarrow> snd (expireOverdue (dw_now w) d)))"

definition disclosure_run :: "(disclosure_world \<times> disclosure_event) list \<Rightarrow> db \<Rightarrow> db" where
  "disclosure_run es d = fold disclosure_step es d"

text \<open>The grant a token stands for, as it is stored, and that it is revoked.\<close>

definition token_revoked :: "string \<Rightarrow> db \<Rightarrow> bool" where
  "token_revoked h d \<longleftrightarrow> (\<exists>g. find (\<lambda>g. dg_accessTokenHash g = h) (db_grants d) = Some g \<and> dg_revokedAt g \<noteq> None)"

lemma update_reports_frame [simp]:
  "db_grants (update_reports P f d) = db_grants d" "db_accessLogs (update_reports P f d) = db_accessLogs d"
  by (simp_all add: update_reports_def)

lemma grants_step:
  "\<exists>P t new. db_grants (disclosure_step (w, ev) d) = update_where P (\<lambda>g. g\<lparr>dg_revokedAt := Some t\<rparr>) (db_grants d) @ new"
proof -
  have same: ?thesis if "db_grants (disclosure_step (w, ev) d) = db_grants d @ new" for new
    using that by (intro exI [of _ "\<lambda>_. False"] exI [of _ 0] exI [of _ new]) (simp add: update_where_none)
  show ?thesis
  proof (cases ev)
    case (CreateGrantEvent u inp)
    then show ?thesis
      using same [of "[]"] same by (auto simp: disclosure_step_def createGrant_def Let_def split: sum.splits if_splits)
  next
    case (RevokeEvent u i)
    show ?thesis
    proof (cases "own_grant u i d")
      case Inl
      then show ?thesis using RevokeEvent by (intro same [of "[]"]) (simp add: disclosure_step_def revokeGrant_def)
    next
      case (Inr x)
      then show ?thesis
        by (intro exI [of _ "\<lambda>g. dg_id g = i"] exI [of _ "dw_now w"] exI [of _ "[]"])
          (simp add: disclosure_step_def RevokeEvent revokeGrant_def)
    qed
  next
    case (IssueEvent u i url)
    then show ?thesis
      by (intro same [of "[]"]) (auto simp: disclosure_step_def issueReport_def Let_def split: sum.split prod.split)
  next
    case (VerifyEvent t ip ua sess s)
    obtain r d' where v: "verifyByToken w t ip ua sess s d = (r, d')" by fastforce
    have "db_grants d' = db_grants d"
      using disclosure_gate [OF v] by (cases r) (auto split: verification.splits)
    then show ?thesis using VerifyEvent v by (intro same [of "[]"]) (simp add: disclosure_step_def)
  next
    case ExpireEvent
    then show ?thesis by (intro same [of "[]"]) (simp add: disclosure_step_def expireOverdue_def Let_def)
  qed
qed

lemma token_revoked_step: "token_revoked h d \<Longrightarrow> token_revoked h (disclosure_step e d)"
proof -
  assume "token_revoked h d"
  then obtain g where g: "find (\<lambda>g. dg_accessTokenHash g = h) (db_grants d) = Some g" "dg_revokedAt g \<noteq> None"
    by (auto simp: token_revoked_def)
  obtain w ev where e: "e = (w, ev)" by fastforce
  obtain P t new where "db_grants (disclosure_step e d) = update_where P (\<lambda>g. g\<lparr>dg_revokedAt := Some t\<rparr>) (db_grants d) @ new"
    using grants_step unfolding e by blast
  then show ?thesis using g by (simp add: token_revoked_def find_append find_update_where)
qed

lemma token_revoked_run: "token_revoked h d \<Longrightarrow> token_revoked h (disclosure_run es d)"
  unfolding disclosure_run_def by (induction es arbitrary: d) (simp_all add: token_revoked_step)

text \<open>(C28) Revocation is final.  Once the worker has revoked the grant a link stands for, no sequence
  of operations of the service (new grants, issued reports, expiries, other revocations, visits) makes
  that link disclose a snapshot again.\<close>

theorem revoked_never_discloses:
  assumes "find (\<lambda>g. dg_accessTokenHash g = dw_sha256 w2 token) (db_grants d) = Some g"
    and "revokeGrant w userId (dg_id g) d = (Inr (), d1)"
  shows "fst (verifyByToken w2 token ip ua sess s (disclosure_run es d1)) \<noteq> Inr (Disclosed base snap)"
proof
  assume disclosed: "fst (verifyByToken w2 token ip ua sess s (disclosure_run es d1)) = Inr (Disclosed base snap)"
  have "token_revoked (dw_sha256 w2 token) d1"
    using assms by (auto simp: revokeGrant_def token_revoked_def find_update_where split: sum.splits)
  then have rev: "token_revoked (dw_sha256 w2 token) (disclosure_run es d1)" by (rule token_revoked_run)
  then show False
    using disclosed
    by (auto simp: verifyByToken_def token_revoked_def grantByToken_def Let_def reportStatus_def split: if_splits option.splits sum.splits)
qed

section \<open>Figures that add up\<close>

lemma map_set_sum:
  "sum_list (map snd (map_set k v m)) + (case map_of m k of None \<Rightarrow> 0 | Some x \<Rightarrow> x) = sum_list (map snd m) + (v :: 'n :: cancel_comm_monoid_add)"
  by (induction k v m rule: map_set.induct) (auto simp: ac_simps)

lemma bump_sum: "sum_list (map snd (bump_key k n m)) = sum_list (map snd m) + (n :: 'n :: cancel_comm_monoid_add)"
  using map_set_sum [of k "(case map_of m k of None \<Rightarrow> 0 | Some x \<Rightarrow> x) + n" m]
  by (simp add: bump_key_def ac_simps) (metis add.commute add.left_commute add_left_cancel)

lemma bump_fold_sum:
  "sum_list (map snd (fold (\<lambda>x. bump_key (f x) (g x)) xs m)) = sum_list (map snd m) + (\<Sum>x\<leftarrow>xs. (g x :: 'n :: cancel_comm_monoid_add))"
  by (induction xs arbitrary: m) (simp_all add: bump_sum ac_simps)

lemma sum_by_total: "sum_list (map snd (sum_by f g xs)) = sum_list (map g xs)"
  by (simp add: sum_by_def bump_fold_sum)

lemma count_by_total: "sum_list (map snd (count_by f xs)) = length xs"
  by (simp add: count_by_def bump_fold_sum sum_list_triv)

definition totals_consistent :: "income_entry list \<Rightarrow> snapshot_totals \<Rightarrow> bool" where
  "totals_consistent es t \<longleftrightarrow> st_totalVerifiedIncomeUsdCents t = sum_list (map ie_allocatedUsdCents es)
     \<and> sum_list (map snd (st_monthlyBreakdown t)) = st_totalVerifiedIncomeUsdCents t
     \<and> sum_list (map snd (st_verificationGrades t)) = length es
     \<and> distinct (map fst (st_monthlyBreakdown t)) \<and> distinct (map fst (st_verificationGrades t))
     \<and> length (st_monthlyBreakdown t) = st_monthsCovered t"

lemma bump_keys: "set (map fst (bump_key k n m)) = insert k (set (map fst m))"
  unfolding bump_key_def by (rule keys_map_set)

lemma bump_distinct: "distinct (map fst m) \<Longrightarrow> distinct (map fst (bump_key k n m))"
  unfolding bump_key_def by (rule distinct_map_set)

lemma bump_fold_keys:
  "distinct (map fst m) \<Longrightarrow> distinct (map fst (fold (\<lambda>x. bump_key (f x) (g x)) xs m))
     \<and> set (map fst (fold (\<lambda>x. bump_key (f x) (g x)) xs m)) = set (map fst m) \<union> f ` set xs"
proof (induction xs arbitrary: m)
  case (Cons x xs)
  show ?case using Cons.IH [OF bump_distinct [OF Cons.prems]] bump_keys [of "f x" "g x" m] by auto
qed simp

lemma sum_by_keys: "distinct (map fst (sum_by f g xs))" "length (sum_by f g xs) = distinct_count f xs"
proof -
  have k: "distinct (map fst (sum_by f g xs)) \<and> set (map fst (sum_by f g xs)) = set (remdups (map f xs))"
    using bump_fold_keys [of "[]" f g xs] by (simp add: sum_by_def)
  then show "distinct (map fst (sum_by f g xs))" by simp
  have "length (map fst (sum_by f g xs)) = length (remdups (map f xs))"
    using k distinct_card [of "map fst (sum_by f g xs)"] distinct_card [of "remdups (map f xs)"] by (metis distinct_remdups)
  then show "length (sum_by f g xs) = distinct_count f xs" by (simp add: distinct_count_def)
qed

lemma count_by_keys: "distinct (map fst (count_by f xs))"
  using bump_fold_keys [of "[]" f "\<lambda>_. 1 :: nat" xs] by (simp add: count_by_def)

lemma totals_of_consistent: "totals_consistent es (totals_of d level es)"
  by (simp add: totals_consistent_def totals_of_def Let_def sum_by_total count_by_total sum_by_keys count_by_keys)

text \<open>What a level discloses.  A level-1 snapshot is only whether the average reaches the
  threshold.  From level 2 the monthly breakdown has one row per covered month and adds up to the
  verified total, and the grades count every entry once; level 3 adds one row per entry, whose
  allocations add up to the same total.\<close>

theorem snapshot_consistent:
  assumes "buildSnapshot noon d g = Inr snap"
  shows "let es = disclosed_entries noon d g; t = totals_of d (dg_level g) es in
    totals_consistent es t
    \<and> snap = (case dg_level g of
        LEVEL_1 \<Rightarrow> Level1Snapshot (case dg_thresholdUsdCents g of None \<Rightarrow> 0 | Some c \<Rightarrow> c)
          (st_avgMonthlyIncomeUsdCents t \<ge> (case dg_thresholdUsdCents g of None \<Rightarrow> 0 | Some c \<Rightarrow> c))
      | LEVEL_2 \<Rightarrow> Level2Snapshot t
      | LEVEL_3 \<Rightarrow> Level3Snapshot t (map (snapshot_row d) es))
    \<and> sum_list (map sn_allocatedUsdCents (map (snapshot_row d) es)) = st_totalVerifiedIncomeUsdCents t"
proof -
  have "sum_list (map sn_allocatedUsdCents (map (snapshot_row d) es)) = sum_list (map ie_allocatedUsdCents es)" for es
    by (simp add: snapshot_row_def comp_def)
  then show ?thesis
    using assms totals_of_consistent [of "disclosed_entries noon d g" d "dg_level g"]
    by (simp add: buildSnapshot_def Let_def totals_consistent_def split: if_splits)
qed

section \<open>The recipient's code\<close>

definition at_moment :: "disclosure_world \<Rightarrow> instant \<Rightarrow> disclosure_world" where
  "at_moment w t = w\<lparr>dw_now := t, dw_up := \<lambda>_. True\<rparr>"

definition try_access :: "disclosure_world \<Rightarrow> id \<Rightarrow> instant \<Rightarrow> string \<Rightarrow> kv \<Rightarrow> bool \<times> kv" where
  "try_access w grantId t c s = (let r = checkRecipientCode (at_moment w t) grantId c s in (is_ok (fst r), snd r))"

lemma at_moment_simps [simp]:
  "dw_now (at_moment w t) = t" "dw_up (at_moment w t) n = True" "dw_sha256 (at_moment w t) = dw_sha256 w"
  by (simp_all add: at_moment_def)

lemma try_access_dead: "kv_get t (access_key g) s = None \<or> kv_get t (access_key g) s = Some (KText []) \<Longrightarrow> try_access w g t c s = (False, s)"
  by (auto simp: try_access_def checkRecipientCode_def Let_def)

lemma try_access_live:
  assumes "otp_good (access_key g) s" "map_of s (access_key g) = Some (v, e)" "live t e" "v \<noteq> KText []"
    and "map_of s (attempts_key (access_key g)) = Some (KCount n, e2)"
    and "s1 = map_set (attempts_key (access_key g)) (KCount (n + 1), e2) s"
  shows "try_access w g t c s =
    (if n + 1 > 5 then (False, kv_del (attempts_key (access_key g)) (kv_del (access_key g) s1))
     else if v \<noteq> KText (dw_sha256 w c) then (False, s1)
     else (True, kv_del (attempts_key (access_key g)) (kv_del (access_key g) s1)))"
proof -
  obtain m e3 where m: "map_of s (attempts_key (access_key g)) = Some (KCount m, e3)"
    "kv_incr t (attempts_key (access_key g)) s = (Some (m + 1), map_set (attempts_key (access_key g)) (KCount (m + 1), e3) s)"
    using incr_counter [OF assms(1-3)] by metis
  have i: "kv_incr t (attempts_key (access_key g)) s = (Some (n + 1), s1)" using m assms(5,6) by simp
  have got: "kv_get t (access_key g) s = Some v" using assms(2,3) by (simp add: kv_get_def)
  show ?thesis
    using assms(4) by (simp add: try_access_def checkRecipientCode_def Let_def i got ACCESS_OTP_MAX_ATTEMPTS_def)
qed

lemma try_access_laws:
  assumes good: "otp_good (access_key g) s" and filled: "\<forall>e. map_of s (access_key g) \<noteq> Some (KText [], e)"
  shows "(fst (try_access w g t c s) \<longrightarrow> code_matches (dw_sha256 w) (access_key g) s c \<and> 0 < guesses_left (access_key g) t s)
     \<and> (\<not> fst (try_access w g t c s) \<longrightarrow> guesses_left (access_key g) t (snd (try_access w g t c s)) \<le> guesses_left (access_key g) t s - 1)
     \<and> (code_matches (dw_sha256 w) (access_key g) (snd (try_access w g t c s)) c' \<longrightarrow> code_matches (dw_sha256 w) (access_key g) s c')
     \<and> otp_good (access_key g) (snd (try_access w g t c s))
     \<and> (\<forall>e. map_of (snd (try_access w g t c s)) (access_key g) \<noteq> Some (KText [], e))"
proof (cases "\<exists>v e. map_of s (access_key g) = Some (v, e) \<and> live t e")
  case True
  then obtain v e where ve: "map_of s (access_key g) = Some (v, e)" "live t e" by blast
  then obtain te n e2 where n: "e = Some te" "map_of s (attempts_key (access_key g)) = Some (KCount n, e2)" "0 \<le> n"
    "\<forall>t2. e2 = Some t2 \<longrightarrow> te \<le> t2" using good by (auto simp: otp_good_def)
  have "v \<noteq> KText []" using filled ve(1) by auto
  note run = try_access_live [OF good ve this n(2) refl, of w c]
  show ?thesis
    unfolding run using ve n \<open>v \<noteq> KText []\<close> by (auto simp: guesses_left_def code_matches_def otp_good_def)
next
  case False
  then have "kv_get t (access_key g) s = None" by (auto simp: kv_get_def split: option.splits)
  then have run: "try_access w g t c s = (False, s)" by (intro try_access_dead) simp
  have "guesses_left (access_key g) t s = 0" using False by (auto simp: guesses_left_def split: option.splits)
  then show ?thesis using run good filled by simp
qed

interpretation acc: guess_limit "try_access w g" "code_matches (dw_sha256 w) (access_key g)" "guesses_left (access_key g)"
  "\<lambda>s. otp_good (access_key g) s \<and> (\<forall>e. map_of s (access_key g) \<noteq> Some (KText [], e))" for w g
  using try_access_laws guesses_left_later by unfold_locales blast+

fun recipient_run :: "disclosure_world \<Rightarrow> string \<Rightarrow> db \<Rightarrow> (instant \<times> string) list \<Rightarrow> kv \<Rightarrow> kv" where
  "recipient_run w token d [] s = s"
| "recipient_run w token d ((t, c) # gs) s = recipient_run w token d gs (snd (verifyRecipientOtp (at_moment w t) token c d s))"

lemma grantByToken_at [simp]: "grantByToken (at_moment w t) token d = grantByToken w token d"
  by (simp add: grantByToken_def)

text \<open>A wrong guess either counts as a try or, when the report is not available any more, changes nothing.\<close>

lemma verify_wrong:
  assumes "grantByToken w token d = Inr (g, name)" "\<not> fst (try_access w (dg_id g) t c s)"
  shows "\<not> is_ok (fst (verifyRecipientOtp (at_moment w t) token c d s))
    \<and> snd (verifyRecipientOtp (at_moment w t) token c d s) \<in> {s, snd (try_access w (dg_id g) t c s)}"
  using assms by (auto simp: verifyRecipientOtp_def try_access_def Let_def split: sum.splits prod.splits)

text \<open>The recipient's five guesses.  While a report is available, five or more wrong codes after a request lock
  the link: no code opens a session until a new one is requested.\<close>

theorem recipient_locked_out:
  assumes "requestRecipientOtp w token d s = (Inr sent, s', mails)" "grantByToken w token d = Inr (g, name)"
    and "dw_sha256 w (six_digits (dw_otp w)) \<noteq> []"
    and "sorted (dw_now w # map fst gs @ [T])" "5 \<le> length gs" "T \<le> dg_expiresAt g"
    and "\<And>t c. (t, c) \<in> set gs \<Longrightarrow> dw_sha256 w c \<noteq> dw_sha256 w (six_digits (dw_otp w))"
  shows "\<not> is_ok (fst (verifyRecipientOtp (at_moment w T) token code d (recipient_run w token d gs s')))"
proof -
  let ?key = "access_key (dg_id g)"
  have avail: "is_ok (assertRecipientAccessAvailable (dw_now w) g (latest_report d (dg_id g)))"
    using assms(1,2) by (auto simp: requestRecipientOtp_def split: sum.splits)
  have m: "map_of s' ?key = Some (KText (dw_sha256 w (six_digits (dw_otp w))), Some (dw_now w + 1000 * ACCESS_OTP_TTL_SECONDS))"
    "map_of s' (attempts_key ?key) = Some (KCount 0, Some (dw_now w + 1000 * ACCESS_OTP_TTL_SECONDS))"
    using assms(1,2) by (auto simp: requestRecipientOtp_def Let_def split: if_splits sum.splits option.splits prod.splits)
  have good: "otp_good ?key s' \<and> (\<forall>e. map_of s' ?key \<noteq> Some (KText [], e))"
    using m assms(3) by (simp add: otp_good_def)
  have wrong: "\<not> code_matches (dw_sha256 w) ?key s' c" if "(t, c) \<in> set gs" for t c
    using assms(7) [OF that] m by (simp add: code_matches_def)
  have early: "is_ok (assertRecipientAccessAvailable t g (latest_report d (dg_id g)))" if "t \<le> T" for t
    using avail assms(6) that by (auto simp: assertRecipientAccessAvailable_def reportStatus_VALID split: if_splits)
  have step: "snd (verifyRecipientOtp (at_moment w t) token c d k) = snd (try_access w (dg_id g) t c k)"
    if "t \<le> T" "\<not> fst (try_access w (dg_id g) t c k)" for t c k
    using early [OF that(1)] that(2) assms(2)
    by (auto simp: verifyRecipientOtp_def try_access_def Let_def split: sum.splits prod.splits)
  have run: "recipient_run w token d xs k = acc.guesses w (dg_id g) xs k"
    if "otp_good ?key k \<and> (\<forall>e. map_of k ?key \<noteq> Some (KText [], e))"
      "\<And>t c. (t, c) \<in> set xs \<Longrightarrow> t \<le> T \<and> \<not> code_matches (dw_sha256 w) ?key k c" for xs k
    using that
  proof (induction xs arbitrary: k)
    case (Cons x xs)
    obtain t c where x: "x = (t, c)" by fastforce
    let ?k = "snd (try_access w (dg_id g) t c k)"
    have w: "\<not> fst (try_access w (dg_id g) t c k)" using acc.accepts [OF Cons.prems(1)] Cons.prems(2) [of t c] x by auto
    have "recipient_run w token d xs ?k = acc.guesses w (dg_id g) xs ?k"
    proof (rule Cons.IH)
      show "otp_good ?key ?k \<and> (\<forall>e. map_of ?k ?key \<noteq> Some (KText [], e))" using acc.stays_good [OF Cons.prems(1)] .
      show "t' \<le> T \<and> \<not> code_matches (dw_sha256 w) ?key ?k c'" if "(t', c') \<in> set xs" for t' c'
        using Cons.prems(2) [of t' c'] that acc.same_secret [OF Cons.prems(1), of w t c c'] by auto
    qed
    then show ?case using step [OF _ w] Cons.prems(2) [of t c] x by simp
  qed simp
  have T: "t \<le> T" if "(t, c) \<in> set gs" for t c using assms(4) that by (force simp: sorted_append)
  have "guesses_left ?key (dw_now w) s' \<le> length gs" using m assms(5) by (simp add: guesses_left_def)
  then have "\<not> fst (try_access w (dg_id g) T code (acc.guesses w (dg_id g) gs s'))"
    by (intro acc.locked_out [OF good assms(4)]) (use wrong in auto)
  moreover have "recipient_run w token d gs s' = acc.guesses w (dg_id g) gs s'" by (rule run [OF good]) (use wrong T in auto)
  ultimately show ?thesis using verify_wrong [OF assms(2)] by simp
qed

section \<open>Examples\<close>

definition demo_disclosure :: disclosure_world where
  "demo_disclosure = \<lparr>dw_now = 10, dw_up = \<lambda>_. True, dw_noon = \<lambda>_. 0, dw_sha256 = \<lambda>s. CHR ''#'' # s, dw_hmac = \<lambda>_ i _. i,
     dw_secret = ''raw'', dw_otp = 7, dw_grant_id = ''g9'', dw_report_id = ''r9'', dw_render = \<lambda>_. Inr (), dw_pdf_path = \<lambda>i. i,
     dw_iso = \<lambda>_. ''2026-01-01'', dw_appEnv = Some ''local'', dw_devCodeDomains = None, dw_mail = \<lambda>_ _. Inr ()\<rparr>"

definition demo_grant :: disclosure_grant where
  "demo_grant = \<lparr>dg_id = ''g1'', dg_workerId = ''w1'', dg_recipientEmail = Some ''r@b.c'', dg_accessMode = RECIPIENT_OTP,
     dg_purpose = ''loan'', dg_level = LEVEL_2, dg_thresholdUsdCents = None, dg_dateRangeStart = 0, dg_dateRangeEnd = 9,
     dg_expiresAt = 1000000, dg_allowDownload = False, dg_revokedAt = None, dg_accessTokenHash = ''#raw''\<rparr>"

definition demo_report :: verification_report where
  "demo_report = \<lparr>vr_id = ''r1'', vr_workerId = ''w1'', vr_disclosureGrantId = ''g1'', vr_reportHash = ''h'', vr_reportUri = None,
     vr_snapshot = Level1Snapshot 0 True, vr_status = ISSUED, vr_issuedAt = Some 5, vr_expiresAt = Some 1000000,
     vr_revokedAt = None, vr_previousReportId = None\<rparr>"

definition disclosure_demo :: db where
  "disclosure_demo = empty_db\<lparr>
     db_users := [\<lparr>usr_id = ''u1'', usr_authUserId = ''otp:a@b.c'', usr_email = ''a@b.c'', usr_displayName = ''a'', usr_role = RoleWORKER\<rparr>],
     db_workers := [\<lparr>wk_id = ''w1'', wk_userId = ''u1'', wk_defaultWalletId = None\<rparr>],
     db_grants := [demo_grant], db_reports := [demo_report]\<rparr>"

lemmas disclosure_demo_defs = disclosure_demo_def demo_disclosure_def demo_grant_def demo_report_def empty_db_def
  grantByToken_def find_worker_def find_user_def worker_of_def worker_by_user_def own_grant_def find_grant_def

theorem disclosure_gate_witness:
  "snd (verifyByToken demo_disclosure ''raw'' None None None [] disclosure_demo) = disclosure_demo"
  using disclosure_gate [OF prod.collapse [symmetric], of demo_disclosure "''raw''" None None None "[]" disclosure_demo]
  by (simp add: verifyByToken_def disclosure_demo_defs Let_def reportStatus_def latest_report_def reports_of_def session_open_def)

theorem revoked_never_discloses_witness:
  "\<forall>base snap. fst (verifyByToken demo_disclosure ''raw'' None None None [] (disclosure_run [(demo_disclosure, IssueEvent ''u1'' ''g1'' ''x'')]
      (snd (revokeGrant demo_disclosure ''u1'' ''g1'' disclosure_demo)))) \<noteq> Inr (Disclosed base snap)"
  by (intro allI, rule revoked_never_discloses [where d = disclosure_demo and g = demo_grant and w = demo_disclosure and userId = "''u1''"])
    (simp_all add: disclosure_demo_defs revokeGrant_def)

theorem snapshot_consistent_witness:
  "\<exists>t. buildSnapshot (\<lambda>_. 0) disclosure_demo demo_grant = Inr (Level2Snapshot t) \<and> totals_consistent [] t"
proof -
  have "buildSnapshot (\<lambda>_. 0) disclosure_demo demo_grant =
      Inr (Level2Snapshot (totals_of disclosure_demo LEVEL_2 (disclosed_entries (\<lambda>_. 0) disclosure_demo demo_grant)))"
    by (simp add: buildSnapshot_def Let_def disclosure_demo_def demo_grant_def empty_db_def)
  from snapshot_consistent [OF this] this show ?thesis
    by (simp add: Let_def disclosed_entries_def disclosure_demo_def empty_db_def demo_grant_def)
qed

theorem recipient_locked_out_witness:
  "\<not> is_ok (fst (verifyRecipientOtp (at_moment demo_disclosure 90) ''raw'' ''000007'' disclosure_demo
      (recipient_run demo_disclosure ''raw'' disclosure_demo (replicate 5 (70, ''000000''))
         (fst (snd (requestRecipientOtp demo_disclosure ''raw'' disclosure_demo []))))))"
proof -
  have five: "replicate 5 x = [x, x, x, x, x]" for x :: "instant \<times> string" by (simp add: numeral_eq_Suc)
  have code: "six_digits 7 = ''000007''" by code_simp
  have "\<exists>sent. fst (requestRecipientOtp demo_disclosure ''raw'' disclosure_demo []) = Inr sent"
    by (simp add: requestRecipientOtp_def disclosure_demo_defs assertRecipientAccessAvailable_def latest_report_def reports_of_def
        reportStatus_def kv_set_nx_ex_def kv_get_def count_request_def kv_incr_def kv_expire_def kv_set_ex_def Let_def
        ACCESS_OTP_MAX_REQUESTS_PER_HOUR_def access_key_def)
  then obtain sent where r: "requestRecipientOtp demo_disclosure ''raw'' disclosure_demo [] = (Inr sent,
      fst (snd (requestRecipientOtp demo_disclosure ''raw'' disclosure_demo [])), snd (snd (requestRecipientOtp demo_disclosure ''raw'' disclosure_demo [])))"
    by (metis prod.collapse)
  show ?thesis
  proof (rule recipient_locked_out [OF r, where g = demo_grant and name = "''a''"])
    show "sorted (dw_now demo_disclosure # map fst (replicate 5 (70, ''000000'')) @ [90])"
      by (simp add: demo_disclosure_def five)
  qed (auto simp: disclosure_demo_defs code)
qed

end
