(* ===== verification/Policies.thy ===== *)
theory Policies
  imports Access
begin

text \<open>
  \<open>apps/api/src/policies/policies.service.ts\<close>: allocation policies are versioned and never
  edited.  A new version archives the active one; batches keep the version they were computed with.
\<close>

section \<open>Operations\<close>

record policy_request =
  pq_allocationType :: allocation_type
  pq_roleWeights :: "(string \<times> rat) list"
  pq_poolInclusion :: "(tip_type \<times> bool) list"
  pq_excludedRoles :: "string list"
  pq_tipOutRules :: "json list option"
  pq_effectiveFrom :: instant

record policy_overrides =
  pwo_allocationType :: "allocation_type option"
  pwo_roleWeights :: "(string \<times> rat) list option"
  pwo_poolInclusion :: "(tip_type \<times> bool) list option"
  pwo_excludedRoles :: "string list option"
  pwo_tipOutRules :: "json list option"
  pwo_effectiveFrom :: "instant option"

text \<open>\<open>where: { venueId }, orderBy: { version: "desc" }\<close>.\<close>

definition policies_by_version :: "db \<Rightarrow> id \<Rightarrow> allocation_policy list" where
  "policies_by_version d venueId =
     js_sort (\<lambda>a b. of_int (pol_version b - pol_version a)) (filter (\<lambda>p. pol_venueId p = venueId) (db_policies d))"

definition latest_version :: "db \<Rightarrow> id \<Rightarrow> int" where
  "latest_version d venueId = (case policies_by_version d venueId of [] \<Rightarrow> 0 | p # _ \<Rightarrow> pol_version p)"

definition archive_active :: "id \<Rightarrow> instant \<Rightarrow> allocation_policy list \<Rightarrow> allocation_policy list" where
  "archive_active venueId now ps = update_where (\<lambda>p. pol_venueId p = venueId \<and> pol_status p = PolicyACTIVE)
     (\<lambda>p. p\<lparr>pol_status := PolicyARCHIVED, pol_effectiveTo := Some now\<rparr>) ps"

definition createVersion :: "id \<Rightarrow> instant \<Rightarrow> id \<Rightarrow> id \<Rightarrow> policy_request \<Rightarrow> db \<Rightarrow> allocation_policy \<times> db" where
  "createVersion new now venueId createdBy inp d =
     (let created = \<lparr>pol_id = new, pol_venueId = venueId, pol_version = latest_version d venueId + 1,
            pol_status = PolicyACTIVE, pol_allocationType = pq_allocationType inp, pol_roleWeights = pq_roleWeights inp,
            pol_poolInclusion = pq_poolInclusion inp, pol_excludedRoles = pq_excludedRoles inp,
            pol_tipOutRules = (case pq_tipOutRules inp of None \<Rightarrow> [] | Some r \<Rightarrow> r),
            pol_effectiveFrom = pq_effectiveFrom inp, pol_effectiveTo = None, pol_createdBy = createdBy\<rparr>
      in (created, d\<lparr>db_policies := archive_active venueId now (db_policies d) @ [created]\<rparr>))"

definition find_policy :: "db \<Rightarrow> id \<Rightarrow> allocation_policy option" where
  "find_policy d i = find (\<lambda>p. pol_id p = i) (db_policies d)"

definition or_else :: "'a option \<Rightarrow> 'a \<Rightarrow> 'a" where
  "or_else v x = (case v of None \<Rightarrow> x | Some y \<Rightarrow> y)"

definition newVersionFrom :: "id \<Rightarrow> instant \<Rightarrow> id \<Rightarrow> id \<Rightarrow> policy_overrides \<Rightarrow> db \<Rightarrow> (allocation_policy, db) outcome" where
  "newVersionFrom new now policyId createdBy ov d = (case find_policy d policyId of
       None \<Rightarrow> (Inl (NotFoundException ''Policy ${policyId} not found''), d)
     | Some base \<Rightarrow>
         (case createVersion new now (pol_venueId base) createdBy
            \<lparr>pq_allocationType = or_else (pwo_allocationType ov) (pol_allocationType base),
             pq_roleWeights = or_else (pwo_roleWeights ov) (pol_roleWeights base),
             pq_poolInclusion = or_else (pwo_poolInclusion ov) (pol_poolInclusion base),
             pq_excludedRoles = or_else (pwo_excludedRoles ov) (pol_excludedRoles base),
             pq_tipOutRules = Some (or_else (pwo_tipOutRules ov) (pol_tipOutRules base)),
             pq_effectiveFrom = or_else (pwo_effectiveFrom ov) now\<rparr> d of (p, d') \<Rightarrow> (Inr p, d')))"

definition getVenueIdOf :: "id \<Rightarrow> db \<Rightarrow> http_error + id" where
  "getVenueIdOf policyId d = (case find_policy d policyId of
       None \<Rightarrow> Inl (NotFoundException ''Policy ${policyId} not found'') | Some p \<Rightarrow> Inr (pol_venueId p))"

section \<open>Versions\<close>

text \<open>A version is used once per venue, and a venue has one active policy at most.\<close>

definition policy_inv :: "db \<Rightarrow> bool" where
  "policy_inv d \<longleftrightarrow> distinct (map (\<lambda>p. (pol_venueId p, pol_version p)) (db_policies d))
     \<and> distinct (map pol_venueId (filter (\<lambda>p. pol_status p = PolicyACTIVE) (db_policies d)))"

lemma policies_sorted: "sorted_wrt (\<lambda>a b. pol_version b \<le> pol_version a) (policies_by_version d v)"
proof -
  have "sorted_wrt (\<lambda>a b. (of_int (pol_version b - pol_version a) :: rat) \<le> 0) (policies_by_version d v)"
    unfolding policies_by_version_def by (rule sorted_js_sort [where A = UNIV]) auto
  then show ?thesis by (rule sorted_wrt_mono_rel [rotated]) simp
qed

lemma latest_version_max: "p \<in> set (db_policies d) \<Longrightarrow> pol_venueId p = v \<Longrightarrow> pol_version p \<le> latest_version d v"
proof -
  assume p: "p \<in> set (db_policies d)" "pol_venueId p = v"
  then have "p \<in> set (policies_by_version d v)" by (simp add: policies_by_version_def)
  then obtain q qs where q: "policies_by_version d v = q # qs" by (cases "policies_by_version d v") auto
  then have "p = q \<or> p \<in> set qs" using \<open>p \<in> set (policies_by_version d v)\<close> by simp
  then show ?thesis using policies_sorted [of d v] by (auto simp: latest_version_def q)
qed

lemma active_archived:
  "filter (\<lambda>p. pol_status p = PolicyACTIVE) (archive_active v now ps) = filter (\<lambda>p. pol_status p = PolicyACTIVE \<and> pol_venueId p \<noteq> v) ps"
  by (induction ps) (auto simp: archive_active_def)

lemma distinct_map_filter2: "distinct (map f (filter P xs)) \<Longrightarrow> distinct (map f (filter (\<lambda>x. P x \<and> Q x) xs))"
  by (induction xs) (auto split: if_splits)

text \<open>Versioning.  Creating a version keeps version numbers unique per venue and one active policy
  at most; the new policy is the venue's only active one and gets the next number; rows of other
  venues and of earlier versions keep their terms: only status and end date of the archived one change.\<close>

theorem createVersion_versions:
  assumes "policy_inv d" "createVersion new now v u inp d = (p, d')"
  shows "policy_inv d' \<and> pol_version p = latest_version d v + 1 \<and> latest_version d' v = pol_version p
     \<and> filter (\<lambda>q. pol_venueId q = v \<and> pol_status q = PolicyACTIVE) (db_policies d') = [p]
     \<and> batch_policy d' \<lparr>ci_venueId = v, ci_businessDate = date, ci_policyVersion = None\<rparr> = Some p
     \<and> map (\<lambda>q. q\<lparr>pol_status := PolicyACTIVE, pol_effectiveTo := None\<rparr>) (db_policies d')
       = map (\<lambda>q. q\<lparr>pol_status := PolicyACTIVE, pol_effectiveTo := None\<rparr>) (db_policies d) @ [p]"
proof -
  have d': "db_policies d' = archive_active v now (db_policies d) @ [p]" and p: "pol_venueId p = v" "pol_status p = PolicyACTIVE"
    "pol_version p = latest_version d v + 1" "pol_effectiveTo p = None"
    using assms(2) by (auto simp: createVersion_def Let_def)
  have keys: "map (\<lambda>p. (pol_venueId p, pol_version p)) (archive_active v now ps) = map (\<lambda>p. (pol_venueId p, pol_version p)) ps" for ps
    unfolding archive_active_def by (rule map_update_where) simp
  have new: "(v, pol_version p) \<notin> set (map (\<lambda>p. (pol_venueId p, pol_version p)) (db_policies d))"
    using latest_version_max [of _ d v] p(3) by force
  have act: "filter (\<lambda>q. pol_venueId q = v \<and> pol_status q = PolicyACTIVE) (archive_active v now ps) = []" for ps
    by (induction ps) (auto simp: archive_active_def)
  have active: "filter (\<lambda>q. pol_venueId q = v \<and> pol_status q = PolicyACTIVE) (db_policies d') = [p]"
    unfolding d' using p act by simp
  have others: "distinct (map pol_venueId (filter (\<lambda>q. pol_status q = PolicyACTIVE \<and> pol_venueId q \<noteq> v) (db_policies d)))"
    using assms(1) distinct_map_filter2 by (auto simp: policy_inv_def)
  have inv: "policy_inv d'"
    unfolding policy_inv_def d' using assms(1) new p others by (simp add: keys active_archived policy_inv_def) auto
  have "latest_version d' v = pol_version p"
  proof -
    have "p \<in> set (policies_by_version d' v)" using p by (simp add: policies_by_version_def d')
    then obtain q qs where q: "policies_by_version d' v = q # qs" by (cases "policies_by_version d' v") auto
    then have "q \<in> set (policies_by_version d' v)" by simp
    then have "q \<in> set (archive_active v now (db_policies d)) \<or> q = p" "pol_venueId q = v" by (auto simp: policies_by_version_def d' split: if_splits)
    moreover have "pol_version q \<le> latest_version d v" if "q \<in> set (archive_active v now (db_policies d))"
    proof -
      have "(pol_venueId q, pol_version q) \<in> set (map (\<lambda>p. (pol_venueId p, pol_version p)) (archive_active v now (db_policies d)))"
        using that by force
      then obtain q0 where "q0 \<in> set (db_policies d)" "pol_venueId q0 = pol_venueId q" "pol_version q0 = pol_version q"
        unfolding keys by auto
      then show ?thesis using latest_version_max [of q0 d v] \<open>pol_venueId q = v\<close> by simp
    qed
    ultimately have "pol_version q \<le> pol_version p" using p(3) by auto
    moreover have "pol_version p \<le> pol_version q"
      using policies_sorted [of d' v] \<open>p \<in> set (policies_by_version d' v)\<close> by (auto simp: q)
    ultimately show ?thesis by (simp add: latest_version_def q)
  qed
  moreover have "map (\<lambda>q. q\<lparr>pol_status := PolicyACTIVE, pol_effectiveTo := None\<rparr>) (archive_active v now ps)
      = map (\<lambda>q. q\<lparr>pol_status := PolicyACTIVE, pol_effectiveTo := None\<rparr>) ps" for ps
    unfolding archive_active_def by (rule map_update_where) simp
  moreover have "p\<lparr>pol_status := PolicyACTIVE, pol_effectiveTo := None\<rparr> = p" using p by simp
  ultimately show ?thesis using inv p active by (simp add: d' batch_policy_def)
qed

theorem createVersion_versions_witness:
  "latest_version (snd (createVersion ''p2'' 5 ''v1'' ''u1'' \<lparr>pq_allocationType = EQUAL_SPLIT, pq_roleWeights = [], pq_poolInclusion = [],
      pq_excludedRoles = [], pq_tipOutRules = None, pq_effectiveFrom = 7\<rparr> demo_db)) ''v1'' = 2"
  using createVersion_versions [OF _ prod.collapse [symmetric], of demo_db "''p2''" 5 "''v1''" "''u1''" _ "[]"]
  by (simp add: policy_inv_def demo_db_def latest_version_def policies_by_version_def)

end
