(* ===== verification/Staffing.thy ===== *)
theory Staffing
  imports Policies
begin

text \<open>
  \<open>apps/api/src/staffing/staffing.service.ts\<close>: open shifts, invitations, clock-in and
  clock-out, and the approval that turns recorded work into platform-attested evidence.
  \<open>respond\<close> reads the shift before its serializable transaction; \<open>respond_tx\<close> is that
  transaction, so that other requests may run in between.  Parameters: \<open>now\<close>, the ids of created rows,
  \<open>bdate\<close> (\<open>businessDateInTimezone\<close>) and \<open>work_hash\<close> (sha256 of the JSON of its arguments).  In an
  audit entry's detail an instant is its number of milliseconds.
\<close>

section \<open>Look-ups\<close>

definition find_open_shift :: "db \<Rightarrow> id \<Rightarrow> open_shift option" where
  "find_open_shift d i = find (\<lambda>s. os_id s = i) (db_openShifts d)"

definition find_assignment :: "db \<Rightarrow> id \<Rightarrow> shift_assignment option" where
  "find_assignment d i = find (\<lambda>a. sa_id a = i) (db_assignments d)"

definition assignment_of :: "db \<Rightarrow> id \<Rightarrow> id \<Rightarrow> shift_assignment option" where
  "assignment_of d shiftId workerId = find (\<lambda>a. sa_openShiftId a = shiftId \<and> sa_workerId a = workerId) (db_assignments d)"

definition getShift :: "id \<Rightarrow> db \<Rightarrow> http_error + open_shift" where
  "getShift i d = (case find_open_shift d i of
       None \<Rightarrow> Inl (NotFoundException ''Open shift ${id} not found'') | Some s \<Rightarrow> Inr s)"

definition getAssignment :: "id \<Rightarrow> db \<Rightarrow> http_error + (shift_assignment \<times> open_shift)" where
  "getAssignment i d = (case find_assignment d i of
       None \<Rightarrow> Inl (NotFoundException ''Shift assignment ${id} not found'')
     | Some a \<Rightarrow> (case find_open_shift d (sa_openShiftId a) of None \<Rightarrow> Inl relation_error | Some s \<Rightarrow> Inr (a, s)))"

definition getWorker :: "id \<Rightarrow> db \<Rightarrow> http_error + worker" where
  "getWorker userId d = (case worker_by_user d userId of
       None \<Rightarrow> Inl (NotFoundException ''No worker profile for this user'') | Some k \<Rightarrow> Inr k)"

definition workerAssignment :: "id \<Rightarrow> id \<Rightarrow> db \<Rightarrow> http_error + (shift_assignment \<times> open_shift \<times> worker)" where
  "workerAssignment assignmentId userId d = (case getWorker userId d of
       Inl e \<Rightarrow> Inl e
     | Inr k \<Rightarrow> (case find_assignment d assignmentId of
         None \<Rightarrow> Inl (NotFoundException ''Shift assignment not found'')
       | Some a \<Rightarrow> (case find_open_shift d (sa_openShiftId a) of
           None \<Rightarrow> Inl relation_error
         | Some s \<Rightarrow> if sa_workerId a \<noteq> wk_id k then Inl (NotFoundException ''Shift assignment not found'')
             else Inr (a, s, k))))"

definition connected_to :: "db \<Rightarrow> id \<Rightarrow> id \<Rightarrow> bool" where
  "connected_to d venueId workerId \<longleftrightarrow> (\<exists>x \<in> set (db_externals d).
     ext_venueId x = venueId \<and> ext_workerId x = workerId \<and> ext_mappingStatus x = MappingCONFIRMED)"

definition ACTIVE_ASSIGNMENTS :: "assignment_status list" where
  "ACTIVE_ASSIGNMENTS = [ACCEPTED, CLOCKED_IN, CLOCKED_OUT, AssignAPPROVED]"

definition is_active :: "shift_assignment \<Rightarrow> bool" where
  "is_active a \<longleftrightarrow> sa_status a \<in> set ACTIVE_ASSIGNMENTS"

definition active_count :: "db \<Rightarrow> id \<Rightarrow> nat" where
  "active_count d shiftId = count_where (\<lambda>a. sa_openShiftId a = shiftId \<and> is_active a) (db_assignments d)"

definition update_shift :: "id \<Rightarrow> (open_shift \<Rightarrow> open_shift) \<Rightarrow> db \<Rightarrow> db" where
  "update_shift i f d = d\<lparr>db_openShifts := update_where (\<lambda>s. os_id s = i) f (db_openShifts d)\<rparr>"

definition update_assignments :: "(shift_assignment \<Rightarrow> bool) \<Rightarrow> (shift_assignment \<Rightarrow> shift_assignment) \<Rightarrow> db \<Rightarrow> db" where
  "update_assignments P f d = d\<lparr>db_assignments := update_where P f (db_assignments d)\<rparr>"

definition update_assignment :: "id \<Rightarrow> (shift_assignment \<Rightarrow> shift_assignment) \<Rightarrow> db \<Rightarrow> db" where
  "update_assignment i f d = update_assignments (\<lambda>a. sa_id a = i) f d"

text \<open>\<open>reason?.trim() || fallback\<close>.\<close>

definition trimmed :: "string option \<Rightarrow> string option" where
  "trimmed s = (case s of None \<Rightarrow> None | Some t \<Rightarrow> if js_trim t = [] then None else Some (js_trim t))"

section \<open>Managing a shift\<close>

record shift_request =
  srq_role :: string
  srq_description :: "string option"
  srq_startsAt :: instant
  srq_endsAt :: instant
  srq_hourlyRateUsdCents :: cents
  srq_expectedTipUsdCents :: "cents option"
  srq_headcount :: "int option"

definition createShift :: "id \<Rightarrow> id \<Rightarrow> id \<Rightarrow> shift_request \<Rightarrow> db \<Rightarrow> (open_shift, db) outcome" where
  "createShift new venueId actor inp d =
     (let shift = \<lparr>os_id = new, os_venueId = venueId, os_role = srq_role inp, os_description = trimmed (srq_description inp),
            os_startsAt = srq_startsAt inp, os_endsAt = srq_endsAt inp, os_hourlyRateUsdCents = srq_hourlyRateUsdCents inp,
            os_expectedTipUsdCents = or_else (srq_expectedTipUsdCents inp) 0, os_headcount = or_else (srq_headcount inp) 1,
            os_status = OpenDRAFT, os_createdByUserId = actor, os_publishedAt = None, os_cancelledAt = None\<rparr>
      in if srq_endsAt inp \<le> srq_startsAt inp
         then (Inl (BadRequestException ''Shift end must be after its start''), d)
         else if srq_endsAt inp - srq_startsAt inp > 24 * 60 * 60 * 1000
         then (Inl (BadRequestException ''A staffing shift cannot exceed 24 hours''), d)
         else (Inr shift, write_audit venueId (Some actor) ''OPEN_SHIFT_CREATED'' ''OpenShift'' new
                (JObj [(''role'', JStr (os_role shift)), (''startsAt'', JNum (os_startsAt shift)), (''headcount'', JNum (os_headcount shift))])
                (d\<lparr>db_openShifts := db_openShifts d @ [shift]\<rparr>)))"

definition publishShift :: "instant \<Rightarrow> id \<Rightarrow> id \<Rightarrow> db \<Rightarrow> (open_shift, db) outcome" where
  "publishShift now shiftId actor d = (case getShift shiftId d of
       Inl e \<Rightarrow> (Inl e, d)
     | Inr s \<Rightarrow>
         if os_status s \<noteq> OpenDRAFT
         then (Inl (ConflictException ''Shift is ${shift.status}; only DRAFT can be published''), d)
         else let f = (\<lambda>s. s\<lparr>os_status := OpenOPEN, os_publishedAt := Some now\<rparr>)
              in (Inr (f s), write_audit (os_venueId s) (Some actor) ''OPEN_SHIFT_PUBLISHED'' ''OpenShift'' shiftId (JObj [])
                    (update_shift shiftId f d)))"

definition cancelShift :: "instant \<Rightarrow> id \<Rightarrow> id \<Rightarrow> string option \<Rightarrow> db \<Rightarrow> (open_shift, db) outcome" where
  "cancelShift now shiftId actor reason d = (case find_open_shift d shiftId of
       None \<Rightarrow> (Inl (NotFoundException ''Open shift ${shiftId} not found''), d)
     | Some s \<Rightarrow>
         if os_status s \<in> {OpenCANCELLED, OpenCOMPLETED}
         then (Inl (ConflictException ''Shift is already ${shift.status}''), d)
         else if list_ex (\<lambda>a. sa_openShiftId a = shiftId \<and> sa_status a \<in> {CLOCKED_IN, CLOCKED_OUT}) (db_assignments d)
         then (Inl (ConflictException ''A shift with recorded work must be resolved before cancellation''), d)
         else let f = (\<lambda>s. s\<lparr>os_status := OpenCANCELLED, os_cancelledAt := Some now\<rparr>)
              in (Inr (f s), write_audit (os_venueId s) (Some actor) ''OPEN_SHIFT_CANCELLED'' ''OpenShift'' shiftId
                    (JObj [(''reason'', opt_str (trimmed reason))])
                    (update_assignments (\<lambda>a. sa_openShiftId a = shiftId \<and> sa_status a \<in> {INVITED, ACCEPTED})
                       (\<lambda>a. a\<lparr>sa_status := AssignCANCELLED,
                          sa_cancellationReason := Some (or_else (trimmed reason) ''Shift cancelled'')\<rparr>)
                       (update_shift shiftId f d))))"

definition blank_assignment :: "id \<Rightarrow> id \<Rightarrow> id \<Rightarrow> shift_assignment" where
  "blank_assignment new shiftId workerId = \<lparr>sa_id = new, sa_openShiftId = shiftId, sa_workerId = workerId, sa_status = INVITED,
     sa_invitedByUserId = None, sa_respondedAt = None, sa_checkInAt = None, sa_checkOutAt = None, sa_approvedAt = None,
     sa_approvedByUserId = None, sa_shiftEvidenceId = None, sa_cancellationReason = None\<rparr>"

text \<open>\<open>upsert\<close> on \<open>openShiftId_workerId\<close>: the saved row and the table.\<close>

definition upsert_assignment ::
  "id \<Rightarrow> id \<Rightarrow> id \<Rightarrow> (shift_assignment \<Rightarrow> shift_assignment) \<Rightarrow> db \<Rightarrow> shift_assignment \<times> db" where
  "upsert_assignment new shiftId workerId f d = (case assignment_of d shiftId workerId of
       Some a \<Rightarrow> (f a, update_assignments (\<lambda>a. sa_openShiftId a = shiftId \<and> sa_workerId a = workerId) f d)
     | None \<Rightarrow> (f (blank_assignment new shiftId workerId),
         d\<lparr>db_assignments := db_assignments d @ [f (blank_assignment new shiftId workerId)]\<rparr>))"

definition invite :: "id \<Rightarrow> id \<Rightarrow> id \<Rightarrow> id \<Rightarrow> db \<Rightarrow> (shift_assignment, db) outcome" where
  "invite new shiftId workerId actor d = (case getShift shiftId d of
       Inl e \<Rightarrow> (Inl e, d)
     | Inr s \<Rightarrow>
         if os_status s \<noteq> OpenOPEN
         then (Inl (ConflictException ''Shift is ${shift.status}; invitations require a published shift''), d)
         else if \<not> connected_to d (os_venueId s) workerId
         then (Inl (BadRequestException ''Worker is not connected to this venue''), d)
         else if (case assignment_of d shiftId workerId of Some a \<Rightarrow> is_active a | None \<Rightarrow> False)
         then (Inl (ConflictException ''Worker assignment is already ${existing.status}''), d)
         else (case upsert_assignment new shiftId workerId
                  (\<lambda>a. a\<lparr>sa_status := INVITED, sa_invitedByUserId := Some actor, sa_cancellationReason := None\<rparr>) d of
             (a, d') \<Rightarrow> (Inr a, write_audit (os_venueId s) (Some actor) ''SHIFT_INVITATION_SENT'' ''ShiftAssignment'' (sa_id a)
                (JObj [(''workerId'', JStr workerId)]) d')))"

section \<open>The worker's side\<close>

record shift_view =
  sv_shift :: open_shift
  sv_venue :: venue
  sv_assignments :: "shift_assignment list"

definition starts_cmp :: "open_shift \<Rightarrow> open_shift \<Rightarrow> rat" where
  "starts_cmp a b = of_int (os_startsAt a - os_startsAt b)"

definition listVenueShifts :: "id \<Rightarrow> db \<Rightarrow> (open_shift \<times> shift_assignment list) list" where
  "listVenueShifts venueId d =
     map (\<lambda>s. (s, filter (\<lambda>a. sa_openShiftId a = os_id s) (db_assignments d)))
       (take 100 (js_sort (\<lambda>a b. starts_cmp b a) (filter (\<lambda>s. os_venueId s = venueId) (db_openShifts d))))"

definition listWorkerShifts :: "instant \<Rightarrow> id \<Rightarrow> db \<Rightarrow> http_error + shift_view list" where
  "listWorkerShifts now userId d = (case getWorker userId d of
       Inl e \<Rightarrow> Inl e
     | Inr k \<Rightarrow>
         let mine = (\<lambda>s. filter (\<lambda>a. sa_openShiftId a = os_id s \<and> sa_workerId a = wk_id k) (db_assignments d));
             shown = take 100 (js_sort starts_cmp (filter (\<lambda>s. connected_to d (os_venueId s) (wk_id k)
                \<and> now - 90 * 24 * 60 * 60 * 1000 \<le> os_startsAt s
                \<and> (os_status s = OpenOPEN \<and> now \<le> os_endsAt s \<or> mine s \<noteq> [])) (db_openShifts d)))
         in if list_ex (\<lambda>s. find_venue d (os_venueId s) = None) shown then Inl relation_error
            else Inr (map (\<lambda>s. \<lparr>sv_shift = s, sv_venue = the (find_venue d (os_venueId s)), sv_assignments = mine s\<rparr>) shown))"

datatype response = ACCEPT | DECLINE

definition responded :: "instant \<Rightarrow> response \<Rightarrow> shift_assignment \<Rightarrow> shift_assignment" where
  "responded now r a = a\<lparr>sa_status := (if r = ACCEPT then ACCEPTED else DECLINED), sa_respondedAt := Some now,
     sa_cancellationReason := None\<rparr>"

text \<open>The transaction, with the shift and the worker that were read before it.\<close>

definition respond_tx :: "id \<Rightarrow> instant \<Rightarrow> open_shift \<Rightarrow> worker \<Rightarrow> id \<Rightarrow> response \<Rightarrow> db \<Rightarrow> (shift_assignment, db) outcome" where
  "respond_tx new now shift k userId r d =
     (let shiftId = os_id shift;
          alreadyAccepted = (case assignment_of d shiftId (wk_id k) of Some a \<Rightarrow> is_active a | None \<Rightarrow> False)
      in if r = ACCEPT \<and> \<not> alreadyAccepted \<and> int (active_count d shiftId) \<ge> os_headcount shift
         then (Inl (ConflictException ''Shift has already reached its headcount''), d)
         else (case upsert_assignment new shiftId (wk_id k) (responded now r) d of
             (saved, d1) \<Rightarrow>
               let status = (if int (active_count d1 shiftId) \<ge> os_headcount shift then OpenFILLED else OpenOPEN)
               in (Inr saved, write_audit (os_venueId shift) (Some userId)
                     (if r = ACCEPT then ''SHIFT_ACCEPTED'' else ''SHIFT_DECLINEED'') ''ShiftAssignment'' (sa_id saved) (JObj [])
                     (update_shift shiftId (\<lambda>s. s\<lparr>os_status := status\<rparr>) d1))))"

definition respond :: "id \<Rightarrow> instant \<Rightarrow> id \<Rightarrow> id \<Rightarrow> response \<Rightarrow> db \<Rightarrow> (shift_assignment, db) outcome" where
  "respond new now shiftId userId r d = (case getWorker userId d of
       Inl e \<Rightarrow> (Inl e, d)
     | Inr k \<Rightarrow> (case getShift shiftId d of
         Inl e \<Rightarrow> (Inl e, d)
       | Inr s \<Rightarrow>
           if \<not> connected_to d (os_venueId s) (wk_id k)
           then (Inl (BadRequestException ''Worker is not connected to this venue''), d)
           else if r = ACCEPT \<and> os_status s \<noteq> OpenOPEN
           then (Inl (ConflictException ''Shift is ${shift.status}; it is not accepting workers''), d)
           else respond_tx new now s k userId r d))"

definition clockIn :: "instant \<Rightarrow> id \<Rightarrow> id \<Rightarrow> db \<Rightarrow> (shift_assignment, db) outcome" where
  "clockIn now assignmentId userId d = (case workerAssignment assignmentId userId d of
       Inl e \<Rightarrow> (Inl e, d)
     | Inr (a, s, k) \<Rightarrow>
         if sa_status a \<noteq> ACCEPTED
         then (Inl (ConflictException ''Assignment is ${assignment.status}; cannot clock in''), d)
         else let f = (\<lambda>a. a\<lparr>sa_status := CLOCKED_IN, sa_checkInAt := Some now\<rparr>)
              in (Inr (f a), write_audit (os_venueId s) (Some (wk_userId k)) ''SHIFT_CLOCKED_IN'' ''ShiftAssignment'' assignmentId
                    (JObj [(''at'', JNum now)])
                    (update_shift (sa_openShiftId a) (\<lambda>s. s\<lparr>os_status := OpenIN_PROGRESS\<rparr>) (update_assignment assignmentId f d))))"

definition clockOut :: "instant \<Rightarrow> id \<Rightarrow> id \<Rightarrow> db \<Rightarrow> (shift_assignment, db) outcome" where
  "clockOut now assignmentId userId d = (case workerAssignment assignmentId userId d of
       Inl e \<Rightarrow> (Inl e, d)
     | Inr (a, s, k) \<Rightarrow>
         if sa_status a \<noteq> CLOCKED_IN
         then (Inl (ConflictException ''Assignment is ${assignment.status}; cannot clock out''), d)
         else let f = (\<lambda>a. a\<lparr>sa_status := CLOCKED_OUT, sa_checkOutAt := Some now\<rparr>)
              in (Inr (f a), write_audit (os_venueId s) (Some (wk_userId k)) ''SHIFT_CLOCKED_OUT'' ''ShiftAssignment'' assignmentId
                    (JObj [(''at'', JNum now)]) (update_assignment assignmentId f d)))"

text \<open>A filled shift that has not started is open again when someone leaves it.\<close>

definition reopen_filled :: "instant \<Rightarrow> open_shift \<Rightarrow> db \<Rightarrow> db" where
  "reopen_filled now s d = (if os_status s = OpenFILLED \<and> os_startsAt s > now
     then update_shift (os_id s) (\<lambda>s. s\<lparr>os_status := OpenOPEN\<rparr>) d else d)"

definition cancelAssignment :: "instant \<Rightarrow> id \<Rightarrow> id \<Rightarrow> string option \<Rightarrow> db \<Rightarrow> (shift_assignment, db) outcome" where
  "cancelAssignment now assignmentId userId reason d = (case workerAssignment assignmentId userId d of
       Inl e \<Rightarrow> (Inl e, d)
     | Inr (a, s, k) \<Rightarrow>
         if sa_status a \<notin> {INVITED, ACCEPTED}
         then (Inl (ConflictException ''Assignment is ${assignment.status}; cannot cancel''), d)
         else let f = (\<lambda>a. a\<lparr>sa_status := AssignCANCELLED, sa_cancellationReason := Some (or_else (trimmed reason) ''Cancelled by worker''),
                    sa_respondedAt := Some now\<rparr>)
              in (Inr (f a), write_audit (os_venueId s) (Some (wk_userId k)) ''SHIFT_ASSIGNMENT_CANCELLED'' ''ShiftAssignment'' assignmentId
                    (JObj [(''reason'', opt_str (trimmed reason))]) (reopen_filled now s (update_assignment assignmentId f d))))"

section \<open>Approval\<close>

definition staffing_provider :: string where
  "staffing_provider = ''serveproof_staffing''"

text \<open>\<open>Math.max(1, Math.round(ms / 60_000))\<close>; the check that follows it is never met.\<close>

definition worked_minutes :: "instant \<Rightarrow> instant \<Rightarrow> int" where
  "worked_minutes checkIn checkOut = max 1 (js_round (fl64 (of_int (checkOut - checkIn) / 60000)))"

definition evidence_data :: "id \<Rightarrow> string \<Rightarrow> instant \<Rightarrow> instant \<Rightarrow> string \<Rightarrow> string \<Rightarrow> shift_evidence \<Rightarrow> shift_evidence" where
  "evidence_data workerId role checkIn checkOut businessDate sourceHash s = s\<lparr>se_ingestSource := PLATFORM_ATTESTED,
     se_mappedWorkerId := Some workerId, se_role := role, se_clockIn := checkIn, se_clockOut := Some checkOut,
     se_workedMinutes := worked_minutes checkIn checkOut, se_shiftStatus := ShiftAPPROVED, se_businessDate := businessDate,
     se_sourceHash := sourceHash, se_sourcePayoutRail := Some PAYROLL, se_sourcePayrollStatus := Some ''PENDING''\<rparr>"

definition blank_shift_evidence :: "id \<Rightarrow> id \<Rightarrow> id \<Rightarrow> id \<Rightarrow> shift_evidence" where
  "blank_shift_evidence new venueId assignmentId workerId = \<lparr>se_id = new, se_provider = staffing_provider,
     se_ingestSource = PLATFORM_ATTESTED, se_venueId = venueId, se_externalShiftId = assignmentId, se_externalWorkerId = workerId,
     se_mappedWorkerId = None, se_role = [], se_clockIn = 0, se_clockOut = None, se_workedMinutes = 0,
     se_shiftStatus = ShiftAPPROVED, se_businessDate = [], se_sourceHash = [], se_sourcePayoutRail = None,
     se_sourcePayrollStatus = None\<rparr>"

definition evidence_key :: "id \<Rightarrow> string \<Rightarrow> string \<Rightarrow> shift_evidence \<Rightarrow> bool" where
  "evidence_key venueId provider externalShiftId s \<longleftrightarrow>
     se_venueId s = venueId \<and> se_provider s = provider \<and> se_externalShiftId s = externalShiftId"

text \<open>\<open>upsert\<close> of shift evidence on its unique key: the saved row and the table.\<close>

definition upsert_shift ::
  "(shift_evidence \<Rightarrow> bool) \<Rightarrow> (shift_evidence \<Rightarrow> shift_evidence) \<Rightarrow> shift_evidence \<Rightarrow> shift_evidence list \<Rightarrow> shift_evidence \<times> shift_evidence list" where
  "upsert_shift key upd created t = (case find key t of
       Some s \<Rightarrow> (upd s, update_where key upd t) | None \<Rightarrow> (created, t @ [created]))"

definition approveAssignment ::
  "(instant \<Rightarrow> string \<Rightarrow> string) \<Rightarrow> (id \<Rightarrow> id \<Rightarrow> instant \<Rightarrow> instant \<Rightarrow> string \<Rightarrow> string) \<Rightarrow> id \<Rightarrow> instant \<Rightarrow> id \<Rightarrow> id \<Rightarrow> db \<Rightarrow>
   (shift_assignment, db) outcome" where
  "approveAssignment bdate work_hash new now assignmentId actor d = (case find_assignment d assignmentId of
       None \<Rightarrow> (Inl (NotFoundException ''Shift assignment ${assignmentId} not found''), d)
     | Some a \<Rightarrow> (case find_open_shift d (sa_openShiftId a) of None \<Rightarrow> (Inl relation_error, d)
     | Some s \<Rightarrow> (case find_venue d (os_venueId s) of None \<Rightarrow> (Inl relation_error, d)
     | Some v \<Rightarrow>
         if sa_status a = AssignAPPROVED \<and> truthy (sa_shiftEvidenceId a) then (Inr a, d)
         else if sa_status a \<noteq> CLOCKED_OUT \<or> sa_checkInAt a = None \<or> sa_checkOutAt a = None
         then (Inl (ConflictException ''Only a clocked-out assignment can be approved''), d)
         else
           let checkIn = the (sa_checkInAt a); checkOut = the (sa_checkOutAt a);
               businessDate = bdate checkIn (ven_timezone v);
               sourceHash = work_hash assignmentId (sa_workerId a) checkIn checkOut (os_role s);
               upd = evidence_data (sa_workerId a) (os_role s) checkIn checkOut businessDate sourceHash;
               (evidence, shifts) = upsert_shift (evidence_key (os_venueId s) staffing_provider (sa_id a)) upd
                  (upd (blank_shift_evidence new (os_venueId s) (sa_id a) (sa_workerId a))) (db_shifts d);
               f = (\<lambda>a. a\<lparr>sa_status := AssignAPPROVED, sa_approvedAt := Some now, sa_approvedByUserId := Some actor,
                      sa_shiftEvidenceId := Some (se_id evidence)\<rparr>);
               d1 = update_assignment assignmentId f (d\<lparr>db_shifts := shifts\<rparr>);
               unresolved = count_where (\<lambda>x. sa_openShiftId x = sa_openShiftId a
                  \<and> sa_status x \<in> {ACCEPTED, CLOCKED_IN, CLOCKED_OUT}) (db_assignments d1);
               d2 = (if unresolved = 0 then update_shift (sa_openShiftId a) (\<lambda>s. s\<lparr>os_status := OpenCOMPLETED\<rparr>) d1 else d1)
           in (Inr (f a), write_audit (os_venueId s) (Some actor) ''SHIFT_ASSIGNMENT_APPROVED'' ''ShiftAssignment'' assignmentId
                 (JObj [(''workedMinutes'', JNum (worked_minutes checkIn checkOut)), (''businessDate'', JStr businessDate),
                        (''shiftEvidenceId'', JStr (se_id evidence))]) d2))))"

definition markNoShow :: "instant \<Rightarrow> id \<Rightarrow> id \<Rightarrow> db \<Rightarrow> (shift_assignment, db) outcome" where
  "markNoShow now assignmentId actor d = (case getAssignment assignmentId d of
       Inl e \<Rightarrow> (Inl e, d)
     | Inr (a, s) \<Rightarrow>
         if sa_status a \<notin> {INVITED, ACCEPTED}
         then (Inl (ConflictException ''Assignment is ${assignment.status}; cannot mark no-show''), d)
         else let f = (\<lambda>a. a\<lparr>sa_status := NO_SHOW\<rparr>)
              in (Inr (f a), write_audit (os_venueId s) (Some actor) ''SHIFT_MARKED_NO_SHOW'' ''ShiftAssignment'' assignmentId (JObj [])
                    (reopen_filled now s (update_assignment assignmentId f d))))"

end
