(* ===== verification/Staffing_Safety.thy ===== *)
theory Staffing_Safety
  imports Staffing
begin

text \<open>
  Staffing keeps its promises under any interleaving of requests: a shift never takes more workers than
  its headcount, and approval leaves exactly the evidence the worker clocked.  One gap is shown:
  declining a shift that was cancelled opens it again.
\<close>

section \<open>Steps that take nobody on\<close>

definition assignment_keys :: "db \<Rightarrow> (id \<times> id \<times> id) list" where
  "assignment_keys d = map (\<lambda>a. (sa_id a, sa_openShiftId a, sa_workerId a)) (db_assignments d)"

definition shift_keys :: "db \<Rightarrow> (id \<times> int) list" where
  "shift_keys d = map (\<lambda>s. (os_id s, os_headcount s)) (db_openShifts d)"

definition calm :: "db \<Rightarrow> db \<Rightarrow> bool" where
  "calm d d' \<longleftrightarrow> shift_keys d' = shift_keys d \<and> assignment_keys d' = assignment_keys d
     \<and> (\<forall>i. active_count d' i \<le> active_count d i)"

lemma calm_refl [intro, simp]: "calm d d"
  by (simp add: calm_def)

lemma calm_trans: "calm d d1 \<Longrightarrow> calm d1 d2 \<Longrightarrow> calm d d2"
  by (auto simp: calm_def intro: le_trans)

lemma calm_same: "db_openShifts d' = db_openShifts d \<Longrightarrow> db_assignments d' = db_assignments d \<Longrightarrow> calm d d'"
  by (simp add: calm_def shift_keys_def assignment_keys_def active_count_def)

lemma calm_audit [simp]: "calm d (write_audit v a ac t e j d1) = calm d d1"
  by (simp add: calm_def shift_keys_def assignment_keys_def active_count_def)

lemma count_update_le:
  "(\<And>x. x \<in> set t \<Longrightarrow> P x \<Longrightarrow> Q (f x) \<Longrightarrow> Q x) \<Longrightarrow> count_where Q (update_where P f t) \<le> count_where Q t"
  by (induction t) (auto simp: count_where_def le_SucI)

lemma calm_update_shift [simp]:
  assumes "\<And>s. os_id (f s) = os_id s" "\<And>s. os_headcount (f s) = os_headcount s"
  shows "calm d (update_shift i f d1) = calm d d1"
  using assms by (simp add: calm_def shift_keys_def assignment_keys_def active_count_def update_shift_def map_update_where)

lemma calm_update_assignments:
  assumes "\<And>a. sa_id (f a) = sa_id a \<and> sa_openShiftId (f a) = sa_openShiftId a \<and> sa_workerId (f a) = sa_workerId a"
    and "\<And>a. a \<in> set (db_assignments d) \<Longrightarrow> P a \<Longrightarrow> is_active (f a) \<Longrightarrow> is_active a"
  shows "calm d (update_assignments P f d)"
  using assms
  by (auto simp: calm_def shift_keys_def assignment_keys_def active_count_def update_assignments_def map_update_where intro!: count_update_le)

lemma calm_reopen [simp]: "calm d (reopen_filled now s d1) = calm d d1"
  by (simp add: reopen_filled_def)

text \<open>A transition of one assignment from a status in which it already counts.\<close>

lemma calm_update_assignment:
  assumes "distinct (map sa_id (db_assignments d))" "find_assignment d i = Some a"
    and "\<And>a. sa_id (f a) = sa_id a \<and> sa_openShiftId (f a) = sa_openShiftId a \<and> sa_workerId (f a) = sa_workerId a"
    and "is_active (f a) \<Longrightarrow> is_active a"
  shows "calm d (update_assignment i f d)"
proof -
  have "x = a" if "x \<in> set (db_assignments d)" "sa_id x = i" for x
    using find_unique_key [OF assms(1) that(1)] assms(2) that(2) by (simp add: find_assignment_def)
  then show ?thesis unfolding update_assignment_def using assms(3,4) by (intro calm_update_assignments) auto
qed

section \<open>The headcount\<close>

definition staff_inv :: "db \<Rightarrow> bool" where
  "staff_inv d \<longleftrightarrow> distinct (map sa_id (db_assignments d))
     \<and> distinct (map (\<lambda>a. (sa_openShiftId a, sa_workerId a)) (db_assignments d))
     \<and> distinct (map os_id (db_openShifts d))
     \<and> (\<forall>a \<in> set (db_assignments d). sa_openShiftId a \<in> os_id ` set (db_openShifts d))
     \<and> (\<forall>s \<in> set (db_openShifts d). int (active_count d (os_id s)) \<le> os_headcount s)"

lemma staff_inv_calm:
  assumes "staff_inv d" "calm d d'"
  shows "staff_inv d'"
proof -
  have k: "map sa_id (db_assignments d') = map sa_id (db_assignments d)"
    "map (\<lambda>a. (sa_openShiftId a, sa_workerId a)) (db_assignments d') = map (\<lambda>a. (sa_openShiftId a, sa_workerId a)) (db_assignments d)"
    "map sa_openShiftId (db_assignments d') = map sa_openShiftId (db_assignments d)"
  proof -
    have e: "assignment_keys d' = assignment_keys d" using assms(2) by (simp add: calm_def)
    show "map sa_id (db_assignments d') = map sa_id (db_assignments d)"
      using arg_cong [OF e, of "map fst"] by (simp add: assignment_keys_def comp_def)
    show "map (\<lambda>a. (sa_openShiftId a, sa_workerId a)) (db_assignments d') = map (\<lambda>a. (sa_openShiftId a, sa_workerId a)) (db_assignments d)"
      using arg_cong [OF e, of "map snd"] by (simp add: assignment_keys_def comp_def)
    show "map sa_openShiftId (db_assignments d') = map sa_openShiftId (db_assignments d)"
      using arg_cong [OF e, of "map (fst \<circ> snd)"] by (simp add: assignment_keys_def comp_def)
  qed
  have s: "map os_id (db_openShifts d') = map os_id (db_openShifts d)"
    "(\<lambda>s. (os_id s, os_headcount s)) ` set (db_openShifts d') = (\<lambda>s. (os_id s, os_headcount s)) ` set (db_openShifts d)"
  proof -
    have e: "map (\<lambda>s. (os_id s, os_headcount s)) (db_openShifts d') = map (\<lambda>s. (os_id s, os_headcount s)) (db_openShifts d)"
      using assms(2) by (simp add: calm_def shift_keys_def)
    show "map os_id (db_openShifts d') = map os_id (db_openShifts d)" using arg_cong [OF e, of "map fst"] by (simp add: comp_def)
    show "(\<lambda>s. (os_id s, os_headcount s)) ` set (db_openShifts d') = (\<lambda>s. (os_id s, os_headcount s)) ` set (db_openShifts d)"
      using arg_cong [OF e, of set] by simp
  qed
  have ids: "os_id ` set (db_openShifts d') = os_id ` set (db_openShifts d)" using s(1) by (metis list.set_map)
  have "sa_openShiftId a \<in> os_id ` set (db_openShifts d')" if "a \<in> set (db_assignments d')" for a
  proof -
    have "sa_openShiftId a \<in> set (map sa_openShiftId (db_assignments d))" unfolding k(3) [symmetric] using that by simp
    then show ?thesis using assms(1) ids by (auto simp: staff_inv_def)
  qed
  moreover have "int (active_count d' (os_id x)) \<le> os_headcount x" if x: "x \<in> set (db_openShifts d')" for x
  proof -
    have "(os_id x, os_headcount x) \<in> (\<lambda>s. (os_id s, os_headcount s)) ` set (db_openShifts d)" using x s(2) by blast
    then obtain y where y: "y \<in> set (db_openShifts d)" "os_id y = os_id x" "os_headcount y = os_headcount x" by auto
    have "active_count d' (os_id x) \<le> active_count d (os_id x)" using assms(2) by (simp add: calm_def)
    then show ?thesis using assms(1) y by (fastforce simp: staff_inv_def)
  qed
  ultimately show ?thesis using assms(1) k s(1) by (simp add: staff_inv_def)
qed

lemma find_assignmentD: "find_assignment d i = Some a \<Longrightarrow> a \<in> set (db_assignments d) \<and> sa_id a = i"
  by (auto simp: find_assignment_def dest: find_SomeD)

lemma find_open_shiftD: "find_open_shift d i = Some s \<Longrightarrow> s \<in> set (db_openShifts d) \<and> os_id s = i"
  by (auto simp: find_open_shift_def dest: find_SomeD)

lemma workerAssignmentD: "workerAssignment i u d = Inr (a, s, k) \<Longrightarrow> find_assignment d i = Some a \<and> find_open_shift d (sa_openShiftId a) = Some s"
  by (auto simp: workerAssignment_def split: sum.splits option.splits if_splits)

lemma getAssignmentD: "getAssignment i d = Inr (a, s) \<Longrightarrow> find_assignment d i = Some a \<and> find_open_shift d (sa_openShiftId a) = Some s"
  by (auto simp: getAssignment_def split: option.splits)

lemmas active_simps = is_active_def ACTIVE_ASSIGNMENTS_def

lemma calm_ops:
  assumes "distinct (map sa_id (db_assignments d))"
  shows "calm d (snd (publishShift now i u d))" "calm d (snd (cancelShift now i u reason d))"
    "calm d (snd (clockIn now j u d))" "calm d (snd (clockOut now j u d))"
    "calm d (snd (cancelAssignment now j u reason d))" "calm d (snd (markNoShow now j u d))"
    "calm d (snd (approveAssignment bdate work_hash new now j u d))"
proof -
  show "calm d (snd (publishShift now i u d))"
    by (auto simp: publishShift_def Let_def split: sum.split)
  show "calm d (snd (cancelShift now i u reason d))"
  proof -
    have "calm d (update_assignments (\<lambda>a. sa_openShiftId a = i \<and> sa_status a \<in> {INVITED, ACCEPTED})
        (\<lambda>a. a\<lparr>sa_status := AssignCANCELLED, sa_cancellationReason := c\<rparr>) (update_shift i (\<lambda>s. s\<lparr>os_status := OpenCANCELLED, os_cancelledAt := t\<rparr>) d))" for c t
      by (rule calm_trans [of _ "update_shift i (\<lambda>s. s\<lparr>os_status := OpenCANCELLED, os_cancelledAt := t\<rparr>) d"])
        (auto intro!: calm_update_assignments simp: active_simps)
    then show ?thesis by (auto simp: cancelShift_def Let_def split: option.split)
  qed
  note upd = calm_update_assignment [OF assms]
  show "calm d (snd (clockIn now j u d))"
    by (auto simp: clockIn_def Let_def active_simps split: sum.split intro!: upd dest!: workerAssignmentD)
  show "calm d (snd (clockOut now j u d))"
    by (auto simp: clockOut_def Let_def active_simps split: sum.split intro!: upd dest!: workerAssignmentD)
  show "calm d (snd (cancelAssignment now j u reason d))"
    by (auto simp: cancelAssignment_def Let_def active_simps split: sum.split intro!: upd dest!: workerAssignmentD)
  show "calm d (snd (markNoShow now j u d))"
    by (auto simp: markNoShow_def Let_def active_simps split: sum.split intro!: upd dest!: getAssignmentD)
  show "calm d (snd (approveAssignment bdate work_hash new now j u d))"
  proof (cases "find_assignment d j")
    case (Some a)
    have "calm d (update_assignment j f (d\<lparr>db_shifts := x\<rparr>))" if "sa_status a = CLOCKED_OUT"
        "\<And>a. sa_id (f a) = sa_id a \<and> sa_openShiftId (f a) = sa_openShiftId a \<and> sa_workerId (f a) = sa_workerId a" for f x
      using that Some assms
      by (intro calm_trans [of d "d\<lparr>db_shifts := x\<rparr>" "update_assignment j f (d\<lparr>db_shifts := x\<rparr>)"] calm_update_assignment [where a = a])
        (auto simp: active_simps find_assignment_def intro: calm_same)
    then show ?thesis
      using Some by (auto simp: approveAssignment_def Let_def split: option.split prod.split)
  qed (simp add: approveAssignment_def)
qed

text \<open>Saving an assignment row that does not count.\<close>

lemma upsert_keys:
  assumes "\<And>a. sa_id (f a) = sa_id a \<and> sa_openShiftId (f a) = sa_openShiftId a \<and> sa_workerId (f a) = sa_workerId a"
    and "upsert_assignment new i k f d = (saved, d')"
  shows "db_openShifts d' = db_openShifts d"
    "assignment_of d i k = None \<Longrightarrow> db_assignments d' = db_assignments d @ [saved] \<and> sa_id saved = new
       \<and> sa_openShiftId saved = i \<and> sa_workerId saved = k"
    "assignment_of d i k = Some a \<Longrightarrow> saved = f a
       \<and> d' = update_assignments (\<lambda>a. sa_openShiftId a = i \<and> sa_workerId a = k) f d"
  using assms by (auto simp: upsert_assignment_def update_assignments_def blank_assignment_def split: option.splits)

lemma no_assignment: "assignment_of d i k = None \<longleftrightarrow> (i, k) \<notin> set (map (\<lambda>a. (sa_openShiftId a, sa_workerId a)) (db_assignments d))"
  by (auto simp: assignment_of_def find_None_iff_all)

lemma the_assignment:
  assumes "staff_inv d" "assignment_of d i k = Some a" "x \<in> set (db_assignments d)" "sa_openShiftId x = i" "sa_workerId x = k"
  shows "x = a"
proof -
  have "a \<in> set (db_assignments d)" "sa_openShiftId a = i" "sa_workerId a = k"
    using assms(2) by (auto simp: assignment_of_def dest: find_SomeD)
  then show ?thesis using assms by (auto simp: staff_inv_def distinct_map dest!: inj_onD)
qed

text \<open>How many are taken on after an upsert, when one more fits or nobody is added.\<close>

lemma upsert_inv:
  assumes inv: "staff_inv d"
    and f: "\<And>a. sa_id (f a) = sa_id a \<and> sa_openShiftId (f a) = sa_openShiftId a \<and> sa_workerId (f a) = sa_workerId a"
    and run: "upsert_assignment new i k f d = (saved, d')"
    and new: "new \<notin> sa_id ` set (db_assignments d)"
    and s: "s \<in> set (db_openShifts d)" "os_id s = i"
    and fits: "is_active saved \<Longrightarrow> (\<exists>a. assignment_of d i k = Some a \<and> is_active a) \<or> int (active_count d i) < os_headcount s"
  shows "staff_inv d'"
proof (cases "is_active saved \<and> \<not> (\<exists>a. assignment_of d i k = Some a \<and> is_active a)")
  case False
  show ?thesis
  proof (cases "assignment_of d i k")
    case (Some a)
    have "calm d d'"
      unfolding conjunct2 [OF upsert_keys(3) [OF f run Some]]
      using f False Some the_assignment [OF inv Some] upsert_keys(3) [OF f run Some]
      by (intro calm_update_assignments) auto
    then show ?thesis using inv staff_inv_calm by blast
  next
    case None
    then have "\<not> is_active saved" using False by simp
    then have "active_count d' j = active_count d j" for j
      using upsert_keys(2) [OF f run None] by (simp add: active_count_def count_where_def)
    then show ?thesis
      using inv new None upsert_keys(1) [OF f run] upsert_keys(2) [OF f run None] s
      unfolding no_assignment by (auto simp: staff_inv_def)
  qed
next
  case True
  then have room: "int (active_count d i) < os_headcount s" using fits by blast
  have count: "active_count d' j \<le> active_count d j + (if j = i then 1 else 0)" for j
  proof (cases "assignment_of d i k")
    case None
    then show ?thesis using upsert_keys(2) [OF f run None] by (auto simp: active_count_def count_where_def)
  next
    case (Some a)
    have "count_where (\<lambda>x. sa_openShiftId x = j \<and> is_active x) (update_where (\<lambda>x. sa_openShiftId x = i \<and> sa_workerId x = k) f t)
        \<le> count_where (\<lambda>x. sa_openShiftId x = j \<and> is_active x) t + (if j = i then 1 else 0)"
      if "distinct (map (\<lambda>a. (sa_openShiftId a, sa_workerId a)) t)" for t
      using that
    proof (induction t)
      case (Cons x t)
      show ?case
      proof (cases "sa_openShiftId x = i \<and> sa_workerId x = k")
        case True
        then have "y \<in> set t \<Longrightarrow> \<not> (sa_openShiftId y = i \<and> sa_workerId y = k)" for y
          using Cons.prems by (auto simp: image_iff)
        then have "update_where (\<lambda>x. sa_openShiftId x = i \<and> sa_workerId x = k) f t = t" by (rule update_where_none)
        then show ?thesis using True f [of x] by (simp add: count_where_def)
      next
        case False
        then show ?thesis using Cons by (auto simp: count_where_def)
      qed
    qed (simp add: count_where_def)
    then show ?thesis
      using upsert_keys(3) [OF f run Some] inv by (simp add: active_count_def staff_inv_def update_assignments_def)
  qed
  have keys: "distinct (map sa_id (db_assignments d')) \<and> distinct (map (\<lambda>a. (sa_openShiftId a, sa_workerId a)) (db_assignments d'))
     \<and> (\<forall>a \<in> set (db_assignments d'). sa_openShiftId a \<in> os_id ` set (db_openShifts d'))"
  proof (cases "assignment_of d i k")
    case None
    then show ?thesis
      using inv new upsert_keys(1) [OF f run] upsert_keys(2) [OF f run None] s unfolding no_assignment by (auto simp: staff_inv_def)
  next
    case (Some a)
    let ?P = "\<lambda>a. sa_openShiftId a = i \<and> sa_workerId a = k"
    have "map sa_id (update_where ?P f t) = map sa_id t" for t
      by (rule map_update_where) (simp add: f)
    moreover have "map (\<lambda>a. (sa_openShiftId a, sa_workerId a)) (update_where ?P f t) = map (\<lambda>a. (sa_openShiftId a, sa_workerId a)) t" for t
      by (rule map_update_where) (simp add: f)
    ultimately show ?thesis
      using inv f upsert_keys(1) [OF f run] upsert_keys(3) [OF f run Some]
      by (auto simp: staff_inv_def update_assignments_def in_update_where)
  qed
  have "int (active_count d' (os_id y)) \<le> os_headcount y" if y: "y \<in> set (db_openShifts d)" for y
  proof (cases "os_id y = i")
    case True
    then have "y = s" using inv y s by (auto simp: staff_inv_def distinct_map dest: inj_onD)
    then show ?thesis using room count [of i] True by simp
  next
    case False
    have "int (active_count d (os_id y)) \<le> os_headcount y" using inv y by (simp add: staff_inv_def)
    then show ?thesis using count [of "os_id y"] False by simp
  qed
  then show ?thesis using keys inv upsert_keys(1) [OF f run] by (simp add: staff_inv_def)
qed

section \<open>Any interleaving\<close>

text \<open>
  The requests of any number of users, one after the other; \<open>Respond\<close> is the transaction of a request
  whose reads may be arbitrarily old, provided the shift it read exists with that headcount, which no
  operation changes.  \<open>Other\<close> is any operation of another service: those leave both tables alone.
\<close>

inductive staffing_step :: "db \<Rightarrow> db \<Rightarrow> bool" where
  Create: "new \<notin> os_id ` set (db_openShifts d) \<Longrightarrow> 0 \<le> or_else (srq_headcount inp) 1 \<Longrightarrow>
    staffing_step d (snd (createShift new v u inp d))"
| Publish: "staffing_step d (snd (publishShift now i u d))"
| Cancel: "staffing_step d (snd (cancelShift now i u reason d))"
| Invite: "new \<notin> sa_id ` set (db_assignments d) \<Longrightarrow> staffing_step d (snd (invite new i k u d))"
| Respond: "new \<notin> sa_id ` set (db_assignments d) \<Longrightarrow> (os_id s, os_headcount s) \<in> set (shift_keys d) \<Longrightarrow>
    staffing_step d (snd (respond_tx new now s k u r d))"
| ClockIn: "staffing_step d (snd (clockIn now i u d))"
| ClockOut: "staffing_step d (snd (clockOut now i u d))"
| Leave: "staffing_step d (snd (cancelAssignment now i u reason d))"
| Approve: "staffing_step d (snd (approveAssignment bdate work_hash new now i u d))"
| NoShow: "staffing_step d (snd (markNoShow now i u d))"
| Other: "db_openShifts d' = db_openShifts d \<Longrightarrow> db_assignments d' = db_assignments d \<Longrightarrow> staffing_step d d'"

lemma staff_inv_create:
  assumes "staff_inv d" "new \<notin> os_id ` set (db_openShifts d)" "0 \<le> or_else (srq_headcount inp) 1"
  shows "staff_inv (snd (createShift new v u inp d))"
proof -
  have "count_where (\<lambda>a. sa_openShiftId a = new \<and> is_active a) (db_assignments d) = 0"
    using assms(1,2) by (auto simp: count_where_def filter_empty_conv staff_inv_def)
  then show ?thesis
    using assms by (auto simp: createShift_def Let_def staff_inv_def active_count_def)
qed

lemma staff_inv_invite:
  assumes "staff_inv d" "new \<notin> sa_id ` set (db_assignments d)"
  shows "staff_inv (snd (invite new i k u d))"
proof -
  let ?f = "\<lambda>a. a\<lparr>sa_status := INVITED, sa_invitedByUserId := Some u, sa_cancellationReason := None\<rparr>"
  have "staff_inv (snd (upsert_assignment new i k ?f d))" if "find_open_shift d i = Some s" for s
  proof -
    obtain saved d' where run: "upsert_assignment new i k ?f d = (saved, d')" by fastforce
    have "\<not> is_active saved" using run by (auto simp: upsert_assignment_def active_simps split: option.splits)
    then show ?thesis
      using upsert_inv [OF assms(1) _ run assms(2), of s] find_open_shiftD [OF that] by (simp add: run)
  qed
  moreover have "staff_inv (write_audit v a ac t e j d1) = staff_inv d1" for v a ac t e j d1
    by (simp add: staff_inv_def active_count_def)
  ultimately show ?thesis
    using assms(1) by (auto simp: invite_def getShift_def split: option.splits prod.splits sum.splits)
qed

lemma staff_inv_respond:
  assumes "staff_inv d" "new \<notin> sa_id ` set (db_assignments d)" "(os_id s, os_headcount s) \<in> set (shift_keys d)"
  shows "staff_inv (snd (respond_tx new now s k u r d))"
proof (cases "r = ACCEPT \<and> \<not> (case assignment_of d (os_id s) (wk_id k) of Some a \<Rightarrow> is_active a | None \<Rightarrow> False)
    \<and> int (active_count d (os_id s)) \<ge> os_headcount s")
  case True
  then show ?thesis using assms(1) by (simp add: respond_tx_def Let_def)
next
  case False
  obtain s0 where s0: "s0 \<in> set (db_openShifts d)" "os_id s0 = os_id s" "os_headcount s0 = os_headcount s"
    using assms(3) by (auto simp: shift_keys_def)
  obtain saved d1 where run: "upsert_assignment new (os_id s) (wk_id k) (responded now r) d = (saved, d1)" by fastforce
  have act: "is_active saved \<longleftrightarrow> r = ACCEPT"
    using run by (cases r) (auto simp: upsert_assignment_def responded_def active_simps split: option.splits)
  have "staff_inv d1"
    using upsert_inv [OF assms(1) _ run assms(2) s0(1,2)] False s0(3)
    by (auto simp: responded_def act split: option.splits)
  then have "staff_inv (update_shift (os_id s) (\<lambda>s. s\<lparr>os_status := x\<rparr>) d1)" for x
    using staff_inv_calm [of d1 "update_shift (os_id s) (\<lambda>s. s\<lparr>os_status := x\<rparr>) d1"] by simp
  moreover have "staff_inv (write_audit v a ac t e j d2) = staff_inv d2" for v a ac t e j d2
    by (simp add: staff_inv_def active_count_def)
  ultimately show ?thesis using False by (auto simp: respond_tx_def Let_def run)
qed

lemma staff_inv_step: "staffing_step d d' \<Longrightarrow> staff_inv d \<Longrightarrow> staff_inv d'"
proof (induction rule: staffing_step.induct)
  case (Create new d inp v u) then show ?case using staff_inv_create by blast
next
  case (Invite new d i k u) then show ?case using staff_inv_invite by blast
next
  case (Respond new d s now k u r) then show ?case using staff_inv_respond by blast
next
  case (Other d' d) then show ?case using staff_inv_calm calm_same by blast
next
  case (Publish d) then show ?case using staff_inv_calm [OF _ calm_ops(1)] by (simp add: staff_inv_def)
next
  case (Cancel d) then show ?case using staff_inv_calm [OF _ calm_ops(2)] by (simp add: staff_inv_def)
next
  case (ClockIn d) then show ?case using staff_inv_calm [OF _ calm_ops(3)] by (simp add: staff_inv_def)
next
  case (ClockOut d) then show ?case using staff_inv_calm [OF _ calm_ops(4)] by (simp add: staff_inv_def)
next
  case (Leave d) then show ?case using staff_inv_calm [OF _ calm_ops(5)] by (simp add: staff_inv_def)
next
  case (Approve d) then show ?case using staff_inv_calm [OF _ calm_ops(7)] by (simp add: staff_inv_def)
next
  case (NoShow d) then show ?case using staff_inv_calm [OF _ calm_ops(6)] by (simp add: staff_inv_def)
qed


section \<open>Approval\<close>

lemma evidence_data_fields [simp]:
  "se_id (evidence_data w r ci co b h s) = se_id s" "se_ingestSource (evidence_data w r ci co b h s) = PLATFORM_ATTESTED"
  "se_mappedWorkerId (evidence_data w r ci co b h s) = Some w" "se_workedMinutes (evidence_data w r ci co b h s) = worked_minutes ci co"
  "se_clockIn (evidence_data w r ci co b h s) = ci" "se_clockOut (evidence_data w r ci co b h s) = Some co"
  "se_shiftStatus (evidence_data w r ci co b h s) = ShiftAPPROVED"
  by (simp_all add: evidence_data_def)

lemma upsert_shift_saved:
  assumes "upsert_shift key upd created t = (s, t')"
  shows "s \<in> set t' \<and> (\<forall>x \<in> set t. \<not> key x \<longrightarrow> x \<in> set t') \<and> (s = created \<or> (\<exists>x \<in> set t. key x \<and> s = upd x))"
proof (cases "find key t")
  case None
  then show ?thesis using assms by (auto simp: upsert_shift_def)
next
  case (Some x)
  then have "x \<in> set t" "key x" "s = upd x" "t' = update_where key upd t" using assms by (auto simp: upsert_shift_def dest: find_SomeD)
  moreover have "upd x \<in> set (update_where key upd t)" if "key x" "x \<in> set t"
    unfolding in_update_where using that by (intro bexI [of _ x]) simp_all
  moreover have "y \<in> set (update_where key upd t)" if "\<not> key y" "y \<in> set t" for y
    unfolding in_update_where using that by (intro bexI [of _ y]) simp_all
  ultimately show ?thesis by blast
qed

text \<open>Approval turns the clocked times into evidence.  A successful approval of a clocked-out
  assignment leaves platform-attested evidence with the worker, the two times and at least a minute of
  work, linked from the assignment; evidence of other assignments is kept, and a second
  approval returns the same row and changes nothing.\<close>

theorem approval_produces_evidence:
  assumes "find_assignment d i = Some a" "sa_status a = CLOCKED_OUT"
    and "approveAssignment bdate work_hash new now i u d = (Inr a', d')"
    and "new \<noteq> []" "\<forall>s \<in> set (db_shifts d). se_id s \<noteq> []"
  shows "(\<exists>ev \<in> set (db_shifts d'). sa_shiftEvidenceId a' = Some (se_id ev) \<and> se_ingestSource ev = PLATFORM_ATTESTED
        \<and> se_mappedWorkerId ev = Some (sa_workerId a) \<and> Some (se_clockIn ev) = sa_checkInAt a \<and> se_clockOut ev = sa_checkOutAt a
        \<and> se_workedMinutes ev \<ge> 1)
     \<and> (\<forall>ev \<in> set (db_shifts d). se_externalShiftId ev \<noteq> i \<longrightarrow> ev \<in> set (db_shifts d'))
     \<and> sa_status a' = AssignAPPROVED \<and> find_assignment d' i = Some a'
     \<and> approveAssignment bdate2 work_hash2 new2 now2 i u2 d' = (Inr a', d')"
proof -
  have ai: "sa_id a = i" using find_assignmentD [OF assms(1)] by simp
  obtain s v ci co where s: "find_open_shift d (sa_openShiftId a) = Some s" and v: "find_venue d (os_venueId s) = Some v"
    and ci: "sa_checkInAt a = Some ci" and co: "sa_checkOutAt a = Some co"
    using assms(1-3) by (auto simp: approveAssignment_def split: option.splits if_splits)
  let ?upd = "evidence_data (sa_workerId a) (os_role s) ci co (bdate ci (ven_timezone v)) (work_hash i (sa_workerId a) ci co (os_role s))"
  let ?key = "evidence_key (os_venueId s) staffing_provider i"
  obtain ev shifts where up: "upsert_shift ?key ?upd (?upd (blank_shift_evidence new (os_venueId s) i (sa_workerId a))) (db_shifts d) = (ev, shifts)"
    by fastforce
  let ?f = "\<lambda>a. a\<lparr>sa_status := AssignAPPROVED, sa_approvedAt := Some now, sa_approvedByUserId := Some u, sa_shiftEvidenceId := Some (se_id ev)\<rparr>"
  let ?d1 = "update_assignment i ?f (d\<lparr>db_shifts := shifts\<rparr>)"
  define st where "st \<longleftrightarrow> count_where (\<lambda>x. sa_openShiftId x = sa_openShiftId a \<and> sa_status x \<in> {ACCEPTED, CLOCKED_IN, CLOCKED_OUT})
     (db_assignments ?d1) = 0"
  define j where "j = JObj [(''workedMinutes'', JNum (worked_minutes ci co)), (''businessDate'', JStr (bdate ci (ven_timezone v))),
     (''shiftEvidenceId'', JStr (se_id ev))]"
  have "approveAssignment bdate work_hash new now i u d = (Inr (?f a), write_audit (os_venueId s) (Some u) ''SHIFT_ASSIGNMENT_APPROVED''
      ''ShiftAssignment'' i j (if st then update_shift (sa_openShiftId a) (\<lambda>s. s\<lparr>os_status := OpenCOMPLETED\<rparr>) ?d1 else ?d1))"
    using assms(1,2) s v ci co up ai by (simp add: approveAssignment_def Let_def st_def j_def)
  then have run: "a' = ?f a" and d'_eq: "d' = write_audit (os_venueId s) (Some u) ''SHIFT_ASSIGNMENT_APPROVED'' ''ShiftAssignment'' i j
      (if st then update_shift (sa_openShiftId a) (\<lambda>s. s\<lparr>os_status := OpenCOMPLETED\<rparr>) ?d1 else ?d1)"
    using assms(3) by simp_all
  have d': "db_shifts d' = shifts" "db_venues d' = db_venues d"
    "db_assignments d' = update_where (\<lambda>a. sa_id a = i) ?f (db_assignments d)"
    unfolding d'_eq by (simp_all add: update_assignment_def update_assignments_def update_shift_def)
  have "db_openShifts d' = (if st then update_where (\<lambda>s. os_id s = sa_openShiftId a) (\<lambda>s. s\<lparr>os_status := OpenCOMPLETED\<rparr>) (db_openShifts d)
      else db_openShifts d)"
    unfolding d'_eq by (simp add: update_assignment_def update_assignments_def update_shift_def)
  then obtain s' where s': "find_open_shift d' (sa_openShiftId a) = Some s'" "os_venueId s' = os_venueId s"
    using s by (cases st) (auto simp: find_open_shift_def find_update_where)
  have found: "find_assignment d' i = Some a'"
    using assms(1) ai run by (simp add: find_assignment_def d'(3) find_update_where)
  have saved: "ev \<in> set shifts" "\<forall>x \<in> set (db_shifts d). \<not> ?key x \<longrightarrow> x \<in> set shifts"
    "ev = ?upd (blank_shift_evidence new (os_venueId s) i (sa_workerId a)) \<or> (\<exists>x \<in> set (db_shifts d). ?key x \<and> ev = ?upd x)"
    using upsert_shift_saved [OF up] by auto
  have id: "se_id ev \<noteq> []" using saved(3) assms(4,5) by (auto simp: blank_shift_evidence_def)
  have fields: "se_ingestSource ev = PLATFORM_ATTESTED" "se_mappedWorkerId ev = Some (sa_workerId a)" "se_clockIn ev = ci"
    "se_clockOut ev = Some co" "1 \<le> se_workedMinutes ev"
    using saved(3) by (auto simp: worked_minutes_def)
  have "approveAssignment bdate2 work_hash2 new2 now2 i u2 d' = (Inr a', d')"
    using found s' v id by (simp add: approveAssignment_def run find_venue_def d'(2))
  moreover have "\<exists>ev \<in> set (db_shifts d'). sa_shiftEvidenceId a' = Some (se_id ev) \<and> se_ingestSource ev = PLATFORM_ATTESTED
        \<and> se_mappedWorkerId ev = Some (sa_workerId a) \<and> Some (se_clockIn ev) = sa_checkInAt a \<and> se_clockOut ev = sa_checkOutAt a
        \<and> se_workedMinutes ev \<ge> 1"
    using saved(1) fields ci co run d'(1) by (intro bexI [of _ ev]) auto
  moreover have "\<forall>ev \<in> set (db_shifts d). se_externalShiftId ev \<noteq> i \<longrightarrow> ev \<in> set (db_shifts d')"
    using saved(2) d'(1) by (auto simp: evidence_key_def)
  ultimately show ?thesis using found run by simp
qed

section \<open>Declining what was cancelled\<close>

text \<open>(C29) A declined invitation opens a cancelled shift.  \<open>DECLINE\<close> does not look at the shift's status and
  then sets it from the head count: any connected worker who declines a cancelled shift with a free
  place, invited or not, puts it back to \<open>OPEN\<close>, where workers can accept it.\<close>

theorem decline_reopens_cancelled:
  assumes "find_open_shift d i = Some s" "os_status s = OpenCANCELLED" "int (active_count d i) < os_headcount s"
    and "worker_by_user d u = Some k" "connected_to d (os_venueId s) (wk_id k)"
  shows "\<exists>a s'. fst (respond new now i u DECLINE d) = Inr a
     \<and> find_open_shift (snd (respond new now i u DECLINE d)) i = Some s' \<and> os_status s' = OpenOPEN"
proof -
  have si: "os_id s = i" using find_open_shiftD [OF assms(1)] by simp
  obtain saved d1 where run: "upsert_assignment new i (wk_id k) (responded now DECLINE) d = (saved, d1)" by fastforce
  have keys: "sa_id (responded now DECLINE a) = sa_id a \<and> sa_openShiftId (responded now DECLINE a) = sa_openShiftId a
     \<and> sa_workerId (responded now DECLINE a) = sa_workerId a" for a by (simp add: responded_def)
  have quiet: "\<not> is_active (responded now DECLINE a)" for a by (simp add: responded_def active_simps)
  have "active_count d1 i \<le> active_count d i"
  proof (cases "assignment_of d i (wk_id k)")
    case None
    have "\<not> is_active saved" using run None quiet by (auto simp: upsert_assignment_def)
    then show ?thesis using upsert_keys(2) [OF keys run None] by (simp add: active_count_def count_where_def)
  next
    case (Some a)
    show ?thesis
      unfolding conjunct2 [OF upsert_keys(3) [OF keys run Some]]
      using calm_update_assignments [OF keys, of d "\<lambda>a. sa_openShiftId a = i \<and> sa_workerId a = wk_id k"] quiet by (auto simp: calm_def)
  qed
  then have room: "\<not> os_headcount s \<le> int (active_count d1 i)" using assms(3) by linarith
  have "find_open_shift d1 i = Some s" using upsert_keys(1) [OF keys run] assms(1) by (simp add: find_open_shift_def)
  then show ?thesis
    using assms si room
    by (simp add: respond_def getWorker_def getShift_def respond_tx_def Let_def run update_shift_def find_open_shift_def find_update_where)
qed

section \<open>Examples\<close>

definition demo_shift :: open_shift where
  "demo_shift = \<lparr>os_id = ''h1'', os_venueId = ''v1'', os_role = ''server'', os_description = None, os_startsAt = 0, os_endsAt = 9,
     os_hourlyRateUsdCents = 0, os_expectedTipUsdCents = 0, os_headcount = 1, os_status = OpenOPEN, os_createdByUserId = ''u0'',
     os_publishedAt = None, os_cancelledAt = None\<rparr>"

definition staffing_demo :: db where
  "staffing_demo = demo_db\<lparr>db_openShifts := [demo_shift],
     db_workers := [\<lparr>wk_id = ''w1'', wk_userId = ''u1'', wk_defaultWalletId = None\<rparr>],
     db_externals := [\<lparr>ext_id = ''x1'', ext_workerId = ''w1'', ext_venueId = ''v1'', ext_provider = ''csv'', ext_externalWorkerId = ''e1'',
        ext_mappingStatus = MappingCONFIRMED, ext_verifiedBy = None, ext_verifiedAt = None\<rparr>]\<rparr>"

definition demo_assignment :: shift_assignment where
  "demo_assignment = (blank_assignment ''a1'' ''h1'' ''w1'')\<lparr>sa_status := CLOCKED_OUT, sa_checkInAt := Some 0, sa_checkOutAt := Some 5\<rparr>"

lemmas staffing_demo_defs = staffing_demo_def demo_shift_def demo_assignment_def blank_assignment_def demo_db_def empty_db_def
  find_open_shift_def find_assignment_def worker_by_user_def connected_to_def


theorem approval_produces_evidence_witness:
  "sa_status (projr (fst (approveAssignment (\<lambda>_ _. ''2026-01-02'') (\<lambda>_ _ _ _ _. ''h'') ''e9'' 7 ''a1'' ''u0''
      (staffing_demo\<lparr>db_assignments := [demo_assignment]\<rparr>)))) = AssignAPPROVED"
proof -
  let ?r = "approveAssignment (\<lambda>_ _. ''2026-01-02'') (\<lambda>_ _ _ _ _. ''h'') ''e9'' 7 ''a1'' ''u0'' (staffing_demo\<lparr>db_assignments := [demo_assignment]\<rparr>)"
  have "\<exists>a. fst ?r = Inr a"
    by (simp add: approveAssignment_def staffing_demo_defs find_venue_def Let_def split: prod.split)
  then obtain a where "?r = (Inr a, snd ?r)" by (metis prod.collapse)
  from approval_produces_evidence [OF _ _ this, of demo_assignment] this show ?thesis
    by (simp add: staffing_demo_defs) (metis fst_conv sum.sel(2))
qed

theorem decline_reopens_cancelled_witness:
  "\<exists>s'. find_open_shift (snd (respond ''a9'' 7 ''h1'' ''u1'' DECLINE
      (staffing_demo\<lparr>db_openShifts := [demo_shift\<lparr>os_status := OpenCANCELLED\<rparr>]\<rparr>))) ''h1'' = Some s' \<and> os_status s' = OpenOPEN"
proof -
  let ?s = "demo_shift\<lparr>os_status := OpenCANCELLED\<rparr>"
  let ?d = "staffing_demo\<lparr>db_openShifts := [?s]\<rparr>"
  have "find_open_shift ?d ''h1'' = Some ?s" "os_status ?s = OpenCANCELLED" "int (active_count ?d ''h1'') < os_headcount ?s"
    "worker_by_user ?d ''u1'' = Some \<lparr>wk_id = ''w1'', wk_userId = ''u1'', wk_defaultWalletId = None\<rparr>"
    "connected_to ?d (os_venueId ?s) (wk_id \<lparr>wk_id = ''w1'', wk_userId = ''u1'', wk_defaultWalletId = None\<rparr>)"
    by (simp_all add: staffing_demo_defs active_count_def count_where_def)
  from decline_reopens_cancelled [OF this, of "''a9''" 7] show ?thesis by blast
qed

end
