(* ===== verification/Mappings.thy ===== *)
theory Mappings
  imports Policies Payouts
begin

text \<open>
  \<open>apps/api/src/mappings/mappings.service.ts\<close>: connecting the worker ids of a venue's provider to
  accounts.  A venue requests a connection (creating the account for an unknown e-mail address), the worker
  accepts or rejects it, and acceptance attaches the evidence and the held shares that were
  computed before.  The invitation's wording is not modelled, only to whom it goes.
\<close>

section \<open>Outside\<close>

record mapping_world =
  mw_now :: instant
  mw_noon :: "string \<Rightarrow> instant"
  mw_entry_id :: "nat \<Rightarrow> id"
  mw_alert_id :: "nat \<Rightarrow> id"
  mw_user_id :: id
  mw_worker_id :: id
  mw_mapping_id :: id
  mw_mail_enabled :: bool
  mw_mail :: "string \<Rightarrow> http_error + unit"

definition first_distinct :: "'a list \<Rightarrow> 'a list" where
  "first_distinct xs = rev (remdups (rev xs))"

section \<open>Unmapped workers\<close>

record unmapped_view =
  uv_shiftWorkers :: "(string \<times> string) list"
  uv_pending :: "external_account list"

definition listUnmapped :: "id \<Rightarrow> db \<Rightarrow> unmapped_view" where
  "listUnmapped venueId d =
     (let shifts = first_distinct (map (\<lambda>s. (se_provider s, se_externalWorkerId s))
            (filter (\<lambda>s. se_venueId s = venueId \<and> se_mappedWorkerId s = None) (db_shifts d)));
          pending = filter (\<lambda>x. ext_venueId x = venueId \<and> ext_mappingStatus x = MappingPENDING) (db_externals d);
          pendingKeys = map (\<lambda>x. ext_provider x @ '':'' @ ext_externalWorkerId x) pending
      in \<lparr>uv_shiftWorkers = filter (\<lambda>(p, e). p @ '':'' @ e \<notin> set pendingKeys) shifts, uv_pending = pending\<rparr>)"

section \<open>Requesting a connection\<close>

record mapping_request =
  mq_workerId :: "id option"
  mq_workerEmail :: "string option"
  mq_venueId :: id
  mq_provider :: string
  mq_externalWorkerId :: string

record mapping_created =
  mc_mapping :: external_account
  mc_invitationEmailSent :: bool
  mc_accountCreated :: bool
  mc_heldUsdCents :: cents

definition user_by_mail :: "db \<Rightarrow> string \<Rightarrow> user option" where
  "user_by_mail d email = find (\<lambda>u. usr_email u = email) (db_users d)"

text \<open>The account of the request's worker: its id, whether it was created, and the tables.\<close>

definition resolve_worker :: "mapping_world \<Rightarrow> mapping_request \<Rightarrow> db \<Rightarrow> id \<times> bool \<times> db" where
  "resolve_worker w inp d =
     (if truthy (mq_workerId inp) then (the (mq_workerId inp), False, d)
      else
        let email = js_lower (or_else (mq_workerEmail inp) []);
            created = \<lparr>usr_id = mw_user_id w, usr_authUserId = ''otp:'' @ email, usr_email = email,
              usr_displayName = part 0 (split_on (CHR ''@'') email), usr_role = RoleWORKER\<rparr>;
            new_worker = (\<lambda>userId. \<lparr>wk_id = mw_worker_id w, wk_userId = userId, wk_defaultWalletId = None\<rparr>)
        in (case user_by_mail d email of
             None \<Rightarrow> (mw_worker_id w, True, d\<lparr>db_users := db_users d @ [created], db_workers := db_workers d @ [new_worker (mw_user_id w)]\<rparr>)
           | Some u \<Rightarrow> (case worker_by_user d (usr_id u) of
               Some k \<Rightarrow> (wk_id k, False, d)
             | None \<Rightarrow> (mw_worker_id w, False, d\<lparr>db_workers := db_workers d @ [new_worker (usr_id u)]\<rparr>))))"

definition account_key :: "id \<Rightarrow> string \<Rightarrow> string \<Rightarrow> external_account \<Rightarrow> bool" where
  "account_key venueId provider externalWorkerId x \<longleftrightarrow>
     ext_venueId x = venueId \<and> ext_provider x = provider \<and> ext_externalWorkerId x = externalWorkerId"

definition requested :: "id \<Rightarrow> external_account \<Rightarrow> external_account" where
  "requested workerId x = x\<lparr>ext_workerId := workerId, ext_mappingStatus := MappingPENDING, ext_verifiedBy := None, ext_verifiedAt := None\<rparr>"

text \<open>A share that waits for its worker's connection.\<close>

definition is_held :: "db \<Rightarrow> id \<Rightarrow> string \<Rightarrow> string \<Rightarrow> worker_allocation \<Rightarrow> bool" where
  "is_held d venueId provider externalWorkerId a \<longleftrightarrow> wa_workerId a = None \<and> wa_provider a = Some provider
     \<and> wa_externalWorkerId a = Some externalWorkerId
     \<and> (\<exists>b \<in> set (db_batches d). ab_id b = wa_batchId a \<and> ab_venueId b = venueId)"

definition held_rows :: "db \<Rightarrow> id \<Rightarrow> string \<Rightarrow> string \<Rightarrow> worker_allocation list" where
  "held_rows d venueId provider externalWorkerId = filter (is_held d venueId provider externalWorkerId) (db_allocations d)"

definition createMapping :: "mapping_world \<Rightarrow> mapping_request \<Rightarrow> db \<Rightarrow> (mapping_created, db) outcome" where
  "createMapping w inp d = (case resolve_worker w inp d of (workerId, accountCreated, d1) \<Rightarrow>
     if find_worker d1 workerId = None then (Inl (NotFoundException ''Worker ${workerId} not found''), d1)
     else
       let key = account_key (mq_venueId inp) (mq_provider inp) (mq_externalWorkerId inp);
           fresh = requested workerId \<lparr>ext_id = mw_mapping_id w, ext_workerId = workerId, ext_venueId = mq_venueId inp,
             ext_provider = mq_provider inp, ext_externalWorkerId = mq_externalWorkerId inp, ext_mappingStatus = MappingPENDING,
             ext_verifiedBy = None, ext_verifiedAt = None\<rparr>;
           (mapping, externals) = (case find key (db_externals d1) of
              Some x \<Rightarrow> (requested workerId x, update_where key (requested workerId) (db_externals d1))
            | None \<Rightarrow> (fresh, db_externals d1 @ [fresh]));
           d2 = d1\<lparr>db_externals := externals\<rparr>;
           held = sum_list (map wa_netAllocatedUsdCents (held_rows d2 (mq_venueId inp) (mq_provider inp) (mq_externalWorkerId inp)));
           sent = truthy (mq_workerEmail inp) \<and> mw_mail_enabled w \<and> is_ok (mw_mail w (the (mq_workerEmail inp)))
       in (Inr \<lparr>mc_mapping = mapping, mc_invitationEmailSent = sent, mc_accountCreated = accountCreated, mc_heldUsdCents = held\<rparr>, d2))"

section \<open>Accepting it\<close>

text \<open>One held share: merged into the worker's row of the same batch, or given to the worker.\<close>

definition attach_one :: "id \<Rightarrow> worker_allocation \<Rightarrow> db \<Rightarrow> db" where
  "attach_one workerId h d = (case find (\<lambda>a. wa_batchId a = wa_batchId h \<and> wa_workerId a = Some workerId) (db_allocations d) of
       Some e \<Rightarrow> d\<lparr>db_allocations := delete_where (\<lambda>a. wa_id a = wa_id h)
           (update_where (\<lambda>a. wa_id a = wa_id e) (\<lambda>a. a\<lparr>wa_pooledTipUsdCents := wa_pooledTipUsdCents a + wa_pooledTipUsdCents h,
              wa_netAllocatedUsdCents := wa_netAllocatedUsdCents a + wa_netAllocatedUsdCents h\<rparr>) (db_allocations d))\<rparr>
     | None \<Rightarrow> update_allocation (wa_id h) (\<lambda>a. a\<lparr>wa_workerId := Some workerId\<rparr>) d)"

definition attachHeldAllocations :: "external_account \<Rightarrow> db \<Rightarrow> nat \<times> db" where
  "attachHeldAllocations m d =
     (let held = held_rows d (ext_venueId m) (ext_provider m) (ext_externalWorkerId m)
      in (length held, fold (attach_one (ext_workerId m)) held d))"

record mapping_answer =
  ma_mapping :: external_account
  ma_backfilledShifts :: nat
  ma_heldAllocationsAttached :: nat

definition find_mapping :: "db \<Rightarrow> id \<Rightarrow> external_account option" where
  "find_mapping d i = find (\<lambda>x. ext_id x = i) (db_externals d)"

definition update_mapping :: "id \<Rightarrow> (external_account \<Rightarrow> external_account) \<Rightarrow> db \<Rightarrow> db" where
  "update_mapping i f d = d\<lparr>db_externals := update_where (\<lambda>x. ext_id x = i) f (db_externals d)\<rparr>"

definition verifyMapping :: "mapping_world \<Rightarrow> id \<Rightarrow> id \<Rightarrow> db \<Rightarrow> (mapping_answer, db) outcome" where
  "verifyMapping w i verifiedBy d = (case find_mapping d i of
       None \<Rightarrow> (Inl (NotFoundException ''Mapping ${id} not found''), d)
     | Some m \<Rightarrow>
         if ext_mappingStatus m = MappingREJECTED
         then (Inl (BadRequestException ''Rejected mapping cannot be verified''), d)
         else
           let f = (\<lambda>x. x\<lparr>ext_mappingStatus := MappingCONFIRMED, ext_verifiedBy := Some verifiedBy, ext_verifiedAt := Some (mw_now w)\<rparr>);
               P = (\<lambda>s. se_venueId s = ext_venueId m \<and> se_provider s = ext_provider m
                    \<and> se_externalWorkerId s = ext_externalWorkerId m \<and> se_mappedWorkerId s = None);
               backfilled = count_where P (db_shifts d);
               d1 = (update_mapping i f d)\<lparr>db_shifts := update_where P (\<lambda>s. s\<lparr>se_mappedWorkerId := Some (ext_workerId m)\<rparr>) (db_shifts d)\<rparr>;
               (attached, d2) = attachHeldAllocations m d1;
               d3 = (if backfilled > 0 \<or> attached > 0
                 then snd (rebuildVenueIncome (mw_noon w) (mw_entry_id w) (mw_alert_id w) (mw_now w) (ext_venueId m) (Some verifiedBy) SYSTEM d2)
                 else d2)
           in (Inr \<lparr>ma_mapping = f m, ma_backfilledShifts = backfilled, ma_heldAllocationsAttached = attached\<rparr>, d3))"

datatype decision = AcceptMapping | RejectMapping

definition respondToMapping :: "mapping_world \<Rightarrow> id \<Rightarrow> id \<Rightarrow> decision \<Rightarrow> db \<Rightarrow> (mapping_answer, db) outcome" where
  "respondToMapping w i userId dec d = (case find_mapping d i of
       None \<Rightarrow> (Inl (NotFoundException ''Mapping ${id} not found''), d)
     | Some m \<Rightarrow> (case find_worker d (ext_workerId m) of
         None \<Rightarrow> (Inl relation_error, d)
       | Some k \<Rightarrow>
           let f = (\<lambda>x. x\<lparr>ext_mappingStatus := MappingREJECTED, ext_verifiedBy := Some userId, ext_verifiedAt := Some (mw_now w)\<rparr>)
           in if wk_userId k \<noteq> userId
              then (Inl (ForbiddenException ''This connection request belongs to another worker''), d)
              else if dec = RejectMapping then
                (if ext_mappingStatus m = MappingCONFIRMED
                 then (Inl (BadRequestException ''A confirmed mapping cannot be rejected''), d)
                 else (Inr \<lparr>ma_mapping = f m, ma_backfilledShifts = 0, ma_heldAllocationsAttached = 0\<rparr>, update_mapping i f d))
              else if ext_mappingStatus m = MappingREJECTED
              then (Inl (BadRequestException ''A rejected mapping requires a new venue request''), d)
              else if ext_mappingStatus m = MappingCONFIRMED
              then (Inr \<lparr>ma_mapping = m, ma_backfilledShifts = 0, ma_heldAllocationsAttached = 0\<rparr>, d)
              else verifyMapping w i userId d))"

section \<open>Attaching conserves the pool\<close>

lemma key_fresh: "distinct (map k (a # t)) \<Longrightarrow> x \<in> set t \<Longrightarrow> k x \<noteq> k a"
  by (auto simp: image_iff)

lemma batch_total_of: "batch_total (d\<lparr>db_allocations := t\<rparr>) i = sum_list (map wa_netAllocatedUsdCents (filter (\<lambda>a. wa_batchId a = i) t))"
  by (simp add: batch_total_def)

lemma db_allocations_of: "db_allocations (d\<lparr>db_allocations := t\<rparr>) = t"
  by simp

lemma batch_total_delete:
  assumes "distinct (map wa_id t)" "h \<in> set t"
  shows "sum_list (map wa_netAllocatedUsdCents (filter (\<lambda>a. wa_batchId a = i) (delete_where (\<lambda>a. wa_id a = wa_id h) t)))
    = sum_list (map wa_netAllocatedUsdCents (filter (\<lambda>a. wa_batchId a = i) t)) - (if wa_batchId h = i then wa_netAllocatedUsdCents h else 0)"
  using assms
proof (induction t)
  case (Cons a t)
  show ?case
  proof (cases "h = a")
    case True
    then have "\<And>x. x \<in> set t \<Longrightarrow> wa_id x \<noteq> wa_id h" using key_fresh [OF Cons.prems(1)] by blast
    then have "delete_where (\<lambda>x. wa_id x = wa_id h) t = t" unfolding delete_where_def by (intro filter_True) blast
    then show ?thesis using True by (simp add: delete_where_def)
  next
    case False
    then have ht: "h \<in> set t" using Cons.prems(2) by simp
    have "wa_id h \<noteq> wa_id a" by (rule key_fresh [OF Cons.prems(1) ht])
    note ht this
    then show ?thesis using Cons by (simp add: delete_where_def)
  qed
qed simp

lemma batch_total_bump:
  assumes "distinct (map wa_id t)" "e \<in> set t" "\<And>a. wa_batchId (f a) = wa_batchId a \<and> wa_netAllocatedUsdCents (f a) = wa_netAllocatedUsdCents a + n"
  shows "sum_list (map wa_netAllocatedUsdCents (filter (\<lambda>a. wa_batchId a = i) (update_where (\<lambda>a. wa_id a = wa_id e) f t)))
    = sum_list (map wa_netAllocatedUsdCents (filter (\<lambda>a. wa_batchId a = i) t)) + (if wa_batchId e = i then n else 0)"
  using assms(1,2)
proof (induction t)
  case (Cons a t)
  show ?case
  proof (cases "e = a")
    case True
    then have "\<And>x. x \<in> set t \<Longrightarrow> wa_id x \<noteq> wa_id e" using key_fresh [OF Cons.prems(1)] by blast
    then have "update_where (\<lambda>x. wa_id x = wa_id e) f t = t" by (intro update_where_none) blast
    then show ?thesis using True assms(3) by simp
  next
    case False
    then have et: "e \<in> set t" using Cons.prems(2) by simp
    have "wa_id e \<noteq> wa_id a" by (rule key_fresh [OF Cons.prems(1) et])
    note et this
    then show ?thesis using Cons by simp
  qed
qed simp

text \<open>One attachment: totals stay, ids stay unique, and the other held rows are untouched.\<close>

lemma attach_one_step:
  assumes "distinct (map wa_id (db_allocations d))" "h \<in> set (db_allocations d)" "wa_workerId h = None"
  shows "batch_total (attach_one k h d) i = batch_total d i" "distinct (map wa_id (db_allocations (attach_one k h d)))"
    "g \<in> set (db_allocations d) \<Longrightarrow> wa_workerId g = None \<Longrightarrow> g \<noteq> h \<Longrightarrow> g \<in> set (db_allocations (attach_one k h d))"
    "wa_id ` set (db_allocations (attach_one k h d)) \<subseteq> wa_id ` set (db_allocations d)"
    "wa_batchId ` set (db_allocations (attach_one k h d)) \<subseteq> wa_batchId ` set (db_allocations d)"
proof -
  let ?up = "\<lambda>e. update_where (\<lambda>a. wa_id a = wa_id e) (\<lambda>a. a\<lparr>wa_pooledTipUsdCents := wa_pooledTipUsdCents a + wa_pooledTipUsdCents h,
      wa_netAllocatedUsdCents := wa_netAllocatedUsdCents a + wa_netAllocatedUsdCents h\<rparr>) (db_allocations d)"
  have same: "x = y" if "x \<in> set (db_allocations d)" "y \<in> set (db_allocations d)" "wa_id x = wa_id y" for x y
    using assms(1) that by (auto simp: distinct_map dest: inj_onD)
  have all: "batch_total (attach_one k h d) i = batch_total d i \<and> distinct (map wa_id (db_allocations (attach_one k h d)))
    \<and> (\<forall>g \<in> set (db_allocations d). wa_workerId g = None \<longrightarrow> g \<noteq> h \<longrightarrow> g \<in> set (db_allocations (attach_one k h d)))
    \<and> wa_id ` set (db_allocations (attach_one k h d)) \<subseteq> wa_id ` set (db_allocations d)
    \<and> wa_batchId ` set (db_allocations (attach_one k h d)) \<subseteq> wa_batchId ` set (db_allocations d)"
  proof (cases "find (\<lambda>a. wa_batchId a = wa_batchId h \<and> wa_workerId a = Some k) (db_allocations d)")
    case None
    have ids: "map wa_id (update_where (\<lambda>a. wa_id a = wa_id h) (\<lambda>a. a\<lparr>wa_workerId := Some k\<rparr>) (db_allocations d)) = map wa_id (db_allocations d)"
      by (simp add: map_update_where)
    have tot: "map (\<lambda>a. (wa_batchId a, wa_netAllocatedUsdCents a)) (update_where (\<lambda>a. wa_id a = wa_id h) (\<lambda>a. a\<lparr>wa_workerId := Some k\<rparr>) (db_allocations d))
        = map (\<lambda>a. (wa_batchId a, wa_netAllocatedUsdCents a)) (db_allocations d)"
      by (rule map_update_where) simp
    have "batch_total (update_allocation (wa_id h) (\<lambda>a. a\<lparr>wa_workerId := Some k\<rparr>) d) i = batch_total d i"
      unfolding batch_total_view ledger_view_def fst_conv snd_conv update_allocation_def by (simp add: tot)
    moreover have "g \<in> set (update_where (\<lambda>a. wa_id a = wa_id h) (\<lambda>a. a\<lparr>wa_workerId := Some k\<rparr>) (db_allocations d))"
      if "g \<in> set (db_allocations d)" "g \<noteq> h" for g
      unfolding in_update_where using that same [OF that(1) assms(2)] by (intro bexI [of _ g]) auto
    moreover have "wa_id ` set (update_where (\<lambda>a. wa_id a = wa_id h) (\<lambda>a. a\<lparr>wa_workerId := Some k\<rparr>) (db_allocations d)) = wa_id ` set (db_allocations d)"
      using ids by (metis list.set_map)
    moreover have "map wa_batchId (update_where (\<lambda>a. wa_id a = wa_id h) (\<lambda>a. a\<lparr>wa_workerId := Some k\<rparr>) (db_allocations d)) = map wa_batchId (db_allocations d)"
      by (rule map_update_where) simp
    then have "wa_batchId ` set (update_where (\<lambda>a. wa_id a = wa_id h) (\<lambda>a. a\<lparr>wa_workerId := Some k\<rparr>) (db_allocations d)) = wa_batchId ` set (db_allocations d)"
      by (metis list.set_map)
    moreover have "db_allocations (attach_one k h d) = update_where (\<lambda>a. wa_id a = wa_id h) (\<lambda>a. a\<lparr>wa_workerId := Some k\<rparr>) (db_allocations d)"
      "attach_one k h d = update_allocation (wa_id h) (\<lambda>a. a\<lparr>wa_workerId := Some k\<rparr>) d"
      using None by (simp_all add: attach_one_def update_allocation_def)
    ultimately show ?thesis using assms(1) ids by simp
  next
    case (Some e)
    then have e: "e \<in> set (db_allocations d)" "wa_batchId e = wa_batchId h" "wa_workerId e = Some k" using find_SomeD [OF Some] by simp_all
    have eh: "wa_id h \<noteq> wa_id e"
    proof
      assume "wa_id h = wa_id e"
      from same [OF assms(2) e(1) this] assms(3) e(3) show False by simp
    qed
    have ids: "map wa_id (?up e) = map wa_id (db_allocations d)" by (rule map_update_where) simp
    have h: "h \<in> set (?up e)" unfolding in_update_where using assms(2) eh by (intro bexI [of _ h]) simp_all
    have ao: "attach_one k h d = d\<lparr>db_allocations := delete_where (\<lambda>a. wa_id a = wa_id h) (?up e)\<rparr>"
      unfolding attach_one_def Some option.case by (rule refl)
    have "distinct (map wa_id (?up e))" unfolding ids by (rule assms(1))
    note deleted = batch_total_delete [OF this h, of i]
    have bumped: "sum_list (map wa_netAllocatedUsdCents (filter (\<lambda>a. wa_batchId a = i) (?up e)))
      = sum_list (map wa_netAllocatedUsdCents (filter (\<lambda>a. wa_batchId a = i) (db_allocations d)))
        + (if wa_batchId e = i then wa_netAllocatedUsdCents h else 0)"
      by (rule batch_total_bump [OF assms(1) e(1)]) simp
    have "batch_total (d\<lparr>db_allocations := delete_where (\<lambda>a. wa_id a = wa_id h) (?up e)\<rparr>) i = batch_total d i"
      unfolding batch_total_of deleted bumped e(2) unfolding batch_total_def by (rule add_diff_cancel_right')
    then have "batch_total (attach_one k h d) i = batch_total d i" unfolding ao .
    moreover have "distinct (map wa_id (delete_where (\<lambda>a. wa_id a = wa_id h) (?up e)))"
      unfolding delete_where_def by (rule distinct_map_filter) (unfold ids, rule assms(1))
    moreover have "g \<in> set (delete_where (\<lambda>a. wa_id a = wa_id h) (?up e))"
      if "g \<in> set (db_allocations d)" "wa_workerId g = None" "g \<noteq> h" for g
    proof -
      have "g \<noteq> e" using that(2) e(3) by auto
      then have "wa_id g \<noteq> wa_id e" "wa_id g \<noteq> wa_id h" using same [OF that(1) e(1)] same [OF that(1) assms(2)] that(3) by blast+
      then show ?thesis unfolding delete_where_def set_filter in_update_where mem_Collect_eq using that(1)
        by (intro conjI bexI [of _ g]) simp_all
    qed
    moreover have "wa_id ` set (delete_where P (?up e)) \<subseteq> wa_id ` set (db_allocations d)" for P
    proof -
      have "wa_id ` set (delete_where P (?up e)) \<subseteq> set (map wa_id (?up e))" unfolding set_map by (rule image_mono) (simp only: delete_where_def filter_is_subset)
      then show ?thesis unfolding ids set_map .
    qed
    moreover have "wa_batchId ` set (delete_where P (?up e)) \<subseteq> wa_batchId ` set (db_allocations d)" for P
    proof -
      have bats: "map wa_batchId (?up e) = map wa_batchId (db_allocations d)" by (rule map_update_where) simp
      have "wa_batchId ` set (delete_where P (?up e)) \<subseteq> set (map wa_batchId (?up e))" unfolding set_map by (rule image_mono) (simp only: delete_where_def filter_is_subset)
      then show ?thesis unfolding bats set_map .
    qed
    ultimately show ?thesis unfolding ao db_allocations_of by blast
  qed
  then show "batch_total (attach_one k h d) i = batch_total d i" "distinct (map wa_id (db_allocations (attach_one k h d)))"
    "g \<in> set (db_allocations d) \<Longrightarrow> wa_workerId g = None \<Longrightarrow> g \<noteq> h \<Longrightarrow> g \<in> set (db_allocations (attach_one k h d))"
    "wa_id ` set (db_allocations (attach_one k h d)) \<subseteq> wa_id ` set (db_allocations d)"
    "wa_batchId ` set (db_allocations (attach_one k h d)) \<subseteq> wa_batchId ` set (db_allocations d)"
    by blast+
qed

lemma attach_frame [simp]:
  "db_batches (attach_one k h d) = db_batches d" "db_tips (attach_one k h d) = db_tips d"
  by (simp_all add: attach_one_def update_allocation_def split: option.split)

lemma attach_fold:
  assumes "distinct (map wa_id (db_allocations d))" "\<forall>h \<in> set hs. h \<in> set (db_allocations d) \<and> wa_workerId h = None" "distinct hs"
  shows "batch_total (fold (attach_one k) hs d) i = batch_total d i \<and> distinct (map wa_id (db_allocations (fold (attach_one k) hs d)))
     \<and> wa_batchId ` set (db_allocations (fold (attach_one k) hs d)) \<subseteq> wa_batchId ` set (db_allocations d)
     \<and> db_batches (fold (attach_one k) hs d) = db_batches d \<and> db_tips (fold (attach_one k) hs d) = db_tips d"
  using assms
proof (induction hs arbitrary: d)
  case (Cons h hs)
  have h: "h \<in> set (db_allocations d)" "wa_workerId h = None" using Cons.prems(2) by auto
  note step = attach_one_step [OF Cons.prems(1) h]
  have "\<forall>g \<in> set hs. g \<in> set (db_allocations (attach_one k h d)) \<and> wa_workerId g = None"
  proof
    fix g
    assume g: "g \<in> set hs"
    then have "g \<noteq> h" "g \<in> set (db_allocations d)" "wa_workerId g = None" using Cons.prems(2,3) by auto
    then show "g \<in> set (db_allocations (attach_one k h d)) \<and> wa_workerId g = None" using step(3) by blast
  qed
  from Cons.IH [OF step(2) this] Cons.prems(3) step(1,5) show ?case by (simp add: subset_trans) blast
qed simp

text \<open>(C15) Connecting an account conserves the pool.  Whatever the worker answers, every batch keeps its
  total, so the ledger stays balanced: held shares move to the worker's row or to the worker, and
  none is lost or counted twice.\<close>

theorem mapping_conserves_batches:
  assumes "distinct (map wa_id (db_allocations d))" "ledger_inv d"
    and "respondToMapping w i u dec d = (r, d')"
  shows "ledger_inv d' \<and> (\<forall>b. batch_total d' b = batch_total d b) \<and> db_batches d' = db_batches d"
proof -
  have attach: "ledger_inv d2 \<and> (\<forall>b. batch_total d2 b = batch_total d b) \<and> db_batches d2 = db_batches d"
    if "attachHeldAllocations m d1 = (n, d2)" "db_allocations d1 = db_allocations d" "db_batches d1 = db_batches d" "db_tips d1 = db_tips d"
    for m d1 n d2
  proof -
    let ?hs = "held_rows d1 (ext_venueId m) (ext_provider m) (ext_externalWorkerId m)"
    have "distinct (db_allocations d)" using assms(1) by (simp add: distinct_map)
    then have "distinct ?hs" "\<forall>h \<in> set ?hs. h \<in> set (db_allocations d1) \<and> wa_workerId h = None"
      using that(2) by (auto simp: held_rows_def is_held_def)
    note fold = attach_fold [OF _ this(2,1), of "ext_workerId m"]
    have d2: "d2 = fold (attach_one (ext_workerId m)) ?hs d1" using that(1) by (simp add: attachHeldAllocations_def Let_def)
    have bt: "batch_total d1 b = batch_total d b" for b using that(2) by (simp add: batch_total_def)
    have "ledger_inv d1" using assms(2) that(2-4) by (simp add: ledger_inv_def bt)
    have f: "batch_total d2 b = batch_total d b" "wa_batchId ` set (db_allocations d2) \<subseteq> wa_batchId ` set (db_allocations d)"
      "db_batches d2 = db_batches d" "db_tips d2 = db_tips d" for b
      using fold assms(1) that(2-4) unfolding d2 by (simp_all add: bt)
    have "wa_batchId ` set (db_allocations d) \<subseteq> ab_id ` set (db_batches d)" using assms(2) by (auto simp: ledger_inv_def)
    then have "\<forall>a \<in> set (db_allocations d2). wa_batchId a \<in> ab_id ` set (db_batches d)" using f(2) by blast
    then show ?thesis using assms(2) f(1,3,4) by (simp add: ledger_inv_def)
  qed
  have rebuild: "ledger_inv (snd (rebuildVenueIncome n e a t v x s d2)) = ledger_inv d2"
    "batch_total (snd (rebuildVenueIncome n e a t v x s d2)) b = batch_total d2 b"
    "db_batches (snd (rebuildVenueIncome n e a t v x s d2)) = db_batches d2" for n e a t v x s d2 b
    by (auto simp: rebuildVenueIncome_def rebuildVenueIncomeLocked_def Let_def ledger_inv_def batch_total_def split: option.splits)
  have same: "ledger_inv (update_mapping i f d) = ledger_inv d" "batch_total (update_mapping i f d) b = batch_total d b"
    "db_batches (update_mapping i f d) = db_batches d" "db_allocations (update_mapping i f d) = db_allocations d"
    "db_tips (update_mapping i f d) = db_tips d" for f b
    by (simp_all add: update_mapping_def ledger_inv_def batch_total_def)
  have verify: "ledger_inv d' \<and> (\<forall>b. batch_total d' b = batch_total d b) \<and> db_batches d' = db_batches d"
    if "verifyMapping w i u d = (r, d')" for r d'
  proof (cases "find_mapping d i")
    case None
    then show ?thesis using that assms(2) by (simp add: verifyMapping_def)
  next
    case (Some m)
    show ?thesis
    proof (cases "ext_mappingStatus m = MappingREJECTED")
      case True
      then show ?thesis using that Some assms(2) by (simp add: verifyMapping_def)
    next
      case False
      let ?d1 = "\<lambda>f x. (update_mapping i f d)\<lparr>db_shifts := x\<rparr>"
      have "ledger_inv (snd (attachHeldAllocations m (?d1 f x))) \<and> (\<forall>b. batch_total (snd (attachHeldAllocations m (?d1 f x))) b = batch_total d b)
          \<and> db_batches (snd (attachHeldAllocations m (?d1 f x))) = db_batches d" for f x
        by (rule attach [OF prod.collapse [symmetric]]) (simp_all add: same)
      then show ?thesis
        using that Some False by (simp add: verifyMapping_def Let_def case_prod_unfold split: if_splits) (auto simp: rebuild)
    qed
  qed
  show ?thesis
    using assms(2,3) verify by (auto simp: respondToMapping_def Let_def same split: option.splits if_splits)
qed

definition demo_mapping :: external_account where
  "demo_mapping = \<lparr>ext_id = ''m1'', ext_workerId = ''w1'', ext_venueId = ''v1'', ext_provider = ''csv'',
     ext_externalWorkerId = ''e1'', ext_mappingStatus = MappingPENDING, ext_verifiedBy = None, ext_verifiedAt = None\<rparr>"

definition held_allocation :: worker_allocation where
  "held_allocation = demo_allocation\<lparr>wa_id := ''a1'', wa_workerId := None, wa_provider := Some ''csv'',
     wa_externalWorkerId := Some ''e1'', wa_netAllocatedUsdCents := 300\<rparr>"

definition mapping_demo :: db where
  "mapping_demo = demo_db\<lparr>db_workers := [\<lparr>wk_id = ''w1'', wk_userId = ''u1'', wk_defaultWalletId = None\<rparr>],
     db_externals := [demo_mapping], db_batches := [demo_batch\<lparr>ab_status := PARTIALLY_PAID, ab_tipPoolAmountUsdCents := 800\<rparr>],
     db_allocations := [demo_allocation\<lparr>wa_payoutStatus := AllocPAID\<rparr>, held_allocation]\<rparr>"

definition mapping_world0 :: mapping_world where
  "mapping_world0 = \<lparr>mw_now = 0, mw_noon = \<lambda>_. 0, mw_entry_id = \<lambda>_. ''i'', mw_alert_id = \<lambda>_. ''d'', mw_user_id = ''u2'',
     mw_worker_id = ''w2'', mw_mapping_id = ''m2'', mw_mail_enabled = False, mw_mail = \<lambda>_. Inr ()\<rparr>"

theorem mapping_conserves_batches_witness:
  "batch_total (snd (respondToMapping mapping_world0 ''m1'' ''u1'' AcceptMapping mapping_demo)) ''b0'' = 800"
proof -
  have "ledger_inv mapping_demo" "distinct (map wa_id (db_allocations mapping_demo))" "batch_total mapping_demo ''b0'' = 800"
    by (simp_all add: ledger_inv_def mapping_demo_def demo_db_def demo_batch_def demo_allocation_def held_allocation_def
        empty_db_def batch_total_def balanced_status_def)
  with mapping_conserves_batches [OF _ _ prod.collapse [symmetric]] show ?thesis by metis
qed

text \<open>(C30) A share merged into a paid row is lost to the settlement.  When the worker already has a paid row
  in the batch, attaching a held share deletes the share and raises the amount of the paid row, and
  no payout can be created for the difference: every later attempt is refused as already paid.\<close>

theorem merged_share_unpayable:
  assumes "distinct (map wa_id (db_allocations d))" "h \<in> set (db_allocations d)" "wa_workerId h = None"
    and "find (\<lambda>a. wa_batchId a = wa_batchId h \<and> wa_workerId a = Some k) (db_allocations d) = Some e"
    and "wa_payoutStatus e = AllocPAID"
    and "find_worker d k \<noteq> None" "k \<noteq> []" "find_batch d (wa_batchId h) = Some b" "ab_status b = PARTIALLY_PAID"
  shows "find_allocation (attach_one k h d) (wa_id h) = None
    \<and> map_option wa_netAllocatedUsdCents (find_allocation (attach_one k h d) (wa_id e)) = Some (wa_netAllocatedUsdCents e + wa_netAllocatedUsdCents h)
    \<and> createUsdcPayout w (wa_id e) u (attach_one k h d) = (Inl (ConflictException ''Allocation is already paid''), attach_one k h d)"
proof -
  let ?f = "\<lambda>a. a\<lparr>wa_pooledTipUsdCents := wa_pooledTipUsdCents a + wa_pooledTipUsdCents h,
      wa_netAllocatedUsdCents := wa_netAllocatedUsdCents a + wa_netAllocatedUsdCents h\<rparr>"
  let ?up = "update_where (\<lambda>a. wa_id a = wa_id e) ?f (db_allocations d)"
  have e: "e \<in> set (db_allocations d)" "wa_batchId e = wa_batchId h" "wa_workerId e = Some k" using find_SomeD [OF assms(4)] by simp_all
  have eh: "wa_id e \<noteq> wa_id h"
    using assms(1,2,3) e(1,3) by (metis distinct_map inj_on_contraD option.distinct(1))
  have ao: "attach_one k h d = d\<lparr>db_allocations := delete_where (\<lambda>a. wa_id a = wa_id h) ?up\<rparr>"
    unfolding attach_one_def assms(4) option.case by (rule refl)
  have ids: "map wa_id ?up = map wa_id (db_allocations d)" by (rule map_update_where) simp
  have gone: "find (\<lambda>a. wa_id a = wa_id h) (delete_where (\<lambda>a. wa_id a = wa_id h) ?up) = None"
    unfolding find_None_iff_all delete_where_def set_filter by blast
  have "?f e \<in> set ?up" unfolding in_update_where using e(1) by (intro bexI [of _ e]) simp_all
  then have mem: "?f e \<in> set (delete_where (\<lambda>a. wa_id a = wa_id h) ?up)" using eh unfolding delete_where_def set_filter by simp
  have dist: "distinct (map wa_id (delete_where (\<lambda>a. wa_id a = wa_id h) ?up))"
    unfolding delete_where_def by (rule distinct_map_filter) (unfold ids, rule assms(1))
  have found: "find_allocation (attach_one k h d) (wa_id e) = Some (?f e)"
    using find_unique_key [OF dist mem] unfolding find_allocation_def ao db_allocations_of by simp
  have fw: "find_worker (attach_one k h d) k = find_worker d k" "find_batch (attach_one k h d) (wa_batchId h) = Some b"
    using assms(8) unfolding ao find_worker_def find_batch_def by simp_all
  have paid: "createUsdcPayout w (wa_id e) u (attach_one k h d) = (Inl (ConflictException ''Allocation is already paid''), attach_one k h d)"
    using assms(5-7,9) e(2,3) fw unfolding createUsdcPayout_def found by simp
  show ?thesis using gone found paid unfolding ao find_allocation_def db_allocations_of by simp
qed

theorem merged_share_unpayable_witness:
  "\<forall>w u. createUsdcPayout w ''a0'' u (attach_one ''w1'' held_allocation mapping_demo)
     = (Inl (ConflictException ''Allocation is already paid''), attach_one ''w1'' held_allocation mapping_demo)"
proof (intro allI)
  fix w u
  let ?e = "demo_allocation\<lparr>wa_payoutStatus := AllocPAID\<rparr>"
  have "createUsdcPayout w (wa_id ?e) u (attach_one ''w1'' held_allocation mapping_demo)
     = (Inl (ConflictException ''Allocation is already paid''), attach_one ''w1'' held_allocation mapping_demo)"
    by (rule merged_share_unpayable [where b = "demo_batch\<lparr>ab_status := PARTIALLY_PAID, ab_tipPoolAmountUsdCents := 800\<rparr>", THEN conjunct2, THEN conjunct2])
      (simp_all add: mapping_demo_def held_allocation_def demo_allocation_def demo_db_def demo_batch_def find_worker_def find_batch_def)
  then show "createUsdcPayout w ''a0'' u (attach_one ''w1'' held_allocation mapping_demo)
     = (Inl (ConflictException ''Allocation is already paid''), attach_one ''w1'' held_allocation mapping_demo)"
    by (simp add: demo_allocation_def)
qed

end
