(* ===== verification/Income.thy ===== *)
theory Income
  imports Income_Projector Disclosure
begin

text \<open>
  \<open>apps/api/src/income/income.service.ts\<close> and \<open>apps/api/src/payroll/payroll.service.ts\<close>: the
  worker's timeline, summary and discrepancies, the correction of an entry, and the import of payroll
  records.  A table is kept in creation order, so \<open>orderBy: createdAt desc\<close> on a table without a stored
  creation time is its reverse.  Parameters: the clock, \<open>noon\<close>, the ids of created rows and
  \<open>date\<close>, which is \<open>new Date\<close> on a request's string.
\<close>

section \<open>Rebuild\<close>

record income_world =
  iw_now :: instant
  iw_noon :: "string \<Rightarrow> instant"
  iw_entry_id :: "nat \<Rightarrow> id"
  iw_alert_id :: "nat \<Rightarrow> id"

definition rebuildVenue :: "income_world \<Rightarrow> id \<Rightarrow> id option \<Rightarrow> projection_source \<Rightarrow> db \<Rightarrow> (nat \<times> nat, db) outcome" where
  "rebuildVenue w venueId actor source d =
     (case rebuildVenueIncome (iw_noon w) (iw_entry_id w) (iw_alert_id w) (iw_now w) venueId actor source d of
        (None, d') \<Rightarrow> (Inl (NotFoundException ''Venue ${venueId} not found''), d')
      | (Some r, d') \<Rightarrow> (Inr r, d'))"

section \<open>Timeline\<close>

definition workerOf :: "id \<Rightarrow> db \<Rightarrow> http_error + worker" where
  "workerOf userId d = (case worker_by_user d userId of
       None \<Rightarrow> Inl (NotFoundException ''No worker profile for this user'') | Some k \<Rightarrow> Inr k)"

text \<open>\<open>orderBy: [{ createdAt: "desc" }, { id: "desc" }]\<close>; ids are ordered by character code.\<close>

definition entry_cmp :: "income_entry \<Rightarrow> income_entry \<Rightarrow> rat" where
  "entry_cmp a b = (if ie_createdAt a \<noteq> ie_createdAt b then of_int (ie_createdAt b - ie_createdAt a)
     else str_cmp (ie_id b) (ie_id a))"

definition active_entries :: "db \<Rightarrow> id \<Rightarrow> income_entry list" where
  "active_entries d workerId = filter (\<lambda>e. ie_workerId e = workerId \<and> ie_effectiveStatus e = EntryACTIVE) (db_incomes d)"

definition ordered_entries :: "db \<Rightarrow> id \<Rightarrow> income_entry list" where
  "ordered_entries d workerId = js_sort entry_cmp (active_entries d workerId)"

text \<open>Prisma's \<open>cursor\<close>: the rows from the cursor row's position on, of which \<open>skip: 1\<close> drops one.\<close>

definition from_cursor :: "db \<Rightarrow> string option \<Rightarrow> income_entry list \<Rightarrow> income_entry list" where
  "from_cursor d cursor es = (if \<not> truthy cursor then es
     else case find (\<lambda>e. ie_id e = the cursor) (db_incomes d) of
       None \<Rightarrow> [] | Some c \<Rightarrow> drop 1 (filter (\<lambda>e. entry_cmp c e \<le> 0) es))"

record timeline_item =
  ti_id :: id
  ti_venue :: "id \<times> string"
  ti_businessDate :: "string option"
  ti_role :: "string option"
  ti_evidenceProvider :: "string option"
  ti_ingestSource :: "ingest_source option"
  ti_earnedUsdCents :: cents
  ti_allocatedUsdCents :: cents
  ti_paidUsdCents :: cents
  ti_payrollReportedUsdCents :: cents
  ti_withholdingStatus :: withholding_status
  ti_payoutRail :: "payout_rail option"
  ti_payoutTxSignature :: "string option"
  ti_evidenceGrade :: evidence_grade
  ti_isCorrection :: bool
  ti_correctionReason :: "string option"

definition timeline_item_of :: "db \<Rightarrow> venue \<Rightarrow> income_entry \<Rightarrow> timeline_item" where
  "timeline_item_of d v e =
     (let shift = entry_shift d e; payout = Option.bind (ie_payoutId e) (\<lambda>i. find (\<lambda>p. po_id p = i) (db_payouts d))
      in \<lparr>ti_id = ie_id e, ti_venue = (ven_id v, ven_name v), ti_businessDate = map_option se_businessDate shift,
          ti_role = map_option se_role shift, ti_evidenceProvider = map_option se_provider shift,
          ti_ingestSource = map_option se_ingestSource shift, ti_earnedUsdCents = ie_earnedUsdCents e,
          ti_allocatedUsdCents = ie_allocatedUsdCents e, ti_paidUsdCents = ie_paidUsdCents e,
          ti_payrollReportedUsdCents = ie_payrollReportedUsdCents e, ti_withholdingStatus = ie_withholdingStatus e,
          ti_payoutRail = ie_payoutRail e, ti_payoutTxSignature = Option.bind payout po_txSignature,
          ti_evidenceGrade = ie_evidenceGrade e, ti_isCorrection = (ie_correctionOfId e \<noteq> None),
          ti_correctionReason = ie_correctionReason e\<rparr>)"

record timeline =
  tl_items :: "timeline_item list"
  tl_nextCursor :: "string option"

definition timelineForWorker :: "id \<Rightarrow> string option \<Rightarrow> nat \<Rightarrow> db \<Rightarrow> http_error + timeline" where
  "timelineForWorker workerId cursor limit d =
     (let entries = take (limit + 1) (from_cursor d cursor (ordered_entries d workerId));
          hasMore = length entries > limit;
          page = (if hasMore then take limit entries else entries)
      in if list_ex (\<lambda>e. find_venue d (ie_venueId e) = None) entries then Inl relation_error
         else Inr \<lparr>tl_items = map (\<lambda>e. timeline_item_of d (the (find_venue d (ie_venueId e))) e) page,
                   tl_nextCursor = (if hasMore \<and> page \<noteq> [] then Some (ie_id (last page)) else None)\<rparr>)"

definition timelineForUser :: "id \<Rightarrow> string option \<Rightarrow> nat \<Rightarrow> db \<Rightarrow> http_error + timeline" where
  "timelineForUser userId cursor limit d = (case workerOf userId d of
       Inl e \<Rightarrow> Inl e | Inr k \<Rightarrow> timelineForWorker (wk_id k) cursor limit d)"

section \<open>Summary and discrepancies\<close>

record income_summary =
  is_earnedUsdCents :: cents
  is_allocatedUsdCents :: cents
  is_paidUsdCents :: cents
  is_payrollReportedUsdCents :: cents
  is_shiftCount :: nat
  is_monthCount :: nat
  is_avgMonthlyAllocatedUsdCents :: int
  is_payerCount :: nat
  is_gradeCounts :: "(evidence_grade \<times> nat) list"
  is_providerVerifiedShiftCount :: nat

definition summaryForWorker :: "id \<Rightarrow> db \<Rightarrow> income_summary" where
  "summaryForWorker workerId d =
     (let es = active_entries d workerId; allocated = sum_list (map ie_allocatedUsdCents es);
          months = distinct_count (entry_month d) (filter (\<lambda>e. entry_shift d e \<noteq> None) es)
      in \<lparr>is_earnedUsdCents = sum_list (map ie_earnedUsdCents es), is_allocatedUsdCents = allocated,
          is_paidUsdCents = sum_list (map ie_paidUsdCents es),
          is_payrollReportedUsdCents = sum_list (map ie_payrollReportedUsdCents es), is_shiftCount = length es,
          is_monthCount = months, is_avgMonthlyAllocatedUsdCents = rounded_ratio allocated months,
          is_payerCount = distinct_count ie_venueId es, is_gradeCounts = count_by ie_evidenceGrade es,
          is_providerVerifiedShiftCount =
            count_where (\<lambda>e. map_option se_ingestSource (entry_shift d e) = Some PROVIDER_API) es\<rparr>)"

definition summaryForUser :: "id \<Rightarrow> db \<Rightarrow> http_error + income_summary" where
  "summaryForUser userId d = (case workerOf userId d of Inl e \<Rightarrow> Inl e | Inr k \<Rightarrow> Inr (summaryForWorker (wk_id k) d))"

record discrepancy_view =
  dv_alert :: discrepancy_alert
  dv_venue :: "(id \<times> string) option"
  dv_shift :: "(id \<times> string \<times> string) option"

definition discrepanciesForWorker :: "id \<Rightarrow> db \<Rightarrow> discrepancy_view list" where
  "discrepanciesForWorker workerId d =
     map (\<lambda>a. \<lparr>dv_alert = a, dv_venue = map_option (\<lambda>v. (ven_id v, ven_name v)) (find_venue d (da_venueId a)),
            dv_shift = (if truthy (da_shiftId a) then map_option (\<lambda>s. (se_id s, se_businessDate s, se_role s)) (find_shift d (the (da_shiftId a)))
              else None)\<rparr>)
       (filter (\<lambda>a. da_workerId a = Some workerId \<and> da_resolvedAt a = None) (rev (db_alerts d)))"

definition discrepanciesForUser :: "id \<Rightarrow> db \<Rightarrow> http_error + discrepancy_view list" where
  "discrepanciesForUser userId d = (case workerOf userId d of Inl e \<Rightarrow> Inl e | Inr k \<Rightarrow> Inr (discrepanciesForWorker (wk_id k) d))"

section \<open>Corrections\<close>

record correction_input =
  cor_reason :: string
  cor_earnedUsdCents :: "cents option"
  cor_allocatedUsdCents :: "cents option"
  cor_paidUsdCents :: "cents option"
  cor_payrollReportedUsdCents :: "cents option"

definition find_entry :: "db \<Rightarrow> id \<Rightarrow> income_entry option" where
  "find_entry d i = find (\<lambda>e. ie_id e = i) (db_incomes d)"

definition coalesce :: "'a option \<Rightarrow> 'a \<Rightarrow> 'a" where
  "coalesce v x = (case v of None \<Rightarrow> x | Some y \<Rightarrow> y)"

definition corrected_entry :: "id \<Rightarrow> instant \<Rightarrow> correction_input \<Rightarrow> income_entry \<Rightarrow> income_entry" where
  "corrected_entry new now inp original = original\<lparr>ie_id := new,
     ie_earnedUsdCents := coalesce (cor_earnedUsdCents inp) (ie_earnedUsdCents original),
     ie_allocatedUsdCents := coalesce (cor_allocatedUsdCents inp) (ie_allocatedUsdCents original),
     ie_paidUsdCents := coalesce (cor_paidUsdCents inp) (ie_paidUsdCents original),
     ie_payrollReportedUsdCents := coalesce (cor_payrollReportedUsdCents inp) (ie_payrollReportedUsdCents original),
     ie_effectiveStatus := EntryACTIVE, ie_originalEntryId := Some (coalesce (ie_originalEntryId original) (ie_id original)),
     ie_correctionOfId := Some (ie_id original), ie_correctionReason := Some (cor_reason inp), ie_createdAt := now\<rparr>"

definition supersede :: "income_entry \<Rightarrow> income_entry" where
  "supersede e = e\<lparr>ie_effectiveStatus := EntrySUPERSEDED\<rparr>"

definition correctEntry :: "id \<Rightarrow> instant \<Rightarrow> id \<Rightarrow> id \<Rightarrow> correction_input \<Rightarrow> db \<Rightarrow> (income_entry, db) outcome" where
  "correctEntry new now entryId actor inp d = (case find_entry d entryId of
       None \<Rightarrow> (Inl (NotFoundException ''Income entry ${entryId} not found''), d)
     | Some original \<Rightarrow>
         if ie_effectiveStatus original \<noteq> EntryACTIVE
         then (Inl (NotFoundException ''Only the ACTIVE entry of a lineage can be corrected''), d)
         else let correction = corrected_entry new now inp original
              in (Inr correction,
                  update_reports (\<lambda>r. vr_workerId r = ie_workerId original \<and> vr_status r = ISSUED) (\<lambda>r. r\<lparr>vr_status := ReportCORRECTED\<rparr>)
                    (write_audit (ie_venueId original) (Some actor) ''INCOME_ENTRY_CORRECTED'' ''IncomeEntry'' entryId
                      (JObj [(''reason'', JStr (cor_reason inp))])
                      (d\<lparr>db_incomes := update_where (\<lambda>e. ie_id e = entryId) supersede (db_incomes d) @ [correction]\<rparr>))))"

section \<open>Payroll\<close>

record payroll_import =
  pim_workerEmail :: string
  pim_periodStart :: string
  pim_periodEnd :: string
  pim_reportedTipUsdCents :: cents
  pim_federalWithholdingUsdCents :: "cents option"
  pim_stateWithholdingUsdCents :: "cents option"
  pim_socialSecurityUsdCents :: "cents option"
  pim_medicareUsdCents :: "cents option"
  pim_status :: payroll_status
  pim_providerReference :: "string option"

text \<open>The worker profile of an e-mail address.\<close>

definition payee :: "db \<Rightarrow> string \<Rightarrow> worker option" where
  "payee d email = Option.bind (find (\<lambda>u. usr_email u = js_lower email) (db_users d)) (\<lambda>u. worker_by_user d (usr_id u))"

definition payroll_data :: "(string \<Rightarrow> instant) \<Rightarrow> id \<Rightarrow> string \<Rightarrow> payroll_import \<Rightarrow> worker \<Rightarrow> payroll_record \<Rightarrow> payroll_record" where
  "payroll_data date venueId provider r k p = p\<lparr>pr_workerId := wk_id k, pr_venueId := venueId,
     pr_periodStart := date (pim_periodStart r), pr_periodEnd := date (pim_periodEnd r),
     pr_reportedTipUsdCents := pim_reportedTipUsdCents r, pr_federalWithholdingUsdCents := pim_federalWithholdingUsdCents r,
     pr_stateWithholdingUsdCents := pim_stateWithholdingUsdCents r, pr_socialSecurityUsdCents := pim_socialSecurityUsdCents r,
     pr_medicareUsdCents := pim_medicareUsdCents r, pr_status := pim_status r,
     pr_providerReference := Some (coalesce (pim_providerReference r) (provider @ '':'' @ pim_periodStart r))\<rparr>"

definition blank_payroll :: "id \<Rightarrow> payroll_record" where
  "blank_payroll i = \<lparr>pr_id = i, pr_workerId = [], pr_venueId = [], pr_periodStart = 0, pr_periodEnd = 0,
     pr_reportedTipUsdCents = 0, pr_federalWithholdingUsdCents = None, pr_stateWithholdingUsdCents = None,
     pr_socialSecurityUsdCents = None, pr_medicareUsdCents = None, pr_status = PayrollPENDING, pr_providerReference = None\<rparr>"

definition payroll_key :: "payroll_record \<Rightarrow> id \<times> id \<times> instant \<times> instant" where
  "payroll_key p = (pr_workerId p, pr_venueId p, pr_periodStart p, pr_periodEnd p)"

record import_state =
  ims_imported :: nat
  ims_skipped :: "(string \<times> string) list"
  ims_rows :: "payroll_record list"

definition import_step :: "(string \<Rightarrow> instant) \<Rightarrow> (nat \<Rightarrow> id) \<Rightarrow> id \<Rightarrow> string \<Rightarrow> db \<Rightarrow> payroll_import \<Rightarrow> import_state \<Rightarrow> import_state" where
  "import_step date new venueId provider d r st = (case payee d (pim_workerEmail r) of
       None \<Rightarrow> st\<lparr>ims_skipped := ims_skipped st @ [(pim_workerEmail r, ''no worker profile'')]\<rparr>
     | Some k \<Rightarrow>
         let data = payroll_data date venueId provider r k;
             key = (wk_id k, venueId, date (pim_periodStart r), date (pim_periodEnd r))
         in st\<lparr>ims_imported := ims_imported st + 1,
               ims_rows := (case find (\<lambda>p. payroll_key p = key) (ims_rows st) of
                   Some e \<Rightarrow> update_where (\<lambda>p. pr_id p = pr_id e) data (ims_rows st)
                 | None \<Rightarrow> ims_rows st @ [data (blank_payroll (new (ims_imported st)))])\<rparr>)"

definition importRecords ::
  "income_world \<Rightarrow> (string \<Rightarrow> instant) \<Rightarrow> (nat \<Rightarrow> id) \<Rightarrow> id \<Rightarrow> string \<Rightarrow> payroll_import list \<Rightarrow> db \<Rightarrow>
   (nat \<times> (string \<times> string) list, db) outcome" where
  "importRecords w date new venueId provider records d =
     (if find_venue d venueId = None then (Inl (NotFoundException ''Venue ${venueId} not found''), d)
      else let st = fold (import_step date new venueId provider d) records \<lparr>ims_imported = 0, ims_skipped = [], ims_rows = db_payrolls d\<rparr>
           in (case rebuildVenue w venueId None PAYROLL_IMPORT (d\<lparr>db_payrolls := ims_rows st\<rparr>) of
                 (Inl e, d') \<Rightarrow> (Inl e, d')
               | (Inr _, d') \<Rightarrow> (Inr (ims_imported st, ims_skipped st), d')))"

definition period_cmp :: "payroll_record \<Rightarrow> payroll_record \<Rightarrow> rat" where
  "period_cmp a b = of_int (pr_periodStart b - pr_periodStart a)"

definition statusForWorker :: "id \<Rightarrow> db \<Rightarrow> http_error + (payroll_record \<times> id \<times> string) list" where
  "statusForWorker workerId d =
     (if find_worker d workerId = None then Inl (NotFoundException ''Worker ${workerId} not found'')
      else let rows = js_sort period_cmp (filter (\<lambda>p. pr_workerId p = workerId) (db_payrolls d))
           in if list_ex (\<lambda>p. find_venue d (pr_venueId p) = None) rows then Inl relation_error
              else Inr (map (\<lambda>p. (p, pr_venueId p, ven_name (the (find_venue d (pr_venueId p))))) rows))"

end
