(* ===== verification/Income_Safety.thy ===== *)
theory Income_Safety
  imports Income Disclosure_Safety
begin

text \<open>
  What the income service promises: the pages of the timeline are the whole timeline, a lineage of
  corrections has one active entry and keeps its history, a correction withdraws the worker's issued
  reports, and a payroll import accounts for every record.
\<close>

section \<open>Paging\<close>

lemma str_cmp_swap: "str_cmp b a = - str_cmp a b"
  by (induction a b rule: str_cmp.induct) auto

lemma str_cmp_zero: "str_cmp a b = 0 \<Longrightarrow> a = b"
proof (induction a b rule: str_cmp.induct)
  case (4 x xs y ys)
  then have "(of_char x :: nat) = of_char y" "str_cmp xs ys = 0" by (auto split: if_splits)
  then show ?case using 4 by simp
qed simp_all

lemma str_cmp_le: "str_cmp (x # xs) (y # ys) \<le> 0 \<longleftrightarrow>
    (of_char x :: nat) < of_char y \<or> (of_char x :: nat) = of_char y \<and> str_cmp xs ys \<le> 0"
  by auto

lemma str_cmp_trans: "str_cmp a b \<le> 0 \<Longrightarrow> str_cmp b c \<le> 0 \<Longrightarrow> str_cmp a c \<le> 0"
proof (induction a b arbitrary: c rule: str_cmp.induct)
  case (4 x xs y ys)
  show ?case
  proof (cases c)
    case Nil
    then show ?thesis using "4.prems"(2) by simp
  next
    case (Cons z zs)
    have xy: "(of_char x :: nat) < of_char y \<or> (of_char x :: nat) = of_char y \<and> str_cmp xs ys \<le> 0"
      using "4.prems"(1) unfolding str_cmp_le .
    have yz: "(of_char y :: nat) < of_char z \<or> (of_char y :: nat) = of_char z \<and> str_cmp ys zs \<le> 0"
      using "4.prems"(2) unfolding Cons str_cmp_le .
    show ?thesis
    proof (cases "(of_char x :: nat) = of_char y \<and> (of_char y :: nat) = of_char z")
      case True
      then have "\<not> (of_char x :: nat) < of_char y" "\<not> (of_char y :: nat) < of_char x" by linarith+
      moreover have "str_cmp xs ys \<le> 0" "str_cmp ys zs \<le> 0" using xy yz True by linarith+
      ultimately have "str_cmp xs zs \<le> 0" by (rule "4.IH")
      then show ?thesis using True unfolding Cons str_cmp_le by simp
    next
      case False
      then have "(of_char x :: nat) < of_char z" using xy yz by linarith
      then show ?thesis unfolding Cons str_cmp_le by simp
    qed
  qed
next
  case (2 b bs)
  then show ?case by (cases c) simp_all
qed simp_all

lemma entry_cmp_linear: "entry_cmp a b \<le> 0 \<or> entry_cmp b a \<le> 0"
  using str_cmp_swap [of "ie_id b" "ie_id a"] by (auto simp: entry_cmp_def)

lemma entry_cmp_trans: "entry_cmp a b \<le> 0 \<Longrightarrow> entry_cmp b c \<le> 0 \<Longrightarrow> entry_cmp a c \<le> 0"
  using str_cmp_trans [of "ie_id c" "ie_id b" "ie_id a"] by (auto simp: entry_cmp_def split: if_splits)

lemma entry_cmp_antisym: "entry_cmp a b \<le> 0 \<Longrightarrow> entry_cmp b a \<le> 0 \<Longrightarrow> ie_id a = ie_id b"
  using str_cmp_swap [of "ie_id b" "ie_id a"] str_cmp_zero [of "ie_id b" "ie_id a"]
  by (auto simp: entry_cmp_def split: if_splits)

lemma ordered_sorted: "sorted_wrt (\<lambda>x y. entry_cmp x y \<le> 0) (ordered_entries d w)"
  unfolding ordered_entries_def
  by (rule sorted_js_sort [where A = UNIV]) (use entry_cmp_linear entry_cmp_trans in blast)+

text \<open>Continuing at the cursor of an entry of the timeline gives the rest of it.\<close>

lemma from_cursor_rest:
  assumes "distinct (map ie_id (db_incomes d))" "ordered_entries d w = xs @ c # ys" "ie_id c \<noteq> []"
  shows "from_cursor d (Some (ie_id c)) (ordered_entries d w) = ys"
proof -
  have sub: "set (ordered_entries d w) \<subseteq> set (db_incomes d)" by (auto simp: ordered_entries_def active_entries_def)
  then have c: "c \<in> set (db_incomes d)" using assms(2) by auto
  have dist: "distinct (map ie_id (xs @ c # ys))"
    using assms(1) unfolding assms(2) [symmetric] by (simp add: ordered_entries_def active_entries_def distinct_map_filter)
  have srt: "sorted_wrt (\<lambda>x y. entry_cmp x y \<le> 0) (xs @ c # ys)" using ordered_sorted [of d w] assms(2) by simp
  have before: "filter (\<lambda>e. entry_cmp c e \<le> 0) xs = []"
  proof -
    have "\<not> entry_cmp c x \<le> 0" if "x \<in> set xs" for x
    proof
      assume "entry_cmp c x \<le> 0"
      moreover have "entry_cmp x c \<le> 0" using that srt by (simp add: sorted_wrt_append)
      ultimately have "ie_id x = ie_id c" by (metis entry_cmp_antisym)
      moreover have "ie_id c \<notin> ie_id ` set xs" using dist by simp
      ultimately show False using that by (metis imageI)
    qed
    then show ?thesis by (simp add: filter_empty_conv)
  qed
  have "filter (\<lambda>e. entry_cmp c e \<le> 0) ys = ys"
    using srt by (intro filter_True) (auto simp: sorted_wrt_append)
  moreover have "entry_cmp c c \<le> 0" using entry_cmp_linear [of c c] by simp
  ultimately have "filter (\<lambda>e. entry_cmp c e \<le> 0) (xs @ c # ys) = c # ys" using before by simp
  then show ?thesis using find_unique_key [OF assms(1) c] assms(2,3) by (simp add: from_cursor_def)
qed

text \<open>Following \<open>nextCursor\<close> from the first page; \<open>None\<close> when the fuel or a page fails.\<close>

fun walk_timeline :: "nat \<Rightarrow> id \<Rightarrow> string option \<Rightarrow> nat \<Rightarrow> db \<Rightarrow> timeline_item list option" where
  "walk_timeline 0 w cursor limit d = None"
| "walk_timeline (Suc n) w cursor limit d = (case timelineForWorker w cursor limit d of
       Inl e \<Rightarrow> None
     | Inr p \<Rightarrow> (case tl_nextCursor p of
         None \<Rightarrow> Some (tl_items p)
       | Some c \<Rightarrow> map_option (\<lambda>rest. tl_items p @ rest) (walk_timeline n w (Some c) limit d)))"

definition show_entry :: "db \<Rightarrow> income_entry \<Rightarrow> timeline_item" where
  "show_entry d e = timeline_item_of d (the (find_venue d (ie_venueId e))) e"

lemma walk_rest:
  assumes "distinct (map ie_id (db_incomes d))" "0 < limit" "\<forall>e \<in> set (db_incomes d). ie_id e \<noteq> [] \<and> find_venue d (ie_venueId e) \<noteq> None"
    and "ordered_entries d w = xs @ rest" "from_cursor d cursor (ordered_entries d w) = rest" "length rest < n"
  shows "walk_timeline n w cursor limit d = Some (map (show_entry d) rest)"
  using assms(4-6)
proof (induction n arbitrary: xs rest cursor)
  case (Suc n)
  have sub: "set rest \<subseteq> set (db_incomes d)"
    using Suc.prems(1) by (metis (no_types, lifting) Un_iff active_entries_def filter_is_subset ordered_entries_def set_append set_js_sort subset_iff)
  have venues: "\<not> list_ex (\<lambda>e. find_venue d (ie_venueId e) = None) (take (limit + 1) rest)"
    using sub assms(3) by (auto simp: list_ex_iff dest!: in_set_takeD)
  show ?case
  proof (cases "length rest > limit")
    case False
    then show ?thesis using venues Suc.prems(2)
      by (simp add: timelineForWorker_def Let_def show_entry_def [abs_def])
  next
    case True
    let ?c = "rest ! (limit - 1)"
    have split: "rest = take (limit - 1) rest @ ?c # drop limit rest"
      using True assms(2) by (metis Suc_pred' id_take_nth_drop less_imp_diff_less)
    have "rest \<noteq> []" using True by auto
    then have c: "last (take limit rest) = ?c" "take limit rest \<noteq> []" using True assms(2)
      by (simp_all add: last_conv_nth min_absorb2)
    have "?c \<in> set (db_incomes d)" using sub True assms(2) by (auto simp: subset_iff)
    then have ne: "ie_id ?c \<noteq> []" using assms(3) by blast
    have ord: "ordered_entries d w = (xs @ take (limit - 1) rest) @ ?c # drop limit rest"
      using Suc.prems(1) split by simp
    have next_page: "from_cursor d (Some (ie_id ?c)) (ordered_entries d w) = drop limit rest"
      by (rule from_cursor_rest [OF assms(1) ord ne])
    have "ordered_entries d w = (xs @ take limit rest) @ drop limit rest" using Suc.prems(1) by simp
    moreover have "length (drop limit rest) < n" using True assms(2) Suc.prems(3) by simp
    ultimately have ih: "walk_timeline n w (Some (ie_id ?c)) limit d = Some (map (show_entry d) (drop limit rest))"
      using Suc.IH next_page by blast
    have "timelineForWorker w cursor limit d = Inr \<lparr>tl_items = map (show_entry d) (take limit rest), tl_nextCursor = Some (ie_id ?c)\<rparr>"
      using venues Suc.prems(2) True c by (simp add: timelineForWorker_def Let_def show_entry_def [abs_def] min_def)
    then show ?thesis using ih by (simp add: map_append [symmetric])
  qed
qed simp

text \<open>(C31) The pages are the timeline.  Following the cursors of \<open>timelineForWorker\<close> from the first page
  ends, after at most one page per entry, and shows every active entry of the worker exactly once, newest
  first, whatever the page size.\<close>

theorem timeline_pages_complete:
  assumes "distinct (map ie_id (db_incomes d))" "0 < limit"
    and "\<forall>e \<in> set (db_incomes d). ie_id e \<noteq> [] \<and> find_venue d (ie_venueId e) \<noteq> None"
  shows "\<exists>es. walk_timeline (length (active_entries d w) + 1) w None limit d = Some (map (show_entry d) es)
     \<and> distinct es \<and> set es = set (active_entries d w)
     \<and> sorted_wrt (\<lambda>a b. ie_createdAt b \<le> ie_createdAt a) es"
proof (intro exI conjI)
  show "walk_timeline (length (active_entries d w) + 1) w None limit d = Some (map (show_entry d) (ordered_entries d w))"
    using assms by (intro walk_rest [where xs = "[]"]) (simp_all add: from_cursor_def ordered_entries_def)
  have "distinct (map ie_id (ordered_entries d w))"
    using assms(1) by (simp add: ordered_entries_def active_entries_def distinct_map_filter)
  then show "distinct (ordered_entries d w)" by (simp add: distinct_map)
  show "set (ordered_entries d w) = set (active_entries d w)" by (simp add: ordered_entries_def)
  show "sorted_wrt (\<lambda>a b. ie_createdAt b \<le> ie_createdAt a) (ordered_entries d w)"
    using ordered_sorted by (rule sorted_wrt_mono_rel [rotated]) (auto simp: entry_cmp_def split: if_splits)
qed

definition paged_demo :: db where
  "paged_demo = income_demo\<lparr>db_incomes := [(blank_entry ''e0'' 0)\<lparr>ie_workerId := ''w1'', ie_venueId := ''v1''\<rparr>,
     (blank_entry ''e1'' 5)\<lparr>ie_workerId := ''w1'', ie_venueId := ''v1''\<rparr>]\<rparr>"

theorem timeline_pages_complete_witness:
  "\<exists>es. walk_timeline 3 ''w1'' None 1 paged_demo = Some (map (show_entry paged_demo) es) \<and> length es = 2"
proof -
  have n: "active_entries paged_demo ''w1'' = db_incomes paged_demo"
    by (simp add: active_entries_def paged_demo_def blank_entry_def)
  have "\<forall>e \<in> set (db_incomes paged_demo). ie_id e \<noteq> [] \<and> find_venue paged_demo (ie_venueId e) \<noteq> None"
    by (simp add: paged_demo_def blank_entry_def find_venue_def income_demo_def demo_db_def)
  from timeline_pages_complete [OF _ _ this, of 1 "''w1''"]
  obtain es where es: "walk_timeline (length (db_incomes paged_demo) + 1) ''w1'' None 1 paged_demo = Some (map (show_entry paged_demo) es)"
    "distinct es" "set es = set (db_incomes paged_demo)"
    unfolding n by (auto simp: paged_demo_def blank_entry_def)
  have two: "length (db_incomes paged_demo) = 2" "card (set (db_incomes paged_demo)) = 2"
    by (simp_all add: paged_demo_def blank_entry_def)
  have "length es = 2" using distinct_card [OF es(2)] es(3) two(2) by simp
  moreover have "length (db_incomes paged_demo) + 1 = 3" using two(1) by simp
  ultimately show ?thesis using es(1) by auto
qed

section \<open>Lineages of corrections\<close>

definition root_of :: "income_entry \<Rightarrow> id" where
  "root_of e = coalesce (ie_originalEntryId e) (ie_id e)"

definition lineage_view :: "income_entry \<Rightarrow> id \<times> id \<times> entry_status" where
  "lineage_view e = (ie_id e, root_of e, ie_effectiveStatus e)"

text \<open>Ids are unique, a lineage is rooted in an entry and has one active entry at most.\<close>

definition lineage_rows :: "(id \<times> id \<times> entry_status) list \<Rightarrow> bool" where
  "lineage_rows vs \<longleftrightarrow> distinct (map fst vs) \<and> distinct (map (fst \<circ> snd) (filter (\<lambda>v. snd (snd v) = EntryACTIVE) vs))
     \<and> (\<forall>v \<in> set vs. fst (snd v) \<in> fst ` set vs \<and> snd (snd v) \<noteq> EntryREVERSED)"

definition lineage_ok :: "income_entry list \<Rightarrow> bool" where
  "lineage_ok es \<longleftrightarrow> lineage_rows (map lineage_view es)"

lemma lineage_distinct: "lineage_ok es \<Longrightarrow> distinct (map ie_id es)"
  by (simp add: lineage_ok_def lineage_rows_def lineage_view_def comp_def)

lemma lineage_append:
  assumes "lineage_rows vs" "i \<notin> fst ` set vs"
    and "r = i \<or> r \<in> fst ` set vs \<and> r \<notin> (fst \<circ> snd) ` set (filter (\<lambda>v. snd (snd v) = EntryACTIVE) vs)"
  shows "lineage_rows (vs @ [(i, r, EntryACTIVE)])"
proof -
  have "r \<notin> (fst \<circ> snd) ` set (filter (\<lambda>v. snd (snd v) = EntryACTIVE) vs)"
    using assms by (auto simp: lineage_rows_def)
  then show ?thesis using assms by (auto simp: lineage_rows_def)
qed

lemma lineage_supersede:
  assumes "lineage_rows vs" "(i, r, EntryACTIVE) \<in> set vs" "new \<notin> fst ` set vs"
  shows "lineage_rows (map (\<lambda>v. if fst v = i then (fst v, fst (snd v), EntrySUPERSEDED) else v) vs @ [(new, r, EntryACTIVE)])"
    (is "lineage_rows (map ?g vs @ _)")
proof -
  have ids: "map fst (map ?g vs) = map fst vs" by auto
  then have ids': "fst ` set (map ?g vs) = fst ` set vs" by (metis set_map)
  have act: "filter (\<lambda>v. snd (snd v) = EntryACTIVE) (map ?g vs) = filter (\<lambda>v. fst v \<noteq> i) (filter (\<lambda>v. snd (snd v) = EntryACTIVE) vs)"
    for vs by (induction vs) auto
  have "lineage_rows (map ?g vs)"
    unfolding lineage_rows_def ids ids' act
  proof (intro conjI ballI)
    show "distinct (map fst vs)" using assms(1) by (simp add: lineage_rows_def)
    show "distinct (map (fst \<circ> snd) (filter (\<lambda>v. fst v \<noteq> i) (filter (\<lambda>v. snd (snd v) = EntryACTIVE) vs)))"
      by (rule distinct_map_filter) (use assms(1) in \<open>simp add: lineage_rows_def\<close>)
    fix v
    assume "v \<in> set (map ?g vs)"
    then obtain x where x: "x \<in> set vs" "v = ?g x" unfolding set_map by (rule imageE)
    then have "fst (snd x) \<in> fst ` set vs" "snd (snd x) \<noteq> EntryREVERSED" using assms(1) unfolding lineage_rows_def by blast+
    then show "fst (snd v) \<in> fst ` set vs" "snd (snd v) \<noteq> EntryREVERSED" using x(2) by simp_all
  qed
  moreover have "r \<in> fst ` set (map ?g vs)" using assms(1,2) unfolding ids' lineage_rows_def by (metis fst_conv snd_conv)
  moreover have "r \<notin> (fst \<circ> snd) ` set (filter (\<lambda>v. fst v \<noteq> i) (filter (\<lambda>v. snd (snd v) = EntryACTIVE) vs))"
  proof
    assume "r \<in> (fst \<circ> snd) ` set (filter (\<lambda>v. fst v \<noteq> i) (filter (\<lambda>v. snd (snd v) = EntryACTIVE) vs))"
    then obtain v where v: "v \<in> set (filter (\<lambda>v. snd (snd v) = EntryACTIVE) vs)" "fst v \<noteq> i" "(fst \<circ> snd) v = r" by auto
    have "inj_on (fst \<circ> snd) (set (filter (\<lambda>v. snd (snd v) = EntryACTIVE) vs))"
      using assms(1) by (simp add: lineage_rows_def distinct_map)
    from inj_onD [OF this, of v "(i, r, EntryACTIVE)"] v assms(2) show False by simp
  qed
  ultimately show ?thesis using assms(3) unfolding act [symmetric] ids' [symmetric] by (intro lineage_append) simp_all
qed

lemma map_update_key:
  assumes "\<And>e. e \<in> set es \<Longrightarrow> p e \<Longrightarrow> g (f e) = g e"
  shows "map g (update_where p f es) = map g es"
  using assms by (induction es) auto

lemma lineage_upsert:
  assumes "lineage_ok es" "n \<notin> ie_id ` set es"
    and "find (\<lambda>e. ie_workerId e = w \<and> ie_shiftId e = Some s \<and> ie_effectiveStatus e = EntrySUPERSEDED) es = None"
  shows "lineage_ok (upsert_entry n now v w s f es)"
proof (cases "find (\<lambda>e. ie_workerId e = w \<and> ie_shiftId e = Some s \<and> ie_correctionOfId e = None) es")
  case None
  have "lineage_view (entry_data v w s f (blank_entry n now)) = (n, n, EntryACTIVE)"
    by (simp add: lineage_view_def root_of_def entry_data_def blank_entry_def coalesce_def)
  moreover have "n \<notin> fst ` set (map lineage_view es)" using assms(2) by (auto simp: lineage_view_def)
  ultimately show ?thesis using None assms(1) lineage_append [of "map lineage_view es" n n]
    by (simp add: upsert_entry_def lineage_ok_def)
next
  case (Some x)
  then have x: "x \<in> set es" "ie_workerId x = w" "ie_shiftId x = Some s" by (auto dest: find_SomeD)
  then have "ie_effectiveStatus x \<noteq> EntrySUPERSEDED" using assms(3) by (auto simp: find_None_iff_all)
  moreover have "ie_effectiveStatus x \<noteq> EntryREVERSED"
    using assms(1) x(1) by (auto simp: lineage_ok_def lineage_rows_def lineage_view_def)
  ultimately have act: "ie_effectiveStatus x = EntryACTIVE" by (cases "ie_effectiveStatus x") simp_all
  have "map lineage_view (update_where (\<lambda>e. ie_id e = ie_id x) (entry_data v w s f) es) = map lineage_view es"
  proof (rule map_update_key)
    fix e
    assume "e \<in> set es" "ie_id e = ie_id x"
    then have "e = x" using lineage_distinct [OF assms(1)] x(1) by (metis distinct_map inj_on_contraD)
    then show "lineage_view (entry_data v w s f e) = lineage_view e"
      using act by (simp add: lineage_view_def root_of_def entry_data_def)
  qed
  then show ?thesis using Some assms(1) by (simp add: upsert_entry_def lineage_ok_def)
qed

lemma lineage_project:
  assumes "lineage_ok es" "inj new_entry" "range new_entry \<inter> ie_id ` set es = {}"
  shows "lineage_ok (pj_entries (fold (project_shift new_entry now v facts) ss \<lparr>pj_entries = es, pj_upserted = 0, pj_alerts = []\<rparr>))"
proof -
  have "lineage_ok (pj_entries p) \<and> ie_id ` set (pj_entries p) \<subseteq> ie_id ` set es \<union> new_entry ` {..<pj_upserted p} \<Longrightarrow>
      lineage_ok (pj_entries (fold (project_shift new_entry now v facts) ss p))" for p
  proof (induction ss arbitrary: p)
    case (Cons s ss)
    let ?n = "new_entry (pj_upserted p)" and ?w = "the (se_mappedWorkerId s)"
    let ?es = "upsert_entry ?n now v ?w (se_id s) (facts ?w s) (pj_entries p)"
    have fresh: "?n \<notin> ie_id ` set (pj_entries p)"
    proof
      assume "?n \<in> ie_id ` set (pj_entries p)"
      then have "?n \<in> ie_id ` set es \<or> ?n \<in> new_entry ` {..<pj_upserted p}" using Cons.prems by auto
      then show False using assms(2,3) by (auto dest: injD)
    qed
    have ids: "ie_id ` set ?es \<subseteq> ie_id ` set es \<union> new_entry ` {..<Suc (pj_upserted p)}"
    proof -
      have "ie_id ` set ?es \<subseteq> insert ?n (ie_id ` set (pj_entries p))"
        using upsert_entry_ids [of ?n now v ?w "se_id s" "facts ?w s" "pj_entries p"]
        by (metis (no_types, lifting) list.set_map Un_insert_right list.simps(15) set_append set_empty2 subset_insertI sup_bot.right_neutral list.set(1) order_refl)
      then show ?thesis using Cons.prems unfolding lessThan_Suc image_insert by blast
    qed
    show ?case
    proof (cases "truthy (se_mappedWorkerId s) \<and> find (\<lambda>e. ie_workerId e = ?w \<and> ie_shiftId e = Some (se_id s)
        \<and> ie_effectiveStatus e = EntrySUPERSEDED) (pj_entries p) = None")
      case True
      then have "pj_entries (project_shift new_entry now v facts s p) = ?es" "pj_upserted (project_shift new_entry now v facts s p) = Suc (pj_upserted p)"
        by (auto simp: project_shift_def Let_def)
      moreover have "lineage_ok ?es" using Cons.prems fresh True by (intro lineage_upsert) simp_all
      ultimately show ?thesis using Cons.IH [of "project_shift new_entry now v facts s p"] ids by simp
    next
      case False
      then have "pj_entries (project_shift new_entry now v facts s p) = pj_entries p" "pj_upserted (project_shift new_entry now v facts s p) = pj_upserted p"
        by (auto simp: project_shift_def Let_def)
      then show ?thesis using Cons by simp
    qed
  qed simp
  from this [of "\<lparr>pj_entries = es, pj_upserted = 0, pj_alerts = []\<rparr>"] assms(1) show ?thesis by simp
qed

text \<open>The two operations that write income entries, in any order.\<close>

inductive income_step :: "db \<Rightarrow> db \<Rightarrow> bool" where
  Correct: "correctEntry new now i u inp d = (r, d') \<Longrightarrow> new \<notin> ie_id ` set (db_incomes d) \<Longrightarrow> income_step d d'"
| Rebuild: "rebuildVenueIncome noon new_entry new_alert now v actor source d = (r2, d') \<Longrightarrow> inj new_entry \<Longrightarrow>
    range new_entry \<inter> ie_id ` set (db_incomes d) = {} \<Longrightarrow> income_step d d'"

definition kept_history :: "db \<Rightarrow> db \<Rightarrow> bool" where
  "kept_history d d' \<longleftrightarrow> (\<forall>e \<in> set (db_incomes d). ie_effectiveStatus e = EntrySUPERSEDED \<longrightarrow> e \<in> set (db_incomes d'))"

lemma correct_lineage:
  assumes "correctEntry new now i u inp d = (r, d')" "new \<notin> ie_id ` set (db_incomes d)" "lineage_ok (db_incomes d)"
  shows "lineage_ok (db_incomes d') \<and> kept_history d d'"
proof (cases "\<exists>e. find_entry d i = Some e \<and> ie_effectiveStatus e = EntryACTIVE")
  case False
  then have "d' = d" using assms(1) by (auto simp: correctEntry_def Let_def split: option.splits if_splits)
  then show ?thesis using assms(3) by (simp add: kept_history_def)
next
  case True
  then obtain e where e: "find_entry d i = Some e" "ie_effectiveStatus e = EntryACTIVE" by blast
  then have mem: "e \<in> set (db_incomes d)" "ie_id e = i" unfolding find_entry_def by (auto dest: find_SomeD)
  let ?c = "corrected_entry new now inp e"
  have d': "db_incomes d' = update_where (\<lambda>e. ie_id e = i) supersede (db_incomes d) @ [?c]"
    using assms(1) e by (auto simp: correctEntry_def Let_def update_reports_def)
  have c: "lineage_view ?c = (new, root_of e, EntryACTIVE)"
    by (simp add: lineage_view_def root_of_def corrected_entry_def coalesce_def)
  have rows: "map lineage_view (update_where (\<lambda>e. ie_id e = i) supersede es)
      = map (\<lambda>v. if fst v = i then (fst v, fst (snd v), EntrySUPERSEDED) else v) (map lineage_view es)" for es
    by (induction es) (auto simp: lineage_view_def supersede_def root_of_def)
  have "(i, root_of e, EntryACTIVE) \<in> set (map lineage_view (db_incomes d))"
    using mem e(2) by (force simp: lineage_view_def)
  moreover have "new \<notin> fst ` set (map lineage_view (db_incomes d))" using assms(2) by (auto simp: lineage_view_def)
  ultimately have "lineage_ok (db_incomes d')"
    using assms(3) lineage_supersede unfolding lineage_ok_def d' map_append rows list.map c by blast
  moreover have "kept_history d d'"
    unfolding kept_history_def
  proof (intro ballI impI)
    fix x
    assume x: "x \<in> set (db_incomes d)" "ie_effectiveStatus x = EntrySUPERSEDED"
    then have "ie_id x \<noteq> i" using mem e(2) lineage_distinct [OF assms(3)] by (metis distinct_map entry_status.distinct(1) inj_on_contraD)
    then show "x \<in> set (db_incomes d')" using x(1) unfolding d' set_append in_update_where Un_iff by (intro disjI1 bexI [of _ x]) simp_all
  qed
  ultimately show ?thesis by blast
qed

lemma rebuild_lineage:
  assumes "rebuildVenueIncome noon new_entry new_alert now v actor source d = (r, d')" "inj new_entry"
    "range new_entry \<inter> ie_id ` set (db_incomes d) = {}" "lineage_ok (db_incomes d)"
  shows "lineage_ok (db_incomes d') \<and> kept_history d d'"
proof (cases "find_venue d v = None")
  case True
  then show ?thesis using assms(1,4) by (simp add: rebuildVenueIncome_def kept_history_def)
next
  case False
  let ?ids = "se_id ` set (venue_shifts d v)"
  have d': "db_incomes d' = pj_entries (projected noon new_entry now v d)"
    using assms(1) False by (auto simp: rebuildVenueIncome_def rebuildVenueIncomeLocked_def Let_def)
  have "proj_inv new_entry ?ids (db_incomes d) (projected noon new_entry now v d)"
    unfolding projected_def
    by (intro project_fold_inv [OF _ assms(2,3)]) (use lineage_distinct [OF assms(4)] in \<open>simp_all add: proj_inv_def\<close>)
  then have "kept_history d d'" unfolding kept_history_def d' by (auto simp: proj_inv_def writable_def)
  moreover have "lineage_ok (db_incomes d')" unfolding d' projected_def by (rule lineage_project [OF assms(4,2,3)])
  ultimately show ?thesis by blast
qed


definition demo_correction :: correction_input where
  "demo_correction = \<lparr>cor_reason = ''typo'', cor_earnedUsdCents = Some 5, cor_allocatedUsdCents = None,
     cor_paidUsdCents = None, cor_payrollReportedUsdCents = None\<rparr>"


section \<open>A correction withdraws the worker's reports\<close>

text \<open>(C33) A correction withdraws what it makes wrong.  After an income entry is corrected, no link
  of that worker discloses a snapshot: verification answers with metadata only and logs no access, until
  a new report is issued.\<close>

theorem correction_withdraws_reports:
  assumes "correctEntry new now i u inp d = (Inr c, d')"
    and "\<forall>r \<in> set (db_reports d). vr_status r \<noteq> ReportDRAFT
      \<and> (\<forall>g \<in> set (db_grants d). vr_disclosureGrantId r = dg_id g \<longrightarrow> vr_workerId r = dg_workerId g)"
    and "grantByToken w token d = Inr (g, name)" "dg_workerId g = ie_workerId c"
  shows "\<exists>base. verifyByToken w token ip ua sess s d' = (Inr (MetadataOnly base), d') \<and> vb_status base \<noteq> VALID"
proof -
  obtain e where e: "find_entry d i = Some e" "ie_effectiveStatus e = EntryACTIVE" "c = corrected_entry new now inp e"
    using assms(1) by (auto simp: correctEntry_def Let_def split: option.splits if_splits)
  have ce: "ie_workerId c = ie_workerId e" by (simp add: e(3) corrected_entry_def)
  have d': "db_reports d' = update_where (\<lambda>r. vr_workerId r = ie_workerId e \<and> vr_status r = ISSUED) (\<lambda>r. r\<lparr>vr_status := ReportCORRECTED\<rparr>) (db_reports d)"
    "db_grants d' = db_grants d" "db_workers d' = db_workers d" "db_users d' = db_users d"
    using assms(1) e by (auto simp: correctEntry_def Let_def update_reports_def)
  have tok: "grantByToken w token d' = Inr (g, name)"
  proof -
    have "find_worker d' = find_worker d" "find_user d' = find_user d"
      using d'(3,4) by (simp_all add: find_worker_def find_user_def fun_eq_iff)
    then show ?thesis using assms(3) unfolding grantByToken_def d'(2) by (simp only:)
  qed
  have g: "g \<in> set (db_grants d)"
    using assms(3) by (auto simp: grantByToken_def dest: find_SomeD split: option.splits)
  have "reportStatus (dw_now w) g (latest_report d' (dg_id g)) \<noteq> VALID"
  proof
    assume v: "reportStatus (dw_now w) g (latest_report d' (dg_id g)) = VALID"
    then obtain rep where rep: "latest_report d' (dg_id g) = Some rep" "vr_status rep \<in> {ISSUED, ReportDRAFT}"
      using reportStatus_VALID by blast
    then have "rep \<in> set (reports_of d' (dg_id g))" by (cases "reports_of d' (dg_id g)") (simp_all add: latest_report_def)
    then have mem: "rep \<in> set (db_reports d')" "vr_disclosureGrantId rep = dg_id g" by (simp_all add: reports_of_def)
    then obtain r0 where r0: "r0 \<in> set (db_reports d)"
      "rep = (if vr_workerId r0 = ie_workerId e \<and> vr_status r0 = ISSUED then r0\<lparr>vr_status := ReportCORRECTED\<rparr> else r0)"
      unfolding d'(1) in_update_where by blast
    have "vr_disclosureGrantId r0 = dg_id g" using mem(2) r0(2) by (simp split: if_splits)
    then have "vr_workerId r0 = ie_workerId e" using assms(2,4) g r0(1) ce by auto
    then have "vr_status rep \<noteq> ISSUED" using r0(2) by (cases "vr_status r0 = ISSUED") simp_all
    moreover have "vr_status rep \<noteq> ReportDRAFT" using assms(2) r0 by (auto split: if_splits)
    ultimately show False using rep(2) by blast
  qed
  then show ?thesis using tok by (auto simp: verifyByToken_def Let_def)
qed

theorem correction_withdraws_reports_witness:
  "\<exists>base. verifyByToken demo_disclosure ''raw'' None None (Some ''s'') []
       (snd (correctEntry ''e9'' 7 ''e0'' ''u1'' demo_correction (disclosure_demo\<lparr>db_incomes := db_incomes paged_demo\<rparr>)))
     = (Inr (MetadataOnly base), snd (correctEntry ''e9'' 7 ''e0'' ''u1'' demo_correction (disclosure_demo\<lparr>db_incomes := db_incomes paged_demo\<rparr>)))"
proof -
  let ?d = "disclosure_demo\<lparr>db_incomes := db_incomes paged_demo\<rparr>" and ?e = "hd (db_incomes paged_demo)"
  have "find_entry ?d ''e0'' = Some ?e" "ie_effectiveStatus ?e = EntryACTIVE"
    by (simp_all add: find_entry_def paged_demo_def blank_entry_def)
  then have "fst (correctEntry ''e9'' 7 ''e0'' ''u1'' demo_correction ?d) = Inr (corrected_entry ''e9'' 7 demo_correction ?e)"
    by (simp add: correctEntry_def Let_def)
  then have c: "correctEntry ''e9'' 7 ''e0'' ''u1'' demo_correction ?d
      = (Inr (corrected_entry ''e9'' 7 demo_correction ?e), snd (correctEntry ''e9'' 7 ''e0'' ''u1'' demo_correction ?d))"
    by (metis prod.collapse)
  have "grantByToken demo_disclosure ''raw'' ?d = Inr (demo_grant, ''a'')" by (simp add: disclosure_demo_defs)
  moreover have "dg_workerId demo_grant = ie_workerId (corrected_entry ''e9'' 7 demo_correction ?e)"
    by (simp add: demo_grant_def corrected_entry_def paged_demo_def blank_entry_def)
  moreover have "\<forall>r \<in> set (db_reports ?d). vr_status r \<noteq> ReportDRAFT
      \<and> (\<forall>g \<in> set (db_grants ?d). vr_disclosureGrantId r = dg_id g \<longrightarrow> vr_workerId r = dg_workerId g)"
    by (simp add: disclosure_demo_def demo_report_def demo_grant_def)
  ultimately show ?thesis using correction_withdraws_reports [OF c] by blast
qed

section \<open>Payroll imports\<close>

text \<open>The rows after some records: unique ids and keys, and the other venues' rows still there.\<close>

definition payroll_inv :: "(nat \<Rightarrow> id) \<Rightarrow> id \<Rightarrow> db \<Rightarrow> import_state \<Rightarrow> bool" where
  "payroll_inv new v d st \<longleftrightarrow> distinct (map pr_id (ims_rows st)) \<and> distinct (map payroll_key (ims_rows st))
     \<and> pr_id ` set (ims_rows st) \<subseteq> pr_id ` set (db_payrolls d) \<union> new ` {..<ims_imported st}
     \<and> (\<forall>p \<in> set (db_payrolls d). pr_venueId p \<noteq> v \<longrightarrow> p \<in> set (ims_rows st))"

definition record_key :: "(string \<Rightarrow> instant) \<Rightarrow> id \<Rightarrow> worker \<Rightarrow> payroll_import \<Rightarrow> id \<times> id \<times> instant \<times> instant" where
  "record_key date v k r = (wk_id k, v, date (pim_periodStart r), date (pim_periodEnd r))"

lemma payroll_data_key [simp]:
  "payroll_key (payroll_data date v prov r k p) = record_key date v k r" "pr_id (payroll_data date v prov r k p) = pr_id p"
  "payroll_data date v prov r k (payroll_data date v prov r k p) = payroll_data date v prov r k p"
  by (simp_all add: payroll_key_def record_key_def payroll_data_def)

text \<open>One record that finds its worker.\<close>

lemma import_one:
  assumes "payroll_inv new v d st" "inj new" "range new \<inter> pr_id ` set (db_payrolls d) = {}" "payee d (pim_workerEmail r) = Some k"
  shows "payroll_inv new v d (import_step date new v prov d r st)"
    "\<exists>p. payroll_data date v prov r k p \<in> set (ims_rows (import_step date new v prov d r st))"
    "p \<in> set (ims_rows st) \<Longrightarrow> payroll_key p \<noteq> record_key date v k r \<Longrightarrow> p \<in> set (ims_rows (import_step date new v prov d r st))"
proof -
  let ?data = "payroll_data date v prov r k" and ?st = "import_step date new v prov d r st"
  have imp: "ims_imported ?st = Suc (ims_imported st)" using assms(4) by (simp add: import_step_def Let_def)
  have venue: "pr_venueId p \<noteq> v \<Longrightarrow> payroll_key p \<noteq> record_key date v k r" for p by (auto simp: payroll_key_def record_key_def)
  have rows: "distinct (map pr_id (ims_rows ?st)) \<and> distinct (map payroll_key (ims_rows ?st))
     \<and> pr_id ` set (ims_rows ?st) \<subseteq> insert (new (ims_imported st)) (pr_id ` set (ims_rows st))
     \<and> (\<exists>p. ?data p \<in> set (ims_rows ?st)) \<and> (\<forall>p \<in> set (ims_rows st). payroll_key p \<noteq> record_key date v k r \<longrightarrow> p \<in> set (ims_rows ?st))"
  proof (cases "find (\<lambda>p. payroll_key p = record_key date v k r) (ims_rows st)")
    case None
    have new: "new (ims_imported st) \<notin> pr_id ` set (ims_rows st)"
    proof
      assume "new (ims_imported st) \<in> pr_id ` set (ims_rows st)"
      then have "new (ims_imported st) \<in> pr_id ` set (db_payrolls d) \<or> new (ims_imported st) \<in> new ` {..<ims_imported st}"
        using assms(1) by (auto simp: payroll_inv_def)
      then show False using assms(2,3) by (auto dest: injD)
    qed
    have "ims_rows ?st = ims_rows st @ [?data (blank_payroll (new (ims_imported st)))]"
      using None assms(4) by (simp add: import_step_def Let_def record_key_def)
    moreover have "record_key date v k r \<notin> payroll_key ` set (ims_rows st)" using None by (auto simp: find_None_iff_all)
    ultimately show ?thesis using assms(1) new by (auto simp: payroll_inv_def blank_payroll_def)
  next
    case (Some e)
    then have e: "e \<in> set (ims_rows st)" "payroll_key e = record_key date v k r" by (auto dest: find_SomeD)
    have dist: "distinct (map pr_id (ims_rows st))" using assms(1) by (simp add: payroll_inv_def)
    have eq: "ims_rows ?st = update_where (\<lambda>p. pr_id p = pr_id e) ?data (ims_rows st)"
      using Some assms(4) by (simp add: import_step_def Let_def record_key_def)
    have only: "p = e" if "p \<in> set (ims_rows st)" "pr_id p = pr_id e" for p
      using that e(1) dist by (metis distinct_map inj_on_contraD)
    have ids: "map pr_id (ims_rows ?st) = map pr_id (ims_rows st)" unfolding eq by (rule map_update_where) simp
    have keys: "map payroll_key (ims_rows ?st) = map payroll_key (ims_rows st)"
      unfolding eq
    proof (rule map_update_key)
      fix x
      assume "x \<in> set (ims_rows st)" "pr_id x = pr_id e"
      then have "x = e" by (rule only)
      then show "payroll_key (?data x) = payroll_key x" using e(2) by simp
    qed
    have "distinct (map payroll_key (ims_rows ?st))" unfolding keys using assms(1) by (simp add: payroll_inv_def)
    moreover have "distinct (map pr_id (ims_rows ?st))" unfolding ids by (rule dist)
    moreover have "\<exists>p. ?data p \<in> set (ims_rows ?st)"
      unfolding eq in_update_where using e(1) by (intro exI [of _ e] bexI [of _ e]) simp_all
    moreover have "\<forall>p \<in> set (ims_rows st). payroll_key p \<noteq> record_key date v k r \<longrightarrow> p \<in> set (ims_rows ?st)"
    proof (intro ballI impI)
      fix p
      assume p: "p \<in> set (ims_rows st)" "payroll_key p \<noteq> record_key date v k r"
      then have "pr_id p \<noteq> pr_id e" using only e(2) by blast
      then show "p \<in> set (ims_rows ?st)" unfolding eq in_update_where using p(1) by (intro bexI [of _ p]) simp_all
    qed
    moreover have "pr_id ` set (ims_rows ?st) = pr_id ` set (ims_rows st)" using ids by (metis set_map)
    then have "pr_id ` set (ims_rows ?st) \<subseteq> insert (new (ims_imported st)) (pr_id ` set (ims_rows st))" by (simp add: subset_insertI)
    ultimately show ?thesis by (intro conjI)
  qed
  then show "\<exists>p. ?data p \<in> set (ims_rows ?st)"
    "p \<in> set (ims_rows st) \<Longrightarrow> payroll_key p \<noteq> record_key date v k r \<Longrightarrow> p \<in> set (ims_rows ?st)" by blast+
  have "pr_id ` set (ims_rows ?st) \<subseteq> pr_id ` set (db_payrolls d) \<union> new ` {..<Suc (ims_imported st)}"
  proof -
    have "pr_id ` set (ims_rows ?st) \<subseteq> insert (new (ims_imported st)) (pr_id ` set (ims_rows st))" using rows by (elim conjE)
    moreover have "pr_id ` set (ims_rows st) \<subseteq> pr_id ` set (db_payrolls d) \<union> new ` {..<ims_imported st}"
      using assms(1) by (simp add: payroll_inv_def)
    ultimately show ?thesis unfolding lessThan_Suc image_insert by (rule order_trans [OF _ insert_mono, THEN order_trans]) simp
  qed
  moreover have "\<forall>p \<in> set (db_payrolls d). pr_venueId p \<noteq> v \<longrightarrow> p \<in> set (ims_rows ?st)"
  proof (intro ballI impI)
    fix p
    assume p: "p \<in> set (db_payrolls d)" "pr_venueId p \<noteq> v"
    then have "p \<in> set (ims_rows st)" using assms(1) by (simp add: payroll_inv_def)
    then show "p \<in> set (ims_rows ?st)" using rows venue [OF p(2)] by simp
  qed
  ultimately show "payroll_inv new v d ?st" using rows imp by (simp add: payroll_inv_def)
qed

lemma import_skipped: "payee d (pim_workerEmail r) = None \<Longrightarrow> ims_rows (import_step date new v prov d r st) = ims_rows st
    \<and> ims_imported (import_step date new v prov d r st) = ims_imported st"
  by (simp add: import_step_def)

lemma import_fold_inv:
  assumes "payroll_inv new v d st" "inj new" "range new \<inter> pr_id ` set (db_payrolls d) = {}"
  shows "payroll_inv new v d (fold (import_step date new v prov d) rs st)"
  using assms(1)
proof (induction rs arbitrary: st)
  case (Cons r rs)
  have "payroll_inv new v d (import_step date new v prov d r st)"
  proof (cases "payee d (pim_workerEmail r)")
    case None
    then show ?thesis using import_skipped [of d r date new v prov st] Cons.prems by (simp add: payroll_inv_def)
  next
    case (Some k)
    then show ?thesis using import_one(1) [OF Cons.prems assms(2,3)] by simp
  qed
  then show ?case using Cons.IH by simp
qed simp

lemma import_fold_keeps:
  assumes "payroll_inv new v d st" "inj new" "range new \<inter> pr_id ` set (db_payrolls d) = {}"
    and "p \<in> set (ims_rows st)" "\<forall>y \<in> set rs. \<forall>k. payee d (pim_workerEmail y) = Some k \<longrightarrow> record_key date v k y \<noteq> payroll_key p"
  shows "p \<in> set (ims_rows (fold (import_step date new v prov d) rs st))"
  using assms(1,4,5)
proof (induction rs arbitrary: st)
  case (Cons r rs)
  have inv: "payroll_inv new v d (import_step date new v prov d r st)"
    using import_fold_inv [OF Cons.prems(1) assms(2,3), of date prov "[r]"] by simp
  have "p \<in> set (ims_rows (import_step date new v prov d r st))"
  proof (cases "payee d (pim_workerEmail r)")
    case None
    then show ?thesis using import_skipped [of d r date new v prov st] Cons.prems by simp
  next
    case (Some k)
    then have "payroll_key p \<noteq> record_key date v k r" using Cons.prems(3) by fastforce
    then show ?thesis using import_one(3) [OF Cons.prems(1) assms(2,3) Some Cons.prems(2)] by blast
  qed
  then show ?case using Cons.IH [OF inv] Cons.prems(3) by simp
qed simp

lemma import_counts: "ims_imported (fold (import_step date new v prov d) rs st) + length (ims_skipped (fold (import_step date new v prov d) rs st))
    = ims_imported st + length (ims_skipped st) + length rs"
  by (induction rs arbitrary: st) (auto simp: import_step_def Let_def split: option.splits)

text \<open>A payroll import accounts for every record and the last one wins.  Imported and skipped
  records add up to the request, there is one row per worker, venue and period however often a period is
  imported, the rows of other venues stay, and a record that no later one of the request replaces is
  stored as it was given.\<close>

theorem payroll_import_exact:
  assumes "find_venue d v \<noteq> None" "distinct (map pr_id (db_payrolls d))" "distinct (map payroll_key (db_payrolls d))"
    and "inj new" "range new \<inter> pr_id ` set (db_payrolls d) = {}"
    and "importRecords w date new v prov rs d = (r, d')"
  shows "(\<exists>n skipped. r = Inr (n, skipped) \<and> n + length skipped = length rs)
     \<and> distinct (map payroll_key (db_payrolls d'))
     \<and> (\<forall>p \<in> set (db_payrolls d). pr_venueId p \<noteq> v \<longrightarrow> p \<in> set (db_payrolls d'))
     \<and> (\<forall>rs1 x rs2 k. rs = rs1 @ x # rs2 \<longrightarrow> payee d (pim_workerEmail x) = Some k \<longrightarrow>
          (\<forall>y \<in> set rs2. \<forall>k'. payee d (pim_workerEmail y) = Some k' \<longrightarrow> record_key date v k' y \<noteq> record_key date v k x) \<longrightarrow>
          (\<exists>p. payroll_data date v prov x k p \<in> set (db_payrolls d')))"
proof -
  let ?init = "\<lparr>ims_imported = 0, ims_skipped = [], ims_rows = db_payrolls d\<rparr>"
  let ?st = "fold (import_step date new v prov d) rs ?init"
  have inv0: "payroll_inv new v d ?init" using assms(2,3) by (simp add: payroll_inv_def)
  note inv = import_fold_inv [OF inv0 assms(4,5), of date prov]
  have v: "find_venue (d\<lparr>db_payrolls := x\<rparr>) v = find_venue d v" for x by (simp add: find_venue_def)
  have pay: "db_payrolls (snd (rebuildVenue w v None PAYROLL_IMPORT d1)) = db_payrolls d1" for d1
    by (auto simp: rebuildVenue_def rebuildVenueIncome_def rebuildVenueIncomeLocked_def Let_def split: prod.split)
  have ok: "is_ok (fst (rebuildVenue w v None PAYROLL_IMPORT (d\<lparr>db_payrolls := x\<rparr>)))" for x
    using assms(1) v by (auto simp: rebuildVenue_def rebuildVenueIncome_def rebuildVenueIncomeLocked_def Let_def split: prod.split)
  have rows: "db_payrolls d' = ims_rows ?st" and res: "r = Inr (ims_imported ?st, ims_skipped ?st)"
    using assms(1,6) ok [of "ims_rows ?st"] pay [of "d\<lparr>db_payrolls := ims_rows ?st\<rparr>"]
    by (auto simp: importRecords_def Let_def split: prod.splits sum.splits)
  have stored: "\<exists>p. payroll_data date v prov x k p \<in> set (ims_rows ?st)"
    if rs: "rs = rs1 @ x # rs2" and k: "payee d (pim_workerEmail x) = Some k"
      and later: "\<forall>y \<in> set rs2. \<forall>k'. payee d (pim_workerEmail y) = Some k' \<longrightarrow> record_key date v k' y \<noteq> record_key date v k x"
    for rs1 x rs2 k
  proof -
    let ?before = "fold (import_step date new v prov d) rs1 ?init"
    let ?mid = "import_step date new v prov d x ?before"
    have one: "payroll_inv new v d ?mid" "\<exists>p. payroll_data date v prov x k p \<in> set (ims_rows ?mid)"
      using import_one(1,2) [OF inv assms(4,5) k] by blast+
    then obtain p where p: "payroll_data date v prov x k p \<in> set (ims_rows ?mid)" by blast
    have "payroll_data date v prov x k p \<in> set (ims_rows (fold (import_step date new v prov d) rs2 ?mid))"
      using import_fold_keeps [OF one(1) assms(4,5) p] later by simp
    then show ?thesis unfolding rs by auto
  qed
  show ?thesis
  proof (intro conjI)
    show "\<exists>n skipped. r = Inr (n, skipped) \<and> n + length skipped = length rs"
      using res import_counts [of date new v prov d rs ?init] by simp
    show "distinct (map payroll_key (db_payrolls d'))" "\<forall>p \<in> set (db_payrolls d). pr_venueId p \<noteq> v \<longrightarrow> p \<in> set (db_payrolls d')"
      using inv [of rs] rows by (simp_all add: payroll_inv_def)
    show "\<forall>rs1 x rs2 k. rs = rs1 @ x # rs2 \<longrightarrow> payee d (pim_workerEmail x) = Some k \<longrightarrow>
          (\<forall>y \<in> set rs2. \<forall>k'. payee d (pim_workerEmail y) = Some k' \<longrightarrow> record_key date v k' y \<noteq> record_key date v k x) \<longrightarrow>
          (\<exists>p. payroll_data date v prov x k p \<in> set (db_payrolls d'))"
      unfolding rows by (intro allI impI) (rule stored)
  qed
qed

definition demo_payroll :: payroll_import where
  "demo_payroll = \<lparr>pim_workerEmail = ''a@b.c'', pim_periodStart = ''2026-01-01'', pim_periodEnd = ''2026-01-15'',
     pim_reportedTipUsdCents = 700, pim_federalWithholdingUsdCents = None, pim_stateWithholdingUsdCents = None,
     pim_socialSecurityUsdCents = None, pim_medicareUsdCents = None, pim_status = PayrollPENDING, pim_providerReference = None\<rparr>"

definition income_world0 :: income_world where
  "income_world0 = \<lparr>iw_now = 0, iw_noon = \<lambda>_. 0, iw_entry_id = demo_new_id, iw_alert_id = demo_new_id\<rparr>"

theorem payroll_import_exact_witness:
  "\<exists>p. payroll_data (\<lambda>_. 3) ''v1'' ''gusto'' demo_payroll \<lparr>wk_id = ''w1'', wk_userId = ''u1'', wk_defaultWalletId = None\<rparr> p
     \<in> set (db_payrolls (snd (importRecords income_world0 (\<lambda>_. 3) demo_new_id ''v1'' ''gusto'' [demo_payroll]
          (disclosure_demo\<lparr>db_venues := db_venues demo_db\<rparr>))))"
proof -
  let ?d = "disclosure_demo\<lparr>db_venues := db_venues demo_db\<rparr>"
  have inj: "inj demo_new_id" by (auto simp: inj_def demo_new_id_def dest: arg_cong [where f = length])
  have v: "find_venue ?d ''v1'' \<noteq> None" by (simp add: find_venue_def demo_db_def)
  have rows: "db_payrolls ?d = []" by (simp add: disclosure_demo_def empty_db_def)
  have k: "payee ?d (pim_workerEmail demo_payroll) = Some \<lparr>wk_id = ''w1'', wk_userId = ''u1'', wk_defaultWalletId = None\<rparr>"
    by (simp add: payee_def disclosure_demo_def worker_by_user_def demo_payroll_def js_lower_def lower_char_def)
  from payroll_import_exact [OF v _ _ inj _ prod.collapse [symmetric], of income_world0 "\<lambda>_. 3" "''gusto''" "[demo_payroll]"] rows
  have "\<forall>rs1 x rs2 k. [demo_payroll] = rs1 @ x # rs2 \<longrightarrow> payee ?d (pim_workerEmail x) = Some k \<longrightarrow>
      (\<forall>y \<in> set rs2. \<forall>k'. payee ?d (pim_workerEmail y) = Some k' \<longrightarrow> record_key (\<lambda>_. 3) ''v1'' k' y \<noteq> record_key (\<lambda>_. 3) ''v1'' k x) \<longrightarrow>
      (\<exists>p. payroll_data (\<lambda>_. 3) ''v1'' ''gusto'' x k p
        \<in> set (db_payrolls (snd (importRecords income_world0 (\<lambda>_. 3) demo_new_id ''v1'' ''gusto'' [demo_payroll] ?d))))"
    by simp
  from this [rule_format, of "[]" demo_payroll "[]"] k show ?thesis by simp
qed

end
