(* ===== verification/Upserts.thy ===== *)
theory Upserts
  imports Prelude
begin

text \<open>
  \<open>upsert\<close> on a unique key, row by row, and the contract under which importing the same items again
  changes nothing.  The evidence imports of the CSV upload and of the provider sync interpret it.
\<close>

section \<open>Operations\<close>

text \<open>One \<open>upsert\<close>: \<open>update\<close> the row with the item's key, or \<open>create\<close> it; \<open>n\<close> is the number of the
  call, from which the id of a created row is drawn.\<close>

definition upsert_row :: "('i \<Rightarrow> 'r \<Rightarrow> bool) \<Rightarrow> ('i \<Rightarrow> 'r \<Rightarrow> 'r) \<Rightarrow> (nat \<Rightarrow> 'i \<Rightarrow> 'r) \<Rightarrow> nat \<times> 'i \<Rightarrow> 'r list \<Rightarrow> 'r list" where
  "upsert_row matches update create ni t = (case ni of (n, i) \<Rightarrow>
     if list_ex (matches i) t then update_where (matches i) (update i) t else t @ [create n i])"

definition upsert_rows :: "('i \<Rightarrow> 'r \<Rightarrow> bool) \<Rightarrow> ('i \<Rightarrow> 'r \<Rightarrow> 'r) \<Rightarrow> (nat \<Rightarrow> 'i \<Rightarrow> 'r) \<Rightarrow> 'i list \<Rightarrow> 'r list \<Rightarrow> 'r list" where
  "upsert_rows matches update create items t = fold (upsert_row matches update create) (zip [0..<length items] items) t"

lemma in_upsert_row:
  assumes "r \<in> set (upsert_row m u c ni t)"
  shows "r \<in> set t \<or> (\<exists>r0 \<in> set t. m (snd ni) r0 \<and> r = u (snd ni) r0) \<or> r = c (fst ni) (snd ni)"
  using assms by (cases ni) (auto simp: upsert_row_def in_update_where split: if_splits)

lemma upsert_rows_all:
  assumes "\<And>n i r. i \<in> set items \<Longrightarrow> P r \<Longrightarrow> P (u i r)" "\<And>n i. i \<in> set items \<Longrightarrow> P (c n i)" "\<forall>r \<in> set t. P r"
  shows "\<forall>r \<in> set (upsert_rows m u c items t). P r"
proof -
  have "\<forall>r \<in> set (fold (upsert_row m u c) nis t). P r" if "snd ` set nis \<subseteq> set items" "\<forall>r \<in> set t. P r" for nis t
    using that
  proof (induction nis arbitrary: t)
    case (Cons ni nis)
    have "\<forall>r \<in> set (upsert_row m u c ni t). P r"
    proof
      fix r
      assume "r \<in> set (upsert_row m u c ni t)"
      from in_upsert_row [OF this] show "P r" using Cons.prems assms(1,2) by auto
    qed
    then show ?case using Cons by simp
  qed simp
  moreover have "snd ` set (zip [0..<length items] items) \<subseteq> set items" by (auto dest: set_zip_rightD)
  ultimately show ?thesis using assms(3) unfolding upsert_rows_def by blast
qed

section \<open>The contract\<close>

text \<open>An update keeps the row's key and writes the same when it is repeated.\<close>

locale rewriting =
  fixes matches :: "'i \<Rightarrow> 'r \<Rightarrow> bool" and update :: "'i \<Rightarrow> 'r \<Rightarrow> 'r" and create :: "nat \<Rightarrow> 'i \<Rightarrow> 'r"
  assumes keeps: "matches i r \<Longrightarrow> matches j (update i r) = matches j r"
    and repeats: "matches i r \<Longrightarrow> update i (update i r) = update i r"
    and created: "matches i (create n i)"
    and complete: "update i (create n i) = create n i"
begin

text \<open>The row an item list leaves a row at: the last item with its key wins.\<close>

definition final :: "'i list \<Rightarrow> 'r \<Rightarrow> 'r" where
  "final items r = (case find (\<lambda>i. matches i r) (rev items) of None \<Rightarrow> r | Some i \<Rightarrow> update i r)"

definition settled_rows :: "'i list \<Rightarrow> 'r list \<Rightarrow> bool" where
  "settled_rows items t \<longleftrightarrow> (\<forall>r \<in> set t. final items r = r) \<and> (\<forall>i \<in> set items. \<exists>r \<in> set t. matches i r)"

lemma matches_final: "matches j (final items r) = matches j r"
proof (cases "find (\<lambda>i. matches i r) (rev items)")
  case (Some i)
  then show ?thesis using keeps [of i r j] find_SomeD [OF Some] by (simp add: final_def)
qed (simp add: final_def)

lemma row_present:
  "\<exists>r \<in> set (upsert_row matches update create (n, i) t). matches i r"
proof (cases "list_ex (matches i) t")
  case True
  then obtain r where r: "r \<in> set t" "matches i r" by (auto simp: list_ex_iff)
  then have "update i r \<in> set (update_where (matches i) (update i) t)" unfolding in_update_where by (intro bexI [of _ r]) simp_all
  then show ?thesis using True r(2) keeps [of i r i] by (auto simp: upsert_row_def)
next
  case False
  then show ?thesis by (simp add: upsert_row_def created)
qed

lemma others_present:
  assumes "\<exists>r \<in> set t. matches j r"
  shows "\<exists>r \<in> set (upsert_row matches update create (n, i) t). matches j r"
proof -
  obtain r where r: "r \<in> set t" "matches j r" using assms by blast
  then have "(if matches i r then update i r else r) \<in> set (update_where (matches i) (update i) t)"
    by (auto simp: in_update_where)
  moreover have "matches j (if matches i r then update i r else r)" using r(2) by (simp add: keeps)
  ultimately show ?thesis using r by (auto simp: upsert_row_def)
qed

lemma rows_settled_snoc:
  assumes "settled_rows items t"
  shows "settled_rows (items @ [i]) (upsert_row matches update create (n, i) t)"
  unfolding settled_rows_def
proof (intro conjI ballI)
  fix r
  assume r: "r \<in> set (upsert_row matches update create (n, i) t)"
  show "final (items @ [i]) r = r"
  proof (cases "matches i r")
    case True
    have "update i r = r"
    proof (cases "list_ex (matches i) t")
      case found: True
      then obtain r0 where r0: "r0 \<in> set t" "r = (if matches i r0 then update i r0 else r0)"
        using r by (auto simp: upsert_row_def in_update_where)
      with True have "matches i r0" by (auto simp: keeps split: if_splits)
      then show ?thesis using r0(2) repeats [of i r0] by simp
    next
      case False
      then have "r = create n i" using r True by (auto simp: upsert_row_def list_ex_iff)
      then show ?thesis by (simp add: complete)
    qed
    then show ?thesis using True by (simp add: final_def)
  next
    case False
    then have "r \<in> set t" using in_upsert_row [OF r] keeps created by auto
    then show ?thesis using assms False by (simp add: settled_rows_def final_def)
  qed
next
  fix j
  assume "j \<in> set (items @ [i])"
  then show "\<exists>r \<in> set (upsert_row matches update create (n, i) t). matches j r"
    using assms others_present row_present by (auto simp: settled_rows_def)
qed

lemma rows_settled: "settled_rows items (upsert_rows matches update create items t)"
proof (induction items rule: rev_induct)
  case (snoc i items)
  have "zip [0..<length (items @ [i])] (items @ [i]) = zip [0..<length items] items @ [(length items, i)]" by simp
  then show ?case using rows_settled_snoc [OF snoc] by (simp add: upsert_rows_def del: upt_Suc)
qed (simp add: settled_rows_def upsert_rows_def final_def)

text \<open>A second run only updates, and leaves each row at the value of its last item.\<close>

lemma rerun_rows:
  assumes "\<forall>i \<in> snd ` set nis. \<exists>r \<in> set t. matches i r"
  shows "fold (upsert_row matches update create2) nis t = map (fold (\<lambda>i r. if matches i r then update i r else r) (map snd nis)) t"
  using assms
proof (induction nis arbitrary: t)
  case (Cons ni nis)
  obtain n i where ni: "ni = (n, i)" by fastforce
  have step: "upsert_row matches update create2 ni t = map (\<lambda>r. if matches i r then update i r else r) t"
    using Cons.prems by (auto simp: ni upsert_row_def list_ex_iff update_where_def)
  have "\<forall>j \<in> snd ` set nis. \<exists>r \<in> set (upsert_row matches update create2 ni t). matches j r"
  proof
    fix j
    assume "j \<in> snd ` set nis"
    then obtain r where "r \<in> set t" "matches j r" using Cons.prems by auto
    then have "(if matches i r then update i r else r) \<in> set (upsert_row matches update create2 ni t)"
      "matches j (if matches i r then update i r else r)" unfolding step by (auto simp: keeps)
    then show "\<exists>r \<in> set (upsert_row matches update create2 ni t). matches j r" by blast
  qed
  from Cons.IH [OF this] show ?case by (simp add: step [unfolded ni] ni comp_def)
qed simp

lemma rerun_by:
  assumes fin: "\<And>r. r \<in> set (upsert_rows matches update create items t) \<Longrightarrow>
     fold (\<lambda>i r. if matches i r then update i r else r) items r = final items r"
  shows "upsert_rows matches update create2 items (upsert_rows matches update create items t) = upsert_rows matches update create items t"
proof -
  let ?t = "upsert_rows matches update create items t"
  have s: "settled_rows items ?t" by (rule rows_settled)
  have snds: "map snd (zip [0..<length items] items) = items" by simp
  have snd_set: "snd ` set (zip [0..<length items] items) = set items" using snds by (metis set_map)
  have "upsert_rows matches update create2 items ?t = map (fold (\<lambda>i r. if matches i r then update i r else r) items) ?t"
    unfolding upsert_rows_def [of _ _ create2] using s snd_set by (subst rerun_rows) (simp_all add: settled_rows_def)
  also have "\<dots> = ?t"
  proof (rule map_idI)
    fix r
    assume r: "r \<in> set ?t"
    then have "final items r = r" using s by (simp add: settled_rows_def)
    then show "fold (\<lambda>i r. if matches i r then update i r else r) items r = r" using fin [OF r] by simp
  qed
  finally show ?thesis .
qed

text \<open>Items with different keys: one of them writes a row.\<close>

lemma fold_final_apart:
  assumes "sorted_wrt (\<lambda>i j. \<forall>r. \<not> (matches i r \<and> matches j r)) items"
  shows "fold (\<lambda>i r. if matches i r then update i r else r) items r = final items r"
  using assms
proof (induction items rule: rev_induct)
  case (snoc i items)
  then have ih: "fold (\<lambda>i r. if matches i r then update i r else r) items r = final items r" by (simp add: sorted_wrt_append)
  note m = matches_final
  have "matches i r \<Longrightarrow> final items r = r"
    using snoc.prems by (auto simp: final_def sorted_wrt_append dest: find_SomeD split: option.split)
  then show ?case using ih m by (auto simp: final_def)
qed (simp add: final_def)

lemma rerun_apart:
  assumes "sorted_wrt (\<lambda>i j. \<forall>r. \<not> (matches i r \<and> matches j r)) items"
  shows "upsert_rows matches update create2 items (upsert_rows matches update create items t) = upsert_rows matches update create items t"
  by (rule rerun_by) (rule fold_final_apart [OF assms])

end

text \<open>An update that overwrites what any earlier update with the key wrote: the keys may repeat.\<close>

locale overwriting = rewriting +
  assumes overwrites: "matches i r \<Longrightarrow> matches j r \<Longrightarrow> update i (update j r) = update i r"
begin

lemma fold_final: "fold (\<lambda>i r. if matches i r then update i r else r) items r = final items r"
proof (induction items rule: rev_induct)
  case (snoc i items)
  note m = matches_final
  have "matches i r \<Longrightarrow> update i (final items r) = update i r"
    by (auto simp: final_def overwrites dest: find_SomeD split: option.split)
  then show ?case using snoc m by (simp add: final_def)
qed (simp add: final_def)

lemma rerun:
  "upsert_rows matches update create2 items (upsert_rows matches update create items t) = upsert_rows matches update create items t"
  by (rule rerun_by) (rule fold_final)

end

end
