(* ===== verification/Evidence.thy ===== *)
theory Evidence
  imports Upserts Csv Mappings
begin

text \<open>
  \<open>apps/api/src/evidence/evidence.service.ts\<close>: importing a CSV file of tips and shifts, which also
  calculates a batch for every business date it names.  \<open>evidence_world\<close> holds what one call draws
  from outside: the parameters of \<open>normalizeCsv\<close> and of \<open>calculate\<close>, the clock and the ids of
  created rows (of the n-th tip, the n-th shift and the n-th calculation).
\<close>

section \<open>Outside\<close>

record evidence_world =
  ew_iso_datetime :: "string \<Rightarrow> bool"
  ew_zmsg :: "string \<Rightarrow> string option \<Rightarrow> string"
  ew_date_ms :: "string \<Rightarrow> instant"
  ew_bdate :: "instant \<Rightarrow> string \<Rightarrow> string"
  ew_row_hash :: "csv_row \<Rightarrow> string"
  ew_lc :: "string \<Rightarrow> string \<Rightarrow> rat"
  ew_evidence_hash :: "string list \<Rightarrow> string list \<Rightarrow> string"
  ew_allocation_hash :: "int \<Rightarrow> cents \<Rightarrow> worker_allocation_result list \<Rightarrow> string"
  ew_now :: instant
  ew_tip_id :: "nat \<Rightarrow> id"
  ew_shift_id :: "nat \<Rightarrow> id"
  ew_batch_id :: "nat \<Rightarrow> id"
  ew_alloc_id :: "nat \<Rightarrow> nat \<Rightarrow> id"

definition parse_csv :: "evidence_world \<Rightarrow> string \<Rightarrow> string \<Rightarrow> http_error + normalization" where
  "parse_csv w csvText timezone =
     normalizeCsv (ew_iso_datetime w) (ew_zmsg w) (ew_date_ms w) (ew_bdate w) (ew_row_hash w) csvText timezone"

section \<open>Rows\<close>

definition worker_by_external :: "db \<Rightarrow> id \<Rightarrow> (string \<times> id) list" where
  "worker_by_external d venueId =
     fold (\<lambda>x. map_set (ext_provider x @ '':'' @ ext_externalWorkerId x) (ext_workerId x))
       (filter (\<lambda>x. ext_venueId x = venueId \<and> ext_mappingStatus x = MappingCONFIRMED) (db_externals d)) []"

definition mapped_worker :: "(string \<times> id) list \<Rightarrow> normalized_shift \<Rightarrow> id option" where
  "mapped_worker m s = map_of m (ns_provider s @ '':'' @ ns_externalWorkerId s)"

definition tip_key :: "id \<Rightarrow> normalized_tip \<Rightarrow> tip_evidence \<Rightarrow> bool" where
  "tip_key venueId n t \<longleftrightarrow> te_venueId t = venueId \<and> te_provider t = nt_provider n
     \<and> te_externalPaymentId t = nt_externalPaymentId n \<and> te_tipType t = nt_tipType n"

definition tip_update :: "normalized_tip \<Rightarrow> tip_evidence \<Rightarrow> tip_evidence" where
  "tip_update n t = t\<lparr>te_grossAmountUsdCents := nt_grossAmountUsdCents n, te_businessDate := nt_businessDate n,
     te_sourceHash := nt_sourceHash n, te_sourcePayoutRail := Some (nt_sourcePayoutRail n),
     te_sourcePayrollStatus := Some (nt_sourcePayrollStatus n)\<rparr>"

definition tip_create :: "(nat \<Rightarrow> id) \<Rightarrow> id \<Rightarrow> nat \<Rightarrow> normalized_tip \<Rightarrow> tip_evidence" where
  "tip_create new venueId k n = \<lparr>te_id = new k, te_provider = nt_provider n, te_ingestSource = CSV_UPLOAD, te_venueId = venueId,
     te_externalPaymentId = nt_externalPaymentId n, te_externalOrderId = None, te_tipType = nt_tipType n,
     te_grossAmountUsdCents = nt_grossAmountUsdCents n, te_paymentStatus = PaymentCOMPLETED, te_refundStatus = RefundNONE,
     te_businessDate = nt_businessDate n, te_sourceHash = nt_sourceHash n, te_sourcePayoutRail = Some (nt_sourcePayoutRail n),
     te_sourcePayrollStatus = Some (nt_sourcePayrollStatus n)\<rparr>"

definition shift_key :: "id \<Rightarrow> normalized_shift \<Rightarrow> shift_evidence \<Rightarrow> bool" where
  "shift_key venueId n s \<longleftrightarrow> se_venueId s = venueId \<and> se_provider s = ns_provider n \<and> se_externalShiftId s = ns_externalShiftId n"

definition shift_update :: "(string \<times> id) list \<Rightarrow> normalized_shift \<Rightarrow> shift_evidence \<Rightarrow> shift_evidence" where
  "shift_update m n s = s\<lparr>se_externalWorkerId := ns_externalWorkerId n, se_mappedWorkerId := mapped_worker m n,
     se_role := ns_role n, se_clockIn := ns_clockIn n, se_clockOut := Some (ns_clockOut n), se_workedMinutes := ns_workedMinutes n,
     se_businessDate := ns_businessDate n, se_sourceHash := ns_sourceHash n, se_sourcePayoutRail := Some (ns_sourcePayoutRail n),
     se_sourcePayrollStatus := Some (ns_sourcePayrollStatus n)\<rparr>"

definition shift_create :: "(nat \<Rightarrow> id) \<Rightarrow> id \<Rightarrow> (string \<times> id) list \<Rightarrow> nat \<Rightarrow> normalized_shift \<Rightarrow> shift_evidence" where
  "shift_create new venueId m k n = \<lparr>se_id = new k, se_provider = ns_provider n, se_ingestSource = CSV_UPLOAD, se_venueId = venueId,
     se_externalShiftId = ns_externalShiftId n, se_externalWorkerId = ns_externalWorkerId n, se_mappedWorkerId = mapped_worker m n,
     se_role = ns_role n, se_clockIn = ns_clockIn n, se_clockOut = Some (ns_clockOut n), se_workedMinutes = ns_workedMinutes n,
     se_shiftStatus = ShiftCOMPLETED, se_businessDate = ns_businessDate n, se_sourceHash = ns_sourceHash n,
     se_sourcePayoutRail = Some (ns_sourcePayoutRail n), se_sourcePayrollStatus = Some (ns_sourcePayrollStatus n)\<rparr>"

section \<open>The import\<close>

datatype auto_outcome = AutoCalculated batch_status | SKIPPED | FAILED

record auto_calculation =
  aut_businessDate :: string
  aut_batchId :: "id option"
  aut_outcome :: auto_outcome
  aut_message :: "http_error option"

record import_summary =
  sum_tipsUpserted :: nat
  sum_shiftsUpserted :: nat
  sum_mappedShifts :: nat
  sum_unmappedShifts :: nat
  sum_businessDates :: "string list"
  sum_autoCalculations :: "auto_calculation list"
  sum_errors :: "(nat \<times> string) list"

definition auto_step ::
  "evidence_world \<Rightarrow> id \<Rightarrow> id option \<Rightarrow> nat \<times> string \<Rightarrow> auto_calculation list \<times> db \<Rightarrow> auto_calculation list \<times> db" where
  "auto_step w venueId actor kd s = (case (kd, s) of ((k, businessDate), (done_list, d)) \<Rightarrow>
     case calculate (ew_lc w) (ew_evidence_hash w) (ew_allocation_hash w) (ew_batch_id w k) (ew_alloc_id w k) (ew_now w)
       \<lparr>ci_venueId = venueId, ci_businessDate = businessDate, ci_policyVersion = None\<rparr> actor d of
       (Inr b, d') \<Rightarrow> (done_list @ [\<lparr>aut_businessDate = businessDate, aut_batchId = Some (ab_id (bv_batch b)),
           aut_outcome = AutoCalculated (ab_status (bv_batch b)), aut_message = None\<rparr>], d')
     | (Inl e, d') \<Rightarrow> (done_list @ [\<lparr>aut_businessDate = businessDate, aut_batchId = None,
           aut_outcome = (case e of ConflictException _ \<Rightarrow> SKIPPED | _ \<Rightarrow> FAILED), aut_message = Some e\<rparr>], d'))"

text \<open>The evidence tables after the file.\<close>

definition store_evidence :: "evidence_world \<Rightarrow> id \<Rightarrow> normalization \<Rightarrow> db \<Rightarrow> db" where
  "store_evidence w venueId n d =
     (let m = worker_by_external d venueId
      in d\<lparr>db_tips := upsert_rows (tip_key venueId) tip_update (tip_create (ew_tip_id w) venueId) (cn_tips n) (db_tips d),
           db_shifts := upsert_rows (shift_key venueId) (shift_update m) (shift_create (ew_shift_id w) venueId m) (cn_shifts n) (db_shifts d)\<rparr>)"

definition import_dates :: "normalization \<Rightarrow> string list" where
  "import_dates n = js_sort str_cmp (first_distinct (map ns_businessDate (cn_shifts n) @ map nt_businessDate (cn_tips n)))"

definition importCsv :: "evidence_world \<Rightarrow> id \<Rightarrow> string \<Rightarrow> id option \<Rightarrow> db \<Rightarrow> (import_summary, db) outcome" where
  "importCsv w venueId csvText actor d = (case find_venue d venueId of
       None \<Rightarrow> (Inl (NotFoundException ''Venue ${venueId} not found''), d)
     | Some v \<Rightarrow> (case parse_csv w csvText (ven_timezone v) of
         Inl e \<Rightarrow> (Inl e, d)
       | Inr n \<Rightarrow>
           let m = worker_by_external d venueId; dates = import_dates n;
               mapped = count_where (\<lambda>s. truthy (mapped_worker m s)) (cn_shifts n);
               (autos, d') = fold (auto_step w venueId actor) (zip [0..<length dates] dates) ([], store_evidence w venueId n d)
           in (Inr \<lparr>sum_tipsUpserted = length (cn_tips n), sum_shiftsUpserted = length (cn_shifts n), sum_mappedShifts = mapped,
                 sum_unmappedShifts = length (cn_shifts n) - mapped, sum_businessDates = dates, sum_autoCalculations = autos,
                 sum_errors = cn_errors n\<rparr>, d')))"

definition tip_date_cmp :: "tip_evidence \<Rightarrow> tip_evidence \<Rightarrow> rat" where
  "tip_date_cmp a b = str_cmp (te_businessDate b) (te_businessDate a)"

definition clock_in_cmp :: "shift_evidence \<Rightarrow> shift_evidence \<Rightarrow> rat" where
  "clock_in_cmp a b = of_int (se_clockIn a - se_clockIn b)"

definition listTipEvidence :: "id \<Rightarrow> string option \<Rightarrow> db \<Rightarrow> tip_evidence list" where
  "listTipEvidence venueId businessDate d =
     js_sort tip_date_cmp (filter (\<lambda>t. te_venueId t = venueId \<and> (truthy businessDate \<longrightarrow> Some (te_businessDate t) = businessDate)) (db_tips d))"

definition listShiftEvidence :: "id \<Rightarrow> string option \<Rightarrow> db \<Rightarrow> shift_evidence list" where
  "listShiftEvidence venueId businessDate d =
     js_sort clock_in_cmp (filter (\<lambda>s. se_venueId s = venueId \<and> (truthy businessDate \<longrightarrow> Some (se_businessDate s) = businessDate)) (db_shifts d))"

section \<open>Importing twice\<close>

interpretation tips: overwriting "tip_key v" tip_update "tip_create new v" for v new
  by unfold_locales (simp_all add: tip_key_def tip_update_def tip_create_def)

interpretation shifts: overwriting "shift_key v" "shift_update m" "shift_create new v m" for v m new
  by unfold_locales (simp_all add: shift_key_def shift_update_def shift_create_def)

text \<open>What a calculation leaves alone.\<close>

lemma save_batch_frame2:
  "db_externals (save_batch n sv rs pl ex d) = db_externals d" "db_venues (save_batch n sv rs pl ex d) = db_venues d"
  by (simp_all add: save_batch_def Let_def)

lemma calculate_frame:
  assumes "calculate lc eh ah nb na now inp by d = (r, d')"
  shows "db_tips d' = db_tips d \<and> db_shifts d' = db_shifts d \<and> db_externals d' = db_externals d \<and> db_venues d' = db_venues d"
  using assms by (cases rule: calculate_cases) (simp_all add: save_batch_frame2)

lemma auto_step_cases:
  obtains r where "calculate (ew_lc w) (ew_evidence_hash w) (ew_allocation_hash w) (ew_batch_id w k) (ew_alloc_id w k) (ew_now w)
       \<lparr>ci_venueId = v, ci_businessDate = bd, ci_policyVersion = None\<rparr> actor d = (r, snd (auto_step w v actor (k, bd) (l, d)))"
  by (rule that [of "fst (calculate (ew_lc w) (ew_evidence_hash w) (ew_allocation_hash w) (ew_batch_id w k) (ew_alloc_id w k) (ew_now w)
       \<lparr>ci_venueId = v, ci_businessDate = bd, ci_policyVersion = None\<rparr> actor d)"])
    (auto simp: auto_step_def split: prod.splits sum.splits)

lemma auto_frame:
  "db_tips (snd (fold (auto_step w v actor) kds s)) = db_tips (snd s) \<and> db_shifts (snd (fold (auto_step w v actor) kds s)) = db_shifts (snd s)
   \<and> db_externals (snd (fold (auto_step w v actor) kds s)) = db_externals (snd s)
   \<and> db_venues (snd (fold (auto_step w v actor) kds s)) = db_venues (snd s)"
proof (induction kds arbitrary: s)
  case (Cons kd kds)
  obtain k bd where kd: "kd = (k, bd)" by fastforce
  obtain l d where s: "s = (l, d)" by fastforce
  obtain r where "calculate (ew_lc w) (ew_evidence_hash w) (ew_allocation_hash w) (ew_batch_id w k) (ew_alloc_id w k) (ew_now w)
       \<lparr>ci_venueId = v, ci_businessDate = bd, ci_policyVersion = None\<rparr> actor d = (r, snd (auto_step w v actor kd s))"
    unfolding kd s by (rule auto_step_cases)
  from calculate_frame [OF this] show ?case using Cons.IH [of "auto_step w v actor kd s"] by (simp add: s)
qed simp

text \<open>An import that gets past the file: its result and the tables it leaves.\<close>

lemma importCsv_cases:
  assumes "importCsv w v csv actor d = (r, d')"
  obtains (rejected) e where "r = Inl e" "d' = d"
  | (stored) venue n autos where "find_venue d v = Some venue" "parse_csv w csv (ven_timezone venue) = Inr n"
      "fold (auto_step w v actor) (zip [0..<length (import_dates n)] (import_dates n)) ([], store_evidence w v n d) = (autos, d')"
  using assms by (auto simp: importCsv_def Let_def split: option.splits sum.splits prod.splits)

text \<open>(C32) Importing is idempotent.  Uploading the same file again, at any later time and with whatever
  ids new rows would get, leaves the evidence of tips and shifts exactly as the first upload left it:
  retries neither duplicate nor change a row.\<close>

theorem import_idempotent:
  assumes "importCsv w v csv actor d = (r, d1)" "importCsv w2 v csv actor2 d1 = (r2, d2)"
    and "\<forall>tz. parse_csv w2 csv tz = parse_csv w csv tz"
  shows "db_tips d2 = db_tips d1 \<and> db_shifts d2 = db_shifts d1"
  using assms(2)
proof (cases rule: importCsv_cases)
  case (stored venue2 n2 autos2)
  show ?thesis
    using assms(1)
  proof (cases rule: importCsv_cases)
    case (rejected e)
    then have "find_venue d v = Some venue2" using stored(1) by simp
    moreover have "parse_csv w csv (ven_timezone venue2) = Inr n2" using stored(2) assms(3) by simp
    ultimately show ?thesis using assms(1) rejected(1) by (auto simp: importCsv_def Let_def split: prod.splits)
  next
    case first: (stored venue n autos)
    have fr: "db_tips d1 = db_tips (store_evidence w v n d)" "db_shifts d1 = db_shifts (store_evidence w v n d)"
      "db_externals d1 = db_externals d" "db_venues d1 = db_venues d"
      using auto_frame [of w v actor "zip [0..<length (import_dates n)] (import_dates n)" "([], store_evidence w v n d)"] first(3)
      by (simp_all add: store_evidence_def Let_def)
    have "find_venue d1 v = find_venue d v" using fr(4) by (simp add: find_venue_def)
    then have n2: "n2 = n" using stored(1,2) first(1,2) assms(3) by simp
    have m: "worker_by_external d1 v = worker_by_external d v" using fr(3) by (simp add: worker_by_external_def)
    have "db_tips d2 = db_tips (store_evidence w2 v n d1)" "db_shifts d2 = db_shifts (store_evidence w2 v n d1)"
      using auto_frame [of w2 v actor2 "zip [0..<length (import_dates n)] (import_dates n)" "([], store_evidence w2 v n d1)"] stored(3) n2
      by simp_all
    then show ?thesis using fr(1,2) tips.rerun shifts.rerun by (simp add: store_evidence_def Let_def m)
  qed
qed simp

section \<open>Importing keeps the ledger\<close>

lemma normalize_line_amounts:
  assumes "normalize_line io zmsg ms bd rh tz hs nl res = Inr r" "\<forall>t \<in> set (cn_tips res). 0 \<le> nt_grossAmountUsdCents t"
  shows "\<forall>t \<in> set (cn_tips r). 0 \<le> nt_grossAmountUsdCents t"
  using assms by (auto simp: normalize_line_def Let_def tip_of_row_def split: prod.splits sum.splits if_splits)

lemma normalize_loop_amounts:
  assumes "normalize_loop (normalize_line io zmsg ms bd rh tz hs) ls res = Inr r" "\<forall>t \<in> set (cn_tips res). 0 \<le> nt_grossAmountUsdCents t"
  shows "\<forall>t \<in> set (cn_tips r). 0 \<le> nt_grossAmountUsdCents t"
  using assms
proof (induction ls arbitrary: res)
  case (Cons l ls)
  then obtain r1 where r1: "normalize_line io zmsg ms bd rh tz hs l res = Inr r1" by (auto split: sum.splits)
  show ?case using Cons.IH [OF _ normalize_line_amounts [OF r1 Cons.prems(2)]] Cons.prems(1) r1 by simp
qed simp

lemma parse_csv_amounts: "parse_csv w csv tz = Inr n \<Longrightarrow> t \<in> set (cn_tips n) \<Longrightarrow> 0 \<le> nt_grossAmountUsdCents t"
  by (auto simp: parse_csv_def normalizeCsv_def Let_def split: if_splits dest!: normalize_loop_amounts)

text \<open>The batches of one run of calculations: \<open>k0\<close> is the number of the next one.\<close>

definition approved_kept :: "db \<Rightarrow> db \<Rightarrow> bool" where
  "approved_kept d d' \<longleftrightarrow> (\<forall>b \<in> set (db_batches d). \<not> recalculable (ab_status b) \<longrightarrow> b \<in> set (db_batches d')
     \<and> filter (\<lambda>a. wa_batchId a = ab_id b) (db_allocations d') = filter (\<lambda>a. wa_batchId a = ab_id b) (db_allocations d))"

lemma auto_ledger:
  assumes "ledger_inv d" "inj (ew_batch_id w)" "\<forall>k \<ge> k0. ew_batch_id w k \<notin> ab_id ` set (db_batches d)"
  shows "ledger_inv (snd (fold (auto_step w v actor) (zip [k0..<k0 + length dates] dates) (l, d)))
     \<and> approved_kept d (snd (fold (auto_step w v actor) (zip [k0..<k0 + length dates] dates) (l, d)))"
  using assms(1,3)
proof (induction dates arbitrary: k0 l d)
  case (Cons bd dates)
  let ?s = "auto_step w v actor (k0, bd) (l, d)"
  obtain r where r: "calculate (ew_lc w) (ew_evidence_hash w) (ew_allocation_hash w) (ew_batch_id w k0) (ew_alloc_id w k0) (ew_now w)
       \<lparr>ci_venueId = v, ci_businessDate = bd, ci_policyVersion = None\<rparr> actor d = (r, snd ?s)"
    by (rule auto_step_cases)
  have fresh: "ew_batch_id w k0 \<notin> ab_id ` set (db_batches d)" using Cons.prems(2) by simp
  have led: "ledger_inv (snd ?s)" by (rule calculate_ledger [OF Cons.prems(1) fresh r])
  have ids: "ab_id ` set (db_batches (snd ?s)) \<subseteq> insert (ew_batch_id w k0) (ab_id ` set (db_batches d))"
    by (rule calculate_batch_ids [OF Cons.prems(1) r])
  have fresh': "\<forall>k \<ge> Suc k0. ew_batch_id w k \<notin> ab_id ` set (db_batches (snd ?s))"
  proof (intro allI impI notI)
    fix k
    assume k: "Suc k0 \<le> k" "ew_batch_id w k \<in> ab_id ` set (db_batches (snd ?s))"
    then have "ew_batch_id w k = ew_batch_id w k0 \<or> ew_batch_id w k \<in> ab_id ` set (db_batches d)" using ids by blast
    moreover have "ew_batch_id w k \<noteq> ew_batch_id w k0" using k(1) assms(2) by (auto dest: injD)
    moreover have "ew_batch_id w k \<notin> ab_id ` set (db_batches d)" using k(1) Cons.prems(2) by simp
    ultimately show False by blast
  qed
  have zip: "zip [k0..<k0 + length (bd # dates)] (bd # dates) = (k0, bd) # zip [Suc k0..<Suc k0 + length dates] dates"
    using upt_conv_Cons [of k0 "k0 + Suc (length dates)"] by simp
  have kept: "approved_kept d (snd ?s)"
    unfolding approved_kept_def using calculate_untouched [OF Cons.prems(1) fresh r] by blast
  from Cons.IH [OF led fresh', of "fst ?s"]
  have ih: "ledger_inv (snd (fold (auto_step w v actor) (zip [Suc k0..<Suc k0 + length dates] dates) ?s))"
    "approved_kept (snd ?s) (snd (fold (auto_step w v actor) (zip [Suc k0..<Suc k0 + length dates] dates) ?s))" by simp_all
  have "approved_kept d (snd (fold (auto_step w v actor) (zip [Suc k0..<Suc k0 + length dates] dates) ?s))"
    using kept ih(2) unfolding approved_kept_def by metis
  then show ?case unfolding zip fold_simps using ih(1) by blast
qed (simp add: approved_kept_def)

text \<open>(C17) An upload cannot disturb approved money.  Whatever the file holds and whichever calculations it
  triggers, the ledger stays balanced and every batch past review keeps its row and its
  allocations.\<close>

theorem import_keeps_ledger:
  assumes "ledger_inv d" "inj (ew_batch_id w)" "range (ew_batch_id w) \<inter> ab_id ` set (db_batches d) = {}"
    and "importCsv w v csv actor d = (r, d')"
  shows "ledger_inv d' \<and> (\<forall>b \<in> set (db_batches d). \<not> recalculable (ab_status b) \<longrightarrow> b \<in> set (db_batches d')
     \<and> filter (\<lambda>a. wa_batchId a = ab_id b) (db_allocations d') = filter (\<lambda>a. wa_batchId a = ab_id b) (db_allocations d))"
  using assms(4)
proof (cases rule: importCsv_cases)
  case (stored venue n autos)
  let ?d = "store_evidence w v n d"
  have tips: "\<forall>t \<in> set (db_tips ?d). 0 \<le> te_grossAmountUsdCents t"
  proof -
    have "\<forall>t \<in> set (upsert_rows (tip_key v) tip_update (tip_create (ew_tip_id w) v) (cn_tips n) (db_tips d)). 0 \<le> te_grossAmountUsdCents t"
    proof (rule upsert_rows_all)
      show "0 \<le> te_grossAmountUsdCents (tip_update i r)" "0 \<le> te_grossAmountUsdCents (tip_create (ew_tip_id w) v k i)"
        if "i \<in> set (cn_tips n)" for i r k
        using parse_csv_amounts [OF stored(2) that] by (simp_all add: tip_update_def tip_create_def)
    qed (use assms(1) in \<open>simp add: ledger_inv_def\<close>)
    then show ?thesis by (simp add: store_evidence_def Let_def)
  qed
  have rows: "db_batches ?d = db_batches d" "db_allocations ?d = db_allocations d" by (simp_all add: store_evidence_def Let_def)
  then have "ledger_inv ?d" using assms(1) tips by (simp add: ledger_inv_def batch_total_def)
  moreover have "\<forall>k \<ge> 0. ew_batch_id w k \<notin> ab_id ` set (db_batches ?d)" using assms(3) rows by auto
  ultimately have "ledger_inv d' \<and> approved_kept ?d d'"
    using auto_ledger [OF _ assms(2), of ?d 0 v actor "import_dates n" "[]"] stored(3) by simp
  then show ?thesis using rows by (simp add: approved_kept_def)
qed (use assms(1) in simp)

definition evidence_world0 :: evidence_world where
  "evidence_world0 = \<lparr>ew_iso_datetime = \<lambda>_. True, ew_zmsg = \<lambda>_ _. ''bad'', ew_date_ms = \<lambda>_. 0, ew_bdate = \<lambda>_ _. ''2026-01-02'',
     ew_row_hash = \<lambda>_. ''h'', ew_lc = lc_ascii, ew_evidence_hash = \<lambda>_ _. ''e'', ew_allocation_hash = \<lambda>_ _ _. ''a'', ew_now = 5,
     ew_tip_id = demo_new_id, ew_shift_id = demo_new_id, ew_batch_id = demo_new_id, ew_alloc_id = \<lambda>_. demo_new_id\<rparr>"

theorem import_idempotent_witness:
  "\<forall>csv. db_tips (snd (importCsv (evidence_world0\<lparr>ew_now := 9\<rparr>) ''v1'' csv None (snd (importCsv evidence_world0 ''v1'' csv None demo_db))))
     = db_tips (snd (importCsv evidence_world0 ''v1'' csv None demo_db))"
proof
  fix csv
  have "\<forall>tz. parse_csv (evidence_world0\<lparr>ew_now := 9\<rparr>) csv tz = parse_csv evidence_world0 csv tz" by (simp add: parse_csv_def)
  from import_idempotent [OF prod.collapse [symmetric] prod.collapse [symmetric] this]
  show "db_tips (snd (importCsv (evidence_world0\<lparr>ew_now := 9\<rparr>) ''v1'' csv None (snd (importCsv evidence_world0 ''v1'' csv None demo_db))))
     = db_tips (snd (importCsv evidence_world0 ''v1'' csv None demo_db))" by blast
qed

theorem import_keeps_ledger_witness:
  "\<forall>csv. demo_batch \<in> set (db_batches (snd (importCsv evidence_world0 ''v1'' csv None demo_db)))"
proof
  fix csv
  have inj: "inj (ew_batch_id evidence_world0)"
    by (auto simp: evidence_world0_def inj_def demo_new_id_def dest: arg_cong [where f = length])
  have fresh: "range (ew_batch_id evidence_world0) \<inter> ab_id ` set (db_batches demo_db) = {}"
    by (auto simp: evidence_world0_def demo_new_id_def demo_db_def demo_batch_def)
  have b: "demo_batch \<in> set (db_batches demo_db)" "\<not> recalculable (ab_status demo_batch)"
    by (simp_all add: demo_db_def demo_batch_def recalculable_def)
  from import_keeps_ledger [OF demo_db_ledger inj fresh prod.collapse [symmetric]] b
  show "demo_batch \<in> set (db_batches (snd (importCsv evidence_world0 ''v1'' csv None demo_db)))" by blast
qed

end
