(* ===== verification/Organizations.thy ===== *)
theory Organizations
  imports Csv Mappings Disclosure
begin

text \<open>
  \<open>apps/api/src/organizations/organizations.service.ts\<close>: tenants, venues, and the manager's views: who
  is connected, what needs attention, how a day closes, and the payroll file.  Parameters: the ids of
  created rows, the clock, \<open>lc\<close> (\<open>localeCompare\<close>) and \<open>treasury_world\<close>, the answers of the
  cluster.  \<open>createdAt\<close> and \<open>updatedAt\<close> values that a view only passes through are left out of it.
\<close>

section \<open>Tenants and venues\<close>

record organization_input =
  oi_legalName :: string
  oi_displayName :: string
  oi_country :: string
  oi_timezone :: string

definition createOrganization :: "id \<Rightarrow> id \<Rightarrow> organization_input \<Rightarrow> db \<Rightarrow> (organization \<times> org_member list) \<times> db" where
  "createOrganization new creatorUserId inp d =
     (let org = \<lparr>org_id = new, org_legalName = oi_legalName inp, org_displayName = oi_displayName inp, org_country = oi_country inp,
            org_timezone = oi_timezone inp\<rparr>;
          member = \<lparr>om_organizationId = new, om_userId = creatorUserId, om_role = OWNER\<rparr>
      in ((org, [member]), d\<lparr>db_organizations := db_organizations d @ [org], db_members := db_members d @ [member]\<rparr>))"

definition addMember :: "id \<Rightarrow> string \<Rightarrow> org_role \<Rightarrow> db \<Rightarrow> (org_member, db) outcome" where
  "addMember organizationId email role d = (case find (\<lambda>u. usr_email u = js_lower email) (db_users d) of
       None \<Rightarrow> (Inl (NotFoundException ''No user with email ${input.email}; they must log in once first''), d)
     | Some u \<Rightarrow>
         let created = \<lparr>om_organizationId = organizationId, om_userId = usr_id u, om_role = role\<rparr> in
         (case find_member d organizationId (usr_id u) of
            Some m \<Rightarrow> (Inr (m\<lparr>om_role := role\<rparr>),
              d\<lparr>db_members := update_where (\<lambda>m. om_organizationId m = organizationId \<and> om_userId m = usr_id u) (\<lambda>m. m\<lparr>om_role := role\<rparr>) (db_members d)\<rparr>)
          | None \<Rightarrow> (Inr created, d\<lparr>db_members := db_members d @ [created]\<rparr>)))"

record organization_view =
  ov_organization :: organization
  ov_venues :: "venue list"
  ov_members :: "(org_member \<times> string) list"

definition listMine :: "id \<Rightarrow> db \<Rightarrow> organization_view list" where
  "listMine userId d =
     map (\<lambda>org. \<lparr>ov_organization = org, ov_venues = filter (\<lambda>v. ven_organizationId v = org_id org) (db_venues d),
            ov_members = map (\<lambda>m. (m, case find_user d (om_userId m) of Some u \<Rightarrow> usr_email u | None \<Rightarrow> []))
              (filter (\<lambda>m. om_organizationId m = org_id org) (db_members d))\<rparr>)
       (filter (\<lambda>org. \<exists>m \<in> set (db_members d). om_organizationId m = org_id org \<and> om_userId m = userId) (db_organizations d))"

record venue_input =
  vi_organizationId :: id
  vi_name :: string
  vi_timezone :: string
  vi_externalIds :: "(string \<times> string) list option"

definition default_policy :: "id \<Rightarrow> instant \<Rightarrow> id \<Rightarrow> id \<Rightarrow> allocation_policy" where
  "default_policy new now venueId creatorUserId = \<lparr>pol_id = new, pol_venueId = venueId, pol_version = 1, pol_status = PolicyACTIVE,
     pol_allocationType = ROLE_WEIGHTED_HOURS, pol_roleWeights = [(''SERVER'', 1), (''BUSSER'', fl64 (7 / 10)), (''BARTENDER'', 1)],
     pol_poolInclusion = [(CARD_TIP, True), (QR_TIP, True), (CASH_TIP, False), (AUTOMATIC_GRATUITY, False), (SERVICE_CHARGE, False)],
     pol_excludedRoles = [''MANAGER'', ''SUPERVISOR''], pol_tipOutRules = [], pol_effectiveFrom = now, pol_effectiveTo = None,
     pol_createdBy = creatorUserId\<rparr>"

definition createVenue :: "id \<Rightarrow> id \<Rightarrow> instant \<Rightarrow> id \<Rightarrow> venue_input \<Rightarrow> db \<Rightarrow> venue \<times> db" where
  "createVenue new_venue new_policy now creatorUserId inp d =
     (let venue = \<lparr>ven_id = new_venue, ven_organizationId = vi_organizationId inp, ven_name = vi_name inp, ven_timezone = vi_timezone inp,
            ven_payoutSignerWallet = None, ven_vaultTokenAccount = None, ven_externalIds = or_else (vi_externalIds inp) []\<rparr>
      in (venue, d\<lparr>db_venues := db_venues d @ [venue], db_policies := db_policies d @ [default_policy new_policy now new_venue creatorUserId]\<rparr>))"

definition getVenue :: "id \<Rightarrow> db \<Rightarrow> http_error + (venue \<times> allocation_policy list)" where
  "getVenue venueId d = (case find_venue d venueId of
       None \<Rightarrow> Inl (NotFoundException ''Venue ${venueId} not found'') | Some v \<Rightarrow> Inr (v, policies_by_version d venueId))"

definition setVenueWallet :: "id \<Rightarrow> string \<Rightarrow> db \<Rightarrow> (venue, db) outcome" where
  "setVenueWallet venueId payoutSignerWallet d = (case find_venue d venueId of
       None \<Rightarrow> (Inl (Failure ''Record to update not found''), d)
     | Some v \<Rightarrow> (Inr (v\<lparr>ven_payoutSignerWallet := Some payoutSignerWallet\<rparr>),
         d\<lparr>db_venues := update_where (\<lambda>v. ven_id v = venueId) (\<lambda>v. v\<lparr>ven_payoutSignerWallet := Some payoutSignerWallet\<rparr>) (db_venues d)\<rparr>))"

section \<open>Connections\<close>

datatype connection_stage = StageMAPPING_PENDING | StageCONNECTED | StagePAYOUT_READY | StageEXTERNAL_ONLY

record actor_view =
  av_displayName :: string
  av_emailMasked :: "string option"

definition actor_of :: "db \<Rightarrow> id option \<Rightarrow> actor_view option" where
  "actor_of d i = (if \<not> truthy i then None
     else Some (case find_user d (the i) of
       None \<Rightarrow> \<lparr>av_displayName = ''Unknown user'', av_emailMasked = None\<rparr>
     | Some u \<Rightarrow> \<lparr>av_displayName = usr_displayName u, av_emailMasked = Some (maskEmail (usr_email u))\<rparr>))"

record account_view =
  xv_provider :: string
  xv_externalWorkerId :: string
  xv_mappingStatus :: "mapping_status option"     \<comment> \<open>\<open>None\<close> for \<open>UNMAPPED\<close>\<close>
  xv_verifiedAt :: "instant option"
  xv_verifiedBy :: "actor_view option"

record latest_allocation =
  la_businessDate :: string
  la_amountUsdCents :: cents
  la_payoutStatus :: alloc_payout_status
  la_calculatedAt :: "instant option"
  la_calculatedBy :: "actor_view option"
  la_approvedAt :: "instant option"
  la_approvedBy :: "actor_view option"

record latest_payout =
  lp_rail :: payout_rail
  lp_status :: payout_status
  lp_signerWalletMasked :: "string option"
  lp_submittedBy :: "actor_view option"
  lp_txSignature :: "string option"
  lp_settledAt :: "instant option"

record member_view =
  mv_key :: string
  mv_workerId :: "id option"
  mv_displayName :: string
  mv_emailMasked :: "string option"
  mv_connectionStage :: connection_stage
  mv_externalAccounts :: "account_view list"
  mv_defaultWalletMasked :: "string option"
  mv_latestAllocation :: "latest_allocation option"
  mv_latestPayout :: "latest_payout option"
  mv_incomeCount :: nat

text \<open>\<open>Map\<close> grouping: keys in order of first appearance, rows in order.\<close>

definition group_by :: "('a \<Rightarrow> 'k) \<Rightarrow> 'a list \<Rightarrow> ('k \<times> 'a list) list" where
  "group_by f xs = fold (\<lambda>x m. map_set (f x) ((case map_of m (f x) of None \<Rightarrow> [] | Some ys \<Rightarrow> ys) @ [x]) m) xs []"

definition connection_stage_of :: "external_account list \<Rightarrow> wallet option \<Rightarrow> connection_stage" where
  "connection_stage_of accounts wallet =
     (if list_ex (\<lambda>x. ext_mappingStatus x = MappingCONFIRMED) accounts
      then (if map_option wal_status wallet = Some WalletACTIVE then StagePAYOUT_READY else StageCONNECTED)
      else StageMAPPING_PENDING)"

definition latest_first :: "(string \<Rightarrow> string \<Rightarrow> rat) \<Rightarrow> worker_allocation \<times> allocation_batch \<Rightarrow> worker_allocation \<times> allocation_batch \<Rightarrow> rat" where
  "latest_first lc a b = (let c = lc (ab_businessDate (snd b)) (ab_businessDate (snd a)) in
     if c \<noteq> 0 then c else of_int (or_else (ab_calculatedAt (snd b)) 0 - or_else (ab_calculatedAt (snd a)) 0))"

text \<open>The allocations of a worker in a venue, each with its batch.\<close>

definition venue_allocations :: "db \<Rightarrow> id \<Rightarrow> id \<Rightarrow> (worker_allocation \<times> allocation_batch) list" where
  "venue_allocations d venueId workerId =
     filter (\<lambda>(a, b). ab_venueId b = venueId)
       (List.map_filter (\<lambda>a. map_option (Pair a) (find_batch d (wa_batchId a)))
         (filter (\<lambda>a. wa_workerId a = Some workerId) (db_allocations d)))"

definition linked_member :: "(string \<Rightarrow> string \<Rightarrow> rat) \<Rightarrow> db \<Rightarrow> id \<Rightarrow> id \<times> external_account list \<Rightarrow> worker \<Rightarrow> user \<Rightarrow> member_view" where
  "linked_member lc d venueId wa k u = (case wa of (workerId, accounts) \<Rightarrow>
     let wallet = Option.bind (wk_defaultWalletId k) (\<lambda>i. find (\<lambda>x. wal_id x = i) (db_wallets d));
         allocs = js_sort (latest_first lc) (venue_allocations d venueId workerId);
         payout = find (\<lambda>p. po_workerId p = workerId \<and> po_venueId p = venueId) (rev (db_payouts d))
     in \<lparr>mv_key = workerId, mv_workerId = Some workerId, mv_displayName = usr_displayName u,
         mv_emailMasked = Some (maskEmail (usr_email u)), mv_connectionStage = connection_stage_of accounts wallet,
         mv_externalAccounts = map (\<lambda>x. \<lparr>xv_provider = ext_provider x, xv_externalWorkerId = ext_externalWorkerId x,
            xv_mappingStatus = Some (ext_mappingStatus x), xv_verifiedAt = ext_verifiedAt x, xv_verifiedBy = actor_of d (ext_verifiedBy x)\<rparr>) accounts,
         mv_defaultWalletMasked = maskWallet (map_option wal_address wallet),
         mv_latestAllocation = (case allocs of [] \<Rightarrow> None | (a, b) # _ \<Rightarrow>
            Some \<lparr>la_businessDate = ab_businessDate b, la_amountUsdCents = wa_netAllocatedUsdCents a, la_payoutStatus = wa_payoutStatus a,
              la_calculatedAt = ab_calculatedAt b, la_calculatedBy = actor_of d (ab_calculatedBy b),
              la_approvedAt = ab_approvedAt b, la_approvedBy = actor_of d (ab_approvedBy b)\<rparr>),
         mv_latestPayout = map_option (\<lambda>p. \<lparr>lp_rail = po_rail p, lp_status = po_status p,
            lp_signerWalletMasked = maskWallet (po_signerWallet p), lp_submittedBy = actor_of d (po_submittedByUserId p),
            lp_txSignature = po_txSignature p, lp_settledAt = po_settledAt p\<rparr>) payout,
         mv_incomeCount = count_where (\<lambda>e. ie_workerId e = workerId \<and> ie_venueId e = venueId \<and> ie_effectiveStatus e = EntryACTIVE) (db_incomes d)\<rparr>)"

definition external_member :: "string \<times> string \<Rightarrow> member_view" where
  "external_member pe = (case pe of (provider, externalWorkerId) \<Rightarrow>
     \<lparr>mv_key = ''external:'' @ provider @ '':'' @ externalWorkerId, mv_workerId = None, mv_displayName = externalWorkerId,
      mv_emailMasked = None, mv_connectionStage = StageEXTERNAL_ONLY,
      mv_externalAccounts = [\<lparr>xv_provider = provider, xv_externalWorkerId = externalWorkerId, xv_mappingStatus = None,
        xv_verifiedAt = None, xv_verifiedBy = None\<rparr>],
      mv_defaultWalletMasked = None, mv_latestAllocation = None, mv_latestPayout = None, mv_incomeCount = 0\<rparr>)"

record connections_view =
  cv_venue :: "id \<times> string \<times> string option"
  cv_latestIncomeRebuild :: "(actor_view option \<times> string) option"
  cv_members :: "member_view list"

definition rebuild_source :: "json \<Rightarrow> string" where
  "rebuild_source detail = (case detail of
       JObj kvs \<Rightarrow> (case map_of kvs ''source'' of Some (JStr s) \<Rightarrow> s | _ \<Rightarrow> ''SYSTEM'') | _ \<Rightarrow> ''SYSTEM'')"

definition venue_accounts :: "db \<Rightarrow> id \<Rightarrow> external_account list" where
  "venue_accounts d venueId = filter (\<lambda>x. ext_venueId x = venueId \<and> ext_mappingStatus x \<noteq> MappingREJECTED) (db_externals d)"

definition unmapped_shift_workers :: "db \<Rightarrow> id \<Rightarrow> (string \<times> string) list" where
  "unmapped_shift_workers d venueId = first_distinct (map (\<lambda>s. (se_provider s, se_externalWorkerId s))
     (filter (\<lambda>s. se_venueId s = venueId \<and> se_mappedWorkerId s = None) (db_shifts d)))"

definition account_owner :: "db \<Rightarrow> id \<Rightarrow> (worker \<times> user) option" where
  "account_owner d workerId = Option.bind (find_worker d workerId) (\<lambda>k. map_option (Pair k) (find_user d (wk_userId k)))"

definition workerConnections :: "(string \<Rightarrow> string \<Rightarrow> rat) \<Rightarrow> id \<Rightarrow> db \<Rightarrow> http_error + connections_view" where
  "workerConnections lc venueId d = (case find_venue d venueId of
       None \<Rightarrow> Inl (NotFoundException ''Venue ${venueId} not found'')
     | Some v \<Rightarrow>
         let accounts = venue_accounts d venueId;
             mappedKeys = map (\<lambda>x. ext_provider x @ '':'' @ ext_externalWorkerId x) accounts;
             latest = find (\<lambda>a. al_venueId a = Some venueId \<and> al_action a = ''INCOME_ENTRIES_REBUILT'') (rev (db_audit d))
         in if list_ex (\<lambda>x. account_owner d (ext_workerId x) = None) accounts then Inl relation_error
            else Inr \<lparr>cv_venue = (ven_id v, ven_name v, maskWallet (ven_payoutSignerWallet v)),
              cv_latestIncomeRebuild = map_option (\<lambda>a. (actor_of d (al_actorUserId a), rebuild_source (al_detail a))) latest,
              cv_members = map (\<lambda>wa. case the (account_owner d (fst wa)) of (k, u) \<Rightarrow> linked_member lc d venueId wa k u) (group_by ext_workerId accounts)
                @ map external_member (filter (\<lambda>(p, e). p @ '':'' @ e \<notin> set mappedKeys) (unmapped_shift_workers d venueId))\<rparr>)"

section \<open>The inbox\<close>

record unpaid_batch =
  ub_id :: id
  ub_businessDate :: string
  ub_status :: batch_status
  ub_unpaidCount :: nat

record action_items =
  ai_unmappedWorkerCount :: nat
  ai_uncalculatedDates :: "string list"
  ai_awaitingApproval :: "(id \<times> string \<times> batch_status) list"
  ai_unpaidAllocationCount :: nat
  ai_unpaidTotalUsdCents :: cents
  ai_unpaidBatches :: "unpaid_batch list"

definition unpaid_allocations :: "db \<Rightarrow> id \<Rightarrow> (worker_allocation \<times> allocation_batch) list" where
  "unpaid_allocations d venueId =
     filter (\<lambda>(a, b). ab_venueId b = venueId \<and> ab_status b \<in> {PAYABLE, PARTIALLY_PAID})
       (List.map_filter (\<lambda>a. map_option (Pair a) (find_batch d (wa_batchId a)))
         (filter (\<lambda>a. wa_payoutStatus a = UNPAID) (db_allocations d)))"

definition count_unpaid :: "worker_allocation \<times> allocation_batch \<Rightarrow> (id \<times> unpaid_batch) list \<Rightarrow> (id \<times> unpaid_batch) list" where
  "count_unpaid ab m = (let b = snd ab; entry = (case map_of m (ab_id b) of Some e \<Rightarrow> e
       | None \<Rightarrow> \<lparr>ub_id = ab_id b, ub_businessDate = ab_businessDate b, ub_status = ab_status b, ub_unpaidCount = 0\<rparr>)
     in map_set (ab_id b) (entry\<lparr>ub_unpaidCount := ub_unpaidCount entry + 1\<rparr>) m)"

definition actionItems :: "(string \<Rightarrow> string \<Rightarrow> rat) \<Rightarrow> id \<Rightarrow> db \<Rightarrow> action_items" where
  "actionItems lc venueId d =
     (let batches = filter (\<lambda>b. ab_venueId b = venueId) (db_batches d);
          dates = first_distinct (map se_businessDate (filter (\<lambda>s. se_venueId s = venueId) (db_shifts d)));
          unpaid = unpaid_allocations d venueId
      in \<lparr>ai_unmappedWorkerCount = length (unmapped_shift_workers d venueId),
          ai_uncalculatedDates = rev (js_sort str_cmp (filter (\<lambda>x. x \<notin> ab_businessDate ` set batches) dates)),
          ai_awaitingApproval = map (\<lambda>b. (ab_id b, ab_businessDate b, ab_status b))
            (js_sort (\<lambda>a b. lc (ab_businessDate b) (ab_businessDate a)) (filter (\<lambda>b. ab_status b \<in> {CALCULATED, REVIEW_REQUIRED}) batches)),
          ai_unpaidAllocationCount = length unpaid,
          ai_unpaidTotalUsdCents = sum_list (map (wa_netAllocatedUsdCents \<circ> fst) unpaid),
          ai_unpaidBatches = js_sort (\<lambda>a b. lc (ub_businessDate b) (ub_businessDate a)) (map snd (fold count_unpaid unpaid []))\<rparr>)"

end
