(* ===== verification/Settlement_Close.thy ===== *)
theory Settlement_Close
  imports Organizations
begin

text \<open>
  \<open>settlementClose\<close> and \<open>payrollExport\<close> of \<open>organizations.service.ts\<close>: how one business date
  closes, rail by rail, against the treasury on the cluster, and the CSV file for payroll.
  \<open>treasury_world\<close> holds the configuration and what the cluster answers within the timeout
  (\<open>Inl\<close> is the message of the error).
\<close>

section \<open>Summaries\<close>

record treasury_world =
  tw_programId :: "string option"
  tw_mint :: "string option"
  tw_vault :: "string \<Rightarrow> id \<Rightarrow> string \<Rightarrow> string + string"      \<comment> \<open>\<open>deriveVenuePdas\<close>, with its \<open>parsePubkey\<close>s\<close>
  tw_balance :: "string \<Rightarrow> string + int"                    \<comment> \<open>\<open>getTokenAccountBalance\<close>, base units\<close>
  tw_lamports :: "string \<Rightarrow> string + int"                   \<comment> \<open>\<open>getBalance\<close>, with its \<open>parsePubkey\<close>\<close>

definition rail_for :: "worker_allocation \<Rightarrow> payout_rail option" where
  "rail_for a = (case wa_payoutRail a of Some r \<Rightarrow> Some r | None \<Rightarrow> wa_plannedPayoutRail a)"

definition net_total :: "worker_allocation list \<Rightarrow> cents" where
  "net_total as = sum_list (map wa_netAllocatedUsdCents as)"

record rail_summary =
  rsm_workerCount :: nat
  rsm_totalUsdCents :: cents
  rsm_remainingUsdCents :: cents

definition summarize :: "worker_allocation list \<Rightarrow> payout_rail list \<Rightarrow> rail_summary" where
  "summarize allocations rails =
     (let selected = filter (\<lambda>a. case rail_for a of Some r \<Rightarrow> r \<in> set rails | None \<Rightarrow> False) allocations
      in \<lparr>rsm_workerCount = length selected, rsm_totalUsdCents = net_total selected,
          rsm_remainingUsdCents = net_total (filter (\<lambda>a. wa_payoutStatus a \<noteq> AllocPAID) selected)\<rparr>)"

section \<open>Treasury\<close>

datatype treasury_status = AVAILABLE | UNAVAILABLE | MISCONFIGURED

record treasury =
  tr_status :: treasury_status
  tr_vaultAddress :: "string option"
  tr_vaultBalanceUsdCents :: "cents option"
  tr_requiredUsdCents :: cents
  tr_differenceUsdCents :: "cents option"
  tr_signerWallet :: "string option"
  tr_signerSolLamports :: "int option"
  tr_error :: "string option"

definition no_balance :: "treasury_status \<Rightarrow> venue \<Rightarrow> cents \<Rightarrow> string \<Rightarrow> treasury" where
  "no_balance status v required msg = \<lparr>tr_status = status, tr_vaultAddress = ven_vaultTokenAccount v, tr_vaultBalanceUsdCents = None,
     tr_requiredUsdCents = required, tr_differenceUsdCents = None, tr_signerWallet = ven_payoutSignerWallet v,
     tr_signerSolLamports = None, tr_error = Some msg\<rparr>"

definition signer_lamports :: "treasury_world \<Rightarrow> venue \<Rightarrow> string + int option" where
  "signer_lamports t v = (if truthy (ven_payoutSignerWallet v)
     then (case tw_lamports t (the (ven_payoutSignerWallet v)) of Inl e \<Rightarrow> Inl e | Inr n \<Rightarrow> Inr (Some n)) else Inr None)"

definition check_treasury :: "treasury_world \<Rightarrow> venue \<Rightarrow> cents \<Rightarrow> treasury" where
  "check_treasury t v required =
     (if \<not> truthy (tw_programId t) \<or> \<not> truthy (tw_mint t)
      then no_balance UNAVAILABLE v required ''Solana program or tUSDC mint is not configured''
      else case tw_vault t (the (tw_programId t)) (ven_id v) (the (tw_mint t)) of
        Inl e \<Rightarrow> no_balance UNAVAILABLE v required e
      | Inr expectedVault \<Rightarrow>
          if truthy (ven_vaultTokenAccount v) \<and> ven_vaultTokenAccount v \<noteq> Some expectedVault
          then no_balance MISCONFIGURED v required ''Stored vault does not match the venue PDA-derived token account''
          else (case tw_balance t expectedVault of
              Inl e \<Rightarrow> no_balance UNAVAILABLE v required e
            | Inr amount \<Rightarrow> (case signer_lamports t v of
                Inl e \<Rightarrow> no_balance UNAVAILABLE v required e
              | Inr lamports \<Rightarrow>
                  let vaultBalanceUsdCents = amount div 10000
                  in \<lparr>tr_status = AVAILABLE, tr_vaultAddress = Some expectedVault, tr_vaultBalanceUsdCents = Some vaultBalanceUsdCents,
                      tr_requiredUsdCents = required, tr_differenceUsdCents = Some (vaultBalanceUsdCents - required),
                      tr_signerWallet = ven_payoutSignerWallet v, tr_signerSolLamports = lamports, tr_error = None\<rparr>)))"

section \<open>Closing a day\<close>

record close_view =
  cl_batch :: "(id \<times> batch_status) option"
  cl_cash :: rail_summary
  cl_cashObservedUsdCents :: cents
  cl_cashRetainedUsdCents :: cents
  cl_cashDrawerUsdCents :: cents
  cl_payroll :: rail_summary
  cl_usdc :: rail_summary
  cl_missingWalletCount :: nat
  cl_unassigned :: "nat \<times> cents"
  cl_held :: "nat \<times> cents"
  cl_treasury :: treasury

definition latest_batch :: "db \<Rightarrow> id \<Rightarrow> string \<Rightarrow> allocation_batch option" where
  "latest_batch d venueId businessDate =
     (case js_sort (\<lambda>a b. of_int (ab_policyVersion b - ab_policyVersion a))
        (filter (\<lambda>b. ab_venueId b = venueId \<and> ab_businessDate b = businessDate) (db_batches d)) of [] \<Rightarrow> None | b # _ \<Rightarrow> Some b)"

definition batch_rows :: "db \<Rightarrow> allocation_batch option \<Rightarrow> worker_allocation list" where
  "batch_rows d batch = (case batch of None \<Rightarrow> [] | Some b \<Rightarrow> filter (\<lambda>a. wa_batchId a = ab_id b) (db_allocations d))"

definition settlementClose :: "treasury_world \<Rightarrow> id \<Rightarrow> string \<Rightarrow> db \<Rightarrow> http_error + close_view" where
  "settlementClose t venueId businessDate d = (case find_venue d venueId of
       None \<Rightarrow> Inl (NotFoundException ''Venue ${venueId} not found'')
     | Some v \<Rightarrow>
         let batch = latest_batch d venueId businessDate; allocations = batch_rows d batch;
             cashTips = filter (\<lambda>x. te_venueId x = venueId \<and> te_businessDate x = businessDate \<and> te_tipType x = CASH_TIP
               \<and> te_paymentStatus x = PaymentCOMPLETED) (db_tips d);
             tips = (\<lambda>P. sum_list (map te_grossAmountUsdCents (filter P cashTips)));
             usdc = summarize allocations [USDC];
             held = filter (\<lambda>a. \<not> truthy (wa_workerId a)) allocations;
             unassigned = filter (\<lambda>a. truthy (wa_workerId a) \<and> rail_for a = None) allocations
         in Inr \<lparr>cl_batch = map_option (\<lambda>b. (ab_id b, ab_status b)) batch,
              cl_cash = summarize allocations [CASH_RETAINED, CASH_DRAWER],
              cl_cashObservedUsdCents = tips (\<lambda>_. True),
              cl_cashRetainedUsdCents = tips (\<lambda>x. te_sourcePayoutRail x = Some CASH_RETAINED),
              cl_cashDrawerUsdCents = tips (\<lambda>x. te_sourcePayoutRail x = Some CASH_DRAWER),
              cl_payroll = summarize allocations [PAYROLL], cl_usdc = usdc,
              cl_missingWalletCount = count_where (\<lambda>a. wa_workerId a \<noteq> None \<and> rail_for a = Some USDC
                 \<and> map_option wal_status (default_wallet d (wa_workerId a)) \<noteq> Some WalletACTIVE) allocations,
              cl_unassigned = (length unassigned, net_total unassigned),
              cl_held = (length held, net_total held),
              cl_treasury = check_treasury t v (rsm_remainingUsdCents usdc)\<rparr>)"

section \<open>The payroll file\<close>

record payroll_file =
  pf_filename :: string
  pf_csv :: string
  pf_recordCount :: nat

definition worker_id_cmp :: "worker_allocation \<Rightarrow> worker_allocation \<Rightarrow> rat" where
  "worker_id_cmp a b = (case (wa_workerId a, wa_workerId b) of
       (None, None) \<Rightarrow> 0 | (None, Some _) \<Rightarrow> 1 | (Some _, None) \<Rightarrow> -1 | (Some x, Some y) \<Rightarrow> str_cmp x y)"

definition payroll_header :: "string list" where
  "payroll_header = [''business_date'', ''worker_name'', ''worker_email'', ''external_worker_id'', ''amount_usd'', ''allocation_id'', ''allocation_hash'']"

definition payroll_row :: "db \<Rightarrow> id \<Rightarrow> string \<Rightarrow> allocation_batch \<Rightarrow> worker_allocation \<Rightarrow> string list" where
  "payroll_row d venueId businessDate b a =
     (let user = Option.bind (wa_workerId a) (\<lambda>k. map_option snd (account_owner d k));
          account = Option.bind (wa_workerId a) (\<lambda>k. find (\<lambda>x. ext_workerId x = k \<and> ext_venueId x = venueId) (db_externals d));
          external = (case map_option ext_externalWorkerId account of Some e \<Rightarrow> e | None \<Rightarrow> or_else (wa_externalWorkerId a) [])
      in [businessDate, (case user of Some u \<Rightarrow> usr_displayName u | None \<Rightarrow> []), (case user of Some u \<Rightarrow> usr_email u | None \<Rightarrow> []),
          external, to_fixed2 (fl64 (of_int (wa_netAllocatedUsdCents a) / 100)), wa_id a, or_else (ab_allocationHash b) []])"

definition payroll_rows :: "db \<Rightarrow> id \<Rightarrow> worker_allocation list" where
  "payroll_rows d batchId = filter (\<lambda>a. rail_for a = Some PAYROLL)
     (js_sort worker_id_cmp (filter (\<lambda>a. wa_batchId a = batchId) (db_allocations d)))"

definition payrollExport :: "treasury_world \<Rightarrow> id \<Rightarrow> string \<Rightarrow> id \<Rightarrow> db \<Rightarrow> (payroll_file, db) outcome" where
  "payrollExport t venueId businessDate actorUserId d = (case settlementClose t venueId businessDate d of
       Inl e \<Rightarrow> (Inl e, d)
     | Inr close \<Rightarrow> (case latest_batch d venueId businessDate of
         None \<Rightarrow> (Inl (NotFoundException ''No allocation batch for ${businessDate}''), d)
       | Some b \<Rightarrow>
           let rows = payroll_rows d (ab_id b)
           in (Inr \<lparr>pf_filename = ''serveproof-payroll-'' @ businessDate @ ''.csv'',
                 pf_csv = join [CHR 10] (map csv_line (payroll_header # map (payroll_row d venueId businessDate b) rows)),
                 pf_recordCount = length rows\<rparr>,
               write_audit venueId (Some actorUserId) ''PAYROLL_CLOSE_EXPORTED'' ''AllocationBatch'' (ab_id b)
                 (JObj [(''businessDate'', JStr businessDate), (''recordCount'', JNum (int (length rows))),
                        (''totalUsdCents'', JNum (rsm_totalUsdCents (cl_payroll close)))]) d)))"

section \<open>The close accounts for the pool\<close>

text \<open>Rails the summary has no line for.\<close>

definition other_rails :: "worker_allocation list \<Rightarrow> worker_allocation list" where
  "other_rails as = filter (\<lambda>a. rail_for a \<in> {Some PAYOUT_PROVIDER, Some BANK_REFERENCE}) as"

definition held_on_rail :: "worker_allocation list \<Rightarrow> worker_allocation list" where
  "held_on_rail as = filter (\<lambda>a. \<not> truthy (wa_workerId a) \<and> rail_for a \<noteq> None) as"

lemma summarize_total [simp]:
  "rsm_totalUsdCents (summarize as rails) = net_total (filter (\<lambda>a. case rail_for a of Some r \<Rightarrow> r \<in> set rails | None \<Rightarrow> False) as)"
  by (simp add: summarize_def Let_def)

lemma close_split:
  "rsm_totalUsdCents (summarize as [CASH_RETAINED, CASH_DRAWER]) + rsm_totalUsdCents (summarize as [PAYROLL]) + rsm_totalUsdCents (summarize as [USDC])
     + net_total (filter (\<lambda>a. truthy (wa_workerId a) \<and> rail_for a = None) as) + net_total (filter (\<lambda>a. \<not> truthy (wa_workerId a)) as)
     + net_total (other_rails as)
   = net_total as + net_total (held_on_rail as)"
proof (induction as)
  case (Cons a as)
  consider "rail_for a = None" | r where "rail_for a = Some r" by blast
  then show ?case
  proof cases
    case 1
    then show ?thesis using Cons by (cases "truthy (wa_workerId a)") (simp_all add: net_total_def other_rails_def held_on_rail_def)
  next
    case (2 r)
    then show ?thesis using Cons
      by (cases r; cases "truthy (wa_workerId a)") (simp_all add: net_total_def other_rails_def held_on_rail_def)
  qed
qed (simp add: net_total_def other_rails_def held_on_rail_def)

lemma latest_batchD: "latest_batch d v bd = Some b \<Longrightarrow> b \<in> set (db_batches d) \<and> ab_venueId b = v \<and> ab_businessDate b = bd"
proof -
  let ?s = "js_sort (\<lambda>a b. of_int (ab_policyVersion b - ab_policyVersion a))
        (filter (\<lambda>b. ab_venueId b = v \<and> ab_businessDate b = bd) (db_batches d))"
  assume "latest_batch d v bd = Some b"
  then have "b \<in> set ?s" by (cases ?s) (simp_all add: latest_batch_def)
  then show ?thesis by simp
qed

text \<open>(C16) The close accounts for the pool.  For a batch past review, the cash, payroll, USDC, unassigned and
  held totals of the close add up to the day's tip pool, except that allocations on a payout-provider or
  bank rail appear nowhere in it and a held share that already has a rail is counted on both lines.\<close>

theorem close_accounts:
  assumes "ledger_inv d" "settlementClose t v bd d = Inr c" "latest_batch d v bd = Some b" "balanced_status (ab_status b)"
  shows "rsm_totalUsdCents (cl_cash c) + rsm_totalUsdCents (cl_payroll c) + rsm_totalUsdCents (cl_usdc c)
       + snd (cl_unassigned c) + snd (cl_held c) + net_total (other_rails (batch_rows d (Some b)))
     = ab_tipPoolAmountUsdCents b + net_total (held_on_rail (batch_rows d (Some b)))"
proof -
  have c: "cl_cash c = summarize (batch_rows d (Some b)) [CASH_RETAINED, CASH_DRAWER]" "cl_payroll c = summarize (batch_rows d (Some b)) [PAYROLL]"
    "cl_usdc c = summarize (batch_rows d (Some b)) [USDC]"
    "snd (cl_unassigned c) = net_total (filter (\<lambda>a. truthy (wa_workerId a) \<and> rail_for a = None) (batch_rows d (Some b)))"
    "snd (cl_held c) = net_total (filter (\<lambda>a. \<not> truthy (wa_workerId a)) (batch_rows d (Some b)))"
    using assms(2,3) by (auto simp: settlementClose_def Let_def split: option.splits)
  have "batch_total d (ab_id b) = ab_tipPoolAmountUsdCents b"
    using assms(1,4) latest_batchD [OF assms(3)] by (simp add: ledger_inv_def)
  then have "net_total (batch_rows d (Some b)) = ab_tipPoolAmountUsdCents b" by (simp add: net_total_def batch_rows_def batch_total_def)
  then show ?thesis using close_split [of "batch_rows d (Some b)"] unfolding c by simp
qed

definition treasury_world0 :: treasury_world where
  "treasury_world0 = \<lparr>tw_programId = Some ''P'', tw_mint = Some ''M'', tw_vault = \<lambda>_ i _. Inr (''vault-'' @ i),
     tw_balance = \<lambda>_. Inr 1234567, tw_lamports = \<lambda>_. Inr 9\<rparr>"

theorem close_accounts_witness:
  "\<exists>c. settlementClose treasury_world0 ''v1'' ''2026-01-01'' demo_db = Inr c
     \<and> rsm_totalUsdCents (cl_cash c) + rsm_totalUsdCents (cl_payroll c) + rsm_totalUsdCents (cl_usdc c) + snd (cl_unassigned c) + snd (cl_held c) = 500"
proof -
  obtain c where c: "settlementClose treasury_world0 ''v1'' ''2026-01-01'' demo_db = Inr c"
    by (simp add: settlementClose_def find_venue_def demo_db_def Let_def)
  have b: "latest_batch demo_db ''v1'' ''2026-01-01'' = Some demo_batch" by (simp add: latest_batch_def demo_db_def demo_batch_def)
  have st: "balanced_status (ab_status demo_batch)" by (simp add: demo_batch_def balanced_status_def)
  have rows: "batch_rows demo_db (Some demo_batch) = [demo_allocation]" "ab_tipPoolAmountUsdCents demo_batch = 500"
    by (simp_all add: batch_rows_def demo_db_def demo_batch_def demo_allocation_def)
  have none: "other_rails [demo_allocation] = []" "held_on_rail [demo_allocation] = []"
    by (simp_all add: other_rails_def held_on_rail_def demo_allocation_def rail_for_def)
  from close_accounts [OF demo_db_ledger c b st] c show ?thesis unfolding rows none by (auto simp: net_total_def)
qed

end
