(* ===== verification/Workers.thy ===== *)
theory Workers
  imports Organizations Income
begin

text \<open>
  \<open>apps/api/src/workers/workers.service.ts\<close>: what a worker sees of the own profile, venues and
  tax planning, and the wallets.  Tables are in creation order, which is also the order of \<open>linkedAt\<close>.
  \<open>new\<close> is the id of a created wallet row and \<open>now\<close> the clock.
\<close>

section \<open>Profile\<close>

definition getWorkerByUserId :: "id \<Rightarrow> db \<Rightarrow> http_error + worker" where
  "getWorkerByUserId userId d = (case worker_by_user d userId of
       None \<Rightarrow> Inl (NotFoundException ''No worker profile for this user'') | Some k \<Rightarrow> Inr k)"

record profile =
  me_worker :: worker
  me_email :: string
  me_displayName :: string
  me_wallets :: "wallet list"
  me_externalAccounts :: "(external_account \<times> id \<times> string) list"

definition worker_wallets :: "db \<Rightarrow> id \<Rightarrow> wallet list" where
  "worker_wallets d workerId = filter (\<lambda>x. wal_workerId x = workerId) (db_wallets d)"

definition getMe :: "id \<Rightarrow> db \<Rightarrow> http_error + profile" where
  "getMe userId d = (case worker_by_user d userId of
       None \<Rightarrow> Inl (NotFoundException ''No worker profile for this user'')
     | Some k \<Rightarrow> let accounts = filter (\<lambda>x. ext_workerId x = wk_id k) (db_externals d)
         in (case find_user d (wk_userId k) of
               None \<Rightarrow> Inl relation_error
             | Some u \<Rightarrow> if list_ex (\<lambda>x. find_venue d (ext_venueId x) = None) accounts then Inl relation_error
                 else Inr \<lparr>me_worker = k, me_email = usr_email u, me_displayName = usr_displayName u,
                   me_wallets = worker_wallets d (wk_id k),
                   me_externalAccounts = map (\<lambda>x. (x, ext_venueId x, ven_name (the (find_venue d (ext_venueId x))))) accounts\<rparr>))"

record overview_view =
  ow_workerId :: id
  ow_email :: string
  ow_displayName :: string
  ow_wallets :: "wallet list"
  ow_summary :: income_summary
  ow_alerts :: "discrepancy_view list"
  ow_timeline :: timeline

definition overview :: "id \<Rightarrow> db \<Rightarrow> http_error + overview_view" where
  "overview userId d = (case worker_by_user d userId of
       None \<Rightarrow> Inl (NotFoundException ''No worker profile for this user'')
     | Some k \<Rightarrow> (case find_user d (wk_userId k) of
         None \<Rightarrow> Inl relation_error
       | Some u \<Rightarrow> (case timelineForWorker (wk_id k) None 25 d of
           Inl e \<Rightarrow> Inl e
         | Inr shown \<Rightarrow> Inr \<lparr>ow_workerId = wk_id k, ow_email = usr_email u, ow_displayName = usr_displayName u,
             ow_wallets = worker_wallets d (wk_id k), ow_summary = summaryForWorker (wk_id k) d,
             ow_alerts = discrepanciesForWorker (wk_id k) d, ow_timeline = shown\<rparr>)))"

section \<open>Venues\<close>

record worker_venue =
  wv_venue :: "id \<times> string"
  wv_connectionStage :: connection_stage
  wv_externalAccounts :: "(id \<times> string \<times> string \<times> mapping_status \<times> instant option) list"
  wv_defaultWalletMasked :: "string option"
  wv_latestAllocation :: "(string \<times> cents \<times> alloc_payout_status \<times> payout_rail option) option"
  wv_latestPayout :: "(payout_rail \<times> payout_status \<times> string option \<times> instant option) option"
  wv_incomeCount :: nat

text \<open>\<open>DISTINCT ON (venueId) ... ORDER BY businessDate DESC, b.createdAt DESC, a.id DESC\<close>.\<close>

definition newest_allocation :: "db \<Rightarrow> id \<Rightarrow> id \<Rightarrow> (worker_allocation \<times> allocation_batch) option" where
  "newest_allocation d workerId venueId =
     (let by_batch = concat (map (\<lambda>b. map (\<lambda>a. (a, b)) (js_sort (\<lambda>x y. str_cmp (wa_id y) (wa_id x))
             (filter (\<lambda>a. wa_batchId a = ab_id b \<and> wa_workerId a = Some workerId) (db_allocations d))))
           (filter (\<lambda>b. ab_venueId b = venueId) (rev (db_batches d))))
      in (case js_sort (\<lambda>x y. str_cmp (ab_businessDate (snd y)) (ab_businessDate (snd x))) by_batch of [] \<Rightarrow> None | r # _ \<Rightarrow> Some r))"

definition newest_payout :: "db \<Rightarrow> id \<Rightarrow> id \<Rightarrow> payout option" where
  "newest_payout d workerId venueId = find (\<lambda>p. po_workerId p = workerId \<and> po_venueId p = venueId) (rev (db_payouts d))"

definition venue_card :: "db \<Rightarrow> worker \<Rightarrow> id \<times> external_account list \<Rightarrow> worker_venue" where
  "venue_card d k va = (case va of (venueId, accounts) \<Rightarrow>
     let wallet = Option.bind (wk_defaultWalletId k) (find_wallet d)
     in \<lparr>wv_venue = (venueId, ven_name (the (find_venue d venueId))), wv_connectionStage = connection_stage_of accounts wallet,
         wv_externalAccounts = map (\<lambda>x. (ext_id x, ext_provider x, ext_externalWorkerId x, ext_mappingStatus x, ext_verifiedAt x)) accounts,
         wv_defaultWalletMasked = maskWallet (map_option wal_address wallet),
         wv_latestAllocation = map_option (\<lambda>(a, b). (ab_businessDate b, wa_netAllocatedUsdCents a, wa_payoutStatus a, wa_payoutRail a))
            (newest_allocation d (wk_id k) venueId),
         wv_latestPayout = map_option (\<lambda>p. (po_rail p, po_status p, po_txSignature p, po_settledAt p)) (newest_payout d (wk_id k) venueId),
         wv_incomeCount = count_where (\<lambda>e. ie_workerId e = wk_id k \<and> ie_venueId e = venueId \<and> ie_effectiveStatus e = EntryACTIVE) (db_incomes d)\<rparr>)"

definition venueConnections :: "id \<Rightarrow> db \<Rightarrow> http_error + worker_venue list" where
  "venueConnections userId d = (case worker_by_user d userId of
       None \<Rightarrow> Inl (NotFoundException ''No worker profile for this user'')
     | Some k \<Rightarrow> let accounts = filter (\<lambda>x. ext_workerId x = wk_id k \<and> ext_mappingStatus x \<noteq> MappingREJECTED) (db_externals d)
         in if list_ex (\<lambda>x. find_venue d (ext_venueId x) = None) accounts then Inl relation_error
            else Inr (map (venue_card d k) (group_by ext_venueId accounts)))"

section \<open>Tax planning\<close>

text \<open>\<open>Date.UTC(y, 0, 1)\<close> and \<open>getUTCFullYear\<close>: the days before a year of the Gregorian calendar,
  and the year whose first instant is the last one not after \<open>now\<close>.\<close>

definition year_start :: "int \<Rightarrow> instant" where
  "year_start y = 86400000 * (365 * (y - 1970) + (y - 1969) div 4 - (y - 1901) div 100 + (y - 1601) div 400)"

definition utc_year :: "instant \<Rightarrow> int" where
  "utc_year now = (let g = 1970 + (now div 86400000) * 400 div 146097
     in if now < year_start g then g - 1 else if year_start (g + 1) \<le> now then g + 1 else g)"

record tax_readiness =
  tx_year :: int
  tx_unmatchedUsdCents :: cents
  tx_withholdingUnknownUsdCents :: cents
  tx_devnetTestUsdCents :: cents
  tx_byRail :: "(payout_rail option \<times> cents) list"          \<comment> \<open>\<open>None\<close> for \<open>UNSPECIFIED\<close>\<close>

definition in_tax_year :: "db \<Rightarrow> int \<Rightarrow> income_entry \<Rightarrow> bool" where
  "in_tax_year d year e = (let inside = (\<lambda>t. year_start year \<le> t \<and> t < year_start (year + 1))
     in (case ie_shiftId e of None \<Rightarrow> inside (ie_createdAt e)
         | Some i \<Rightarrow> (case find_shift d i of None \<Rightarrow> False | Some s \<Rightarrow> inside (se_clockIn s))))"

definition unmatched :: "income_entry \<Rightarrow> cents" where
  "unmatched e = max 0 (ie_paidUsdCents e - ie_payrollReportedUsdCents e)"

definition test_asset :: "db \<Rightarrow> income_entry \<Rightarrow> bool" where
  "test_asset d e \<longleftrightarrow> map_option po_asset (Option.bind (ie_payoutId e) (find_payout d)) = Some ''tUSDC''"

definition tax_step :: "db \<Rightarrow> income_entry \<Rightarrow> tax_readiness \<Rightarrow> tax_readiness" where
  "tax_step d e t =
     (if test_asset d e then t\<lparr>tx_devnetTestUsdCents := tx_devnetTestUsdCents t + unmatched e\<rparr>
      else t\<lparr>tx_unmatchedUsdCents := tx_unmatchedUsdCents t + unmatched e,
         tx_byRail := map_set (ie_payoutRail e)
           ((case map_of (tx_byRail t) (ie_payoutRail e) of None \<Rightarrow> 0 | Some c \<Rightarrow> c) + unmatched e) (tx_byRail t),
         tx_withholdingUnknownUsdCents := tx_withholdingUnknownUsdCents t
           + (if ie_withholdingStatus e \<noteq> WithholdingCONFIRMED then ie_paidUsdCents e else 0)\<rparr>)"

definition tax_entries :: "db \<Rightarrow> int \<Rightarrow> id \<Rightarrow> income_entry list" where
  "tax_entries d year workerId = filter (\<lambda>e. ie_workerId e = workerId \<and> ie_effectiveStatus e = EntryACTIVE \<and> in_tax_year d year e) (db_incomes d)"

definition taxReadiness :: "instant \<Rightarrow> id \<Rightarrow> db \<Rightarrow> http_error + tax_readiness" where
  "taxReadiness now userId d = (case getWorkerByUserId userId d of
       Inl e \<Rightarrow> Inl e
     | Inr k \<Rightarrow> Inr (fold (tax_step d) (tax_entries d (utc_year now) (wk_id k))
         \<lparr>tx_year = utc_year now, tx_unmatchedUsdCents = 0, tx_withholdingUnknownUsdCents = 0, tx_devnetTestUsdCents = 0, tx_byRail = []\<rparr>))"

section \<open>Wallets\<close>

record wallet_input =
  awi_address :: string
  awi_walletType :: "wallet_type option"

definition created_wallet :: "id \<Rightarrow> id \<Rightarrow> wallet_input \<Rightarrow> wallet" where
  "created_wallet new workerId inp = \<lparr>wal_id = new, wal_workerId = workerId, wal_address = awi_address inp,
     wal_walletType = coalesce (awi_walletType inp) WalletEXTERNAL, wal_status = WalletACTIVE, wal_isDefault = False\<rparr>"

definition upsert_wallet :: "id \<Rightarrow> id \<Rightarrow> wallet_input \<Rightarrow> wallet list \<Rightarrow> wallet \<times> wallet list" where
  "upsert_wallet new workerId inp t = (case find (\<lambda>x. wal_workerId x = workerId \<and> wal_address x = awi_address inp) t of
       Some x \<Rightarrow> (x\<lparr>wal_status := WalletACTIVE\<rparr>, update_where (\<lambda>y. wal_id y = wal_id x) (\<lambda>y. y\<lparr>wal_status := WalletACTIVE\<rparr>) t)
     | None \<Rightarrow> (created_wallet new workerId inp, t @ [created_wallet new workerId inp]))"

definition point_default :: "id \<Rightarrow> id \<Rightarrow> worker list \<Rightarrow> worker list" where
  "point_default workerId walletId = update_where (\<lambda>k. wk_id k = workerId) (\<lambda>k. k\<lparr>wk_defaultWalletId := Some walletId\<rparr>)"

definition set_flag :: "bool \<Rightarrow> wallet \<Rightarrow> wallet" where
  "set_flag b x = x\<lparr>wal_isDefault := b\<rparr>"

definition addWallet :: "id \<Rightarrow> id \<Rightarrow> wallet_input \<Rightarrow> db \<Rightarrow> (wallet, db) outcome" where
  "addWallet new userId inp d = (case getWorkerByUserId userId d of
       Inl e \<Rightarrow> (Inl e, d)
     | Inr k \<Rightarrow> (case upsert_wallet new (wk_id k) inp (db_wallets d) of (x, t) \<Rightarrow>
         if truthy (wk_defaultWalletId k) then (Inr x, d\<lparr>db_wallets := t\<rparr>)
         else (Inr (set_flag True x),
           d\<lparr>db_workers := point_default (wk_id k) (wal_id x) (db_workers d),
             db_wallets := update_where (\<lambda>y. wal_id y = wal_id x) (set_flag True) t\<rparr>)))"

definition setDefaultWallet :: "id \<Rightarrow> id \<Rightarrow> db \<Rightarrow> (profile, db) outcome" where
  "setDefaultWallet userId walletId d = (case getWorkerByUserId userId d of
       Inl e \<Rightarrow> (Inl e, d)
     | Inr k \<Rightarrow> (case find_wallet d walletId of
         None \<Rightarrow> (Inl (NotFoundException ''Wallet not found''), d)
       | Some x \<Rightarrow>
           if wal_workerId x \<noteq> wk_id k then (Inl (NotFoundException ''Wallet not found''), d)
           else if wal_status x \<noteq> WalletACTIVE then (Inl (BadRequestException ''Disabled wallet cannot be the default''), d)
           else let d1 = d\<lparr>db_wallets := update_where (\<lambda>y. wal_id y = walletId) (set_flag True)
                        (update_where (\<lambda>y. wal_workerId y = wk_id k) (set_flag False) (db_wallets d)),
                    db_workers := point_default (wk_id k) walletId (db_workers d)\<rparr>
                in (getMe userId d1, d1)))"

section \<open>Tax planning accounts for every entry\<close>

text \<open>The year that \<open>utc_year\<close> picks contains the instant.\<close>

lemma utc_year_bracket: "year_start (utc_year t) \<le> t \<and> t < year_start (utc_year t + 1)"
proof -
  define D where "D = t div 86400000"
  define g where "g = 1970 + D * 400 div 146097"
  define Y where "Y y = 365 * (y - 1970) + (y - 1969) div 4 - (y - 1901) div 100 + (y - 1601) div 400" for y :: int
  have ys: "year_start y = 86400000 * Y y" for y by (simp add: year_start_def Y_def)
  have cmp: "t < 86400000 * n \<longleftrightarrow> D < n" for n unfolding D_def by linarith
  obtain q where q: "g = 1970 + q" "146097 * q \<le> 400 * D" "400 * D < 146097 * q + 146097"
    by (rule that [of "D * 400 div 146097"]) (unfold g_def, linarith+)
  have dv: "n * (a div n) \<le> a \<and> a < n * (a div n) + n" if "0 < n" for a n :: int
    using that pos_mod_bound [of n a] pos_mod_sign [of n a] mult_div_mod_eq [of n a] by linarith
  have lo: "Y (g - 1) \<le> D"
    using q(2,3) dv [of 4 q] dv [of 100 "q + 68"] dv [of 400 "q + 368"] by (simp add: Y_def q(1))
  have hi: "D < Y (g + 2)"
    using q(2,3) dv [of 4 "q + 3"] dv [of 100 "q + 71"] dv [of 400 "q + 371"] by (simp add: Y_def q(1))
  have cmp': "86400000 * n \<le> t \<longleftrightarrow> n \<le> D" for n using cmp [of n] by linarith
  show ?thesis
    using lo hi by (auto simp: add.commute utc_year_def Let_def ys cmp cmp' D_def [symmetric] g_def [symmetric])
qed

lemma tax_fold:
  "let t' = fold (tax_step d) es t in
     sum_list (map snd (tx_byRail t')) - tx_unmatchedUsdCents t' = sum_list (map snd (tx_byRail t)) - tx_unmatchedUsdCents t
     \<and> tx_unmatchedUsdCents t' + tx_devnetTestUsdCents t' = tx_unmatchedUsdCents t + tx_devnetTestUsdCents t + sum_list (map unmatched es)"
proof (induction es arbitrary: t)
  case (Cons e es)
  have set: "sum_list (map snd (map_set k v m)) = sum_list (map snd m) + v - (case map_of m k of None \<Rightarrow> 0 | Some c \<Rightarrow> c)"
    for k and v :: int and m :: "(payout_rail option \<times> int) list"
    by (induction k v m rule: map_set.induct) auto
  show ?case using Cons.IH [of "tax_step d e t"] by (auto simp: tax_step_def set Let_def split: option.splits)
qed simp

section \<open>One active default wallet\<close>

definition wallets_ok :: "wallet list \<Rightarrow> worker list \<Rightarrow> bool" where
  "wallets_ok t ws \<longleftrightarrow> distinct (map wal_id t) \<and> distinct (map wk_id ws) \<and> distinct (map wk_userId ws)
     \<and> (\<forall>x \<in> set t. wal_id x \<noteq> [] \<and> (wal_isDefault x \<longrightarrow>
          (\<exists>k \<in> set ws. wk_id k = wal_workerId x \<and> wk_defaultWalletId k = Some (wal_id x))))
     \<and> (\<forall>k \<in> set ws. \<forall>i. wk_defaultWalletId k = Some i \<longrightarrow>
          (\<exists>x \<in> set t. wal_id x = i \<and> wal_workerId x = wk_id k \<and> wal_isDefault x \<and> wal_status x = WalletACTIVE))"

definition wallet_inv :: "db \<Rightarrow> bool" where
  "wallet_inv d \<longleftrightarrow> wallets_ok (db_wallets d) (db_workers d)"

inductive wallet_step :: "db \<Rightarrow> db \<Rightarrow> bool" where
  Add: "addWallet new userId inp d = (r, d') \<Longrightarrow> new \<noteq> [] \<Longrightarrow> new \<notin> wal_id ` set (db_wallets d) \<Longrightarrow> wallet_step d d'"
| SetDefault: "setDefaultWallet userId walletId d = (r, d') \<Longrightarrow> wallet_step d d'"

lemma wallets_ok_activate:
  assumes "wallets_ok t ws"
  shows "wallets_ok (update_where (\<lambda>y. wal_id y = i) (\<lambda>y. y\<lparr>wal_status := WalletACTIVE\<rparr>) t) ws"
proof -
  define h :: "wallet \<Rightarrow> wallet" where "h y = (if wal_id y = i then y\<lparr>wal_status := WalletACTIVE\<rparr> else y)" for y
  have h: "wal_id (h y) = wal_id y" "wal_workerId (h y) = wal_workerId y" "wal_isDefault (h y) = wal_isDefault y"
    "wal_status y = WalletACTIVE \<Longrightarrow> wal_status (h y) = WalletACTIVE" for y by (simp_all add: h_def)
  have t: "update_where (\<lambda>y. wal_id y = i) (\<lambda>y. y\<lparr>wal_status := WalletACTIVE\<rparr>) t = map h t" by (simp add: update_where_def h_def [abs_def])
  have "\<exists>y \<in> set (map h t). wal_id y = j \<and> wal_workerId y = wk_id k \<and> wal_isDefault y \<and> wal_status y = WalletACTIVE"
    if kj: "k \<in> set ws" "wk_defaultWalletId k = Some j" for k j
  proof -
    obtain y where "y \<in> set t" "wal_id y = j" "wal_workerId y = wk_id k" "wal_isDefault y" "wal_status y = WalletACTIVE"
      using assms kj unfolding wallets_ok_def by blast
    then show ?thesis by (intro bexI [of _ "h y"]) (simp_all add: h)
  qed
  moreover have ids: "map wal_id (map h t) = map wal_id t" by (simp add: h)
  ultimately show ?thesis using assms unfolding wallets_ok_def t ids by (simp add: h)
qed

lemma wallets_ok_append:
  assumes "wallets_ok t ws" "wal_id x \<noteq> []" "wal_id x \<notin> wal_id ` set t" "\<not> wal_isDefault x"
  shows "wallets_ok (t @ [x]) ws"
  using assms unfolding wallets_ok_def by auto

lemma wallets_ok_choose:
  assumes ok: "wallets_ok t ws" and x: "x \<in> set t" "wal_workerId x = wk_id k" "wal_status x = WalletACTIVE" and k: "k \<in> set ws"
  shows "wallets_ok (update_where (\<lambda>y. wal_id y = wal_id x) (set_flag True) (update_where (\<lambda>y. wal_workerId y = wk_id k) (set_flag False) t))
     (point_default (wk_id k) (wal_id x) ws)" (is "wallets_ok ?t ?ws")
proof -
  define h :: "wallet \<Rightarrow> wallet" where "h y = y\<lparr>wal_isDefault := (wal_id y = wal_id x \<or> wal_workerId y \<noteq> wk_id k \<and> wal_isDefault y)\<rparr>" for y
  have t: "?t = map h t" by (auto simp: update_where_def h_def set_flag_def)
  have hin: "y \<in> set t \<Longrightarrow> h y \<in> set (map h t)" for y by simp
  have ids: "map wal_id ?t = map wal_id t" unfolding t by (simp add: h_def)
  have wids: "map wk_id ?ws = map wk_id ws" "map wk_userId ?ws = map wk_userId ws"
    by (simp_all add: point_default_def map_update_where)
  have row: "\<exists>y0 \<in> set t. y = h y0" if "y \<in> set ?t" for y using that unfolding t by auto
  have same: "y0 \<in> set t \<Longrightarrow> wal_id y0 = wal_id x \<Longrightarrow> y0 = x" for y0
    using ok x(1) by (auto simp: wallets_ok_def distinct_map dest: inj_onD)
  have samek: "k0 \<in> set ws \<Longrightarrow> wk_id k0 = wk_id k \<Longrightarrow> k0 = k" for k0
    using ok k by (auto simp: wallets_ok_def distinct_map dest: inj_onD)
  have kin: "k\<lparr>wk_defaultWalletId := Some (wal_id x)\<rparr> \<in> set ?ws"
    using k by (auto simp: point_default_def update_where_def image_iff)
  have others: "k0 \<in> set ws \<Longrightarrow> wk_id k0 \<noteq> wk_id k \<Longrightarrow> k0 \<in> set ?ws" for k0
    by (auto simp: point_default_def update_where_def image_iff)
  have wallets: "wal_id y \<noteq> [] \<and> (wal_isDefault y \<longrightarrow> (\<exists>k \<in> set ?ws. wk_id k = wal_workerId y \<and> wk_defaultWalletId k = Some (wal_id y)))"
    if y: "y \<in> set ?t" for y
  proof -
    obtain y0 where y0: "y0 \<in> set t" "wal_id y = wal_id y0" "wal_workerId y = wal_workerId y0"
      "wal_isDefault y = (wal_id y0 = wal_id x \<or> (wal_workerId y0 \<noteq> wk_id k \<and> wal_isDefault y0))" using row [OF y] by (auto simp: h_def)
    have "wal_id y \<noteq> []" using ok y0(1,2) by (simp add: wallets_ok_def)
    moreover have "\<exists>k \<in> set ?ws. wk_id k = wal_workerId y \<and> wk_defaultWalletId k = Some (wal_id y)" if def: "wal_isDefault y"
    proof (cases "wal_id y0 = wal_id x")
      case True
      then show ?thesis using kin same [OF y0(1) True] y0 x(2) by (intro bexI [OF _ kin]) simp
    next
      case False
      then obtain k0 where "k0 \<in> set ws" "wk_id k0 = wal_workerId y0" "wk_defaultWalletId k0 = Some (wal_id y0)" "wal_workerId y0 \<noteq> wk_id k"
        using ok y0 def unfolding wallets_ok_def by blast
      then show ?thesis using others [of k0] y0 by (intro bexI [of _ k0]) simp_all
    qed
    ultimately show ?thesis by blast
  qed
  have workers: "\<exists>y \<in> set ?t. wal_id y = i \<and> wal_workerId y = wk_id k1 \<and> wal_isDefault y \<and> wal_status y = WalletACTIVE"
    if k1: "k1 \<in> set ?ws" "wk_defaultWalletId k1 = Some i" for k1 i
  proof (cases "wk_id k1 = wk_id k")
    case True
    then have "i = wal_id x" using k1 by (auto simp: point_default_def update_where_def split: if_splits)
    then show ?thesis using x hin [OF x(1)] True unfolding t by (intro bexI [OF _ hin [OF x(1)]]) (simp add: h_def)
  next
    case False
    then have "k1 \<in> set ws" using k1(1) by (auto simp: point_default_def update_where_def split: if_splits)
    then obtain y0 where y0: "y0 \<in> set t" "wal_id y0 = i" "wal_workerId y0 = wk_id k1" "wal_isDefault y0" "wal_status y0 = WalletACTIVE"
      using ok k1(2) unfolding wallets_ok_def by blast
    then show ?thesis using False unfolding t by (intro bexI [OF _ hin [OF y0(1)]]) (simp add: h_def)
  qed
  show ?thesis using ok wallets workers unfolding wallets_ok_def ids wids by blast
qed

lemma worker_by_userD: "getWorkerByUserId u d = Inr k \<Longrightarrow> k \<in> set (db_workers d)"
  by (auto simp: getWorkerByUserId_def worker_by_user_def split: option.splits dest: find_SomeD)

lemma upsert_wallet_ok:
  assumes "wallets_ok t ws" "new \<noteq> []" "new \<notin> wal_id ` set t" "upsert_wallet new kid inp t = (x, t')"
  shows "wallets_ok t' ws \<and> x \<in> set t' \<and> wal_workerId x = kid \<and> wal_status x = WalletACTIVE"
proof (cases "find (\<lambda>x. wal_workerId x = kid \<and> wal_address x = awi_address inp) t")
  case None
  then have "x = created_wallet new kid inp" "t' = t @ [x]" using assms(4) by (auto simp: upsert_wallet_def)
  then show ?thesis using wallets_ok_append [OF assms(1), of x] assms(2,3) by (simp add: created_wallet_def)
next
  case (Some y)
  then have x: "x = y\<lparr>wal_status := WalletACTIVE\<rparr>"
    "t' = update_where (\<lambda>z. wal_id z = wal_id y) (\<lambda>y. y\<lparr>wal_status := WalletACTIVE\<rparr>) t" using assms(4) by (simp_all add: upsert_wallet_def)
  have y: "y \<in> set t" "wal_workerId y = kid" using find_SomeD [OF Some] by simp_all
  have "x \<in> set t'" unfolding x in_update_where using y(1) by (intro bexI [of _ y]) simp_all
  moreover have "wallets_ok t' ws" unfolding x(2) by (rule wallets_ok_activate [OF assms(1)])
  moreover have "wal_workerId x = kid" "wal_status x = WalletACTIVE" unfolding x(1) using y(2) by simp_all
  ultimately show ?thesis by blast
qed

lemma no_default_flags:
  assumes "wallets_ok t ws" "k \<in> set ws" "\<not> truthy (wk_defaultWalletId k)"
  shows "update_where (\<lambda>y. wal_workerId y = wk_id k) (set_flag False) t = t"
proof (unfold update_where_def, rule map_idI)
  fix y
  assume y: "y \<in> set t"
  have "\<not> wal_isDefault y" if own: "wal_workerId y = wk_id k"
  proof
    assume "wal_isDefault y"
    then obtain k0 where "k0 \<in> set ws" "wk_id k0 = wk_id k" "wk_defaultWalletId k0 = Some (wal_id y)" "wal_id y \<noteq> []"
      using assms(1) y own unfolding wallets_ok_def by auto
    moreover from this have "k0 = k" using assms(1,2) by (auto simp: wallets_ok_def distinct_map dest: inj_onD)
    ultimately show False using assms(3) by simp
  qed
  then show "(if wal_workerId y = wk_id k then set_flag False y else y) = y" by (simp add: set_flag_def)
qed

lemma wallet_step_inv:
  assumes "wallet_step d d'" "wallet_inv d"
  shows "wallet_inv d'"
  using assms
proof cases
  case (Add new userId inp r)
  show ?thesis
  proof (cases "getWorkerByUserId userId d")
    case (Inr k)
    obtain x t where up: "upsert_wallet new (wk_id k) inp (db_wallets d) = (x, t)" by fastforce
    have ok: "wallets_ok t (db_workers d)" "x \<in> set t" "wal_workerId x = wk_id k" "wal_status x = WalletACTIVE"
      using upsert_wallet_ok [OF _ Add(2,3) up] assms(2) by (auto simp: wallet_inv_def)
    show ?thesis
    proof (cases "truthy (wk_defaultWalletId k)")
      case True
      then show ?thesis using Add(1) Inr up ok(1) by (auto simp: addWallet_def wallet_inv_def)
    next
      case False
      then show ?thesis using Add(1) Inr up wallets_ok_choose [OF ok worker_by_userD [OF Inr]] no_default_flags [OF ok(1) worker_by_userD [OF Inr]]
        by (auto simp: addWallet_def wallet_inv_def)
    qed
  qed (use Add(1) assms(2) in \<open>simp add: addWallet_def\<close>)
next
  case (SetDefault userId walletId r)
  show ?thesis
  proof (cases "d' = d")
    case False
    then obtain k x where kx: "getWorkerByUserId userId d = Inr k" "find_wallet d walletId = Some x" "wal_workerId x = wk_id k"
      "wal_status x = WalletACTIVE"
      and d': "d' = d\<lparr>db_wallets := update_where (\<lambda>y. wal_id y = walletId) (set_flag True)
                        (update_where (\<lambda>y. wal_workerId y = wk_id k) (set_flag False) (db_wallets d)),
                    db_workers := point_default (wk_id k) walletId (db_workers d)\<rparr>"
      using SetDefault by (auto simp: setDefaultWallet_def Let_def split: sum.splits option.splits if_splits)
    have x: "x \<in> set (db_wallets d)" "wal_id x = walletId" using find_SomeD [OF kx(2) [unfolded find_wallet_def]] by simp_all
    show ?thesis using wallets_ok_choose [OF _ x(1) kx(3,4) worker_by_userD [OF kx(1)]] assms(2) x(2) by (simp add: wallet_inv_def d')
  qed (use assms(2) in simp)
qed

lemma wallet_steps_inv: "wallet_step\<^sup>*\<^sup>* d d' \<Longrightarrow> wallet_inv d \<Longrightarrow> wallet_inv d'"
  by (induction rule: rtranclp_induct) (auto intro: wallet_step_inv)

lemma unique_default:
  assumes "wallets_ok t ws" "k \<in> set ws"
  shows "filter (\<lambda>x. wal_workerId x = wk_id k \<and> wal_isDefault x) t = (case wk_defaultWalletId k of None \<Rightarrow> [] | Some i \<Rightarrow> filter (\<lambda>x. wal_id x = i) t)"
proof -
  have iff: "(wal_workerId x = wk_id k \<and> wal_isDefault x) = (wk_defaultWalletId k = Some (wal_id x))" if x: "x \<in> set t" for x
  proof
    assume a: "wal_workerId x = wk_id k \<and> wal_isDefault x"
    then obtain k0 where k0: "k0 \<in> set ws" "wk_id k0 = wk_id k" "wk_defaultWalletId k0 = Some (wal_id x)" using assms(1) x unfolding wallets_ok_def by metis
    then have "k0 = k" using assms by (auto simp: wallets_ok_def distinct_map dest: inj_onD)
    then show "wk_defaultWalletId k = Some (wal_id x)" using k0(3) by simp
  next
    assume "wk_defaultWalletId k = Some (wal_id x)"
    then obtain y where y: "y \<in> set t" "wal_id y = wal_id x" "wal_workerId y = wk_id k" "wal_isDefault y" using assms unfolding wallets_ok_def by blast
    then have "y = x" using assms(1) x by (auto simp: wallets_ok_def distinct_map dest: inj_onD)
    then show "wal_workerId x = wk_id k \<and> wal_isDefault x" using y by simp
  qed
  have "filter (\<lambda>x. wal_workerId x = wk_id k \<and> wal_isDefault x) t = filter (\<lambda>x. wk_defaultWalletId k = Some (wal_id x)) t"
    by (rule filter_cong) (simp_all add: iff)
  then show ?thesis by (auto split: option.split intro: filter_cong)
qed

lemma filter_unique_key: "distinct (map f t) \<Longrightarrow> x \<in> set t \<Longrightarrow> filter (\<lambda>y. f y = f x) t = [x]"
proof (induction t)
  case (Cons y t)
  then show ?case by (cases "y = x") (auto simp: filter_empty_conv image_iff dest: sym)
qed simp


definition wallet_db0 :: db where
  "wallet_db0 = empty_db\<lparr>db_users := [\<lparr>usr_id = ''u'', usr_authUserId = ''a'', usr_email = ''e'', usr_displayName = ''n'', usr_role = RoleWORKER\<rparr>],
     db_workers := [\<lparr>wk_id = ''k'', wk_userId = ''u'', wk_defaultWalletId = None\<rparr>]\<rparr>"


end
