(* ===== verification/Square.thy ===== *)
theory Square
  imports Evidence
begin

text \<open>
  The provider package \<open>packages/providers/src\<close>: the envelope that seals a seller's tokens and the
  client of the Square API.  Parameters: the cipher and the base64url codec (\<open>crypto\<close>), the answers
  of the API (\<open>square_api\<close>, one function per endpoint and environment), \<open>sha256\<close> of a payload's
  text, \<open>date_ms\<close> (\<open>new Date\<close> on an RFC 3339 text) and \<open>bdate\<close> (\<open>Intl.DateTimeFormat\<close>).
  Amounts are the integers \<open>Number\<close> reads from them.  The loops over pages take fuel: \<open>None\<close> is a loop
  that has not ended yet.
\<close>

section \<open>Token envelope\<close>

record crypto =
  cr_sha256 :: "string \<Rightarrow> string"
  cr_seal :: "string \<Rightarrow> string \<Rightarrow> string \<Rightarrow> string \<times> string"           \<comment> \<open>key, iv, plaintext; ciphertext and tag\<close>
  cr_open :: "string \<Rightarrow> string \<Rightarrow> string \<Rightarrow> string \<Rightarrow> string + string"  \<comment> \<open>key, iv, tag, ciphertext\<close>
  cr_enc64 :: "string \<Rightarrow> string"
  cr_dec64 :: "string \<Rightarrow> string"

definition encryptionKey :: "crypto \<Rightarrow> string \<Rightarrow> string + string" where
  "encryptionKey c secret = (if length secret < 16 then Inl ''Provider encryption secret must be at least 16 characters''
     else Inr (cr_sha256 c (''serveproof:provider-token:v1:'' @ secret)))"

definition encryptProviderToken :: "crypto \<Rightarrow> string \<Rightarrow> string \<Rightarrow> string \<Rightarrow> string + string" where
  "encryptProviderToken c iv plaintext secret = (case encryptionKey c secret of
       Inl e \<Rightarrow> Inl e
     | Inr key \<Rightarrow> (case cr_seal c key iv plaintext of (ciphertext, tag) \<Rightarrow>
         Inr (join ''.'' [''v1'', cr_enc64 c iv, cr_enc64 c tag, cr_enc64 c ciphertext])))"

definition decryptProviderToken :: "crypto \<Rightarrow> string \<Rightarrow> string \<Rightarrow> string + string" where
  "decryptProviderToken c envelope secret =
     (let parts = split_on (CHR ''.'') envelope; iv = part 1 parts; tag = part 2 parts; ciphertext = part 3 parts
      in if part 0 parts \<noteq> ''v1'' \<or> iv = [] \<or> tag = [] \<or> ciphertext = [] then Inl ''Invalid token envelope''
         else (case encryptionKey c secret of
             Inl e \<Rightarrow> Inl e
           | Inr key \<Rightarrow> cr_open c key (cr_dec64 c iv) (cr_dec64 c tag) (cr_dec64 c ciphertext)))"

section \<open>The Square API\<close>

datatype square_environment = Sandbox | Production

record date_range =
  dr_startDate :: string
  dr_endDate :: string

record money =
  my_amount :: "int option"
  my_currency :: "string option"

record sq_payment =
  sp_id :: "string option"
  sp_created_at :: "string option"
  sp_order_id :: "string option"
  sp_tip_money :: "money option"
  sp_refunded_money :: "money option"
  sp_total_money :: "money option"
  sp_status :: "string option"
  sp_json :: string                     \<comment> \<open>\<open>JSON.stringify\<close> of the payment\<close>

record sq_order =
  so_id :: "string option"
  so_total_tip_money :: "money option"

record sq_timecard =
  tc_id :: "string option"
  tc_team_member_id :: "string option"
  tc_start_at :: "string option"
  tc_end_at :: "string option"
  tc_wage_title :: "string option"
  tc_status :: "string option"
  tc_declared_cash_tip_money :: "money option"
  tc_json :: string

record sq_location =
  lo_id :: string
  lo_status :: "string option"

record token_response =
  tk_access_token :: string
  tk_refresh_token :: "string option"
  tk_expires_at :: "string option"
  tk_merchant_id :: string

datatype token_grant = AuthorizationCode string string | RefreshGrant string    \<comment> \<open>code and redirect; refresh token\<close>

text \<open>What \<open>fetch\<close> resolves to: a rejected promise, an error status with the \<open>errors\<close> of its body (code
  and detail of each) and what \<open>Number\<close> makes of the \<open>retry-after\<close> header, or the body.\<close>

datatype retry_after = NoHeader | Seconds int | NotANumber

datatype 'a reply = Rejected string | ErrorStatus nat "(string option \<times> string option) list option" retry_after | Ok 'a

record payments_query =
  pq_begin_time :: instant
  pq_end_time :: instant
  pq_location_id :: string
  pq_cursor :: "string option"

record square_api =
  api_token :: "string \<Rightarrow> string \<Rightarrow> token_grant \<Rightarrow> token_response reply"       \<comment> \<open>client id and secret\<close>
  api_locations :: "string \<Rightarrow> sq_location list option reply"                  \<comment> \<open>the access token comes first\<close>
  api_payments :: "string \<Rightarrow> payments_query \<Rightarrow> (sq_payment list option \<times> string option) reply"
  api_orders :: "string \<Rightarrow> string \<Rightarrow> string list \<Rightarrow> sq_order list option reply"
  api_timecards :: "string \<Rightarrow> string \<Rightarrow> date_range \<Rightarrow> string \<Rightarrow> string option \<Rightarrow> (sq_timecard list option \<times> string option) reply"

section \<open>Client\<close>

datatype square_error = SquareApiError string nat "int option" | PlainError string

record square_client =
  sc_accessToken :: string
  sc_api :: square_api
  sc_timezone :: string

definition error_detail :: "(string option \<times> string option) list option \<Rightarrow> string" where
  "error_detail errors = (case errors of None \<Rightarrow> []
     | Some es \<Rightarrow> join '', '' (map the (filter truthy (map (\<lambda>(code, detail). case code of Some c \<Rightarrow> Some c | None \<Rightarrow> detail) es))))"

definition api_message :: "string \<Rightarrow> nat \<Rightarrow> (string option \<times> string option) list option \<Rightarrow> string" where
  "api_message label status errors = label @ show_nat status
     @ (if error_detail errors = [] then [] else '': '' @ error_detail errors)"

definition retry_ms :: "retry_after \<Rightarrow> int option" where
  "retry_ms h = (case h of NoHeader \<Rightarrow> Some 0 | Seconds n \<Rightarrow> Some (n * 1000) | NotANumber \<Rightarrow> None)"

definition request :: "'a reply \<Rightarrow> square_error + 'a" where
  "request r = (case r of
       Rejected e \<Rightarrow> Inl (PlainError e)
     | ErrorStatus status errors h \<Rightarrow> Inl (SquareApiError (api_message ''Square API '' status errors) status (retry_ms h))
     | Ok body \<Rightarrow> Inr body)"

definition obtainToken :: "square_api \<Rightarrow> string \<Rightarrow> string \<Rightarrow> token_grant \<Rightarrow> square_error + token_response" where
  "obtainToken api clientId clientSecret grant = (case api_token api clientId clientSecret grant of
       Rejected e \<Rightarrow> Inl (PlainError e)
     | ErrorStatus status errors h \<Rightarrow> Inl (SquareApiError (api_message ''Square OAuth '' status errors) status None)
     | Ok payload \<Rightarrow> Inr payload)"

definition listLocations :: "square_client \<Rightarrow> square_error + sq_location list" where
  "listLocations c = (case request (api_locations (sc_api c) (sc_accessToken c)) of
       Inl e \<Rightarrow> Inl e | Inr ls \<Rightarrow> Inr (or_else ls []))"

text \<open>\<open>do ... while (cursor)\<close>: the pages from a cursor on.\<close>

fun page_loop :: "(string option \<Rightarrow> ('a list option \<times> string option) reply) \<Rightarrow> nat \<Rightarrow> string option \<Rightarrow> 'a list \<Rightarrow>
    (square_error + 'a list) option" where
  "page_loop get 0 cursor acc = None"
| "page_loop get (Suc fuel) cursor acc = (case request (get cursor) of
       Inl e \<Rightarrow> Some (Inl e)
     | Inr (rows, next) \<Rightarrow>
         if truthy next then page_loop get fuel next (acc @ or_else rows []) else Some (Inr (acc @ or_else rows [])))"

record square_world =
  sq_date_ms :: "string \<Rightarrow> instant"
  sq_bdate :: "instant \<Rightarrow> string \<Rightarrow> string"
  sq_sha256 :: "string \<Rightarrow> string"

definition payments_window :: "square_world \<Rightarrow> string \<Rightarrow> date_range \<Rightarrow> string option \<Rightarrow> payments_query" where
  "payments_window w locationId period cursor =
     \<lparr>pq_begin_time = sq_date_ms w (dr_startDate period @ ''T00:00:00Z'') - 86400000,
      pq_end_time = sq_date_ms w (dr_endDate period @ ''T23:59:59.999Z'') + 86400000,
      pq_location_id = locationId, pq_cursor = cursor\<rparr>"

definition fetch_payments :: "square_world \<Rightarrow> square_client \<Rightarrow> nat \<Rightarrow> string \<Rightarrow> date_range \<Rightarrow> (square_error + sq_payment list) option" where
  "fetch_payments w c fuel locationId period =
     page_loop (\<lambda>cursor. api_payments (sc_api c) (sc_accessToken c) (payments_window w locationId period cursor)) fuel None []"

function hundreds :: "'a list \<Rightarrow> 'a list list" where
  "hundreds xs = (if xs = [] then [] else take 100 xs # hundreds (drop 100 xs))"
  by pat_completeness auto
termination by (relation "measure length") auto

declare hundreds.simps [simp del]

definition order_tip :: "sq_order \<Rightarrow> (string \<times> int) list \<Rightarrow> (string \<times> int) list" where
  "order_tip o' m = (case (so_id o', so_total_tip_money o') of
       (Some i, Some x) \<Rightarrow> if my_currency x = Some ''USD'' then map_set i (or_else (my_amount x) 0) m else m
     | _ \<Rightarrow> m)"

fun order_tips :: "square_client \<Rightarrow> string \<Rightarrow> string list list \<Rightarrow> (string \<times> int) list \<Rightarrow> square_error + (string \<times> int) list" where
  "order_tips c locationId [] m = Inr m"
| "order_tips c locationId (ids # idss) m = (case request (api_orders (sc_api c) (sc_accessToken c) locationId ids) of
       Inl e \<Rightarrow> Inl e
     | Inr os \<Rightarrow> order_tips c locationId idss (fold order_tip (or_else os []) m))"

definition missing_tip_orders :: "sq_payment list \<Rightarrow> string list" where
  "missing_tip_orders ps = map (the \<circ> sp_order_id) (filter (\<lambda>p. sp_tip_money p = None \<and> sp_order_id p \<noteq> None) ps)"

record provider_tip =
  pt_provider :: string
  pt_externalPaymentId :: string
  pt_externalOrderId :: "string option"
  pt_tipType :: tip_type
  pt_grossAmountUsdCents :: cents
  pt_paymentStatus :: payment_status
  pt_refundStatus :: refund_status
  pt_businessDate :: string
  pt_sourceHash :: string

record provider_shift =
  ps_provider :: string
  ps_externalShiftId :: string
  ps_externalWorkerId :: string
  ps_role :: string
  ps_clockIn :: instant
  ps_clockOut :: "instant option"
  ps_workedMinutes :: int
  ps_shiftStatus :: shift_status
  ps_businessDate :: string
  ps_sourceHash :: string

definition amount_of :: "money option \<Rightarrow> int" where
  "amount_of m = (case m of None \<Rightarrow> 0 | Some x \<Rightarrow> or_else (my_amount x) 0)"

definition payment_amount :: "(string \<times> int) list \<Rightarrow> sq_payment \<Rightarrow> int" where
  "payment_amount orderTips p = (case sp_tip_money p of
       Some m \<Rightarrow> or_else (my_amount m) 0
     | None \<Rightarrow> or_else (map_of orderTips (or_else (sp_order_id p) [])) 0)"

definition payment_currency :: "(string \<times> int) list \<Rightarrow> sq_payment \<Rightarrow> string option" where
  "payment_currency orderTips p = (case Option.bind (sp_tip_money p) my_currency of
       Some c \<Rightarrow> Some c | None \<Rightarrow> if payment_amount orderTips p > 0 then Some ''USD'' else None)"

definition payment_status_of :: "string \<Rightarrow> payment_status" where
  "payment_status_of s = (if s = ''COMPLETED'' then PaymentCOMPLETED
     else if s = ''CANCELED'' \<or> s = ''FAILED'' then PaymentCANCELED else PaymentPENDING)"

definition refund_status_of :: "int \<Rightarrow> int \<Rightarrow> refund_status" where
  "refund_status_of refunded total' =
     (if refunded \<le> 0 then RefundNONE else if total' > 0 \<and> refunded \<ge> total' then RefundFULL else RefundPARTIAL)"

definition tip_of_payment :: "square_world \<Rightarrow> square_client \<Rightarrow> date_range \<Rightarrow> (string \<times> int) list \<Rightarrow> sq_payment \<Rightarrow> provider_tip option" where
  "tip_of_payment w c period orderTips p =
     (let amount = payment_amount orderTips p in
      if \<not> truthy (sp_id p) \<or> \<not> truthy (sp_created_at p) \<or> amount \<le> 0 \<or> payment_currency orderTips p \<noteq> Some ''USD'' then None
      else let localBusinessDate = sq_bdate w (sq_date_ms w (the (sp_created_at p))) (sc_timezone c) in
        if str_cmp localBusinessDate (dr_startDate period) < 0 \<or> str_cmp (dr_endDate period) localBusinessDate < 0 then None
        else Some \<lparr>pt_provider = ''square'', pt_externalPaymentId = the (sp_id p), pt_externalOrderId = sp_order_id p, pt_tipType = CARD_TIP,
          pt_grossAmountUsdCents = amount, pt_paymentStatus = payment_status_of (or_else (sp_status p) ''PENDING''),
          pt_refundStatus = refund_status_of (amount_of (sp_refunded_money p)) (amount_of (sp_total_money p)),
          pt_businessDate = localBusinessDate, pt_sourceHash = sq_sha256 w (sp_json p)\<rparr>)"

definition fetchTipEvidence :: "square_world \<Rightarrow> square_client \<Rightarrow> nat \<Rightarrow> string \<Rightarrow> date_range \<Rightarrow> (square_error + provider_tip list) option" where
  "fetchTipEvidence w c fuel locationId period = map_option (\<lambda>r. case r of
       Inl e \<Rightarrow> Inl e
     | Inr payments \<Rightarrow> (case order_tips c locationId (hundreds (missing_tip_orders payments)) [] of
         Inl e \<Rightarrow> Inl e
       | Inr orderTips \<Rightarrow> Inr (List.map_filter (tip_of_payment w c period orderTips) payments)))
     (fetch_payments w c fuel locationId period)"

text \<open>The client caches the promise, so both evidence calls of one run read one answer.\<close>

definition timecards :: "square_client \<Rightarrow> nat \<Rightarrow> string \<Rightarrow> date_range \<Rightarrow> (square_error + sq_timecard list) option" where
  "timecards c fuel locationId period =
     page_loop (api_timecards (sc_api c) (sc_accessToken c) locationId period (sc_timezone c)) fuel None []"

definition minutes_between :: "instant \<Rightarrow> instant \<Rightarrow> int" where
  "minutes_between start stop = max 0 (js_round (of_int (stop - start) / 60000))"

definition shift_of_timecard :: "square_world \<Rightarrow> square_client \<Rightarrow> sq_timecard \<Rightarrow> provider_shift option" where
  "shift_of_timecard w c t =
     (if \<not> truthy (tc_id t) \<or> \<not> truthy (tc_team_member_id t) \<or> \<not> truthy (tc_start_at t) then None
      else let start = sq_date_ms w (the (tc_start_at t));
               stop = (if truthy (tc_end_at t) then Some (sq_date_ms w (the (tc_end_at t))) else None)
           in Some \<lparr>ps_provider = ''square'', ps_externalShiftId = the (tc_id t), ps_externalWorkerId = the (tc_team_member_id t),
                ps_role = or_else (tc_wage_title t) ''TEAM_MEMBER'', ps_clockIn = start, ps_clockOut = stop,
                ps_workedMinutes = (case stop of Some s \<Rightarrow> minutes_between start s | None \<Rightarrow> 0),
                ps_shiftStatus = (if tc_status t = Some ''OPEN'' then ShiftIN_PROGRESS else ShiftCOMPLETED),
                ps_businessDate = sq_bdate w start (sc_timezone c), ps_sourceHash = sq_sha256 w (tc_json t)\<rparr>)"

definition fetchShiftEvidence :: "square_world \<Rightarrow> square_client \<Rightarrow> nat \<Rightarrow> string \<Rightarrow> date_range \<Rightarrow> (square_error + provider_shift list) option" where
  "fetchShiftEvidence w c fuel locationId period = map_option (\<lambda>r. case r of
       Inl e \<Rightarrow> Inl e | Inr ts \<Rightarrow> Inr (List.map_filter (shift_of_timecard w c) ts)) (timecards c fuel locationId period)"

definition cash_tip_of_timecard :: "square_world \<Rightarrow> square_client \<Rightarrow> sq_timecard \<Rightarrow> provider_tip option" where
  "cash_tip_of_timecard w c t =
     (let amount = amount_of (tc_declared_cash_tip_money t) in
      if \<not> truthy (tc_id t) \<or> \<not> truthy (tc_start_at t) \<or> amount \<le> 0
         \<or> Option.bind (tc_declared_cash_tip_money t) my_currency \<noteq> Some ''USD'' then None
      else Some \<lparr>pt_provider = ''square'', pt_externalPaymentId = ''timecard:'' @ the (tc_id t), pt_externalOrderId = None,
        pt_tipType = CASH_TIP, pt_grossAmountUsdCents = amount,
        pt_paymentStatus = (if tc_status t = Some ''OPEN'' then PaymentPENDING else PaymentCOMPLETED), pt_refundStatus = RefundNONE,
        pt_businessDate = sq_bdate w (sq_date_ms w (the (tc_start_at t))) (sc_timezone c), pt_sourceHash = sq_sha256 w (tc_json t)\<rparr>)"

definition fetchCashTipEvidence :: "square_world \<Rightarrow> square_client \<Rightarrow> nat \<Rightarrow> string \<Rightarrow> date_range \<Rightarrow> (square_error + provider_tip list) option" where
  "fetchCashTipEvidence w c fuel locationId period = map_option (\<lambda>r. case r of
       Inl e \<Rightarrow> Inl e | Inr ts \<Rightarrow> Inr (List.map_filter (cash_tip_of_timecard w c) ts)) (timecards c fuel locationId period)"

text \<open>The measured latency is not kept.\<close>

definition healthCheck :: "square_client \<Rightarrow> bool \<times> string option" where
  "healthCheck c = (case listLocations c of
       Inr _ \<Rightarrow> (True, None)
     | Inl (SquareApiError m _ _) \<Rightarrow> (False, Some m)
     | Inl (PlainError m) \<Rightarrow> (False, Some m))"

section \<open>Pages\<close>

text \<open>The answers to the cursors from one on hold these pages and then end.\<close>

fun serves :: "(string option \<Rightarrow> ('a list option \<times> string option) reply) \<Rightarrow> string option \<Rightarrow> 'a list list \<Rightarrow> bool" where
  "serves get cursor [] = False"
| "serves get cursor [rows] = (case get cursor of Ok (r, next) \<Rightarrow> or_else r [] = rows \<and> \<not> truthy next | _ \<Rightarrow> False)"
| "serves get cursor (rows # pages) = (case get cursor of Ok (r, next) \<Rightarrow> or_else r [] = rows \<and> truthy next \<and> serves get next pages | _ \<Rightarrow> False)"

lemma page_loop_complete:
  "serves get cursor pages \<Longrightarrow> length pages \<le> fuel \<Longrightarrow> page_loop get fuel cursor acc = Some (Inr (acc @ concat pages))"
proof (induction get cursor pages arbitrary: fuel acc rule: serves.induct)
  case (2 get cursor rows)
  then show ?case by (cases fuel) (auto simp: request_def split: reply.splits)
next
  case (3 get cursor rows rows2 pages)
  then obtain r "next" where g: "get cursor = Ok (r, next)" "or_else r [] = rows" "truthy next" "serves get next (rows2 # pages)"
    by (auto split: reply.splits)
  obtain n where n: "fuel = Suc n" "length (rows2 # pages) \<le> n" using "3.prems"(2) by (cases fuel) auto
  show ?case using "3.IH" [OF g(1) refl g(4) n(2)] g(1-3) n(1) by (simp add: request_def)
qed simp

lemma page_loop_mono: "page_loop get n cursor acc = Some r \<Longrightarrow> n \<le> m \<Longrightarrow> page_loop get m cursor acc = Some r"
proof (induction get n cursor acc arbitrary: m rule: page_loop.induct)
  case (2 get fuel cursor acc)
  then obtain k where k: "m = Suc k" "fuel \<le> k" by (cases m) auto
  show ?case
  proof (cases "request (get cursor)")
    case (Inr p)
    obtain rows "next" where p: "p = (rows, next)" by fastforce
    show ?thesis
    proof (cases "truthy next")
      case True
      then have "page_loop get fuel next (acc @ or_else rows []) = Some r" using "2.prems"(1) Inr p by simp
      from "2.IH" [OF Inr p [symmetric] True this k(2)] show ?thesis using Inr p True k(1) by simp
    qed (use "2.prems"(1) Inr p k(1) in simp)
  qed (use "2.prems"(1) k(1) in simp)
qed simp

section \<open>The envelope\<close>

lemma split_on_plain: "c \<notin> set s \<Longrightarrow> split_on c (s @ c # rest) = s # split_on c rest" "c \<notin> set s \<Longrightarrow> split_on c s = [s]"
  by (induction s) (auto split: list.splits)

text \<open>A sealed token opens again.  What \<open>encryptProviderToken\<close> returns, \<open>decryptProviderToken\<close> reads
  back under the same secret: the envelope's separators cannot collide with its fields.  The cipher
  and the codec are assumed to invert each other and to give nothing empty.\<close>

theorem token_roundtrip:
  assumes "encryptProviderToken c iv plaintext secret = Inr envelope"
    and "\<And>key v p. cr_open c key v (snd (cr_seal c key v p)) (fst (cr_seal c key v p)) = Inr p"
    and "\<And>x. cr_dec64 c (cr_enc64 c x) = x \<and> CHR ''.'' \<notin> set (cr_enc64 c x) \<and> (cr_enc64 c x = [] \<longrightarrow> x = [])"
    and "\<And>key v p. p \<noteq> [] \<Longrightarrow> fst (cr_seal c key v p) \<noteq> [] \<and> snd (cr_seal c key v p) \<noteq> []"
    and "iv \<noteq> []" "plaintext \<noteq> []"
  shows "decryptProviderToken c envelope secret = Inr plaintext"
proof -
  obtain key ct tag where k: "encryptionKey c secret = Inr key" "cr_seal c key iv plaintext = (ct, tag)"
    and e: "envelope = join ''.'' [''v1'', cr_enc64 c iv, cr_enc64 c tag, cr_enc64 c ct]"
    using assms(1) by (auto simp: encryptProviderToken_def split: sum.splits prod.splits)
  have ne: "ct \<noteq> []" "tag \<noteq> []" using assms(4) [OF assms(6), of key iv] k(2) by simp_all
  have "envelope = ''v1'' @ CHR ''.'' # cr_enc64 c iv @ CHR ''.'' # cr_enc64 c tag @ CHR ''.'' # cr_enc64 c ct" by (simp add: e)
  then have "split_on (CHR ''.'') envelope = [''v1'', cr_enc64 c iv, cr_enc64 c tag, cr_enc64 c ct]"
    using assms(3) split_on_plain(1) [of "CHR ''.''" "''v1''"] by (simp add: split_on_plain)
  moreover have "cr_open c key iv tag ct = Inr plaintext" using assms(2) [of key iv plaintext] k(2) by simp
  ultimately show ?thesis using assms(3,5) ne k(1) by (auto simp: decryptProviderToken_def part_def Let_def)
qed

fun pairs_decode :: "string \<Rightarrow> string" where
  "pairs_decode (a # b # s) = (if a = CHR ''x'' then CHR ''.'' else b) # pairs_decode s"
| "pairs_decode s = []"

definition pairs_encode :: "string \<Rightarrow> string" where
  "pairs_encode s = concat (map (\<lambda>c. if c = CHR ''.'' then ''x0'' else [CHR ''y'', c]) s)"

lemma pairs_codec: "pairs_decode (pairs_encode s) = s \<and> CHR ''.'' \<notin> set (pairs_encode s) \<and> (pairs_encode s = [] \<longrightarrow> s = [])"
  by (induction s) (auto simp: pairs_encode_def)

definition toy_crypto :: crypto where
  "toy_crypto = \<lparr>cr_sha256 = \<lambda>s. s, cr_seal = \<lambda>k v p. (p, ''t''), cr_open = \<lambda>k v t ct. Inr ct,
     cr_enc64 = pairs_encode, cr_dec64 = pairs_decode\<rparr>"

theorem token_roundtrip_witness:
  "\<exists>e. encryptProviderToken toy_crypto ''iv'' ''a.b'' ''0123456789abcdef'' = Inr e
     \<and> decryptProviderToken toy_crypto e ''0123456789abcdef'' = Inr ''a.b''"
proof -
  obtain e where e: "encryptProviderToken toy_crypto ''iv'' ''a.b'' ''0123456789abcdef'' = Inr e"
    by (simp add: encryptProviderToken_def encryptionKey_def toy_crypto_def)
  have "decryptProviderToken toy_crypto e ''0123456789abcdef'' = Inr ''a.b''"
    by (rule token_roundtrip [OF e]) (simp_all add: toy_crypto_def pairs_codec)
  with e show ?thesis by blast
qed

end
