(* ===== verification/Square_Sync.thy ===== *)
theory Square_Sync
  imports Square
begin

text \<open>
  \<open>apps/worker/src/square-sync.service.ts\<close>: the job that pulls tips and shifts of a connected seller into
  the evidence tables, and the check for stale connections.  \<open>sync_world\<close> holds the configuration, the
  API, the clock and the ids of created rows; \<open>sy_tips_first\<close> says which of two concurrent requests
  that both fail is rejected first.  The venues of a scheduled run are synchronised one after the other: they
  write disjoint rows.
\<close>

section \<open>Configuration and tokens\<close>

record sync_world =
  sy_square :: square_world
  sy_crypto :: crypto
  sy_iv :: "nat \<Rightarrow> string"
  sy_api :: "square_environment \<Rightarrow> square_api"
  sy_appId :: "string option"
  sy_appSecret :: "string option"
  sy_providerKey :: "string option"
  sy_authSecret :: "string option"
  sy_environment :: "string option"
  sy_now :: instant
  sy_iso :: "instant \<Rightarrow> string"
  sy_fuel :: nat
  sy_tips_first :: bool
  sy_tip_id :: "nat \<Rightarrow> id"
  sy_shift_id :: "nat \<Rightarrow> id"
  sy_alert_id :: "nat \<Rightarrow> id"

record sync_config =
  cfg_appId :: string
  cfg_appSecret :: string
  cfg_encryptionSecret :: string
  cfg_environment :: square_environment

definition environment_of :: "string option \<Rightarrow> square_environment" where
  "environment_of e = (if e = Some ''production'' then Production else Sandbox)"

definition sync_configuration :: "sync_world \<Rightarrow> square_error + sync_config" where
  "sync_configuration w =
     (let encryptionSecret = (case sy_providerKey w of Some k \<Rightarrow> Some k | None \<Rightarrow> sy_authSecret w) in
      if \<not> truthy (sy_appId w) \<or> \<not> truthy (sy_appSecret w) \<or> \<not> truthy encryptionSecret
      then Inl (PlainError ''Square provider configuration is incomplete'')
      else Inr \<lparr>cfg_appId = the (sy_appId w), cfg_appSecret = the (sy_appSecret w), cfg_encryptionSecret = the encryptionSecret,
        cfg_environment = environment_of (sy_environment w)\<rparr>)"

definition update_connection :: "id \<Rightarrow> (provider_connection \<Rightarrow> provider_connection) \<Rightarrow> db \<Rightarrow> db" where
  "update_connection i f d = d\<lparr>db_connections := update_where (\<lambda>c. pc_id c = i) f (db_connections d)\<rparr>"

definition open_token :: "sync_world \<Rightarrow> sync_config \<Rightarrow> string option \<Rightarrow> square_error + string option" where
  "open_token w cfg sealed = (if \<not> truthy sealed then Inr None
     else case decryptProviderToken (sy_crypto w) (the sealed) (cfg_encryptionSecret cfg) of
       Inl e \<Rightarrow> Inl (PlainError e) | Inr t \<Rightarrow> Inr (Some t))"

definition seal_optional :: "sync_world \<Rightarrow> sync_config \<Rightarrow> string \<Rightarrow> string option \<Rightarrow> string option \<Rightarrow> string + string option" where
  "seal_optional w cfg iv token stored = (if truthy token
     then (case encryptProviderToken (sy_crypto w) iv (the token) (cfg_encryptionSecret cfg) of Inl e \<Rightarrow> Inl e | Inr s \<Rightarrow> Inr (Some s))
     else Inr stored)"

text \<open>The second half of \<open>client\<close>: exchange the refresh token and store what comes back; \<open>k\<close> numbers
  the initialisation vectors.\<close>

definition refresh_tokens :: "sync_world \<Rightarrow> nat \<Rightarrow> sync_config \<Rightarrow> provider_connection \<Rightarrow> db \<Rightarrow> (square_error + string) \<times> db" where
  "refresh_tokens w k cfg c d = (case open_token w cfg (pc_encryptedRefreshToken c) of
       Inl e \<Rightarrow> (Inl e, d)
     | Inr t \<Rightarrow> (case obtainToken (sy_api w (cfg_environment cfg)) (cfg_appId cfg) (cfg_appSecret cfg) (RefreshGrant (or_else t [])) of
         Inl e \<Rightarrow> (Inl e, d)
       | Inr tokens \<Rightarrow> (case encryptProviderToken (sy_crypto w) (sy_iv w k) (tk_access_token tokens) (cfg_encryptionSecret cfg) of
           Inl e \<Rightarrow> (Inl (PlainError e), d)
         | Inr access \<Rightarrow> (case seal_optional w cfg (sy_iv w (k + 1)) (tk_refresh_token tokens) (pc_encryptedRefreshToken c) of
             Inl e \<Rightarrow> (Inl (PlainError e), d)
           | Inr refresh' \<Rightarrow> (Inr (tk_access_token tokens),
               update_connection (pc_id c) (\<lambda>x. x\<lparr>pc_encryptedAccessToken := Some access, pc_encryptedRefreshToken := refresh',
                 pc_tokenExpiresAt := (if truthy (tk_expires_at tokens) then Some (sq_date_ms (sy_square w) (the (tk_expires_at tokens))) else None),
                 pc_status := CONNECTED\<rparr>) d)))))"

definition should_refresh :: "instant \<Rightarrow> bool \<Rightarrow> provider_connection \<Rightarrow> bool" where
  "should_refresh now forceRefresh c \<longleftrightarrow> forceRefresh
     \<or> (case pc_tokenExpiresAt c of None \<Rightarrow> False | Some t \<Rightarrow> t < now + 24 * 60 * 60000)"

definition client_for :: "sync_world \<Rightarrow> nat \<Rightarrow> bool \<Rightarrow> provider_connection \<Rightarrow> string \<Rightarrow> db \<Rightarrow> (square_error + square_client) \<times> db" where
  "client_for w k forceRefresh c timezone d = (case sync_configuration w of
       Inl e \<Rightarrow> (Inl e, d)
     | Inr cfg \<Rightarrow> (case open_token w cfg (pc_encryptedAccessToken c) of
         Inl e \<Rightarrow> (Inl e, d)
       | Inr stored \<Rightarrow>
           let made = (\<lambda>t. if \<not> truthy t then Inl (PlainError ''Square access token is missing'')
                 else Inr \<lparr>sc_accessToken = the t, sc_api = sy_api w (cfg_environment cfg), sc_timezone = timezone\<rparr>)
           in if should_refresh (sy_now w) forceRefresh c \<and> truthy (pc_encryptedRefreshToken c)
              then (case refresh_tokens w k cfg c d of (Inl e, d') \<Rightarrow> (Inl e, d') | (Inr t, d') \<Rightarrow> (made (Some t), d'))
              else (made stored, d)))"

section \<open>Evidence\<close>

definition square_tip_key :: "id \<Rightarrow> provider_tip \<Rightarrow> tip_evidence \<Rightarrow> bool" where
  "square_tip_key venueId t r \<longleftrightarrow> te_venueId r = venueId \<and> te_provider r = pt_provider t
     \<and> te_externalPaymentId r = pt_externalPaymentId t \<and> te_tipType r = pt_tipType t"

text \<open>An order id that the payload does not have is left as it is.\<close>

definition square_tip_update :: "provider_tip \<Rightarrow> tip_evidence \<Rightarrow> tip_evidence" where
  "square_tip_update t r = r\<lparr>te_externalOrderId := (case pt_externalOrderId t of None \<Rightarrow> te_externalOrderId r | Some i \<Rightarrow> Some i),
     te_grossAmountUsdCents := pt_grossAmountUsdCents t, te_paymentStatus := pt_paymentStatus t, te_refundStatus := pt_refundStatus t,
     te_businessDate := pt_businessDate t, te_sourceHash := pt_sourceHash t, te_ingestSource := PROVIDER_API\<rparr>"

definition square_tip_create :: "(nat \<Rightarrow> id) \<Rightarrow> id \<Rightarrow> nat \<Rightarrow> provider_tip \<Rightarrow> tip_evidence" where
  "square_tip_create new venueId k t = \<lparr>te_id = new k, te_provider = pt_provider t, te_ingestSource = PROVIDER_API, te_venueId = venueId,
     te_externalPaymentId = pt_externalPaymentId t, te_externalOrderId = pt_externalOrderId t, te_tipType = pt_tipType t,
     te_grossAmountUsdCents = pt_grossAmountUsdCents t, te_paymentStatus = pt_paymentStatus t, te_refundStatus = pt_refundStatus t,
     te_businessDate = pt_businessDate t, te_sourceHash = pt_sourceHash t, te_sourcePayoutRail = None, te_sourcePayrollStatus = None\<rparr>"

definition square_shift_key :: "id \<Rightarrow> provider_shift \<Rightarrow> shift_evidence \<Rightarrow> bool" where
  "square_shift_key venueId s r \<longleftrightarrow> se_venueId r = venueId \<and> se_provider r = ps_provider s \<and> se_externalShiftId r = ps_externalShiftId s"

definition square_workers :: "db \<Rightarrow> id \<Rightarrow> (string \<times> id) list" where
  "square_workers d venueId = fold (\<lambda>x. map_set (ext_externalWorkerId x) (ext_workerId x))
     (filter (\<lambda>x. ext_venueId x = venueId \<and> ext_provider x = ''square'' \<and> ext_mappingStatus x = MappingCONFIRMED) (db_externals d)) []"

definition square_shift_update :: "(string \<times> id) list \<Rightarrow> provider_shift \<Rightarrow> shift_evidence \<Rightarrow> shift_evidence" where
  "square_shift_update m s r = r\<lparr>se_provider := ps_provider s, se_externalShiftId := ps_externalShiftId s,
     se_externalWorkerId := ps_externalWorkerId s, se_role := ps_role s, se_clockIn := ps_clockIn s, se_clockOut := ps_clockOut s,
     se_workedMinutes := ps_workedMinutes s, se_shiftStatus := ps_shiftStatus s, se_businessDate := ps_businessDate s,
     se_sourceHash := ps_sourceHash s, se_mappedWorkerId := map_of m (ps_externalWorkerId s), se_ingestSource := PROVIDER_API\<rparr>"

definition square_shift_create :: "(nat \<Rightarrow> id) \<Rightarrow> id \<Rightarrow> (string \<times> id) list \<Rightarrow> nat \<Rightarrow> provider_shift \<Rightarrow> shift_evidence" where
  "square_shift_create new venueId m k s = \<lparr>se_id = new k, se_provider = ps_provider s, se_ingestSource = PROVIDER_API, se_venueId = venueId,
     se_externalShiftId = ps_externalShiftId s, se_externalWorkerId = ps_externalWorkerId s,
     se_mappedWorkerId = map_of m (ps_externalWorkerId s), se_role = ps_role s, se_clockIn = ps_clockIn s, se_clockOut = ps_clockOut s,
     se_workedMinutes = ps_workedMinutes s, se_shiftStatus = ps_shiftStatus s, se_businessDate = ps_businessDate s,
     se_sourceHash = ps_sourceHash s, se_sourcePayoutRail = None, se_sourcePayrollStatus = None\<rparr>"

record sync_summary =
  ssu_tipsUpserted :: nat
  ssu_shiftsUpserted :: nat
  ssu_mappedShifts :: nat
  ssu_unmappedShifts :: nat

definition persist :: "sync_world \<Rightarrow> id \<Rightarrow> provider_tip list \<Rightarrow> provider_shift list \<Rightarrow> db \<Rightarrow> sync_summary \<times> db" where
  "persist w venueId tips shifts d =
     (let m = square_workers d venueId; mapped = count_where (\<lambda>s. truthy (map_of m (ps_externalWorkerId s))) shifts
      in (\<lparr>ssu_tipsUpserted = length tips, ssu_shiftsUpserted = length shifts, ssu_mappedShifts = mapped,
           ssu_unmappedShifts = length shifts - mapped\<rparr>,
          d\<lparr>db_tips := upsert_rows (square_tip_key venueId) square_tip_update (square_tip_create (sy_tip_id w) venueId) tips (db_tips d),
            db_shifts := upsert_rows (square_shift_key venueId) (square_shift_update m) (square_shift_create (sy_shift_id w) venueId m)
              shifts (db_shifts d)\<rparr>))"

type_synonym evidence = "provider_tip list \<times> provider_tip list \<times> provider_shift list"

definition fetch_evidence :: "sync_world \<Rightarrow> square_client \<Rightarrow> string \<Rightarrow> date_range \<Rightarrow> (square_error + evidence) option" where
  "fetch_evidence w c locationId range' =
     (let fuel = sy_fuel w; q = sy_square w; shifts = fetchShiftEvidence q c fuel locationId range' in
      case (fetchTipEvidence q c fuel locationId range', fetchCashTipEvidence q c fuel locationId range') of
        (Some (Inl e), Some (Inl e')) \<Rightarrow> Some (Inl (if sy_tips_first w then e else e'))
      | (Some (Inl e), _) \<Rightarrow> Some (Inl e)
      | (_, Some (Inl e)) \<Rightarrow> Some (Inl e)
      | (Some (Inr cards), Some (Inr cash)) \<Rightarrow> map_option (map_sum id (\<lambda>s. (cards, cash, s))) shifts
      | _ \<Rightarrow> None)"

definition unauthorized :: "square_error \<Rightarrow> bool" where
  "unauthorized e = (case e of SquareApiError _ status _ \<Rightarrow> status = 401 | PlainError _ \<Rightarrow> False)"

text \<open>One client, and once more with refreshed tokens when the API answers 401.\<close>

definition gather :: "sync_world \<Rightarrow> provider_connection \<Rightarrow> string \<Rightarrow> string \<Rightarrow> date_range \<Rightarrow> db \<Rightarrow> ((square_error + evidence) \<times> db) option" where
  "gather w c locationId timezone range' d = (case client_for w 0 False c timezone d of
       (Inl e, d1) \<Rightarrow> Some (Inl e, d1)
     | (Inr cl, d1) \<Rightarrow> (case fetch_evidence w cl locationId range' of
         None \<Rightarrow> None
       | Some (Inr ev) \<Rightarrow> Some (Inr ev, d1)
       | Some (Inl e) \<Rightarrow>
           if \<not> unauthorized e \<or> \<not> truthy (pc_encryptedRefreshToken c) then Some (Inl e, d1)
           else (case client_for w 2 True c timezone d1 of
               (Inl e2, d2) \<Rightarrow> Some (Inl e2, d2)
             | (Inr cl2, d2) \<Rightarrow> map_option (\<lambda>r. (r, d2)) (fetch_evidence w cl2 locationId range'))))"

section \<open>The job\<close>

record sync_job =
  sj_venueId :: id
  sj_startDate :: string
  sj_endDate :: string

definition square_connection :: "db \<Rightarrow> id \<Rightarrow> provider_connection option" where
  "square_connection d venueId = find (\<lambda>c. pc_venueId c = venueId \<and> pc_provider c = ''square'') (db_connections d)"

definition safe_message :: "square_error \<Rightarrow> string" where
  "safe_message e = (case e of SquareApiError _ status _ \<Rightarrow> ''Square API '' @ show_nat status | PlainError m \<Rightarrow> take 300 m)"

definition open_stale_alert :: "id \<Rightarrow> discrepancy_alert \<Rightarrow> bool" where
  "open_stale_alert venueId a \<longleftrightarrow> da_venueId a = venueId \<and> da_type a = STALE_PROVIDER_DATA \<and> da_resolvedAt a = None"

definition succeeded :: "sync_world \<Rightarrow> id \<Rightarrow> provider_connection \<Rightarrow> db \<Rightarrow> db" where
  "succeeded w venueId c d =
     (update_connection (pc_id c) (\<lambda>x. x\<lparr>pc_status := CONNECTED, pc_lastSyncSucceededAt := Some (sy_now w), pc_lastError := None,
        pc_consecutiveFailures := 0\<rparr>) d)
     \<lparr>db_alerts := update_where (open_stale_alert venueId) (\<lambda>a. a\<lparr>da_resolvedAt := Some (sy_now w)\<rparr>) (db_alerts d)\<rparr>"

definition failed :: "sync_world \<Rightarrow> provider_connection \<Rightarrow> square_error \<Rightarrow> db \<Rightarrow> db" where
  "failed w c e = update_connection (pc_id c) (\<lambda>x. x\<lparr>pc_status := ConnERROR, pc_lastSyncFailedAt := Some (sy_now w),
     pc_lastError := Some (safe_message e), pc_consecutiveFailures := pc_consecutiveFailures x + 1\<rparr>)"

definition sync :: "sync_world \<Rightarrow> sync_job \<Rightarrow> db \<Rightarrow> ((square_error + sync_summary) \<times> db) option" where
  "sync w job d = (case square_connection d (sj_venueId job) of
       None \<Rightarrow> Some (Inl (PlainError ''Connected Square provider not found for venue''), d)
     | Some c \<Rightarrow> (case find_venue d (pc_venueId c) of
         None \<Rightarrow> Some (Inl (PlainError ''Inconsistent query result: required relation is null''), d)
       | Some v \<Rightarrow>
           if pc_status c = ConnREVOKED \<or> \<not> truthy (pc_locationId c)
           then Some (Inl (PlainError ''Connected Square provider not found for venue''), d)
           else let d0 = update_connection (pc_id c) (\<lambda>x. x\<lparr>pc_lastSyncStartedAt := Some (sy_now w)\<rparr>) d in
             (case gather w c (the (pc_locationId c)) (ven_timezone v) \<lparr>dr_startDate = sj_startDate job, dr_endDate = sj_endDate job\<rparr> d0 of
                None \<Rightarrow> None
              | Some (Inl e, d1) \<Rightarrow> Some (Inl e, failed w c e d1)
              | Some (Inr (cards, cash, shifts), d1) \<Rightarrow>
                  (case persist w (sj_venueId job) (cards @ cash) shifts d1 of (summary, d2) \<Rightarrow>
                     Some (Inr summary, succeeded w (sj_venueId job) c d2)))))"

text \<open>\<open>Promise.all\<close>: every venue runs; one rejection rejects the whole.\<close>

fun sync_venues :: "(nat \<Rightarrow> sync_world) \<Rightarrow> string \<Rightarrow> string \<Rightarrow> nat \<Rightarrow> id list \<Rightarrow> db \<Rightarrow> ((square_error + sync_summary list) \<times> db) option" where
  "sync_venues ws from' to' k [] d = Some (Inr [], d)"
| "sync_venues ws from' to' k (v # vs) d = (case sync (ws k) \<lparr>sj_venueId = v, sj_startDate = from', sj_endDate = to'\<rparr> d of
       None \<Rightarrow> None
     | Some (r, d1) \<Rightarrow> (case sync_venues ws from' to' (Suc k) vs d1 of
         None \<Rightarrow> None
       | Some (rs, d2) \<Rightarrow> Some (case (r, rs) of (Inl e, _) \<Rightarrow> Inl e | (Inr _, Inl e) \<Rightarrow> Inl e | (Inr x, Inr xs) \<Rightarrow> Inr (x # xs), d2)))"

definition syncConnectedVenues :: "(nat \<Rightarrow> sync_world) \<Rightarrow> db \<Rightarrow> ((square_error + sync_summary list) \<times> db) option" where
  "syncConnectedVenues ws d =
     (let connections = filter (\<lambda>c. pc_provider c = ''square'' \<and> pc_status c \<in> {CONNECTED, ConnERROR}) (db_connections d);
          yesterday = take 10 (sy_iso (ws 0) (sy_now (ws 0) - 24 * 60 * 60000)); today = take 10 (sy_iso (ws 0) (sy_now (ws 0)))
      in sync_venues ws yesterday today 0 (map pc_venueId connections) d)"

definition is_stale :: "instant \<Rightarrow> provider_connection \<Rightarrow> bool" where
  "is_stale now c \<longleftrightarrow> pc_provider c = ''square'' \<and> pc_status c \<in> {CONNECTED, ConnERROR}
     \<and> (case pc_lastSyncSucceededAt c of None \<Rightarrow> True | Some t \<Rightarrow> t < now - 24 * 60 * 60000)"

definition flag_one :: "sync_world \<Rightarrow> nat \<times> provider_connection \<Rightarrow> db \<Rightarrow> db" where
  "flag_one w kc d = (case kc of (k, c) \<Rightarrow>
     if list_ex (open_stale_alert (pc_venueId c)) (db_alerts d) then d
     else d\<lparr>db_alerts := db_alerts d @ [\<lparr>da_id = sy_alert_id w k, da_workerId = None, da_venueId = pc_venueId c, da_shiftId = None,
        da_type = STALE_PROVIDER_DATA, da_detail = JObj [(''provider'', JStr ''square''),
          (''lastSuccessAt'', case pc_lastSyncSucceededAt c of None \<Rightarrow> JNull | Some t \<Rightarrow> JStr (sy_iso w t))], da_resolvedAt = None\<rparr>]\<rparr>)"

definition flagStaleConnections :: "sync_world \<Rightarrow> db \<Rightarrow> nat \<times> db" where
  "flagStaleConnections w d =
     (let stale = filter (is_stale (sy_now w)) (db_connections d)
      in (length stale, fold (flag_one w) (zip [0..<length stale] stale) d))"

section \<open>Synchronising twice\<close>

interpretation square_tips: rewriting "square_tip_key v" square_tip_update "square_tip_create new v" for v new
  by unfold_locales (auto simp: square_tip_key_def square_tip_update_def square_tip_create_def split: option.split)

interpretation square_shifts: overwriting "square_shift_key v" "square_shift_update m" "square_shift_create new v m" for v m new
  by unfold_locales (auto simp: square_shift_key_def square_shift_update_def square_shift_create_def)

text \<open>Everything before the evidence is stored writes the connection only.\<close>

lemma client_frame: "\<exists>cs. snd (client_for w k force c tz d) = d\<lparr>db_connections := cs\<rparr>"
proof -
  have "\<exists>cs. snd (refresh_tokens w k cfg c d) = d\<lparr>db_connections := cs\<rparr>" for cfg
    by (auto simp: refresh_tokens_def update_connection_def split: sum.split intro: exI [of _ "db_connections d"])
  then show ?thesis
    by (auto simp: client_for_def Let_def split: sum.split prod.split intro: exI [of _ "db_connections d"]) (metis snd_conv)+
qed

lemma gather_frame:
  assumes "gather w c l tz rng d = Some (r, d')"
  obtains cs where "d' = d\<lparr>db_connections := cs\<rparr>"
proof -
  obtain r1 d1 where c1: "client_for w 0 False c tz d = (r1, d1)" by fastforce
  obtain r2 d2 where c2: "client_for w 2 True c tz d1 = (r2, d2)" by fastforce
  have "d' = d1 \<or> d' = d2" using assms c1 c2 by (auto simp: gather_def split: sum.splits option.splits if_splits)
  moreover obtain cs1 cs2 where "d1 = d\<lparr>db_connections := cs1\<rparr>" "d2 = d1\<lparr>db_connections := cs2\<rparr>"
    using client_frame [of w 0 False c tz d] client_frame [of w 2 True c tz d1] c1 c2 by auto
  ultimately show thesis using that by auto
qed

text \<open>The evidence that a run of the job stores.\<close>

definition pulled :: "sync_world \<Rightarrow> sync_job \<Rightarrow> db \<Rightarrow> evidence option" where
  "pulled w job d = (case square_connection d (sj_venueId job) of
       None \<Rightarrow> None
     | Some c \<Rightarrow> (case find_venue d (pc_venueId c) of
         None \<Rightarrow> None
       | Some v \<Rightarrow> (case gather w c (the (pc_locationId c)) (ven_timezone v) \<lparr>dr_startDate = sj_startDate job, dr_endDate = sj_endDate job\<rparr>
             (update_connection (pc_id c) (\<lambda>x. x\<lparr>pc_lastSyncStartedAt := Some (sy_now w)\<rparr>) d) of
           Some (Inr ev, _) \<Rightarrow> Some ev | _ \<Rightarrow> None)))"

lemma sync_stores:
  assumes "sync w job d = Some (Inr s, d')" "pulled w job d = Some (cards, cash, shifts)"
  shows "db_tips d' = db_tips (snd (persist w (sj_venueId job) (cards @ cash) shifts d))
    \<and> db_shifts d' = db_shifts (snd (persist w (sj_venueId job) (cards @ cash) shifts d))
    \<and> db_externals d' = db_externals d \<and> s = fst (persist w (sj_venueId job) (cards @ cash) shifts d)"
proof -
  obtain c v where cv: "square_connection d (sj_venueId job) = Some c" "find_venue d (pc_venueId c) = Some v"
    using assms(2) by (auto simp: pulled_def split: option.splits)
  let ?d = "update_connection (pc_id c) (\<lambda>x. x\<lparr>pc_lastSyncStartedAt := Some (sy_now w)\<rparr>) d"
  let ?r = "\<lparr>dr_startDate = sj_startDate job, dr_endDate = sj_endDate job\<rparr>"
  obtain d1 where g: "gather w c (the (pc_locationId c)) (ven_timezone v) ?r ?d = Some (Inr (cards, cash, shifts), d1)"
    using assms(2) cv by (auto simp: pulled_def split: option.splits sum.splits prod.splits)
  from g obtain cs where d1: "d1 = ?d\<lparr>db_connections := cs\<rparr>" by (rule gather_frame)
  show ?thesis
    using assms(1) cv g d1
    by (auto simp: sync_def Let_def persist_def succeeded_def update_connection_def square_workers_def split: if_splits)
qed

lemma distinct_keys_apart: "distinct (map f xs) \<Longrightarrow> (\<And>x y r. P x r \<Longrightarrow> P y r \<Longrightarrow> f x = f y) \<Longrightarrow> sorted_wrt (\<lambda>x y. \<forall>r. \<not> (P x r \<and> P y r)) xs"
proof (induction xs)
  case (Cons x xs)
  have "\<not> (P x r \<and> P y r)" if y: "y \<in> set xs" for y r
  proof
    assume "P x r \<and> P y r"
    then have "f x = f y" using Cons.prems(2) by blast
    moreover have "f x \<notin> f ` set xs" using Cons.prems(1) by simp
    ultimately show False using imageI [OF y, of f] by simp
  qed
  moreover have "sorted_wrt (\<lambda>x y. \<forall>r. \<not> (P x r \<and> P y r)) xs"
    by (rule Cons.IH, use Cons.prems(1) in simp) (rule Cons.prems(2))
  ultimately show ?case by simp
qed simp

text \<open>(C34) Synchronising is idempotent.  When the provider answers a second run of the job as it answered
  the first, whatever the clock, the tokens and the ids of new rows then are, the evidence tables stay
  exactly as they were and the summary is the same: retries of a failed schedule cannot duplicate a tip.  The
  provider lists a payment and a timecard once.\<close>

theorem sync_idempotent:
  assumes "sync w job d = Some (Inr s1, d1)" "sync w2 job d1 = Some (Inr s2, d2)"
    and "pulled w job d = Some (cards, cash, shifts)" "pulled w2 job d1 = Some (cards, cash, shifts)"
    and "distinct (map (\<lambda>t. (pt_provider t, pt_externalPaymentId t, pt_tipType t)) (cards @ cash))"
  shows "db_tips d2 = db_tips d1 \<and> db_shifts d2 = db_shifts d1 \<and> s2 = s1"
proof -
  let ?v = "sj_venueId job"
  note one = sync_stores [OF assms(1,3)] and two = sync_stores [OF assms(2,4)]
  have m: "square_workers d1 ?v = square_workers d ?v" using one by (simp add: square_workers_def)
  have "sorted_wrt (\<lambda>i j. \<forall>r. \<not> (square_tip_key ?v i r \<and> square_tip_key ?v j r)) (cards @ cash)"
    by (rule distinct_keys_apart [OF assms(5)]) (simp add: square_tip_key_def)
  from square_tips.rerun_apart [OF this] have tips: "db_tips d2 = db_tips d1"
    using one two by (simp add: persist_def Let_def del: sorted_wrt_append)
  have "db_shifts d2 = db_shifts d1" using one two m square_shifts.rerun by (simp add: persist_def Let_def)
  moreover have "s2 = s1" using one two m by (simp add: persist_def Let_def)
  ultimately show ?thesis using tips by blast
qed

definition demo_square_api :: square_api where
  "demo_square_api = \<lparr>api_token = \<lambda>_ _ _. Rejected ''e'', api_locations = \<lambda>_. Ok None,
     api_payments = \<lambda>_ _. Ok (Some [\<lparr>sp_id = Some ''p'', sp_created_at = Some ''t'', sp_order_id = None,
        sp_tip_money = Some \<lparr>my_amount = Some 250, my_currency = Some ''USD''\<rparr>, sp_refunded_money = None, sp_total_money = None,
        sp_status = Some ''COMPLETED'', sp_json = ''j''\<rparr>], None),
     api_orders = \<lambda>_ _ _. Ok None, api_timecards = \<lambda>_ _ _ _ _. Ok (None, None)\<rparr>"

definition demo_sync :: sync_world where
  "demo_sync = \<lparr>sy_square = \<lparr>sq_date_ms = \<lambda>_. 0, sq_bdate = \<lambda>_ _. ''d'', sq_sha256 = \<lambda>s. s\<rparr>, sy_crypto = toy_crypto, sy_iv = \<lambda>_. ''i'',
     sy_api = \<lambda>_. demo_square_api, sy_appId = Some ''a'', sy_appSecret = Some ''s'', sy_providerKey = Some ''0123456789abcdef'',
     sy_authSecret = None, sy_environment = None, sy_now = 5, sy_iso = \<lambda>_. ''d'', sy_fuel = 3, sy_tips_first = True,
     sy_tip_id = \<lambda>_. ''t1'', sy_shift_id = \<lambda>_. ''s1'', sy_alert_id = \<lambda>_. ''a1''\<rparr>"

definition demo_connection :: provider_connection where
  "demo_connection = \<lparr>pc_id = ''c'', pc_venueId = ''v'', pc_provider = ''square'', pc_environment = ''sandbox'', pc_status = CONNECTED,
     pc_merchantId = None, pc_locationId = Some ''l'', pc_encryptedAccessToken = Some ''v1.yi.yt.yk'', pc_encryptedRefreshToken = None,
     pc_tokenExpiresAt = None, pc_oauthStateHash = None, pc_oauthStateExpiresAt = None, pc_lastSyncStartedAt = None,
     pc_lastSyncSucceededAt = None, pc_lastSyncFailedAt = None, pc_lastError = None, pc_consecutiveFailures = 2\<rparr>"

definition sync_db0 :: db where
  "sync_db0 = empty_db\<lparr>db_venues := [\<lparr>ven_id = ''v'', ven_organizationId = ''o'', ven_name = ''n'', ven_timezone = ''z'',
     ven_payoutSignerWallet = None, ven_vaultTokenAccount = None, ven_externalIds = []\<rparr>], db_connections := [demo_connection]\<rparr>"

definition demo_job :: sync_job where
  "demo_job = \<lparr>sj_venueId = ''v'', sj_startDate = ''d'', sj_endDate = ''d''\<rparr>"

definition demo_synced :: db where
  "demo_synced = snd (the (sync demo_sync demo_job sync_db0))"

theorem sync_idempotent_witness:
  "db_tips (snd (the (sync (demo_sync\<lparr>sy_tip_id := \<lambda>_. ''t2''\<rparr>) demo_job demo_synced))) = db_tips demo_synced \<and> map te_id (db_tips demo_synced) = [''t1'']"
proof -
  let ?w = "demo_sync\<lparr>sy_tip_id := \<lambda>_. ''t2''\<rparr>" and ?s = "\<lparr>ssu_tipsUpserted = 1, ssu_shiftsUpserted = 0, ssu_mappedShifts = 0, ssu_unmappedShifts = 0\<rparr>"
  have runs: "sync demo_sync demo_job sync_db0 = Some (Inr ?s, demo_synced)"
    "sync ?w demo_job demo_synced = Some (Inr ?s, snd (the (sync ?w demo_job demo_synced)))" by code_simp+
  obtain cards cash shifts where pull: "pulled demo_sync demo_job sync_db0 = Some (cards, cash, shifts)"
    "distinct (map (\<lambda>t. (pt_provider t, pt_externalPaymentId t, pt_tipType t)) (cards @ cash))"
  proof -
    have "case pulled demo_sync demo_job sync_db0 of Some (cards, cash, shifts) \<Rightarrow>
        distinct (map (\<lambda>t. (pt_provider t, pt_externalPaymentId t, pt_tipType t)) (cards @ cash)) | None \<Rightarrow> False" by code_simp
    then show thesis using that by (auto split: option.splits)
  qed
  have "pulled ?w demo_job demo_synced = pulled demo_sync demo_job sync_db0" by code_simp
  then have "pulled ?w demo_job demo_synced = Some (cards, cash, shifts)" using pull(1) by simp
  moreover have "map te_id (db_tips demo_synced) = [''t1'']" by code_simp
  ultimately show ?thesis using sync_idempotent [OF runs pull(1) _ pull(2)] by blast
qed

end
