(* ===== verification/Queue_Runner.thy ===== *)
theory Queue_Runner
  imports Settlement Square_Sync Disclosure
begin

text \<open>
  \<open>apps/worker/src/queue-runner.service.ts\<close> and \<open>packages/shared/src/queues.ts\<close>: the queues, the processor that
  runs the jobs of each, and the jobs that the scheduler repeats.  Connecting to Redis, logging and closing are
  not kept.
\<close>

datatype queue_name = ProviderSync | CsvImport | AllocationCalculate | SolanaConfirmation | PayoutReconcile | PayrollImport
  | ReportGenerate | DisclosureExpire | AuditCleanup

text \<open>The data of a job: \<open>staleCheck\<close> with an optional sync request, a confirmation, or nothing that is read.\<close>

datatype job_data = SyncData bool "sync_job option" | ConfirmationData id string | NoData

record jobs_world =
  jw_solana :: world
  jw_sync :: "nat \<Rightarrow> sync_world"
  jw_now :: instant

definition process_sync :: "jobs_world \<Rightarrow> bool \<Rightarrow> sync_job option \<Rightarrow> db \<Rightarrow> (bool \<times> db \<times> effect list) option" where
  "process_sync w staleCheck job d =
     (if staleCheck then Some (True, snd (flagStaleConnections (jw_sync w 0) d), [])
      else if truthy (map_option sj_venueId job)
      then map_option (\<lambda>(r, d'). (is_ok r, d', [])) (sync (jw_sync w 0) (the job) d)
      else map_option (\<lambda>(r, d'). (is_ok r, d', [])) (syncConnectedVenues (jw_sync w) d))"

definition answer :: "unit job \<Rightarrow> bool \<times> db \<times> effect list" where
  "answer r = (is_ok (fst r), snd r)"

text \<open>A run of a job: whether it succeeded (the queue repeats a job that failed), the database and what it
  sent; \<open>None\<close> when it does not end.  A confirmation without its data throws; a queue without a processor
  logs the job.\<close>

fun process :: "jobs_world \<Rightarrow> queue_name \<Rightarrow> job_data \<Rightarrow> db \<Rightarrow> (bool \<times> db \<times> effect list) option" where
  "process w ProviderSync (SyncData stale job) d = process_sync w stale job d"
| "process w ProviderSync _ d = process_sync w False None d"
| "process w SolanaConfirmation (ConfirmationData payoutId signature) d = Some (answer (processConfirmation (jw_solana w) payoutId signature d))"
| "process w SolanaConfirmation _ d = Some (False, d, [])"
| "process w PayoutReconcile _ d = Some (answer (reconcileStalePayouts (jw_solana w) d))"
| "process w DisclosureExpire _ d = Some (True, snd (expireOverdue (jw_now w) d), [])"
| "process w _ _ d = Some (True, d, [])"

text \<open>The repeated jobs: queue, period in milliseconds and data.\<close>

definition schedulers :: "(queue_name \<times> int \<times> job_data) list" where
  "schedulers = [(PayoutReconcile, 60000, NoData), (DisclosureExpire, 300000, NoData), (ProviderSync, 900000, SyncData False None),
     (ProviderSync, 3600000, SyncData True None)]"

end
