(* ===== verification/Settlement_Progress.thy ===== *)
theory Settlement_Progress
  imports Settlement_Safety Queue_Runner
begin

text \<open>
  The sweep that the queue repeats every minute settles what the chain has decided: it never throws on such payouts,
  and as it looks at fifty of them at a time, a bounded number of sweeps leaves none open.
\<close>

definition open_payout :: "payout \<Rightarrow> bool" where
  "open_payout p \<longleftrightarrow> po_rail p = USDC \<and> po_status p \<in> {INITIATED, SUBMITTED, CONFIRMED}"

definition open_payouts :: "db \<Rightarrow> payout list" where
  "open_payouts d = filter open_payout (db_payouts d)"

text \<open>The chain has decided a payout when its settlement record is there, or when its blockhash has expired and its
  signature, if it has one, is not known.\<close>

definition chain_decided :: "world \<Rightarrow> payout \<Rightarrow> bool" where
  "chain_decided w p \<longleftrightarrow> w_finalized_record w (po_paymentId p) \<noteq> None
     \<or> (blockhash_expired w p \<and> (truthy (po_txSignature p) \<longrightarrow> w_signature_status w (the (po_txSignature p)) = None))"

definition chain_outcome :: "world \<Rightarrow> payout \<Rightarrow> payout_status" where
  "chain_outcome w p = (if w_finalized_record w (po_paymentId p) \<noteq> None then FINALIZED else PayoutFAILED)"

fun sweeps :: "nat \<Rightarrow> jobs_world \<Rightarrow> db \<Rightarrow> db option" where
  "sweeps 0 w d = Some d"
| "sweeps (Suc n) w d = (case process w PayoutReconcile NoData d of Some (True, d', _) \<Rightarrow> sweeps n w d' | _ \<Rightarrow> None)"

section \<open>One payout\<close>

definition settles :: "world \<Rightarrow> payout \<Rightarrow> payout \<Rightarrow> bool" where
  "settles w p q \<longleftrightarrow> po_id q = po_id p \<and> po_status q = chain_outcome w p"

lemma find_own:
  assumes "distinct (map po_id (db_payouts d))" "p \<in> set (db_payouts d)"
  shows "find_payout d (po_id p) = Some p"
  using assms find_unique_key [of po_id "db_payouts d" p] by (simp add: find_payout_def)

lemma decided_step:
  assumes "distinct (map po_id (db_payouts d))" "p \<in> set (db_payouts d)" "open_payout p" "chain_decided w p"
  shows "\<exists>f. is_ok (fst (reconcile_step w p d)) \<and> db_payouts (fst (snd (reconcile_step w p d))) = update_where (\<lambda>q. po_id q = po_id p) f (db_payouts d)
    \<and> settles w p (f p) \<and> (\<forall>q. po_id (f q) = po_id q)"
proof (cases "w_finalized_record w (po_paymentId p)")
  case (Some r)
  then show ?thesis using assms(3) find_own [OF assms(1,2)]
    by (intro exI [of _ "finalized w r None"])
      (auto simp: reconcile_step_def done_job_def finalizeFromChain_def open_payout_def Let_def settles_def chain_outcome_def finalized_def)
next
  case None
  have expired: "blockhash_expired w p" and unseen: "(if truthy (po_txSignature p) then w_signature_status w (the (po_txSignature p)) else None) = None"
    using assms(4) None by (auto simp: chain_decided_def)
  have "po_lastValidBlockHeight p \<noteq> None" using expired by (auto simp: blockhash_expired_def split: option.splits)
  then obtain reason where step: "reconcile_step w p d = (Inr (), markFailed (po_id p) (po_allocationId p) reason d, [])"
    using None expired unseen by (simp add: reconcile_step_def canReplaceTransactionBlockhash_def Let_def)
  show ?thesis unfolding step
    by (intro exI [of _ "\<lambda>q. q\<lparr>po_status := PayoutFAILED, po_failedReason := Some reason\<rparr>"])
      (simp add: markFailed_def settles_def chain_outcome_def None)
qed

section \<open>One sweep\<close>

text \<open>What became of the rows: those of \<open>ps\<close> are settled, the others are as they were.\<close>

definition swept :: "world \<Rightarrow> payout set \<Rightarrow> payout list \<Rightarrow> payout list \<Rightarrow> bool" where
  "swept w P xs ys \<longleftrightarrow> (\<exists>g. ys = map g xs \<and> (\<forall>x \<in> set xs. if x \<in> P then settles w x (g x) else g x = x))"

lemma swept_ids: "swept w P xs ys \<Longrightarrow> map po_id ys = map po_id xs"
  by (auto simp: swept_def settles_def split: if_splits)

lemma swept_one:
  assumes "distinct (map po_id xs)" "p \<in> set xs" "settles w p (f p)"
  shows "swept w {p} xs (update_where (\<lambda>q. po_id q = po_id p) f xs)"
proof -
  have "po_id y = po_id p \<longleftrightarrow> y = p" if "y \<in> set xs" for y using assms(1,2) that by (auto simp: distinct_map inj_on_def)
  then show ?thesis
    unfolding swept_def update_where_def
    by (intro exI [of _ "\<lambda>q. if po_id q = po_id p then f q else q"]) (use assms(3) in auto)
qed

lemma swept_trans:
  assumes "swept w {p} xs ys" "swept w P ys zs" "distinct (map po_id xs)" "p \<in> set xs" "p \<notin> P" "P \<subseteq> set xs"
  shows "swept w (insert p P) xs zs"
proof -
  obtain g where g: "ys = map g xs" "\<And>x. x \<in> set xs \<Longrightarrow> if x \<in> {p} then settles w x (g x) else g x = x"
    using assms(1) unfolding swept_def by blast
  obtain h where h: "zs = map h ys" "\<And>x. x \<in> set ys \<Longrightarrow> if x \<in> P then settles w x (h x) else h x = x"
    using assms(2) unfolding swept_def by blast
  have gp: "settles w p (g p)" using g(2) [OF assms(4)] by simp
  have "g p \<notin> P"
  proof
    assume "g p \<in> P"
    then have "g p = p" using assms(3,4,6) gp by (auto simp: settles_def distinct_map inj_on_def)
    then show False using assms(5) \<open>g p \<in> P\<close> by simp
  qed
  then have "h (g p) = g p" using h(2) [of "g p"] g(1) assms(4) by simp
  then have "settles w p (h (g p))" using gp by simp
  moreover have "if x \<in> P then settles w x (h (g x)) else h (g x) = x" if "x \<in> set xs" "x \<noteq> p" for x
    using g(2) [OF that(1)] h(2) [of x] g(1) that by (auto split: if_splits simp: image_iff) (metis)+
  ultimately have "if x \<in> insert p P then settles w x (h (g x)) else h (g x) = x" if "x \<in> set xs" for x
    using that by (cases "x = p") auto
  then show ?thesis using g(1) h(1)
    unfolding swept_def by (intro exI [of _ "h \<circ> g"]) simp
qed

lemma decided_loop:
  assumes "distinct (map po_id (db_payouts d))" "set ps \<subseteq> set (db_payouts d)" "distinct ps" "\<forall>p \<in> set ps. open_payout p \<and> chain_decided w p"
  shows "is_ok (fst (reconcile_loop w ps d es)) \<and> swept w (set ps) (db_payouts d) (db_payouts (fst (snd (reconcile_loop w ps d es))))"
  using assms
proof (induction ps arbitrary: d es)
  case Nil
  then show ?case by (simp add: swept_def) (metis list.map_ident)
next
  case (Cons p ps)
  have p: "p \<in> set (db_payouts d)" using Cons.prems(2) by simp
  obtain r d' es' where r: "reconcile_step w p d = (r, d', es')" by (metis prod.exhaust)
  obtain f where f: "is_ok r" "db_payouts d' = update_where (\<lambda>q. po_id q = po_id p) f (db_payouts d)" "settles w p (f p)"
    using decided_step [OF Cons.prems(1) p, of w] Cons.prems(4) r by auto
  have one: "swept w {p} (db_payouts d) (db_payouts d')" unfolding f(2) by (rule swept_one) (use Cons.prems(1) p f(3) in auto)
  have others: "q \<in> set (db_payouts d')" if "q \<in> set ps" for q
    using one that Cons.prems(2,3) unfolding swept_def by (auto simp: image_iff) (metis insert_iff list.set_intros subsetD)
  have rest: "is_ok (fst (reconcile_loop w ps d' (es @ es'))) \<and> swept w (set ps) (db_payouts d') (db_payouts (fst (snd (reconcile_loop w ps d' (es @ es')))))"
    using Cons.prems others swept_ids [OF one] by (intro Cons.IH) auto
  have "swept w (insert p (set ps)) (db_payouts d) (db_payouts (fst (snd (reconcile_loop w ps d' (es @ es')))))"
    using rest Cons.prems by (intro swept_trans [OF one]) auto
  then show ?case using r f(1) rest by (cases r) auto
qed

lemma swept_open:
  assumes "swept w P xs ys"
  shows "filter open_payout ys = filter (\<lambda>x. x \<notin> P) (filter open_payout xs)"
proof -
  obtain g where g: "ys = map g xs" "\<forall>x \<in> set xs. if x \<in> P then settles w x (g x) else g x = x"
    using assms unfolding swept_def by blast
  have shut: "\<not> open_payout y" if "settles w x y" for x y
    using that by (auto simp: settles_def open_payout_def chain_outcome_def split: if_splits)
  have "filter open_payout (map g zs) = filter (\<lambda>x. x \<notin> P) (filter open_payout zs)"
    if "\<forall>x \<in> set zs. if x \<in> P then settles w x (g x) else g x = x" for zs
    using that by (induction zs) (auto simp: shut split: if_splits)
  then show ?thesis using g by simp
qed

lemma swept_shut:
  assumes "swept w P xs ys" "\<forall>p \<in> P. open_payout p" "x \<in> set xs" "\<not> open_payout x"
  shows "x \<in> set ys"
  using assms unfolding swept_def by (metis image_eqI list.set_map)

lemma swept_settled: "swept w P xs ys \<Longrightarrow> x \<in> set xs \<Longrightarrow> x \<in> P \<Longrightarrow> \<exists>y \<in> set ys. settles w x y"
  unfolding swept_def by (metis image_eqI list.set_map)

lemma stale_open: "stale_payouts d = take 50 (js_sort initiated_cmp (open_payouts d))"
  by (simp add: stale_payouts_def open_payouts_def open_payout_def [abs_def])

lemma stale_in_open: "set (stale_payouts d) \<subseteq> set (open_payouts d)"
  unfolding stale_open using set_take_subset by fastforce

lemma sweep_settles:
  assumes "distinct (map po_id (db_payouts d))" "\<forall>p \<in> set (open_payouts d). chain_decided (jw_solana w) p"
  obtains d' es where "process w PayoutReconcile NoData d = Some (True, d', es)"
    "swept (jw_solana w) (set (stale_payouts d)) (db_payouts d) (db_payouts d')"
    "length (open_payouts d') = length (open_payouts d) - 50"
proof -
  let ?P = "set (stale_payouts d)" and ?r = "reconcileStalePayouts (jw_solana w) d"
  have dist: "distinct (open_payouts d)"
    using assms(1) by (simp add: open_payouts_def distinct_map)
  have "distinct (js_sort initiated_cmp (open_payouts d))" using dist distinct_js_sort [of id initiated_cmp "open_payouts d"] by simp
  then have stale: "distinct (stale_payouts d)" "card ?P = min 50 (length (open_payouts d))"
    by (simp_all add: stale_open distinct_card)
  have loop: "is_ok (fst ?r) \<and> swept (jw_solana w) ?P (db_payouts d) (db_payouts (fst (snd ?r)))"
    unfolding reconcileStalePayouts_def
    using assms stale(1) stale_in_open [of d] by (intro decided_loop) (auto simp: open_payouts_def)
  have "open_payouts (fst (snd ?r)) = filter (\<lambda>x. x \<notin> ?P) (open_payouts d)"
    using swept_open [of "jw_solana w" ?P] loop by (simp add: open_payouts_def)
  then have "length (open_payouts (fst (snd ?r))) = card (set (open_payouts d) - ?P)"
    using dist by (simp add: distinct_card [symmetric] set_diff_eq)
  also have "\<dots> = length (open_payouts d) - 50"
    using stale(2) stale_in_open [of d] dist by (simp add: card_Diff_subset distinct_card)
  finally have "length (open_payouts (fst (snd ?r))) = length (open_payouts d) - 50" .
  moreover have "process w PayoutReconcile NoData d = Some (True, fst (snd ?r), snd (snd ?r))"
    using loop by (simp add: answer_def prod_eq_iff)
  ultimately show ?thesis using loop by (intro that [of "fst (snd ?r)" "snd (snd ?r)"]) auto
qed

text \<open>(C7) When the chain has decided every open USDC payout, each sweep of the queue succeeds, and after one sweep per
  fifty open payouts none is open: those with a settlement record are final, the others have failed.\<close>

theorem sweeps_settle:
  assumes "distinct (map po_id (db_payouts d))" and "\<forall>p \<in> set (open_payouts d). chain_decided (jw_solana w) p"
    and "length (open_payouts d) \<le> 50 * n"
  shows "\<exists>d'. sweeps n w d = Some d' \<and> open_payouts d' = []
    \<and> (\<forall>p \<in> set (open_payouts d). \<exists>q \<in> set (db_payouts d'). po_id q = po_id p \<and> po_status q = chain_outcome (jw_solana w) p)"
proof -
  have "\<exists>d'. sweeps n w d = Some d' \<and> open_payouts d' = []
      \<and> (\<forall>p \<in> set (open_payouts d). \<exists>q \<in> set (db_payouts d'). settles (jw_solana w) p q)
      \<and> (\<forall>q \<in> set (db_payouts d). \<not> open_payout q \<longrightarrow> q \<in> set (db_payouts d'))"
    using assms
  proof (induction n arbitrary: d)
    case (Suc n)
    obtain d1 es where d1: "process w PayoutReconcile NoData d = Some (True, d1, es)"
        "swept (jw_solana w) (set (stale_payouts d)) (db_payouts d) (db_payouts d1)" "length (open_payouts d1) = length (open_payouts d) - 50"
      by (rule sweep_settles [OF Suc.prems(1,2)])
    have rest: "open_payouts d1 = filter (\<lambda>x. x \<notin> set (stale_payouts d)) (open_payouts d)"
      using swept_open [OF d1(2)] by (simp add: open_payouts_def)
    have shut: "q \<in> set (db_payouts d1)" if "q \<in> set (db_payouts d)" "\<not> open_payout q" for q
      by (rule swept_shut [OF d1(2) _ that]) (use stale_in_open [of d] in \<open>auto simp: open_payouts_def\<close>)
    have bound: "length (open_payouts d1) \<le> 50 * n" using Suc.prems(3) d1(3) by simp
    obtain d' where d': "sweeps n w d1 = Some d'" "open_payouts d' = []"
        "\<forall>p \<in> set (open_payouts d1). \<exists>q \<in> set (db_payouts d'). settles (jw_solana w) p q"
        "\<forall>q \<in> set (db_payouts d1). \<not> open_payout q \<longrightarrow> q \<in> set (db_payouts d')"
      using Suc.IH [OF _ _ bound] Suc.prems(1,2) swept_ids [OF d1(2)] rest by auto
    have "\<exists>q \<in> set (db_payouts d'). settles (jw_solana w) p q" if p: "p \<in> set (open_payouts d)" for p
    proof (cases "p \<in> set (stale_payouts d)")
      case True
      then obtain q where q: "q \<in> set (db_payouts d1)" "settles (jw_solana w) p q"
        using swept_settled [OF d1(2)] p by (auto simp: open_payouts_def)
      then have "\<not> open_payout q" by (auto simp: settles_def open_payout_def chain_outcome_def split: if_splits)
      then show ?thesis using d'(4) q by blast
    qed (use p d'(3) rest in auto)
    then show ?case using d1(1) d'(1,2,4) shut by auto
  qed (auto simp: open_payouts_def settles_def)
  then show ?thesis unfolding settles_def by blast
qed

definition settled_world :: jobs_world where
  "settled_world = \<lparr>jw_solana = demo_world\<lparr>w_finalized_record := (\<lambda>i. if i = ''a0'' then Some \<lparr>sr_amount = 5000000, sr_settledAt = 60\<rparr> else None)\<rparr>,
     jw_sync = \<lambda>_. demo_sync, jw_now = 0\<rparr>"

lemma sweeps_settle_witness:
  "\<exists>q \<in> set (db_payouts (the (sweeps 1 settled_world settle_demo))). po_id q = ''p0'' \<and> po_status q = FINALIZED"
proof -
  have d: "open_payouts settle_demo = [demo_payout]" "map po_id (db_payouts settle_demo) = [''p0'']" "po_id demo_payout = ''p0''"
    by (simp_all add: open_payouts_def open_payout_def settle_demo_def demo_payout_def blank_payout_def)
  have w: "chain_decided (jw_solana settled_world) demo_payout" "chain_outcome (jw_solana settled_world) demo_payout = FINALIZED"
    by (simp_all add: chain_decided_def chain_outcome_def settled_world_def demo_payout_def)
  show ?thesis using sweeps_settle [of settle_demo settled_world 1] d w by auto
qed

end
