(* ===== verification/Providers.thy ===== *)
theory Providers
  imports Square_Sync
begin

text \<open>
  \<open>apps/api/src/providers/providers.service.ts\<close> and \<open>squareAuthorizationUrl\<close>: connecting a venue to its
  Square seller by OAuth, queueing a sync and probing the connection.  \<open>completeSquareAuthorization\<close> reads the
  connection of a state and then consumes the state with a conditional update; \<open>oauth_read\<close> and
  \<open>oauth_claim\<close> are the two halves, so that callbacks can overlap.
\<close>

section \<open>Configuration\<close>

record providers_world =
  pw_square :: square_world
  pw_crypto :: crypto
  pw_iv :: "nat \<Rightarrow> string"
  pw_api :: "square_environment \<Rightarrow> square_api"
  pw_appId :: "string option"
  pw_appSecret :: "string option"
  pw_redirectUri :: "string option"
  pw_providerKey :: "string option"
  pw_authSecret :: "string option"
  pw_environment :: "string option"
  pw_now :: instant
  pw_state :: string                \<comment> \<open>\<open>randomBytes(32).toString("base64url")\<close>\<close>
  pw_sha256 :: "string \<Rightarrow> string"
  pw_connection_id :: id
  pw_job_id :: id

record providers_config =
  pvc_appId :: string
  pvc_appSecret :: string
  pvc_redirectUri :: string
  pvc_encryptionSecret :: string
  pvc_environment :: square_environment

definition providers_configuration :: "providers_world \<Rightarrow> http_error + providers_config" where
  "providers_configuration w =
     (let encryptionSecret = (case pw_providerKey w of Some k \<Rightarrow> Some k | None \<Rightarrow> pw_authSecret w) in
      if \<not> truthy (pw_appId w) \<or> \<not> truthy (pw_appSecret w) \<or> \<not> truthy (pw_redirectUri w) \<or> \<not> truthy encryptionSecret
      then Inl (ServiceUnavailableException ''Square OAuth or provider encryption is not configured'')
      else Inr \<lparr>pvc_appId = the (pw_appId w), pvc_appSecret = the (pw_appSecret w), pvc_redirectUri = the (pw_redirectUri w),
        pvc_encryptionSecret = the encryptionSecret, pvc_environment = environment_of (pw_environment w)\<rparr>)"

section \<open>The authorization URL\<close>

definition apiBase :: "square_environment \<Rightarrow> string" where
  "apiBase e = (case e of Sandbox \<Rightarrow> ''https://connect.squareupsandbox.com'' | Production \<Rightarrow> ''https://connect.squareup.com'')"

definition hex_digit :: "nat \<Rightarrow> char" where
  "hex_digit n = ''0123456789ABCDEF'' ! n"

text \<open>The form encoding of \<open>URLSearchParams\<close>, of ASCII text.\<close>

definition form_encode :: "string \<Rightarrow> string" where
  "form_encode s = concat (map (\<lambda>c. let n = of_char c :: nat in
     if 48 \<le> n \<and> n \<le> 57 \<or> 65 \<le> n \<and> n \<le> 90 \<or> 97 \<le> n \<and> n \<le> 122 \<or> c \<in> set ''*-._'' then [c]
     else if c = CHR '' '' then ''+'' else [CHR ''%'', hex_digit (n div 16), hex_digit (n mod 16)]) s)"

definition squareAuthorizationUrl :: "providers_config \<Rightarrow> string \<Rightarrow> string" where
  "squareAuthorizationUrl c state = apiBase (pvc_environment c) @ ''/oauth2/authorize?'' @ join ''&'' (map (\<lambda>(k, v). k @ ''='' @ form_encode v)
     [(''client_id'', pvc_appId c), (''scope'', ''MERCHANT_PROFILE_READ PAYMENTS_READ ORDERS_READ TIMECARDS_READ''),
      (''session'', ''false''), (''state'', state), (''redirect_uri'', pvc_redirectUri c)])"

section \<open>Issuing a state\<close>

definition state_issued :: "providers_world \<Rightarrow> providers_config \<Rightarrow> string option \<Rightarrow> provider_connection \<Rightarrow> provider_connection" where
  "state_issued w cfg locationId c = c\<lparr>pc_environment := (case pvc_environment cfg of Sandbox \<Rightarrow> ''sandbox'' | Production \<Rightarrow> ''production''),
     pc_status := ConnPENDING, pc_locationId := (case locationId of None \<Rightarrow> pc_locationId c | Some l \<Rightarrow> Some l),
     pc_oauthStateHash := Some (pw_sha256 w (pw_state w)), pc_oauthStateExpiresAt := Some (pw_now w + 10 * 60000), pc_lastError := None\<rparr>"

definition blank_connection :: "id \<Rightarrow> id \<Rightarrow> provider_connection" where
  "blank_connection new venueId = \<lparr>pc_id = new, pc_venueId = venueId, pc_provider = ''square'', pc_environment = [], pc_status = ConnPENDING,
     pc_merchantId = None, pc_locationId = None, pc_encryptedAccessToken = None, pc_encryptedRefreshToken = None, pc_tokenExpiresAt = None,
     pc_oauthStateHash = None, pc_oauthStateExpiresAt = None, pc_lastSyncStartedAt = None, pc_lastSyncSucceededAt = None,
     pc_lastSyncFailedAt = None, pc_lastError = None, pc_consecutiveFailures = 0\<rparr>"

definition createSquareAuthorization :: "providers_world \<Rightarrow> id \<Rightarrow> string option \<Rightarrow> db \<Rightarrow> (string \<times> int, db) outcome" where
  "createSquareAuthorization w venueId locationId d = (case providers_configuration w of
       Inl e \<Rightarrow> (Inl e, d)
     | Inr cfg \<Rightarrow>
         let answer = Inr (squareAuthorizationUrl cfg (pw_state w), 600) in
         (case square_connection d venueId of
            Some c \<Rightarrow> (answer, update_connection (pc_id c) (state_issued w cfg locationId) d)
          | None \<Rightarrow> if find_venue d venueId = None then (Inl (Failure ''Foreign key constraint violated''), d)
              else (answer, d\<lparr>db_connections := db_connections d @ [state_issued w cfg locationId (blank_connection (pw_connection_id w) venueId)]\<rparr>)))"

section \<open>The callback\<close>

record callback_input =
  cb_state :: "string option"
  cb_code :: "string option"
  cb_error :: "string option"
  cb_errorDescription :: "string option"

definition oauth_read :: "providers_world \<Rightarrow> callback_input \<Rightarrow> db \<Rightarrow> http_error + (provider_connection \<times> venue)" where
  "oauth_read w inp d = (if \<not> truthy (cb_state inp) then Inl (BadRequestException ''Missing OAuth state'')
     else case find (\<lambda>c. pc_provider c = ''square'' \<and> pc_oauthStateHash c = Some (pw_sha256 w (the (cb_state inp)))
            \<and> (case pc_oauthStateExpiresAt c of None \<Rightarrow> False | Some t \<Rightarrow> t > pw_now w)) (db_connections d) of
       None \<Rightarrow> Inl (BadRequestException ''OAuth state is invalid or expired'')
     | Some c \<Rightarrow> (case find_venue d (pc_venueId c) of None \<Rightarrow> Inl relation_error | Some v \<Rightarrow> Inr (c, v)))"

definition holds_state :: "string \<Rightarrow> provider_connection \<Rightarrow> bool" where
  "holds_state h c \<longleftrightarrow> pc_oauthStateHash c = Some h"

definition consume_state :: "string \<Rightarrow> provider_connection \<Rightarrow> provider_connection" where
  "consume_state h c = c\<lparr>pc_oauthStateHash := None, pc_oauthStateExpiresAt := None\<rparr>"

record connected =
  cn_venueId :: id
  cn_merchantId :: string
  cn_location :: sq_location

definition api_failure :: "square_error \<Rightarrow> http_error" where
  "api_failure e = (case e of SquareApiError m _ _ \<Rightarrow> Failure m | PlainError m \<Rightarrow> Failure m)"

definition select_location :: "string option \<Rightarrow> sq_location list \<Rightarrow> sq_location option" where
  "select_location wanted locations = (if truthy wanted then find (\<lambda>l. lo_id l = the wanted) locations
     else case find (\<lambda>l. lo_status l = Some ''ACTIVE'') locations of Some l \<Rightarrow> Some l
       | None \<Rightarrow> (case locations of [] \<Rightarrow> None | l # _ \<Rightarrow> Some l))"

text \<open>What is stored when the seller's tokens and location are known.\<close>

definition connect_seller :: "providers_world \<Rightarrow> providers_config \<Rightarrow> provider_connection \<Rightarrow> venue \<Rightarrow> token_response \<Rightarrow> sq_location \<Rightarrow> db \<Rightarrow>
   (connected, db) outcome" where
  "connect_seller w cfg c v tokens selected d =
     (case encryptProviderToken (pw_crypto w) (pw_iv w 0) (tk_access_token tokens) (pvc_encryptionSecret cfg) of
        Inl e \<Rightarrow> (Inl (Failure e), d)
      | Inr access \<Rightarrow>
        (case (if truthy (tk_refresh_token tokens)
               then map_sum id Some (encryptProviderToken (pw_crypto w) (pw_iv w 1) (the (tk_refresh_token tokens)) (pvc_encryptionSecret cfg))
               else Inr (pc_encryptedRefreshToken c)) of
           Inl e \<Rightarrow> (Inl (Failure e), d)
         | Inr refresh' \<Rightarrow>
             (Inr \<lparr>cn_venueId = pc_venueId c, cn_merchantId = tk_merchant_id tokens, cn_location = selected\<rparr>,
              (update_connection (pc_id c) (\<lambda>x. x\<lparr>pc_status := CONNECTED, pc_merchantId := Some (tk_merchant_id tokens),
                 pc_locationId := Some (lo_id selected), pc_encryptedAccessToken := Some access, pc_encryptedRefreshToken := refresh',
                 pc_tokenExpiresAt := (if truthy (tk_expires_at tokens) then Some (sq_date_ms (pw_square w) (the (tk_expires_at tokens))) else None),
                 pc_lastError := None, pc_consecutiveFailures := 0\<rparr>) d)
              \<lparr>db_venues := update_where (\<lambda>x. ven_id x = pc_venueId c)
                 (\<lambda>x. x\<lparr>ven_externalIds := map_set ''square'' (lo_id selected) (ven_externalIds v)\<rparr>) (db_venues d)\<rparr>)))"

definition exchange_code :: "providers_world \<Rightarrow> provider_connection \<Rightarrow> venue \<Rightarrow> string \<Rightarrow> db \<Rightarrow> (connected, db) outcome" where
  "exchange_code w c v code d = (case providers_configuration w of
       Inl e \<Rightarrow> (Inl e, d)
     | Inr cfg \<Rightarrow>
         let api = pw_api w (pvc_environment cfg) in
         (case obtainToken api (pvc_appId cfg) (pvc_appSecret cfg) (AuthorizationCode code (pvc_redirectUri cfg)) of
            Inl e \<Rightarrow> (Inl (api_failure e), d)
          | Inr tokens \<Rightarrow>
            (case listLocations \<lparr>sc_accessToken = tk_access_token tokens, sc_api = api, sc_timezone = ven_timezone v\<rparr> of
               Inl e \<Rightarrow> (Inl (api_failure e), d)
             | Inr locations \<Rightarrow> (case select_location (pc_locationId c) locations of
                 None \<Rightarrow> (Inl (BadRequestException ''Square seller has no accessible location''), d)
               | Some selected \<Rightarrow> connect_seller w cfg c v tokens selected d))))"

definition state_used :: http_error where
  "state_used = BadRequestException ''OAuth state was already used''"

definition oauth_claim :: "providers_world \<Rightarrow> callback_input \<Rightarrow> provider_connection \<times> venue \<Rightarrow> db \<Rightarrow> (connected, db) outcome" where
  "oauth_claim w inp cv d = (case cv of (c, v) \<Rightarrow>
     let h = pw_sha256 w (the (cb_state inp)); claim = (\<lambda>x. pc_id x = pc_id c \<and> holds_state h x);
         d1 = d\<lparr>db_connections := update_where claim (consume_state h) (db_connections d)\<rparr>
     in if count_where claim (db_connections d) \<noteq> 1 then (Inl state_used, d1)
        else if truthy (cb_error inp)
        then (Inl (BadRequestException (or_else (cb_errorDescription inp) (the (cb_error inp)))),
              update_connection (pc_id c) (\<lambda>x. x\<lparr>pc_status := ConnERROR, pc_lastError := cb_error inp\<rparr>) d1)
        else if \<not> truthy (cb_code inp) then (Inl (BadRequestException ''Missing OAuth authorization code''), d1)
        else exchange_code w c v (the (cb_code inp)) d1)"

definition completeSquareAuthorization :: "providers_world \<Rightarrow> callback_input \<Rightarrow> db \<Rightarrow> (connected, db) outcome" where
  "completeSquareAuthorization w inp d = (case oauth_read w inp d of Inl e \<Rightarrow> (Inl e, d) | Inr cv \<Rightarrow> oauth_claim w inp cv d)"

section \<open>Queue and health\<close>

text \<open>The job that is added to the queue, with its id.\<close>

definition enqueueSync :: "providers_world \<Rightarrow> sync_job \<Rightarrow> db \<Rightarrow> http_error + (id \<times> sync_job)" where
  "enqueueSync w job d = (case square_connection d (sj_venueId job) of
       Some c \<Rightarrow> if pc_status c \<in> {CONNECTED, ConnERROR} then Inr (pw_job_id w, job)
         else Inl (NotFoundException ''Connected Square provider not found for venue'')
     | None \<Rightarrow> Inl (NotFoundException ''Connected Square provider not found for venue''))"

record health_view =
  hv_ok :: bool
  hv_error :: "string option"
  hv_connectionStatus :: connection_status
  hv_lastSyncSucceededAt :: "instant option"
  hv_lastSyncFailedAt :: "instant option"
  hv_consecutiveFailures :: int
  hv_stale :: bool

definition health :: "providers_world \<Rightarrow> string \<Rightarrow> id \<Rightarrow> db \<Rightarrow> http_error + health_view" where
  "health w provider venueId d =
     (if provider \<noteq> ''square'' then Inl (NotFoundException ''Provider ${provider} is not supported'')
      else case square_connection d venueId of
        None \<Rightarrow> Inl (NotFoundException ''Connected Square provider not found for venue'')
      | Some c \<Rightarrow>
          if \<not> truthy (pc_encryptedAccessToken c) then Inl (NotFoundException ''Connected Square provider not found for venue'')
          else (case find_venue d (pc_venueId c) of
            None \<Rightarrow> Inl relation_error
          | Some v \<Rightarrow> (case providers_configuration w of
              Inl e \<Rightarrow> Inl e
            | Inr cfg \<Rightarrow> (case decryptProviderToken (pw_crypto w) (the (pc_encryptedAccessToken c)) (pvc_encryptionSecret cfg) of
                Inl e \<Rightarrow> Inl (Failure e)
              | Inr token \<Rightarrow>
                  let probe = healthCheck \<lparr>sc_accessToken = token, sc_api = pw_api w (pvc_environment cfg), sc_timezone = ven_timezone v\<rparr>
                  in Inr \<lparr>hv_ok = fst probe, hv_error = snd probe, hv_connectionStatus = pc_status c,
                    hv_lastSyncSucceededAt = pc_lastSyncSucceededAt c, hv_lastSyncFailedAt = pc_lastSyncFailedAt c,
                    hv_consecutiveFailures = pc_consecutiveFailures c,
                    hv_stale = (case pc_lastSyncSucceededAt c of None \<Rightarrow> True | Some t \<Rightarrow> pw_now w - t > 24 * 60 * 60000)\<rparr>))))"

section \<open>A state is used once\<close>

interpretation oauth: row_claim pc_id holds_state consume_state
  by unfold_locales (simp_all add: holds_state_def consume_state_def)

datatype oauth_event = IssueEvent id "string option" | CallbackEvent callback_input "provider_connection \<times> venue"

text \<open>Overlapping requests: states are issued, and callbacks consume the state with whatever row they had
  read.  A run lists the hashes of the states that a callback consumed.\<close>

definition oauth_step :: "providers_world \<times> oauth_event \<Rightarrow> db \<Rightarrow> string list \<times> db" where
  "oauth_step e d = (case e of (w, ev) \<Rightarrow> (case ev of
       IssueEvent v l \<Rightarrow> ([], snd (createSquareAuthorization w v l d))
     | CallbackEvent inp cv \<Rightarrow>
         let h = pw_sha256 w (the (cb_state inp))
         in (if count_where (\<lambda>x. pc_id x = pc_id (fst cv) \<and> holds_state h x) (db_connections d) = 1 then [h] else [],
             snd (oauth_claim w inp cv d))))"

fun oauth_run :: "(providers_world \<times> oauth_event) list \<Rightarrow> db \<Rightarrow> string list \<times> db" where
  "oauth_run [] d = ([], d)"
| "oauth_run (e # es) d = (case oauth_step e d of (xs, d1) \<Rightarrow> case oauth_run es d1 of (ys, d2) \<Rightarrow> (xs @ ys, d2))"

definition issued :: "(providers_world \<times> oauth_event) list \<Rightarrow> string list" where
  "issued es = concat (map (\<lambda>(w, ev). case ev of IssueEvent _ _ \<Rightarrow> [pw_sha256 w (pw_state w)] | CallbackEvent _ _ \<Rightarrow> []) es)"

definition pending :: "provider_connection list \<Rightarrow> string list" where
  "pending t = List.map_filter pc_oauthStateHash t"

lemma pending_simps [simp]:
  "pending [] = []" "pending (c # t) = (case pc_oauthStateHash c of None \<Rightarrow> pending t | Some h \<Rightarrow> h # pending t)"
  "pending (t @ u) = pending t @ pending u"
  by (simp_all add: pending_def List.map_filter_def split: option.split)

lemma pending_update: "(\<And>c. pc_oauthStateHash (f c) = pc_oauthStateHash c) \<Longrightarrow> pending (update_where P f t) = pending t"
  by (induction t) (auto split: option.split)

lemma pending_consume:
  assumes "distinct (pending t)" "\<And>c. P c \<Longrightarrow> holds_state h c"
  shows "distinct (pending (update_where P (consume_state h) t)) \<and> set (pending (update_where P (consume_state h) t)) \<subseteq> set (pending t)
    \<and> (list_ex P t \<longrightarrow> h \<in> set (pending t) \<and> h \<notin> set (pending (update_where P (consume_state h) t)))"
  using assms(1)
proof (induction t)
  case (Cons c t)
  show ?case
  proof (cases "P c")
    case True
    then have "pc_oauthStateHash c = Some h" using assms(2) by (simp add: holds_state_def)
    then show ?thesis using Cons True by (auto simp: consume_state_def)
  next
    case False
    then show ?thesis using Cons by (cases "pc_oauthStateHash c") auto
  qed
qed simp

lemma pending_issue:
  assumes "distinct (map pc_id t)" "distinct (pending t)" "h \<notin> set (pending t)" "\<And>c. pc_oauthStateHash (f c) = Some h"
  shows "distinct (pending (update_where (\<lambda>c. pc_id c = i) f t)) \<and> set (pending (update_where (\<lambda>c. pc_id c = i) f t)) \<subseteq> insert h (set (pending t))"
  using assms(1-3)
proof (induction t)
  case (Cons c t)
  show ?case
  proof (cases "pc_id c = i")
    case True
    then have "update_where (\<lambda>c. pc_id c = i) f t = t" using Cons.prems(1) by (intro update_where_none) (auto simp: image_iff)
    then show ?thesis using Cons.prems True assms(4) by (auto split: option.splits)
  next
    case False
    then show ?thesis using Cons by (cases "pc_oauthStateHash c") auto
  qed
qed simp

lemma exchange_pending:
  "pending (db_connections (snd (exchange_code w c v code d))) = pending (db_connections d)
   \<and> map pc_id (db_connections (snd (exchange_code w c v code d))) = map pc_id (db_connections d)"
proof -
  have "pending (db_connections (snd (connect_seller w cfg c v tokens l d))) = pending (db_connections d)
     \<and> map pc_id (db_connections (snd (connect_seller w cfg c v tokens l d))) = map pc_id (db_connections d)" for cfg tokens l
    by (auto simp: connect_seller_def update_connection_def pending_update map_update_where split: sum.split)
  then show ?thesis by (auto simp: exchange_code_def Let_def split: sum.split option.split)
qed

lemma claim_pending:
  "pending (db_connections (snd (oauth_claim w inp (c, v) d)))
     = pending (update_where (\<lambda>x. pc_id x = pc_id c \<and> holds_state (pw_sha256 w (the (cb_state inp))) x)
         (consume_state (pw_sha256 w (the (cb_state inp)))) (db_connections d))
   \<and> map pc_id (db_connections (snd (oauth_claim w inp (c, v) d))) = map pc_id (db_connections d)"
  using oauth.claim_ids [of _ "pw_sha256 w (the (cb_state inp))" "db_connections d"]
  by (auto simp: oauth_claim_def Let_def exchange_pending update_connection_def pending_update map_update_where)

lemma issue_pending:
  assumes "distinct (map pc_id (db_connections d))" "distinct (pending (db_connections d))" "pw_sha256 w (pw_state w) \<notin> set (pending (db_connections d))"
    and "pw_connection_id w \<notin> pc_id ` set (db_connections d)" "createSquareAuthorization w v l d = (r, d')"
  shows "distinct (map pc_id (db_connections d')) \<and> pc_id ` set (db_connections d') \<subseteq> insert (pw_connection_id w) (pc_id ` set (db_connections d))
    \<and> distinct (pending (db_connections d')) \<and> set (pending (db_connections d')) \<subseteq> insert (pw_sha256 w (pw_state w)) (set (pending (db_connections d)))"
proof -
  have f: "pc_oauthStateHash (state_issued w cfg l c) = Some (pw_sha256 w (pw_state w))" "pc_id (state_issued w cfg l c) = pc_id c" for cfg c
    by (simp_all add: state_issued_def)
  consider "d' = d" | cfg i where "d' = update_connection i (state_issued w cfg l) d"
    | cfg where "d' = d\<lparr>db_connections := db_connections d @ [state_issued w cfg l (blank_connection (pw_connection_id w) v)]\<rparr>"
    using assms(5) by (auto simp: createSquareAuthorization_def Let_def split: sum.splits option.splits if_splits)
  then show ?thesis
  proof cases
    case (2 cfg i)
    have "map pc_id (db_connections d') = map pc_id (db_connections d)" by (simp add: 2 update_connection_def map_update_where f)
    moreover from this have "pc_id ` set (db_connections d') = pc_id ` set (db_connections d)" by (metis set_map)
    ultimately show ?thesis using pending_issue [OF assms(1-3) f(1), of i] assms(1) by (auto simp: 2 update_connection_def)
  next
    case (3 cfg)
    then show ?thesis using assms f by (auto simp: blank_connection_def)
  qed (use assms in auto)
qed

lemma disjoint_insert_subset: "A \<subseteq> insert x B \<Longrightarrow> x \<notin> C \<Longrightarrow> B \<inter> C = {} \<Longrightarrow> A \<inter> C = {}"
  by blast

text \<open>What one step does to the states in the table.\<close>

lemma oauth_step_states:
  assumes "distinct (map pc_id (db_connections d) @ map (pw_connection_id \<circ> fst) (e # es))"
    and "distinct (pending (db_connections d) @ issued (e # es))" "oauth_step e d = (xs, d')"
  shows "distinct (map pc_id (db_connections d') @ map (pw_connection_id \<circ> fst) es) \<and> distinct (pending (db_connections d') @ issued es)
    \<and> set (pending (db_connections d')) \<subseteq> set (pending (db_connections d)) \<union> set (issued [e])
    \<and> distinct xs \<and> set xs \<subseteq> set (pending (db_connections d)) - set (pending (db_connections d'))"
proof -
  obtain w ev where e: "e = (w, ev)" by fastforce
  show ?thesis
  proof (cases ev)
    case (IssueEvent v l)
    obtain r where c: "createSquareAuthorization w v l d = (r, d')" and xs: "xs = []"
      using assms(3) by (cases "createSquareAuthorization w v l d") (auto simp: oauth_step_def e IssueEvent)
    have iss: "issued (e # es) = pw_sha256 w (pw_state w) # issued es" "issued [e] = [pw_sha256 w (pw_state w)]"
      by (simp_all add: issued_def e IssueEvent)
    let ?ids = "set (map (pw_connection_id \<circ> fst) es)"
    have old: "pw_connection_id w \<notin> ?ids" "distinct (map (pw_connection_id \<circ> fst) es)" "pc_id ` set (db_connections d) \<inter> ?ids = {}"
      "pw_sha256 w (pw_state w) \<notin> set (issued es)" "distinct (issued es)" "set (pending (db_connections d)) \<inter> set (issued es) = {}"
      using assms(1,2) unfolding iss by (auto simp: e)
    have pre: "distinct (map pc_id (db_connections d))" "distinct (pending (db_connections d))"
      "pw_sha256 w (pw_state w) \<notin> set (pending (db_connections d))" "pw_connection_id w \<notin> pc_id ` set (db_connections d)"
      using assms(1,2) unfolding iss by (auto simp: e)
    note n = issue_pending [OF pre c]
    note new = conjunct1 [OF n] conjunct1 [OF conjunct2 [OF n]] conjunct1 [OF conjunct2 [OF conjunct2 [OF n]]] conjunct2 [OF conjunct2 [OF conjunct2 [OF n]]]
    have "pc_id ` set (db_connections d') \<inter> ?ids = {}" by (rule disjoint_insert_subset [OF new(2) old(1,3)])
    then have "distinct (map pc_id (db_connections d') @ map (pw_connection_id \<circ> fst) es)" using new(1) old(2) by (simp only: distinct_append set_map simp_thms)
    moreover have "set (pending (db_connections d')) \<inter> set (issued es) = {}" by (rule disjoint_insert_subset [OF new(4) old(4,6)])
    then have "distinct (pending (db_connections d') @ issued es)" using new(3) old(5) by simp
    moreover have "set (pending (db_connections d')) \<subseteq> set (pending (db_connections d)) \<union> set (issued [e])" using new(4) unfolding iss by auto
    ultimately show ?thesis unfolding xs by simp
  next
    case (CallbackEvent inp cv)
    obtain c v where cv: "cv = (c, v)" by fastforce
    let ?h = "pw_sha256 w (the (cb_state inp))"
    let ?P = "\<lambda>x. pc_id x = pc_id c \<and> holds_state ?h x"
    have d': "d' = snd (oauth_claim w inp (c, v) d)" and xs: "xs = (if count_where ?P (db_connections d) = 1 then [?h] else [])"
      using assms(3) by (auto simp: oauth_step_def e CallbackEvent cv Let_def)
    have iss: "issued (e # es) = issued es" "issued [e] = []" by (simp_all add: issued_def e CallbackEvent)
    have some: "list_ex ?P (db_connections d)" if "xs \<noteq> []"
      using that xs by (auto simp: count_where_def list_ex_iff filter_empty_conv split: if_splits dest!: arg_cong [where f = "(=) 0"])
    have "distinct (pending (db_connections d))" using assms(2) by simp
    from pending_consume [OF this, of ?P ?h] claim_pending [of w inp c v d]
    have k: "distinct (pending (db_connections d'))" "set (pending (db_connections d')) \<subseteq> set (pending (db_connections d))"
      "list_ex ?P (db_connections d) \<Longrightarrow> ?h \<in> set (pending (db_connections d)) - set (pending (db_connections d'))"
      "map pc_id (db_connections d') = map pc_id (db_connections d)"
      unfolding d' by auto
    have "distinct xs \<and> set xs \<subseteq> set (pending (db_connections d)) - set (pending (db_connections d'))"
      using some k(3) xs by (cases "xs = []") (auto split: if_splits)
    then show ?thesis using assms(1,2) k(1,2,4) unfolding iss by (auto simp: e)
  qed
qed

lemma oauth_run_states:
  assumes "distinct (map pc_id (db_connections d) @ map (pw_connection_id \<circ> fst) es)" "distinct (pending (db_connections d) @ issued es)"
  shows "distinct (fst (oauth_run es d)) \<and> set (fst (oauth_run es d)) \<subseteq> set (pending (db_connections d)) \<union> set (issued es)"
  using assms
proof (induction es arbitrary: d)
  case (Cons e es)
  obtain xs d1 where st: "oauth_step e d = (xs, d1)" by fastforce
  note s = oauth_step_states [OF Cons.prems st]
  have ih: "distinct (fst (oauth_run es d1))" "set (fst (oauth_run es d1)) \<subseteq> set (pending (db_connections d1)) \<union> set (issued es)"
    using Cons.IH [of d1] s by blast+
  have iss: "set (issued (e # es)) = set (issued [e]) \<union> set (issued es)" by (auto simp: issued_def)
  have "set xs \<inter> set (issued es) = {}" using s Cons.prems(2) iss by auto
  then have "distinct (xs @ fst (oauth_run es d1)) \<and> set (xs @ fst (oauth_run es d1)) \<subseteq> set (pending (db_connections d)) \<union> set (issued (e # es))"
    using s ih iss by (auto; blast)
  then show ?case using st by (simp add: case_prod_unfold)
qed simp


definition demo_providers :: providers_world where
  "demo_providers = \<lparr>pw_square = sy_square demo_sync, pw_crypto = toy_crypto, pw_iv = \<lambda>_. ''i'', pw_api = \<lambda>_. demo_square_api, pw_appId = Some ''a'',
     pw_appSecret = Some ''s'', pw_redirectUri = Some ''r'', pw_providerKey = None, pw_authSecret = Some ''0123456789abcdef'',
     pw_environment = None, pw_now = 1, pw_state = ''st'', pw_sha256 = \<lambda>s. s, pw_connection_id = ''c1'', pw_job_id = ''j''\<rparr>"

definition demo_callback :: callback_input where
  "demo_callback = \<lparr>cb_state = Some ''st'', cb_code = Some ''k'', cb_error = None, cb_errorDescription = None\<rparr>"


end
