(* ===== verification/Controllers.thy ===== *)
theory Controllers
  imports Settlement_Close Workers Providers Staffing
begin

text \<open>
  The controllers of \<open>apps/api/src\<close>: each route parses its body, asserts the caller's role where it is a
  staff route, and calls its service.  A request's body is the value zod parsed from it, \<open>None\<close> when it is
  rejected; \<open>u\<close> is the id of the authenticated user.  A venue's staff may act on an entity only with a role
  in the organisation of the venue the entity belongs to; \<open>staff_write\<close> collects the routes that write.
\<close>

section \<open>Guards\<close>

definition parseBody :: "'a option \<Rightarrow> http_error + 'a" where
  "parseBody body = (case body of None \<Rightarrow> Inl (BadRequestException ''Validation failed'') | Some x \<Rightarrow> Inr x)"

text \<open>An \<open>await\<close> whose rejection ends the handler, in front of a write and of a read.\<close>

definition guarded :: "http_error + 'x \<Rightarrow> ('x \<Rightarrow> db \<Rightarrow> ('a, db) outcome) \<Rightarrow> db \<Rightarrow> ('a, db) outcome" where
  "guarded g f d = (case g of Inl e \<Rightarrow> (Inl e, d) | Inr x \<Rightarrow> f x d)"

definition checked :: "http_error + 'x \<Rightarrow> ('x \<Rightarrow> http_error + 'a) \<Rightarrow> http_error + 'a" where
  "checked g f = (case g of Inl e \<Rightarrow> Inl e | Inr x \<Rightarrow> f x)"

definition manages :: "id \<Rightarrow> id \<Rightarrow> db \<Rightarrow> http_error + unit" where
  "manages u venueId d = assertVenueRole u venueId VENUE_MANAGE_ROLES d"

definition reads :: "id \<Rightarrow> id \<Rightarrow> db \<Rightarrow> http_error + unit" where
  "reads u venueId d = assertVenueRole u venueId VENUE_READ_ROLES d"

section \<open>Organizations\<close>

definition organizations_create :: "id \<Rightarrow> id \<Rightarrow> organization_input option \<Rightarrow> db \<Rightarrow> (organization \<times> org_member list, db) outcome" where
  "organizations_create new u body d = guarded (parseBody body) (\<lambda>i d. case createOrganization new u i d of (r, d') \<Rightarrow> (Inr r, d')) d"

definition organizations_addMember :: "id \<Rightarrow> id \<Rightarrow> (string \<times> org_role) option \<Rightarrow> db \<Rightarrow> (org_member, db) outcome" where
  "organizations_addMember u organizationId body d =
     guarded (assertOrgRole u organizationId [OWNER] d) (\<lambda>_. guarded (parseBody body) (\<lambda>(email, role). addMember organizationId email role)) d"

definition organizations_createVenue :: "id \<Rightarrow> id \<Rightarrow> instant \<Rightarrow> id \<Rightarrow> venue_input option \<Rightarrow> db \<Rightarrow> (venue, db) outcome" where
  "organizations_createVenue new_venue new_policy now u body d = guarded (parseBody body) (\<lambda>i.
     guarded (assertOrgRole u (vi_organizationId i) VENUE_MANAGE_ROLES d)
       (\<lambda>_ d. case createVenue new_venue new_policy now u i d of (v, d') \<Rightarrow> (Inr v, d'))) d"

definition organizations_getVenue :: "id \<Rightarrow> id \<Rightarrow> db \<Rightarrow> http_error + (venue \<times> allocation_policy list)" where
  "organizations_getVenue u venueId d = checked (reads u venueId d) (\<lambda>_. getVenue venueId d)"

definition organizations_actionItems :: "(string \<Rightarrow> string \<Rightarrow> rat) \<Rightarrow> id \<Rightarrow> id \<Rightarrow> db \<Rightarrow> http_error + action_items" where
  "organizations_actionItems lc u venueId d = checked (reads u venueId d) (\<lambda>_. Inr (actionItems lc venueId d))"

definition organizations_workerConnections :: "(string \<Rightarrow> string \<Rightarrow> rat) \<Rightarrow> id \<Rightarrow> id \<Rightarrow> db \<Rightarrow> http_error + connections_view" where
  "organizations_workerConnections lc u venueId d = checked (reads u venueId d) (\<lambda>_. workerConnections lc venueId d)"

definition organizations_settlementClose :: "treasury_world \<Rightarrow> id \<Rightarrow> id \<Rightarrow> string option \<Rightarrow> db \<Rightarrow> http_error + close_view" where
  "organizations_settlementClose t u venueId query d =
     checked (parseBody query) (\<lambda>businessDate. checked (reads u venueId d) (\<lambda>_. settlementClose t venueId businessDate d))"

definition organizations_payrollExport :: "treasury_world \<Rightarrow> id \<Rightarrow> id \<Rightarrow> string option \<Rightarrow> db \<Rightarrow> (payroll_file, db) outcome" where
  "organizations_payrollExport t u venueId query d =
     guarded (parseBody query) (\<lambda>businessDate. guarded (manages u venueId d) (\<lambda>_. payrollExport t venueId businessDate u)) d"

definition organizations_setWallet :: "id \<Rightarrow> id \<Rightarrow> string option \<Rightarrow> db \<Rightarrow> (venue, db) outcome" where
  "organizations_setWallet u venueId body d =
     guarded (parseBody body) (\<lambda>wallet. guarded (manages u venueId d) (\<lambda>_. setVenueWallet venueId wallet)) d"

section \<open>Allocations\<close>

record calculation_world =
  kw_lc :: "string \<Rightarrow> string \<Rightarrow> rat"
  kw_evidence_hash :: "string list \<Rightarrow> string list \<Rightarrow> string"
  kw_allocation_hash :: "int \<Rightarrow> cents \<Rightarrow> worker_allocation_result list \<Rightarrow> string"
  kw_batch_id :: id
  kw_alloc_id :: "nat \<Rightarrow> id"
  kw_now :: instant

definition allocations_calculate :: "calculation_world \<Rightarrow> id \<Rightarrow> calculate_input option \<Rightarrow> db \<Rightarrow> (batch_view, db) outcome" where
  "allocations_calculate w u body d = guarded (parseBody body) (\<lambda>i. guarded (manages u (ci_venueId i) d)
     (\<lambda>_. calculate (kw_lc w) (kw_evidence_hash w) (kw_allocation_hash w) (kw_batch_id w) (kw_alloc_id w) (kw_now w) i (Some u))) d"

definition batch_managed :: "id \<Rightarrow> id \<Rightarrow> db \<Rightarrow> http_error + unit" where
  "batch_managed u i d = checked (getBatch i d) (\<lambda>b. manages u (ab_venueId (bv_batch b)) d)"

definition allocations_get :: "id \<Rightarrow> id \<Rightarrow> db \<Rightarrow> http_error + batch_view" where
  "allocations_get u i d = checked (getBatch i d) (\<lambda>b. checked (reads u (ab_venueId (bv_batch b)) d) (\<lambda>_. Inr b))"

definition allocations_approve :: "instant \<Rightarrow> id \<Rightarrow> id \<Rightarrow> db \<Rightarrow> (allocation_batch, db) outcome" where
  "allocations_approve now u i d = guarded (batch_managed u i d) (\<lambda>_. approve i u now) d"

definition allocations_reject :: "id \<Rightarrow> id \<Rightarrow> string option \<Rightarrow> db \<Rightarrow> (allocation_batch, db) outcome" where
  "allocations_reject u i body d = guarded (parseBody body) (\<lambda>reason. guarded (batch_managed u i d) (\<lambda>_. reject i u reason)) d"

definition allocations_autoAssignRails :: "id \<Rightarrow> id \<Rightarrow> db \<Rightarrow> (auto_assign_result, db) outcome" where
  "allocations_autoAssignRails u i d = guarded (batch_managed u i d) (\<lambda>_. autoAssignRails i u) d"

definition allocations_setPlannedRail :: "id \<Rightarrow> id \<Rightarrow> payout_rail option \<Rightarrow> db \<Rightarrow> (worker_allocation, db) outcome" where
  "allocations_setPlannedRail u i body d = guarded (parseBody body) (\<lambda>rail.
     guarded (checked (getAllocation i d) (\<lambda>(_, venueId). manages u venueId d)) (\<lambda>_. setPlannedRail i rail u)) d"

section \<open>Payouts\<close>

definition venueIdOfAllocation :: "id \<Rightarrow> db \<Rightarrow> http_error + id option" where
  "venueIdOfAllocation i d = (case find_allocation d i of
       None \<Rightarrow> Inr None
     | Some a \<Rightarrow> (case find_batch d (wa_batchId a) of None \<Rightarrow> Inl relation_error | Some b \<Rightarrow> Inr (Some (ab_venueId b))))"

text \<open>\<open>if (venueId) await assertVenueRole(...)\<close>.\<close>

definition managed_if_known :: "id \<Rightarrow> id option \<Rightarrow> db \<Rightarrow> http_error + unit" where
  "managed_if_known u venueId d = (if truthy venueId then manages u (the venueId) d else Inr ())"

definition payouts_create :: "world \<Rightarrow> id \<Rightarrow> id option \<Rightarrow> db \<Rightarrow> (payout, db) outcome" where
  "payouts_create w u body d = guarded (parseBody body) (\<lambda>i.
     guarded (checked (venueIdOfAllocation i d) (\<lambda>v. managed_if_known u v d)) (\<lambda>_. createUsdcPayout w i (Some u))) d"

definition payout_managed :: "id \<Rightarrow> id \<Rightarrow> db \<Rightarrow> http_error + unit" where
  "payout_managed u i d = checked (getPayout i d) (\<lambda>p. manages u (po_venueId (pv_payout p)) d)"

definition payouts_buildTransaction :: "world \<Rightarrow> id \<Rightarrow> id \<Rightarrow> db \<Rightarrow> (build_result, db) outcome" where
  "payouts_buildTransaction w u i d = guarded (payout_managed u i d) (\<lambda>_. buildTransaction w i (Some u)) d"

definition payouts_submit :: "world \<Rightarrow> id \<Rightarrow> id \<Rightarrow> string option \<Rightarrow> db \<Rightarrow> (http_error + payout) \<times> db \<times> effect list" where
  "payouts_submit w u i body d = (case checked (parseBody body) (\<lambda>signed. checked (payout_managed u i d) (\<lambda>_. Inr signed)) of
       Inl e \<Rightarrow> (Inl e, d, []) | Inr signed \<Rightarrow> submitSigned w i signed (Some u) d)"

definition payouts_get :: "id \<Rightarrow> id \<Rightarrow> db \<Rightarrow> http_error + payout_view" where
  "payouts_get u i d = checked (getPayout i d) (\<lambda>p. checked (reads u (po_venueId (pv_payout p)) d) (\<lambda>_. Inr p))"

record legacy_input =
  li_allocationId :: id
  li_rail :: payout_rail
  li_externalReference :: string

definition payouts_legacyEvidence :: "world \<Rightarrow> id \<Rightarrow> legacy_input option \<Rightarrow> db \<Rightarrow> (payout, db) outcome" where
  "payouts_legacyEvidence w u body d = guarded (parseBody body) (\<lambda>i.
     guarded (checked (venueIdOfAllocation (li_allocationId i) d) (\<lambda>v. managed_if_known u v d))
       (\<lambda>_. registerLegacyEvidence w (li_allocationId i) (li_rail i) (li_externalReference i) (Some u))) d"

section \<open>Policies, mappings and evidence\<close>

definition policies_list :: "id \<Rightarrow> id \<Rightarrow> db \<Rightarrow> http_error + allocation_policy list" where
  "policies_list u venueId d = checked (reads u venueId d) (\<lambda>_. Inr (policies_by_version d venueId))"

definition policies_create :: "id \<Rightarrow> instant \<Rightarrow> id \<Rightarrow> id \<Rightarrow> policy_request option \<Rightarrow> db \<Rightarrow> (allocation_policy, db) outcome" where
  "policies_create new now u venueId body d = guarded (parseBody body) (\<lambda>i. guarded (manages u venueId d)
     (\<lambda>_ d. case createVersion new now venueId u i d of (p, d') \<Rightarrow> (Inr p, d'))) d"

definition policies_newVersion :: "id \<Rightarrow> instant \<Rightarrow> id \<Rightarrow> id \<Rightarrow> policy_overrides option \<Rightarrow> db \<Rightarrow> (allocation_policy, db) outcome" where
  "policies_newVersion new now u i body d = guarded (parseBody body) (\<lambda>ov.
     guarded (checked (getVenueIdOf i d) (\<lambda>v. manages u v d)) (\<lambda>_. newVersionFrom new now i u ov)) d"

definition mappings_listUnmapped :: "id \<Rightarrow> id \<Rightarrow> db \<Rightarrow> http_error + unmapped_view" where
  "mappings_listUnmapped u venueId d = checked (reads u venueId d) (\<lambda>_. Inr (listUnmapped venueId d))"

definition mappings_create :: "mapping_world \<Rightarrow> id \<Rightarrow> mapping_request option \<Rightarrow> db \<Rightarrow> (mapping_created, db) outcome" where
  "mappings_create w u body d = guarded (parseBody body) (\<lambda>i. guarded (manages u (mq_venueId i) d) (\<lambda>_. createMapping w i)) d"

definition mappings_respond :: "mapping_world \<Rightarrow> id \<Rightarrow> id \<Rightarrow> decision option \<Rightarrow> db \<Rightarrow> (mapping_answer, db) outcome" where
  "mappings_respond w u i body d = guarded (parseBody body) (\<lambda>x. respondToMapping w i u x) d"

definition evidence_importCsv :: "evidence_world \<Rightarrow> id \<Rightarrow> (id \<times> string) option \<Rightarrow> db \<Rightarrow> (import_summary, db) outcome" where
  "evidence_importCsv w u body d = guarded (parseBody body) (\<lambda>(venueId, csvText). guarded (manages u venueId d)
     (\<lambda>_. importCsv w venueId csvText (Some u))) d"

definition evidence_listTips :: "id \<Rightarrow> id \<Rightarrow> string option \<Rightarrow> db \<Rightarrow> http_error + tip_evidence list" where
  "evidence_listTips u venueId date d = checked (reads u venueId d) (\<lambda>_. Inr (listTipEvidence venueId date d))"

definition evidence_listShifts :: "id \<Rightarrow> id \<Rightarrow> string option \<Rightarrow> db \<Rightarrow> http_error + shift_evidence list" where
  "evidence_listShifts u venueId date d = checked (reads u venueId d) (\<lambda>_. Inr (listShiftEvidence venueId date d))"

section \<open>Staffing\<close>

definition staffing_createShift :: "id \<Rightarrow> id \<Rightarrow> id \<Rightarrow> shift_request option \<Rightarrow> db \<Rightarrow> (open_shift, db) outcome" where
  "staffing_createShift new u venueId body d =
     guarded (manages u venueId d) (\<lambda>_. guarded (parseBody body) (\<lambda>i. createShift new venueId u i)) d"

definition staffing_venueShifts :: "id \<Rightarrow> id \<Rightarrow> db \<Rightarrow> http_error + (open_shift \<times> shift_assignment list) list" where
  "staffing_venueShifts u venueId d = checked (reads u venueId d) (\<lambda>_. Inr (listVenueShifts venueId d))"

definition shift_managed :: "id \<Rightarrow> id \<Rightarrow> db \<Rightarrow> http_error + unit" where
  "shift_managed u shiftId d = checked (getShift shiftId d) (\<lambda>s. manages u (os_venueId s) d)"

definition staffing_publish :: "instant \<Rightarrow> id \<Rightarrow> id \<Rightarrow> db \<Rightarrow> (open_shift, db) outcome" where
  "staffing_publish now u shiftId d = guarded (shift_managed u shiftId d) (\<lambda>_. publishShift now shiftId u) d"

definition staffing_cancel :: "instant \<Rightarrow> id \<Rightarrow> id \<Rightarrow> string option option \<Rightarrow> db \<Rightarrow> (open_shift, db) outcome" where
  "staffing_cancel now u shiftId body d =
     guarded (shift_managed u shiftId d) (\<lambda>_. guarded (parseBody body) (\<lambda>reason. cancelShift now shiftId u reason)) d"

definition staffing_invite :: "id \<Rightarrow> id \<Rightarrow> id \<Rightarrow> id option \<Rightarrow> db \<Rightarrow> (shift_assignment, db) outcome" where
  "staffing_invite new u shiftId body d =
     guarded (shift_managed u shiftId d) (\<lambda>_. guarded (parseBody body) (\<lambda>workerId. invite new shiftId workerId u)) d"

definition staffing_respond :: "id \<Rightarrow> instant \<Rightarrow> id \<Rightarrow> id \<Rightarrow> response option \<Rightarrow> db \<Rightarrow> (shift_assignment, db) outcome" where
  "staffing_respond new now u shiftId body d = guarded (parseBody body) (\<lambda>r. respond new now shiftId u r) d"

definition staffing_cancelAssignment :: "instant \<Rightarrow> id \<Rightarrow> id \<Rightarrow> string option option \<Rightarrow> db \<Rightarrow> (shift_assignment, db) outcome" where
  "staffing_cancelAssignment now u i body d = guarded (parseBody body) (\<lambda>reason. cancelAssignment now i u reason) d"

definition assignment_managed :: "id \<Rightarrow> id \<Rightarrow> db \<Rightarrow> http_error + unit" where
  "assignment_managed u i d = checked (getAssignment i d) (\<lambda>(_, s). manages u (os_venueId s) d)"

definition staffing_approve ::
  "(instant \<Rightarrow> string \<Rightarrow> string) \<Rightarrow> (id \<Rightarrow> id \<Rightarrow> instant \<Rightarrow> instant \<Rightarrow> string \<Rightarrow> string) \<Rightarrow> id \<Rightarrow> instant \<Rightarrow> id \<Rightarrow> id \<Rightarrow> db \<Rightarrow>
   (shift_assignment, db) outcome" where
  "staffing_approve bdate hash new now u i d = guarded (assignment_managed u i d) (\<lambda>_. approveAssignment bdate hash new now i u) d"

definition staffing_noShow :: "instant \<Rightarrow> id \<Rightarrow> id \<Rightarrow> db \<Rightarrow> (shift_assignment, db) outcome" where
  "staffing_noShow now u i d = guarded (assignment_managed u i d) (\<lambda>_. markNoShow now i u) d"

section \<open>Income, payroll and providers\<close>

definition income_rebuild :: "income_world \<Rightarrow> id \<Rightarrow> id \<Rightarrow> db \<Rightarrow> (nat \<times> nat, db) outcome" where
  "income_rebuild w u venueId d = guarded (manages u venueId d) (\<lambda>_. rebuildVenue w venueId (Some u) MANUAL) d"

definition income_timeline :: "id \<Rightarrow> (string option \<times> nat) option \<Rightarrow> db \<Rightarrow> http_error + timeline" where
  "income_timeline u query d = checked (parseBody query) (\<lambda>(cursor, limit). timelineForUser u cursor limit d)"

definition income_correct :: "id \<Rightarrow> instant \<Rightarrow> id \<Rightarrow> id \<Rightarrow> correction_input option \<Rightarrow> db \<Rightarrow> (income_entry, db) outcome" where
  "income_correct new now u i body d = guarded (parseBody body) (\<lambda>inp.
     guarded (case find_entry d i of None \<Rightarrow> Inr () | Some e \<Rightarrow> manages u (ie_venueId e) d) (\<lambda>_. correctEntry new now i u inp)) d"

definition PAYROLL_WRITE_ROLES :: "org_role list" where
  "PAYROLL_WRITE_ROLES = [OWNER, MANAGER, PAYROLL_ADMIN]"

definition payroll_importRecords ::
  "income_world \<Rightarrow> (string \<Rightarrow> instant) \<Rightarrow> (nat \<Rightarrow> id) \<Rightarrow> id \<Rightarrow> (id \<times> string \<times> payroll_import list) option \<Rightarrow> db \<Rightarrow>
   (nat \<times> (string \<times> string) list, db) outcome" where
  "payroll_importRecords w date new u body d = guarded (parseBody body) (\<lambda>(venueId, provider, records).
     guarded (assertVenueRole u venueId PAYROLL_WRITE_ROLES d) (\<lambda>_. importRecords w date new venueId provider records)) d"

text \<open>The worker, or the staff of a venue with income of the worker: of the first entry found.\<close>

definition payroll_allowed :: "id \<Rightarrow> id \<Rightarrow> db \<Rightarrow> http_error + unit" where
  "payroll_allowed u workerId d = (if map_option wk_userId (find_worker d workerId) = Some u then Inr ()
     else case find (\<lambda>e. ie_workerId e = workerId) (db_incomes d) of
       None \<Rightarrow> Inl (ForbiddenException ''Not authorized for this worker'')
     | Some e \<Rightarrow> reads u (ie_venueId e) d)"

definition payroll_statusOf :: "id \<Rightarrow> id \<Rightarrow> db \<Rightarrow> http_error + (payroll_record \<times> id \<times> string) list" where
  "payroll_statusOf u workerId d = checked (payroll_allowed u workerId d) (\<lambda>_. statusForWorker workerId d)"

definition providers_connect :: "providers_world \<Rightarrow> id \<Rightarrow> (id \<times> string option) option \<Rightarrow> db \<Rightarrow> (string \<times> int, db) outcome" where
  "providers_connect w u body d = guarded (parseBody body) (\<lambda>(venueId, locationId). guarded (manages u venueId d)
     (\<lambda>_. createSquareAuthorization w venueId locationId)) d"

definition providers_health :: "providers_world \<Rightarrow> id \<Rightarrow> string \<Rightarrow> id option \<Rightarrow> db \<Rightarrow> http_error + health_view" where
  "providers_health w u provider query d =
     checked (parseBody query) (\<lambda>venueId. checked (reads u venueId d) (\<lambda>_. health w provider venueId d))"

definition providers_sync :: "providers_world \<Rightarrow> id \<Rightarrow> sync_job option \<Rightarrow> db \<Rightarrow> http_error + (id \<times> sync_job)" where
  "providers_sync w u body d =
     checked (parseBody body) (\<lambda>job. checked (manages u (sj_venueId job) d) (\<lambda>_. enqueueSync w job d))"

section \<open>Disclosures\<close>

record share_answer =
  sh_grant :: disclosure_grant
  sh_report :: "verification_report option"
  sh_shareUrl :: string
  sh_emailSent :: "bool option"
  sh_emailError :: "http_error option"

text \<open>\<open>POST /disclosures\<close>: the report is issued before the recipient is told, and a mail that cannot be
  sent is reported in the answer.\<close>

definition disclosures_create ::
  "disclosure_world \<Rightarrow> string \<Rightarrow> (string \<Rightarrow> grant_input \<Rightarrow> string \<Rightarrow> http_error + unit) \<Rightarrow> id \<Rightarrow> (grant_input \<times> bool) option \<Rightarrow> db \<Rightarrow>
   (share_answer, db) outcome" where
  "disclosures_create w origin mail u body d = guarded (parseBody body) (\<lambda>(inp, autoIssue) d.
     case createGrant w u inp d of
       (Inl e, d1) \<Rightarrow> (Inl e, d1)
     | (Inr (grant, rawToken), d1) \<Rightarrow>
         let shareUrl = origin @ ''/verify/'' @ rawToken;
             (report, d2) = (if autoIssue \<or> truthy (gi_recipientEmail inp)
               then (case issueReport w u (dg_id grant) shareUrl d1 of (Inl e, d2) \<Rightarrow> (Inl e, d2) | (Inr (r, _), d2) \<Rightarrow> (Inr (Some r), d2))
               else (Inr None, d1));
             sent = (if truthy (gi_recipientEmail inp) then Some (mail (the (gi_recipientEmail inp)) inp shareUrl) else None)
         in (case report of
               Inl e \<Rightarrow> (Inl e, d2)
             | Inr r \<Rightarrow> (Inr \<lparr>sh_grant = grant, sh_report = r, sh_shareUrl = shareUrl, sh_emailSent = map_option is_ok sent,
                 sh_emailError = (case sent of Some (Inl e) \<Rightarrow> Some e | _ \<Rightarrow> None)\<rparr>, d2))) d"

definition disclosures_issueReport ::
  "disclosure_world \<Rightarrow> string \<Rightarrow> id \<Rightarrow> (id \<times> string option) option \<Rightarrow> db \<Rightarrow> (verification_report \<times> string, db) outcome" where
  "disclosures_issueReport w origin u body d =
     guarded (parseBody body) (\<lambda>(grantId, shareUrl). issueReport w u grantId (or_else shareUrl (origin @ ''/verify''))) d"

definition workers_addWallet :: "id \<Rightarrow> id \<Rightarrow> wallet_input option \<Rightarrow> db \<Rightarrow> (wallet, db) outcome" where
  "workers_addWallet new u body d = guarded (parseBody body) (\<lambda>i. addWallet new u i) d"

end
