(* ===== verification/Tenancy.thy ===== *)
theory Tenancy
  imports Controllers
begin

text \<open>
  What the guards of the controllers achieve.  \<open>staff_write\<close> is a request to a staff route that writes;
  \<open>may_write\<close> is the abstract right to make it: a role in the organisation that owns the venue of the entity
  the request is about.
\<close>

section \<open>Requests and rights\<close>

datatype staff_write =
    AddMember id "(string \<times> org_role) option"
  | CreateVenue id id instant "venue_input option"
  | PayrollExport treasury_world id "string option"
  | SetWallet id "string option"
  | Calculate calculation_world "calculate_input option"
  | Approve instant id
  | Reject id "string option"
  | AutoAssignRails id
  | SetPlannedRail id "payout_rail option"
  | CreatePayout world "id option"
  | BuildTransaction world id
  | SubmitTransaction world id "string option"
  | LegacyEvidence world "legacy_input option"
  | CreatePolicy id instant id "policy_request option"
  | NewPolicyVersion id instant id "policy_overrides option"
  | CreateMapping mapping_world "mapping_request option"
  | ImportCsv evidence_world "(id \<times> string) option"
  | CreateShift id id "shift_request option"
  | PublishShift instant id
  | CancelShift instant id "string option option"
  | InviteWorker id id "id option"
  | ApproveAssignment "instant \<Rightarrow> string \<Rightarrow> string" "id \<Rightarrow> id \<Rightarrow> instant \<Rightarrow> instant \<Rightarrow> string \<Rightarrow> string" id instant id
  | MarkNoShow instant id
  | RebuildIncome income_world id
  | CorrectIncome id instant id "correction_input option"
  | ImportPayroll income_world "string \<Rightarrow> instant" "nat \<Rightarrow> id" "(id \<times> string \<times> payroll_import list) option"
  | ConnectSquare providers_world "(id \<times> string option) option"

definition outcome_of :: "('a, db) outcome \<Rightarrow> bool \<times> db" where
  "outcome_of r = (is_ok (fst r), snd r)"

fun perform :: "id \<Rightarrow> staff_write \<Rightarrow> db \<Rightarrow> bool \<times> db" where
  "perform u (AddMember org body) d = outcome_of (organizations_addMember u org body d)"
| "perform u (CreateVenue nv np now body) d = outcome_of (organizations_createVenue nv np now u body d)"
| "perform u (PayrollExport t v q) d = outcome_of (organizations_payrollExport t u v q d)"
| "perform u (SetWallet v body) d = outcome_of (organizations_setWallet u v body d)"
| "perform u (Calculate w body) d = outcome_of (allocations_calculate w u body d)"
| "perform u (Approve now i) d = outcome_of (allocations_approve now u i d)"
| "perform u (Reject i body) d = outcome_of (allocations_reject u i body d)"
| "perform u (AutoAssignRails i) d = outcome_of (allocations_autoAssignRails u i d)"
| "perform u (SetPlannedRail i body) d = outcome_of (allocations_setPlannedRail u i body d)"
| "perform u (CreatePayout w body) d = outcome_of (payouts_create w u body d)"
| "perform u (BuildTransaction w i) d = outcome_of (payouts_buildTransaction w u i d)"
| "perform u (SubmitTransaction w i body) d = (case payouts_submit w u i body d of (r, d', _) \<Rightarrow> outcome_of (r, d'))"
| "perform u (LegacyEvidence w body) d = outcome_of (payouts_legacyEvidence w u body d)"
| "perform u (CreatePolicy new now v body) d = outcome_of (policies_create new now u v body d)"
| "perform u (NewPolicyVersion new now i body) d = outcome_of (policies_newVersion new now u i body d)"
| "perform u (CreateMapping w body) d = outcome_of (mappings_create w u body d)"
| "perform u (ImportCsv w body) d = outcome_of (evidence_importCsv w u body d)"
| "perform u (CreateShift new v body) d = outcome_of (staffing_createShift new u v body d)"
| "perform u (PublishShift now i) d = outcome_of (staffing_publish now u i d)"
| "perform u (CancelShift now i body) d = outcome_of (staffing_cancel now u i body d)"
| "perform u (InviteWorker new i body) d = outcome_of (staffing_invite new u i body d)"
| "perform u (ApproveAssignment bdate hash new now i) d = outcome_of (staffing_approve bdate hash new now u i d)"
| "perform u (MarkNoShow now i) d = outcome_of (staffing_noShow now u i d)"
| "perform u (RebuildIncome w v) d = outcome_of (income_rebuild w u v d)"
| "perform u (CorrectIncome new now i body) d = outcome_of (income_correct new now u i body d)"
| "perform u (ImportPayroll w date new body) d = outcome_of (payroll_importRecords w date new u body d)"
| "perform u (ConnectSquare w body) d = outcome_of (providers_connect w u body d)"

definition has_org_role :: "db \<Rightarrow> id \<Rightarrow> id \<Rightarrow> org_role list \<Rightarrow> bool" where
  "has_org_role d u org allowed \<longleftrightarrow> (\<exists>m. find_member d org u = Some m \<and> om_role m \<in> set allowed)"

definition managed_entity :: "db \<Rightarrow> id \<Rightarrow> id option \<Rightarrow> bool" where
  "managed_entity d u venueId = (case venueId of None \<Rightarrow> False | Some v \<Rightarrow> has_venue_role d u v VENUE_MANAGE_ROLES)"

definition allocation_venue :: "db \<Rightarrow> id \<Rightarrow> id option" where
  "allocation_venue d i = Option.bind (find_allocation d i) (\<lambda>a. map_option ab_venueId (find_batch d (wa_batchId a)))"

definition shift_venue :: "db \<Rightarrow> id \<Rightarrow> id option" where
  "shift_venue d i = map_option os_venueId (find_open_shift d i)"

definition assignment_venue :: "db \<Rightarrow> id \<Rightarrow> id option" where
  "assignment_venue d i = Option.bind (find_assignment d i) (\<lambda>a. shift_venue d (sa_openShiftId a))"

fun may_write :: "db \<Rightarrow> id \<Rightarrow> staff_write \<Rightarrow> bool" where
  "may_write d u (AddMember org _) = has_org_role d u org [OWNER]"
| "may_write d u (CreateVenue _ _ _ body) = (case body of None \<Rightarrow> False | Some i \<Rightarrow> has_org_role d u (vi_organizationId i) VENUE_MANAGE_ROLES)"
| "may_write d u (PayrollExport _ v _) = managed_entity d u (Some v)"
| "may_write d u (SetWallet v _) = managed_entity d u (Some v)"
| "may_write d u (Calculate _ body) = managed_entity d u (map_option ci_venueId body)"
| "may_write d u (Approve _ i) = managed_entity d u (map_option ab_venueId (find_batch d i))"
| "may_write d u (Reject i _) = managed_entity d u (map_option ab_venueId (find_batch d i))"
| "may_write d u (AutoAssignRails i) = managed_entity d u (map_option ab_venueId (find_batch d i))"
| "may_write d u (SetPlannedRail i _) = managed_entity d u (allocation_venue d i)"
| "may_write d u (CreatePayout _ body) = managed_entity d u (Option.bind body (allocation_venue d))"
| "may_write d u (BuildTransaction _ i) = managed_entity d u (map_option po_venueId (find_payout d i))"
| "may_write d u (SubmitTransaction _ i _) = managed_entity d u (map_option po_venueId (find_payout d i))"
| "may_write d u (LegacyEvidence _ body) = managed_entity d u (Option.bind body (\<lambda>x. allocation_venue d (li_allocationId x)))"
| "may_write d u (CreatePolicy _ _ v _) = managed_entity d u (Some v)"
| "may_write d u (NewPolicyVersion _ _ i _) = managed_entity d u (map_option pol_venueId (find_policy d i))"
| "may_write d u (CreateMapping _ body) = managed_entity d u (map_option mq_venueId body)"
| "may_write d u (ImportCsv _ body) = managed_entity d u (map_option fst body)"
| "may_write d u (CreateShift _ v _) = managed_entity d u (Some v)"
| "may_write d u (PublishShift _ i) = managed_entity d u (shift_venue d i)"
| "may_write d u (CancelShift _ i _) = managed_entity d u (shift_venue d i)"
| "may_write d u (InviteWorker _ i _) = managed_entity d u (shift_venue d i)"
| "may_write d u (ApproveAssignment _ _ _ _ i) = managed_entity d u (assignment_venue d i)"
| "may_write d u (MarkNoShow _ i) = managed_entity d u (assignment_venue d i)"
| "may_write d u (RebuildIncome _ v) = managed_entity d u (Some v)"
| "may_write d u (CorrectIncome _ _ i _) = managed_entity d u (map_option ie_venueId (find_entry d i))"
| "may_write d u (ImportPayroll _ _ _ body) = (case body of None \<Rightarrow> False | Some (v, _) \<Rightarrow> has_venue_role d u v PAYROLL_WRITE_ROLES)"
| "may_write d u (ConnectSquare _ body) = managed_entity d u (map_option fst body)"

section \<open>Denied requests\<close>

definition denied :: "('a, db) outcome \<Rightarrow> db \<Rightarrow> bool" where
  "denied r d \<longleftrightarrow> (\<exists>e. r = (Inl e, d))"

lemma denied_outcome: "denied r d \<Longrightarrow> outcome_of r = (False, d)"
  by (auto simp: denied_def outcome_of_def)

lemma deniedI: "(\<And>x. g = Inr x \<Longrightarrow> denied (f x d) d) \<Longrightarrow> denied (guarded g f d) d"
  by (cases g) (auto simp: guarded_def denied_def)

lemma denied_guarded [simp]: "denied (guarded g f d) d \<longleftrightarrow> (\<forall>x. g = Inr x \<longrightarrow> denied (f x d) d)"
  by (cases g) (auto simp: guarded_def denied_def)

lemma guard_simps [simp]:
  "parseBody body = Inr b \<longleftrightarrow> body = Some b" "checked g f = Inr y \<longleftrightarrow> (\<exists>z. g = Inr z \<and> f z = Inr y)"
  "manages u v d = Inr x \<longleftrightarrow> has_venue_role d u v VENUE_MANAGE_ROLES"
  "assertOrgRole u org rs d = Inr x \<longleftrightarrow> has_org_role d u org rs"
  by (auto simp: parseBody_def checked_def manages_def assertVenueRole_iff assertOrgRole_def has_org_role_def split: option.splits sum.splits)

lemma entity_guards [simp]:
  "batch_managed u i d = Inr x \<longleftrightarrow> managed_entity d u (map_option ab_venueId (find_batch d i))"
  "payout_managed u i d = Inr x \<longleftrightarrow> managed_entity d u (map_option po_venueId (find_payout d i))"
  "shift_managed u i d = Inr x \<longleftrightarrow> managed_entity d u (shift_venue d i)"
  "assignment_managed u i d = Inr x \<longleftrightarrow> managed_entity d u (assignment_venue d i)"
  by (auto simp: batch_managed_def payout_managed_def shift_managed_def assignment_managed_def managed_entity_def shift_venue_def
      assignment_venue_def getBatch_def getPayout_def getShift_def getAssignment_def split: option.splits)

lemma policy_guard [simp]: "getVenueIdOf i d = Inr v \<longleftrightarrow> map_option pol_venueId (find_policy d i) = Some v"
  by (auto simp: getVenueIdOf_def split: option.splits)

section \<open>Staff routes\<close>

lemma managed_if_known [simp]:
  "managed_if_known u v d = Inr x \<longleftrightarrow> \<not> truthy v \<or> managed_entity d u v"
  by (auto simp: managed_if_known_def managed_entity_def split: option.splits)

lemma allocation_venue_cases:
  "venueIdOfAllocation i d = Inr v \<Longrightarrow> v = allocation_venue d i"
  by (auto simp: venueIdOfAllocation_def allocation_venue_def split: option.splits)

lemma getAllocation_venue [simp]:
  "getAllocation i d = Inr (a, v) \<longleftrightarrow> find_allocation d i = Some a \<and> allocation_venue d i = Some v"
  by (auto simp: getAllocation_def allocation_venue_def split: option.splits)

lemma unknown_allocation:
  assumes "allocation_venue d i = None"
  shows "denied (createUsdcPayout w i s d) d" and "denied (registerLegacyEvidence w i r x s d) d"
  using assms by (auto simp: allocation_venue_def createUsdcPayout_def registerLegacyEvidence_def denied_def split: option.splits bind_splits)

lemma unknown_entry: "find_entry d i = None \<Longrightarrow> denied (correctEntry new now i u inp d) d"
  by (simp add: correctEntry_def denied_def)

lemma known_allocation:
  assumes "\<forall>b\<in>set (db_batches d). ab_venueId b \<noteq> []" and "allocation_venue d i = Some v"
  shows "v \<noteq> []"
  using assms by (auto simp: allocation_venue_def find_batch_def bind_eq_Some_conv dest: find_SomeD)

lemma allocation_guard:
  assumes uuids: "\<forall>b\<in>set (db_batches d). ab_venueId b \<noteq> []" and out: "\<not> managed_entity d u (allocation_venue d i)"
    and pass: "checked (venueIdOfAllocation i d) (\<lambda>v. managed_if_known u v d) = Inr x"
  shows "allocation_venue d i = None"
proof -
  obtain v where v: "venueIdOfAllocation i d = Inr v" and g: "\<not> truthy v \<or> managed_entity d u v"
    using pass by auto
  have "\<not> truthy (allocation_venue d i)" using allocation_venue_cases [OF v] g out by simp
  then show ?thesis using known_allocation [OF uuids] by (cases "allocation_venue d i") auto
qed

lemmas handler_defs =
  organizations_addMember_def organizations_createVenue_def organizations_payrollExport_def organizations_setWallet_def
  allocations_calculate_def allocations_approve_def allocations_reject_def allocations_autoAssignRails_def
  allocations_setPlannedRail_def payouts_create_def payouts_buildTransaction_def payouts_legacyEvidence_def
  policies_create_def policies_newVersion_def mappings_create_def evidence_importCsv_def staffing_createShift_def
  staffing_publish_def staffing_cancel_def staffing_invite_def staffing_approve_def staffing_noShow_def
  income_rebuild_def payroll_importRecords_def providers_connect_def

lemma denied_submit:
  assumes "\<not> managed_entity d u (map_option po_venueId (find_payout d i))"
  shows "\<exists>e. payouts_submit w u i body d = (Inl e, d, [])"
proof -
  have "checked (parseBody body) (\<lambda>signed. checked (payout_managed u i d) (\<lambda>_. Inr signed)) \<noteq> Inr y" for y :: string
    using assms by simp
  then show ?thesis by (auto simp: payouts_submit_def split: sum.splits)
qed

lemma denied_correct:
  assumes "\<not> managed_entity d u (map_option ie_venueId (find_entry d i))"
  shows "denied (income_correct new now u i body d) d"
  using assms unknown_entry [of d i] by (cases "find_entry d i") (auto simp: income_correct_def managed_entity_def)

lemma denied_allocation:
  assumes "\<forall>b\<in>set (db_batches d). ab_venueId b \<noteq> []" and "\<not> managed_entity d u (allocation_venue d i)"
    and "allocation_venue d i = None \<Longrightarrow> denied (f d) d"
  shows "denied (guarded (checked (venueIdOfAllocation i d) (\<lambda>v. managed_if_known u v d)) (\<lambda>_. f) d) d"
  by (rule deniedI) (rule assms(3), rule allocation_guard [OF assms(1,2)])

lemma denied_payout:
  assumes "\<forall>b\<in>set (db_batches d). ab_venueId b \<noteq> []" and "\<not> managed_entity d u (Option.bind body (allocation_venue d))"
  shows "denied (payouts_create w u body d) d"
  unfolding payouts_create_def
  by (rule deniedI, rule denied_allocation [OF assms(1)]) (use assms(2) in \<open>auto intro: unknown_allocation(1)\<close>)

lemma denied_legacy:
  assumes "\<forall>b\<in>set (db_batches d). ab_venueId b \<noteq> []"
    and "\<not> managed_entity d u (Option.bind body (\<lambda>x. allocation_venue d (li_allocationId x)))"
  shows "denied (payouts_legacyEvidence w u body d) d"
  unfolding payouts_legacyEvidence_def
  by (rule deniedI, rule denied_allocation [OF assms(1)]) (use assms(2) in \<open>auto intro: unknown_allocation(2)\<close>)



section \<open>Payroll status\<close>

lemma payroll_allowed_iff:
  "payroll_allowed u w d = Inr x \<longleftrightarrow> map_option wk_userId (find_worker d w) = Some u \<or>
     (\<exists>e. find (\<lambda>e. ie_workerId e = w) (db_incomes d) = Some e \<and> has_venue_role d u (ie_venueId e) VENUE_READ_ROLES)
       \<and> map_option wk_userId (find_worker d w) \<noteq> Some u"
  by (auto simp: payroll_allowed_def reads_def assertVenueRole_iff split: option.splits)

lemma status_rows:
  assumes "statusForWorker w d = Inr rows"
  shows "fst ` set rows = {p \<in> set (db_payrolls d). pr_workerId p = w}"
  using assms by (auto simp: statusForWorker_def Let_def image_image split: if_splits)


definition two_tenants :: db where
  "two_tenants = empty_db\<lparr>
     db_members := [\<lparr>om_organizationId = ''o1'', om_userId = ''u2'', om_role = PAYROLL_ADMIN\<rparr>],
     db_venues := map (\<lambda>(v, org). \<lparr>ven_id = v, ven_organizationId = org, ven_name = ''Bar'', ven_timezone = ''UTC'',
        ven_payoutSignerWallet = None, ven_vaultTokenAccount = None, ven_externalIds = []\<rparr>) [(''v1'', ''o1''), (''v2'', ''o2'')],
     db_workers := [\<lparr>wk_id = ''w1'', wk_userId = ''u1'', wk_defaultWalletId = None\<rparr>],
     db_incomes := [demo_entry],
     db_payrolls := [\<lparr>pr_id = ''r2'', pr_workerId = ''w1'', pr_venueId = ''v2'', pr_periodStart = 0, pr_periodEnd = 9,
        pr_reportedTipUsdCents = 700, pr_federalWithholdingUsdCents = Some 90, pr_stateWithholdingUsdCents = None,
        pr_socialSecurityUsdCents = None, pr_medicareUsdCents = None, pr_status = PayrollPENDING, pr_providerReference = None\<rparr>]\<rparr>"


end
