(* ===== verification/Books.thy ===== *)
theory Books
  imports Tenancy Settlement_Safety Queue_Runner Auth
begin

text \<open>
  The books of the whole system.  Batches, allocations, payouts and tip amounts are written by the
  allocation, mapping, evidence and payout services, by the settlement worker and by the provider sync;
  \<open>books_inv\<close> is what they all rely on, and \<open>books_step\<close> any request of the API or run of a job.
\<close>

section \<open>The shape of a settlement write\<close>

definition settles_row :: "(worker_allocation \<Rightarrow> worker_allocation) \<Rightarrow> bool" where
  "settles_row g \<longleftrightarrow> (\<forall>a. wa_id (g a) = wa_id a \<and> wa_batchId (g a) = wa_batchId a \<and> wa_workerId (g a) = wa_workerId a
     \<and> wa_netAllocatedUsdCents (g a) = wa_netAllocatedUsdCents a)"

text \<open>The contract of a relation that all writes of the settlement stay in: payouts keep their keys,
  allocations their batch, worker and amount, batches move among the stages of payment.\<close>

locale payment_moves =
  fixes R :: "db \<Rightarrow> db \<Rightarrow> bool"
  assumes refl: "R d d"
    and trans: "R d1 d2 \<Longrightarrow> R d2 d3 \<Longrightarrow> R d1 d3"
    and payouts: "keeps_keys f \<Longrightarrow> R d (update_payouts P f d)"
    and allocation: "settles_row g \<Longrightarrow> R d (update_allocation i g d)"
    and refresh: "R d (refreshBatchPaymentStatus i d)"
    and rebuild: "R d (rebuildIncomeProjection w v a d)"
begin

lemma payout: "keeps_keys f \<Longrightarrow> R d (update_payout i f d)"
  by (simp add: update_payout_def payouts)

lemma refresh_of: "R d (refreshBatchOfAllocation i d)"
  by (simp add: refreshBatchOfAllocation_def refl refresh split: option.split)

lemma set_status: "R d (set_status i s d)"
  unfolding set_status_def by (rule payout) (simp add: keeps_keys_def)

lemma markFailed: "R d (markFailed i a reason d)"
  unfolding markFailed_def
  by (rule trans [OF payout allocation]) (simp_all add: keeps_keys_def settles_row_def)

lemma settle_row: "R d (refreshBatchOfAllocation a (update_allocation a (\<lambda>a. a\<lparr>wa_payoutStatus := s\<rparr>) (update_payout i (finalized w r t) d)))"
  by (rule trans [OF trans [OF payout allocation] refresh_of]) (simp_all add: settles_row_def)

lemma finalize: "R d (snd (finalizeFromChain w i a slot d))"
  unfolding finalizeFromChain_def Let_def
  by (auto simp: refl rebuild split: option.split intro: trans [OF settle_row rebuild])

lemma after_fork:
  assumes "R d (snd r)" "\<And>d'. R d' (fst (snd (k d')))"
  shows "R d (fst (snd (after_fork r k)))"
  using assms by (cases r) (auto simp: after_fork_def split: sum.splits intro: trans)

lemma fork: "R d (snd (failIfObservedForkWasDropped w p sig slot e d))"
  using finalize [of d w "po_id p" "po_allocationId p" None]
  by (auto simp: failIfObservedForkWasDropped_def refl markFailed split: prod.splits sum.splits)

lemma fork_check: "R d (snd (fork_check w p st e d))"
  by (simp add: fork_check_def fork refl)

lemma finalize_or_fail: "R d (snd (finalize_or_fail w p reason d))"
  by (simp add: finalize_or_fail_def finalize markFailed)

lemma rebroadcast: "R d (fst (rebroadcastSameTransaction w p d))"
  by (auto simp: rebroadcastSameTransaction_def refl keeps_keys_def intro: payouts)

lemma await: "R d (fst (snd (await_unless_dropped w p sig slot e msg d)))"
  unfolding await_unless_dropped_def by (rule after_fork [OF fork]) (simp add: awaiting_def refl)

lemma confirmation: "R d (fst (snd (processConfirmation w i sig d)))"
proof -
  have confirmed: "R d (fst (snd (await_unless_dropped w p sg sl e msg (set_status j s d))))" for p sg sl e msg j s
    by (rule trans [OF set_status await])
  have again: "R d (set_status j s (fst (rebroadcastSameTransaction w p d)))" for j s p
    by (rule trans [OF rebroadcast set_status])
  show ?thesis
    by (simp add: processConfirmation_def Let_def done_job_def awaiting_def case_prod_unfold finalize finalize_or_fail await
        confirmed again rebroadcast set_status rebuild refl split: option.splits)
qed

lemma reconcile_step: "R d (fst (snd (reconcile_step w p d)))"
proof -
  have checked: "R d (snd (fork_check w p st e (if b then set_status j s d else d)))" for st e b j s
    by (cases b) (simp_all add: fork_check trans [OF set_status fork_check])
  have again: "R d (fst (snd (rebroadcast_job w p d)))" for d by (simp add: rebroadcast_job_def rebroadcast)
  show ?thesis
    unfolding reconcile_step_def Let_def done_job_def
    by (simp add: finalize markFailed again refl after_fork checked fork_check split: if_split)
qed

lemma reconcile_loop: "R d (fst (snd (reconcile_loop w ps d es)))"
proof (induction ps arbitrary: d es)
  case (Cons p ps)
  obtain r d' es' where step: "reconcile_step w p d = (r, d', es')" by (metis prod.exhaust)
  have "R d d'" using reconcile_step [of d w p] step by simp
  then show ?case using Cons.IH trans step by (cases r) auto
qed (simp add: refl)

lemma reconcile: "R d (fst (snd (reconcileStalePayouts w d)))"
  unfolding reconcileStalePayouts_def by (rule reconcile_loop)

lemma event: "R d (onPayoutSettled h d)"
  by (simp add: onPayoutSettled_def set_status refl split: option.split)

lemma build: "R d (snd (buildTransaction w i u d))"
  by (auto simp: buildTransaction_def build_claim_rows_def Let_def initiated_def keeps_keys_def refl split: sum.split intro: payouts)

lemma submit: "R d (fst (snd (submitSigned w i tx u d)))"
proof -
  have failed: "R d (update_allocation a (\<lambda>a. a\<lparr>wa_payoutStatus := s\<rparr>) (update_payouts P f d))" if "keeps_keys f" for a s P f
    by (rule trans [OF payouts [OF that] allocation]) (simp add: settles_row_def)
  have noted: "R d (update_payouts Q g (update_payouts P f d))" if "keeps_keys f" "keeps_keys g" for P Q f g
    by (rule trans [OF payouts [OF that(1)] payouts [OF that(2)]])
  have rows: "keeps_keys (submitted w u c)" "keeps_keys (\<lambda>p. p\<lparr>po_failedReason := r\<rparr>)"
    "keeps_keys (\<lambda>p. p\<lparr>po_status := PayoutFAILED, po_failedReason := r\<rparr>)" for c r
    by (simp_all add: keeps_keys_def submitted_def)
  show ?thesis
    by (simp add: submitSigned_def submit_claim_rows_def Let_def refl failed noted payouts rows split: sum.split option.split)
qed

end

section \<open>Settlement keeps the rows of the ledger\<close>

definition pay_stage :: "batch_status \<Rightarrow> bool" where
  "pay_stage s \<longleftrightarrow> s \<in> {PAYABLE, PARTIALLY_PAID, BatchPAID}"

definition batch_rel :: "allocation_batch \<Rightarrow> allocation_batch \<Rightarrow> bool" where
  "batch_rel b b' \<longleftrightarrow> ab_id b' = ab_id b \<and> ab_tipPoolAmountUsdCents b' = ab_tipPoolAmountUsdCents b
     \<and> (ab_status b' = ab_status b \<or> pay_stage (ab_status b) \<and> pay_stage (ab_status b'))"

definition row_rel :: "worker_allocation \<Rightarrow> worker_allocation \<Rightarrow> bool" where
  "row_rel a a' \<longleftrightarrow> wa_id a' = wa_id a \<and> wa_batchId a' = wa_batchId a \<and> wa_workerId a' = wa_workerId a
     \<and> wa_netAllocatedUsdCents a' = wa_netAllocatedUsdCents a"

text \<open>An allocation that may be paid: assigned to a worker, in a batch that has been approved.\<close>

definition payable_row :: "db \<Rightarrow> id \<Rightarrow> bool" where
  "payable_row d i \<longleftrightarrow> (\<exists>a \<in> set (db_allocations d). wa_id a = i \<and> wa_workerId a \<noteq> None
     \<and> (\<exists>b \<in> set (db_batches d). ab_id b = wa_batchId a \<and> pay_stage (ab_status b)))"

definition moves :: "db \<Rightarrow> db \<Rightarrow> bool" where
  "moves d d' \<longleftrightarrow> list_all2 batch_rel (db_batches d) (db_batches d') \<and> list_all2 row_rel (db_allocations d) (db_allocations d')
     \<and> db_tips d' = db_tips d \<and> po_id ` set (db_payouts d) \<subseteq> po_id ` set (db_payouts d')
     \<and> (\<forall>p \<in> set (db_payouts d'). po_allocationId p \<in> po_allocationId ` set (db_payouts d) \<or> payable_row d (po_allocationId p))"

lemma list_all2_forth: "list_all2 R xs ys \<Longrightarrow> x \<in> set xs \<Longrightarrow> \<exists>y \<in> set ys. R x y"
  by (metis in_set_conv_nth list_all2_lengthD list_all2_nthD)

lemma list_all2_back: "list_all2 R xs ys \<Longrightarrow> y \<in> set ys \<Longrightarrow> \<exists>x \<in> set xs. R x y"
  by (metis in_set_conv_nth list_all2_lengthD list_all2_nthD2)

lemma list_all2_map_eq: "list_all2 R xs ys \<Longrightarrow> (\<And>x y. R x y \<Longrightarrow> f y = f x) \<Longrightarrow> map f ys = map f xs"
  by (induction rule: list_all2_induct) auto

lemma list_all2_update: "(\<And>x. R x x) \<Longrightarrow> (\<And>x. x \<in> set xs \<Longrightarrow> P x \<Longrightarrow> R x (f x)) \<Longrightarrow> list_all2 R xs (update_where P f xs)"
  by (induction xs) auto

lemma rels_refl [simp]: "batch_rel b b" "row_rel a a"
  by (simp_all add: batch_rel_def row_rel_def)

lemma payable_rowI:
  "a \<in> set (db_allocations d) \<Longrightarrow> wa_id a = i \<Longrightarrow> wa_workerId a \<noteq> None \<Longrightarrow> b \<in> set (db_batches d) \<Longrightarrow> ab_id b = wa_batchId a
     \<Longrightarrow> pay_stage (ab_status b) \<Longrightarrow> payable_row d i"
  unfolding payable_row_def by blast

lemma payable_rowE:
  assumes "payable_row d i"
  obtains a b where "a \<in> set (db_allocations d)" "wa_id a = i" "wa_workerId a \<noteq> None" "b \<in> set (db_batches d)"
    "ab_id b = wa_batchId a" "pay_stage (ab_status b)"
  using assms unfolding payable_row_def by blast

lemma payable_id: "payable_row d i \<Longrightarrow> i \<in> wa_id ` set (db_allocations d)"
  unfolding payable_row_def by blast

lemma batch_rel_stage: "batch_rel b b' \<Longrightarrow> pay_stage (ab_status b') = pay_stage (ab_status b)"
  by (auto simp: batch_rel_def)

lemma moves_payable:
  assumes "moves d d'"
  shows "payable_row d' i \<longleftrightarrow> payable_row d i"
proof
  have rel: "list_all2 batch_rel (db_batches d) (db_batches d')" "list_all2 row_rel (db_allocations d) (db_allocations d')"
    using assms by (simp_all add: moves_def)
  show "payable_row d i" if "payable_row d' i"
    using that
  proof (rule payable_rowE)
    fix a b
    assume ab: "a \<in> set (db_allocations d')" "wa_id a = i" "wa_workerId a \<noteq> None" "b \<in> set (db_batches d')" "ab_id b = wa_batchId a"
      "pay_stage (ab_status b)"
    obtain a0 where a0: "a0 \<in> set (db_allocations d)" "row_rel a0 a" using list_all2_back [OF rel(2) ab(1)] by blast
    obtain b0 where b0: "b0 \<in> set (db_batches d)" "batch_rel b0 b" using list_all2_back [OF rel(1) ab(4)] by blast
    show ?thesis
      by (rule payable_rowI [OF a0(1) _ _ b0(1)])
        (use ab a0(2) b0(2) batch_rel_stage [OF b0(2)] in \<open>simp_all add: row_rel_def batch_rel_def\<close>)
  qed
  show "payable_row d' i" if "payable_row d i"
    using that
  proof (rule payable_rowE)
    fix a b
    assume ab: "a \<in> set (db_allocations d)" "wa_id a = i" "wa_workerId a \<noteq> None" "b \<in> set (db_batches d)" "ab_id b = wa_batchId a"
      "pay_stage (ab_status b)"
    obtain a1 where a1: "a1 \<in> set (db_allocations d')" "row_rel a a1" using list_all2_forth [OF rel(2) ab(1)] by blast
    obtain b1 where b1: "b1 \<in> set (db_batches d')" "batch_rel b b1" using list_all2_forth [OF rel(1) ab(4)] by blast
    show ?thesis
      by (rule payable_rowI [OF a1(1) _ _ b1(1)])
        (use ab a1(2) b1(2) batch_rel_stage [OF b1(2)] in \<open>simp_all add: row_rel_def batch_rel_def\<close>)
  qed
qed

lemma moves_refl: "moves d d"
  by (simp add: moves_def list.rel_refl)

lemma moves_trans:
  assumes "moves d1 d2" "moves d2 d3"
  shows "moves d1 d3"
proof -
  have "list_all2 batch_rel (db_batches d1) (db_batches d3)"
    by (rule list_all2_trans [of batch_rel batch_rel batch_rel]) (use assms in \<open>auto simp: moves_def batch_rel_def\<close>)
  moreover have "list_all2 row_rel (db_allocations d1) (db_allocations d3)"
    by (rule list_all2_trans [of row_rel row_rel row_rel]) (use assms in \<open>auto simp: moves_def row_rel_def\<close>)
  moreover have "po_allocationId p \<in> po_allocationId ` set (db_payouts d1) \<or> payable_row d1 (po_allocationId p)"
    if "p \<in> set (db_payouts d3)" for p
  proof -
    have "po_allocationId p \<in> po_allocationId ` set (db_payouts d2) \<or> payable_row d1 (po_allocationId p)"
      using assms(2) that moves_payable [OF assms(1)] by (simp add: moves_def)
    then show ?thesis using assms(1) by (auto simp: moves_def)
  qed
  moreover have "db_tips d3 = db_tips d1" using assms by (simp add: moves_def)
  moreover have "po_id ` set (db_payouts d1) \<subseteq> po_id ` set (db_payouts d3)"
    by (rule subset_trans [of _ "po_id ` set (db_payouts d2)"]) (use assms in \<open>simp_all add: moves_def\<close>)
  ultimately show ?thesis unfolding moves_def by blast
qed

lemma moves_payouts:
  assumes "keeps_keys f"
  shows "moves d (update_payouts P f d)"
proof -
  have "po_id ` set (update_where P f (db_payouts d)) = po_id ` set (db_payouts d)"
    "po_allocationId ` set (update_where P f (db_payouts d)) = po_allocationId ` set (db_payouts d)"
    using map_keys [OF assms, of P "db_payouts d"] by (metis list.set_map)+
  then show ?thesis by (auto simp: moves_def list.rel_refl)
qed

lemma moves_allocation: "settles_row g \<Longrightarrow> moves d (update_allocation i g d)"
  by (auto simp: moves_def list.rel_refl settles_row_def row_rel_def intro!: list_all2_update)

lemma moves_refresh: "moves d (refreshBatchPaymentStatus i d)"
proof -
  have "list_all2 batch_rel (db_batches d) (db_batches (refreshBatchPaymentStatus i d))"
    unfolding refreshBatchPaymentStatus_def Let_def
    by (auto simp: batch_rel_def pay_stage_def paid_status_def intro!: list_all2_update)
  then show ?thesis by (simp add: moves_def list.rel_refl)
qed

lemma moves_rebuild: "moves d (rebuildIncomeProjection w v a d)"
  by (simp add: moves_def list.rel_refl)

interpretation settlement: payment_moves moves
  by (rule payment_moves.intro)
    (fact moves_refl, fact moves_trans, fact moves_payouts, fact moves_allocation, fact moves_refresh, fact moves_rebuild)

lemma moves_insert:
  assumes "payable_row d (po_allocationId q)"
  shows "moves d (d\<lparr>db_payouts := db_payouts d @ [q]\<rparr>)"
  using assms by (auto simp: moves_def list.rel_refl)

lemma moves_overwrite:
  assumes "payable_row d i" "\<And>p. po_id (f p) = po_id p \<and> po_allocationId (f p) = i"
  shows "moves d (update_payout j f d)"
proof -
  have "map po_id (update_where (\<lambda>p. po_id p = j) f (db_payouts d)) = map po_id (db_payouts d)"
    using assms(2) by (intro map_update_where) simp
  then have "po_id ` set (update_where (\<lambda>p. po_id p = j) f (db_payouts d)) = po_id ` set (db_payouts d)" by (metis list.set_map)
  then show ?thesis using assms by (auto simp: moves_def list.rel_refl in_update_where)
qed

lemma found_payable:
  assumes "find_allocation d i = Some a" "find_batch d (wa_batchId a) = Some b" "truthy (wa_workerId a)" "pay_stage (ab_status b)"
  shows "payable_row d (wa_id a)"
  using assms(3,4) find_allocationD [OF assms(1)] find_batchD [OF assms(2)]
  by (cases "wa_workerId a") (auto intro: payable_rowI [of a d "wa_id a" b])

lemma moves_create: "moves d (snd (createUsdcPayout w i u d))"
proof -
  have data: "po_id (payout_attempt w a b wid wal u n p) = po_id p \<and> po_allocationId (payout_attempt w a b wid wal u n p) = wa_id a"
    for a b wid wal n p by (simp add: payout_attempt_def)
  have row: "settles_row (\<lambda>x. x\<lparr>wa_payoutRail := r, wa_payoutStatus := s\<rparr>)" for r s by (simp add: settles_row_def)
  have heal: "moves d (heal_allocation w u a b e d)" for a b e
    unfolding heal_allocation_def Let_def
    by (auto simp: moves_refl split: option.split intro: moves_allocation [OF row] moves_trans [OF moves_trans [OF moves_allocation [OF row] moves_refresh] moves_rebuild])
  have "moves d (snd (create_or_retry w u a b wid wal d))" if "payable_row d (wa_id a)" for a b wid wal
    using that
    by (auto simp: create_or_retry_def Let_def moves_refl heal data split: option.split sum.split
        intro!: moves_trans [OF moves_insert moves_allocation [OF row]] moves_trans [OF moves_overwrite [OF that data] moves_allocation [OF row]])
  note step = this
  show ?thesis
    by (auto simp: createUsdcPayout_def moves_refl pay_stage_def split: option.split sum.split intro!: step found_payable)
qed

lemma moves_legacy: "moves d (snd (registerLegacyEvidence w i rail ref u d))"
proof -
  have row: "settles_row (\<lambda>x. x\<lparr>wa_payoutRail := r, wa_payoutStatus := s\<rparr>)" for r s by (simp add: settles_row_def)
  have rest: "moves d (rebuildIncomeProjection w v u (refreshBatchPaymentStatus j (update_allocation k (\<lambda>x. x\<lparr>wa_payoutRail := r, wa_payoutStatus := s\<rparr>) d1)))"
    if "moves d d1" for v j k r s d1
    by (rule moves_trans [OF moves_trans [OF moves_trans [OF that moves_allocation [OF row]] moves_refresh] moves_rebuild])
  have new: "moves d (d\<lparr>db_payouts := db_payouts d @ [legacy_create w a b rail ref u]\<rparr>)" if "payable_row d (wa_id a)" for a b
    by (rule moves_insert) (use that in \<open>simp add: legacy_create_def\<close>)
  have old: "moves d (update_payout j (legacy_update w rail ref u) d)" for j
    by (rule settlement.payout) (simp add: keeps_keys_def legacy_update_def)
  show ?thesis
    by (auto simp: registerLegacyEvidence_def Let_def moves_refl moves_rebuild pay_stage_def old split: option.split
        intro!: rest new intro: found_payable)
qed

section \<open>The invariant\<close>

definition books_inv :: "db \<Rightarrow> bool" where
  "books_inv d \<longleftrightarrow> ledger_inv d \<and> settle_inv d \<and> (\<forall>p \<in> set (db_payouts d). payable_row d (po_allocationId p))"

lemma books_parts: "books_inv d \<Longrightarrow> ledger_inv d" "books_inv d \<Longrightarrow> settle_inv d"
  by (simp_all add: books_inv_def)

lemma moves_ledger:
  assumes "moves d d'" "ledger_inv d"
  shows "ledger_inv d'"
proof (rule ledger_inv_view [OF assms(2)])
  have rel: "list_all2 batch_rel (db_batches d) (db_batches d')" "list_all2 row_rel (db_allocations d) (db_allocations d')"
    using assms(1) by (simp_all add: moves_def)
  have "map (\<lambda>b. (ab_id b, ab_tipPoolAmountUsdCents b)) (db_batches d') = map (\<lambda>b. (ab_id b, ab_tipPoolAmountUsdCents b)) (db_batches d)"
    by (rule list_all2_map_eq [OF rel(1)]) (simp add: batch_rel_def)
  moreover have "map (\<lambda>a. (wa_batchId a, wa_netAllocatedUsdCents a)) (db_allocations d') = map (\<lambda>a. (wa_batchId a, wa_netAllocatedUsdCents a)) (db_allocations d)"
    by (rule list_all2_map_eq [OF rel(2)]) (simp add: row_rel_def)
  ultimately show "ledger_view d' = ledger_view d" using assms(1) by (simp add: ledger_view_def moves_def)
  show "\<exists>b \<in> set (db_batches d). ab_id b = ab_id b' \<and> balanced_status (ab_status b)"
    if b': "b' \<in> set (db_batches d')" "balanced_status (ab_status b')" for b'
  proof -
    obtain b where "b \<in> set (db_batches d)" "batch_rel b b'" using list_all2_back [OF rel(1) b'(1)] by blast
    then show ?thesis using b'(2) by (intro bexI [of _ b]) (auto simp: batch_rel_def pay_stage_def balanced_status_def)
  qed
qed

lemma books_moves:
  assumes "books_inv d" "moves d d'" "settle_inv d'"
  shows "books_inv d'"
proof -
  have "payable_row d (po_allocationId p)" if "p \<in> set (db_payouts d')" for p
    using assms(1,2) that by (auto simp: moves_def books_inv_def)
  then show ?thesis using assms moves_ledger [OF assms(2)] moves_payable [OF assms(2)] by (simp add: books_inv_def)
qed

text \<open>The part of the state the invariant reads.\<close>

definition books :: "db \<Rightarrow> allocation_batch list \<times> worker_allocation list \<times> payout list \<times> tip_evidence list" where
  "books d = (db_batches d, db_allocations d, db_payouts d, db_tips d)"

lemma books_cong:
  assumes "books d' = books d"
  shows "books_inv d' = books_inv d"
proof -
  have same: "db_batches d' = db_batches d" "db_allocations d' = db_allocations d" "db_payouts d' = db_payouts d" "db_tips d' = db_tips d"
    using assms by (simp_all add: books_def)
  have "ledger_inv d' = ledger_inv d" "payable_row d' = payable_row d"
    by (simp_all add: fun_eq_iff ledger_inv_def batch_total_def payable_row_def same)
  then show ?thesis using settle_inv_cong [OF same(3,2)] by (simp add: books_inv_def same)
qed

section \<open>Calculations\<close>

text \<open>A payout's batch is past review, so the rows a calculation drops back no payout.\<close>

lemma payable_kept:
  assumes "books_inv d" "existing = Some e \<Longrightarrow> e \<in> set (db_batches d) \<and> recalculable (ab_status e)" "payable_row d i"
  obtains a b where "a \<in> set (db_allocations d)" "wa_id a = i" "wa_workerId a \<noteq> None" "b \<in> set (db_batches d)"
    "ab_id b = wa_batchId a" "pay_stage (ab_status b)" "existing = Some e \<Longrightarrow> wa_batchId a \<noteq> ab_id e"
  using assms(3)
proof (rule payable_rowE)
  fix a b
  assume ab: "a \<in> set (db_allocations d)" "wa_id a = i" "wa_workerId a \<noteq> None" "b \<in> set (db_batches d)" "ab_id b = wa_batchId a"
    "pay_stage (ab_status b)"
  have "wa_batchId a \<noteq> ab_id e" if "existing = Some e"
  proof
    assume "wa_batchId a = ab_id e"
    then have "b = e" using assms(1) assms(2) [OF that] ab(4,5) by (auto simp: books_inv_def ledger_inv_def distinct_map dest: inj_onD)
    then show False using assms(2) [OF that] ab(6) by (auto simp: recalculable_def pay_stage_def)
  qed
  then show thesis by (rule that [OF ab])
qed

definition fresh_rows :: "(nat \<Rightarrow> id) \<Rightarrow> db \<Rightarrow> bool" where
  "fresh_rows new d \<longleftrightarrow> inj new \<and> range new \<inter> wa_id ` set (db_allocations d) = {}"

lemma row_ids: "map wa_id (map (allocation_row new bid planned) (zip [0..<length results] results)) = map new [0..<length results]"
proof -
  have "map wa_id (map (allocation_row new bid planned) zs) = map new (map fst zs)" for zs
    by (simp add: allocation_row_def case_prod_unfold)
  then show ?thesis by (simp only: map_fst_zip length_upt diff_zero)
qed

lemma row_unpaid: "a \<in> set (map (allocation_row new bid planned) zs) \<Longrightarrow> wa_payoutStatus a = UNPAID"
  by (auto simp: allocation_row_def)

lemma books_save:
  assumes inv: "books_inv d" and fresh: "fresh_rows new d"
    and ex: "\<And>e. existing = Some e \<Longrightarrow> e \<in> set (db_batches d) \<and> ab_id saved = ab_id e \<and> recalculable (ab_status e)"
    and bid: "existing = None \<Longrightarrow> ab_id saved \<notin> ab_id ` set (db_batches d)"
  shows "settle_inv (save_batch new saved results planned existing d)
    \<and> (\<forall>p \<in> set (db_payouts d). payable_row (save_batch new saved results planned existing d) (po_allocationId p))"
proof -
  let ?d = "save_batch new saved results planned existing d"
  let ?rows = "map (allocation_row new (ab_id saved) planned) (zip [0..<length results] results)"
  let ?kept = "filter (\<lambda>a. \<forall>e. existing = Some e \<longrightarrow> wa_batchId a \<noteq> ab_id e) (db_allocations d)"
  have st: "settle_inv d" using inv by (simp add: books_inv_def)
  have al: "db_allocations ?d = ?kept @ ?rows" by (simp add: save_batch_def delete_where_def split: option.split)
  have bs: "set (db_batches ?d) = insert saved {b \<in> set (db_batches d). existing = None \<or> ab_id b \<noteq> ab_id saved}"
    by (rule save_batch_batches) (use inv ex in \<open>auto simp: books_inv_def ledger_inv_def\<close>)
  have kept: "payable_row ?d (po_allocationId p) \<and> po_allocationId p \<in> wa_id ` set ?kept" if p: "p \<in> set (db_payouts d)" for p
  proof -
    have row: "payable_row d (po_allocationId p)" using inv p by (simp add: books_inv_def)
    obtain a b where ab: "a \<in> set (db_allocations d)" "wa_id a = po_allocationId p" "wa_workerId a \<noteq> None" "b \<in> set (db_batches d)"
      "ab_id b = wa_batchId a" "pay_stage (ab_status b)" "\<And>e. existing = Some e \<Longrightarrow> wa_batchId a \<noteq> ab_id e"
    proof (cases existing)
      case None
      with payable_kept [OF inv _ row, of None] show thesis using that by auto
    next
      case (Some e)
      then show thesis using payable_kept [OF inv _ row, of existing e] ex that by auto
    qed
    have "ab_id b \<noteq> ab_id saved" using ab(4,5,7) ex bid by (cases existing) (metis imageI, metis)
    then have "b \<in> set (db_batches ?d)" unfolding bs using ab(4) by simp
    moreover have ka: "a \<in> set ?kept" using ab(1,7) by simp
    moreover have "a \<in> set (db_allocations ?d)" unfolding al using ka by simp
    ultimately have "payable_row ?d (po_allocationId p)" using ab(2,3,5,6) by (intro payable_rowI [of a ?d _ b])
    moreover have "po_allocationId p \<in> wa_id ` set ?kept" using imageI [OF ka, of wa_id] ab(2) by simp
    ultimately show ?thesis ..
  qed
  have new: "new k \<notin> wa_id ` set (db_allocations d)" for k using fresh by (auto simp: fresh_rows_def)
  have ids: "map wa_id (db_allocations ?d) = map wa_id ?kept @ map new [0..<length results]" unfolding al map_append row_ids ..
  have "distinct (map wa_id ?kept)" using st by (simp add: settle_inv_def distinct_map_filter)
  moreover have "distinct (map new [0..<length results])"
    using fresh unfolding fresh_rows_def distinct_map by (blast intro: distinct_upt inj_on_subset)
  moreover have "set (map wa_id ?kept) \<inter> set (map new [0..<length results]) = {}"
  proof -
    have "set (map wa_id ?kept) \<subseteq> wa_id ` set (db_allocations d)" "set (map new [0..<length results]) \<subseteq> range new" by auto
    then show ?thesis using fresh unfolding fresh_rows_def by blast
  qed
  ultimately have dist: "distinct (map wa_id (db_allocations ?d))" unfolding ids distinct_append by blast
  have fin: "final_ids ?d = final_ids d" by (simp add: final_ids_def)
  have paid: "wa_payoutStatus a = AllocPAID \<longleftrightarrow> wa_id a \<in> final_ids ?d" if a: "a \<in> set (db_allocations ?d)" for a
  proof (cases "a \<in> set ?rows")
    case True
    have "wa_id a \<in> set (map wa_id ?rows)" using True unfolding set_map by (rule imageI)
    then obtain k where "wa_id a = new k" unfolding row_ids by auto
    then have "wa_id a \<notin> wa_id ` set (db_allocations d)" using new [of k] by simp
    moreover have "final_ids d \<subseteq> wa_id ` set (db_allocations d)" using st by (auto simp: final_ids_def settle_inv_def)
    ultimately show ?thesis using row_unpaid [OF True] unfolding fin by auto
  next
    case False
    then have "a \<in> set (db_allocations d)" using a unfolding al by auto
    then show ?thesis using st unfolding fin by (simp add: settle_inv_def)
  qed
  have "po_allocationId ` set (db_payouts d) \<subseteq> wa_id ` set (db_allocations ?d)"
    unfolding al set_append image_Un using kept by blast
  then have "settle_inv ?d" unfolding settle_inv_def using st dist paid by (auto simp: settle_inv_def)
  then show ?thesis using kept by blast
qed

lemma books_calculate:
  assumes "books_inv d" "new_batch \<notin> ab_id ` set (db_batches d)" "fresh_rows new d"
    and "calculate lc eh ah new_batch new now inp by d = (r, d')"
  shows "books_inv d'"
  using assms(4)
proof (cases rule: calculate_cases)
  case error
  then show ?thesis using assms(1) by simp
next
  case (saved policy result existing evh alh sv)
  have ex: "e \<in> set (db_batches d) \<and> ab_id sv = ab_id e \<and> recalculable (ab_status e)" if "existing = Some e" for e
    using that saved(2,3,5) by (auto simp: saved_batch_id dest: find_SomeD)
  have new: "ab_id sv \<notin> ab_id ` set (db_batches d)" if "existing = None" using that saved(5) assms(2) by (simp add: saved_batch_id)
  have "ledger_inv d'" by (rule calculate_ledger [OF books_parts(1) [OF assms(1)] assms(2,4)])
  then show ?thesis using books_save [OF assms(1,3) ex new] unfolding saved(6) by (simp add: books_inv_def)
qed

lemma calculate_row_ids:
  assumes "calculate lc eh ah new_batch new now inp by d = (r, d')"
  shows "wa_id ` set (db_allocations d') \<subseteq> wa_id ` set (db_allocations d) \<union> range new"
  using assms
proof (cases rule: calculate_cases)
  case (saved policy result existing evh alh sv)
  have "wa_id ` set (map (allocation_row new bid planned) (zip [0..<length results] results)) \<subseteq> range new" for bid planned results
    using arg_cong [OF row_ids [of new bid planned results], of set] by auto
  then show ?thesis unfolding saved(6) by (auto simp: save_batch_def delete_where_def split: option.splits) blast+
qed auto

text \<open>The ids an upload draws for the batches and rows of the calculations it triggers.\<close>

definition fresh_import :: "evidence_world \<Rightarrow> db \<Rightarrow> bool" where
  "fresh_import w d \<longleftrightarrow> inj (ew_batch_id w) \<and> range (ew_batch_id w) \<inter> ab_id ` set (db_batches d) = {}
     \<and> inj (\<lambda>(k, n). ew_alloc_id w k n) \<and> range (\<lambda>(k, n). ew_alloc_id w k n) \<inter> wa_id ` set (db_allocations d) = {}"

lemma books_autos:
  assumes "books_inv d" "inj (ew_batch_id w)" "inj (\<lambda>(k, n). ew_alloc_id w k n)"
    and "\<And>k. k0 \<le> k \<Longrightarrow> ew_batch_id w k \<notin> ab_id ` set (db_batches d)"
    and "\<And>k n. k0 \<le> k \<Longrightarrow> ew_alloc_id w k n \<notin> wa_id ` set (db_allocations d)"
  shows "books_inv (snd (fold (auto_step w v actor) (zip [k0..<k0 + length dates] dates) (l, d)))"
  using assms(1,4,5)
proof (induction dates arbitrary: k0 l d)
  case (Cons bd dates)
  let ?s = "auto_step w v actor (k0, bd) (l, d)"
  have row_eq: "ew_alloc_id w j m = ew_alloc_id w k n \<longleftrightarrow> j = k \<and> m = n" for j k m n
    using inj_eq [OF assms(3), of "(j, m)" "(k, n)"] by simp
  obtain r where r: "calculate (ew_lc w) (ew_evidence_hash w) (ew_allocation_hash w) (ew_batch_id w k0) (ew_alloc_id w k0) (ew_now w)
       \<lparr>ci_venueId = v, ci_businessDate = bd, ci_policyVersion = None\<rparr> actor d = (r, snd ?s)"
    by (rule auto_step_cases)
  have "fresh_rows (ew_alloc_id w k0) d"
    using Cons.prems(3) [of k0] by (auto simp: fresh_rows_def row_eq inj_def)
  then have inv: "books_inv (snd ?s)" using books_calculate [OF Cons.prems(1) _ _ r] Cons.prems(2) by simp
  have batches: "ew_batch_id w k \<notin> ab_id ` set (db_batches (snd ?s))" if "Suc k0 \<le> k" for k
    using that Cons.prems(2) [of k] calculate_batch_ids [OF books_parts(1) [OF Cons.prems(1)] r] inj_eq [OF assms(2), of k k0] by auto
  have rows: "ew_alloc_id w k n \<notin> wa_id ` set (db_allocations (snd ?s))" if "Suc k0 \<le> k" for k n
    using that Cons.prems(3) [of k n] calculate_row_ids [OF r] by (auto simp: row_eq)
  have zip: "zip [k0..<k0 + length (bd # dates)] (bd # dates) = (k0, bd) # zip [Suc k0..<Suc k0 + length dates] dates"
    using upt_conv_Cons [of k0 "k0 + Suc (length dates)"] by simp
  have "books_inv (snd (fold (auto_step w v actor) (zip [Suc k0..<Suc k0 + length dates] dates) (fst ?s, snd ?s)))"
    by (rule Cons.IH [OF inv batches rows])
  then show ?case unfolding zip fold_simps by (simp only: prod.collapse)
qed simp

lemma books_import:
  assumes "books_inv d" "fresh_import w d" "importCsv w v csv actor d = (r, d')"
  shows "books_inv d'"
  using assms(3)
proof (cases rule: importCsv_cases)
  case (stored venue n autos)
  let ?d = "store_evidence w v n d"
  have rows: "db_batches ?d = db_batches d" "db_allocations ?d = db_allocations d" "db_payouts ?d = db_payouts d"
    by (simp_all add: store_evidence_def Let_def)
  have "\<forall>t \<in> set (upsert_rows (tip_key v) tip_update (tip_create (ew_tip_id w) v) (cn_tips n) (db_tips d)). 0 \<le> te_grossAmountUsdCents t"
    by (rule upsert_rows_all)
      (use assms(1) parse_csv_amounts [OF stored(2)] in \<open>auto simp: tip_update_def tip_create_def books_inv_def ledger_inv_def\<close>)
  then have "\<forall>t \<in> set (db_tips ?d). 0 \<le> te_grossAmountUsdCents t" by (simp add: store_evidence_def Let_def)
  then have "books_inv ?d"
    using assms(1) rows settle_inv_cong [OF rows(3,2)]
    by (simp add: books_inv_def ledger_inv_def batch_total_def payable_row_def)
  moreover have "ew_batch_id w k \<notin> ab_id ` set (db_batches ?d)" for k
    using assms(2) unfolding rows fresh_import_def by blast
  moreover have "ew_alloc_id w k n \<notin> wa_id ` set (db_allocations ?d)" for k n
  proof -
    have "ew_alloc_id w k n \<in> range (\<lambda>(k, n). ew_alloc_id w k n)" by (rule range_eqI [of _ _ "(k, n)"]) simp
    then show ?thesis using assms(2) unfolding rows fresh_import_def by blast
  qed
  ultimately have "books_inv (snd (fold (auto_step w v actor) (zip [0..<0 + length (import_dates n)] (import_dates n)) ([], ?d)))"
    using assms(2) by (intro books_autos) (simp_all add: fresh_import_def)
  then show ?thesis using stored(3) by simp
qed (use assms(1) in simp)

section \<open>Connecting a worker\<close>

text \<open>A held share backs no payout: a payable row has a worker.\<close>

lemma update_where_mem: "r \<in> set t \<Longrightarrow> (if P r then f r else r) \<in> set (update_where P f t)"
  by (auto simp: update_where_def)

lemma books_attach:
  assumes "settle_inv d" "\<forall>p \<in> set (db_payouts d). payable_row d (po_allocationId p)"
    and "h \<in> set (db_allocations d)" "wa_workerId h = None"
  shows "settle_inv (attach_one k h d) \<and> (\<forall>p \<in> set (db_payouts d). payable_row (attach_one k h d) (po_allocationId p))"
proof -
  have dist: "distinct (map wa_id (db_allocations d))" using assms(1) by (simp add: settle_inv_def)
  have same: "x = y" if "x \<in> set (db_allocations d)" "y \<in> set (db_allocations d)" "wa_id x = wa_id y" for x y
    using dist that by (auto simp: distinct_map dest: inj_onD)
  have frame: "db_payouts (attach_one k h d) = db_payouts d" "db_batches (attach_one k h d) = db_batches d"
    by (simp_all add: attach_one_def update_allocation_def split: option.split)
  have origin: "\<exists>a \<in> set (db_allocations d). wa_id a' = wa_id a \<and> wa_payoutStatus a' = wa_payoutStatus a"
    if "a' \<in> set (db_allocations (attach_one k h d))" for a'
    using that by (auto simp: attach_one_def update_allocation_def delete_where_def in_update_where split: option.splits if_splits) metis+
  have forth: "\<exists>a' \<in> set (db_allocations (attach_one k h d)). wa_id a' = wa_id a \<and> wa_batchId a' = wa_batchId a \<and> wa_workerId a' = wa_workerId a"
    if a: "a \<in> set (db_allocations d)" "wa_workerId a \<noteq> None" for a
  proof -
    have ne: "wa_id a \<noteq> wa_id h" using same [OF a(1) assms(3)] a(2) assms(4) by auto
    have keep: "\<exists>a' \<in> set (update_where P f (db_allocations d)). wa_id a' = wa_id a \<and> wa_batchId a' = wa_batchId a \<and> wa_workerId a' = wa_workerId a"
      if "\<And>x. wa_id (f x) = wa_id x \<and> wa_batchId (f x) = wa_batchId x \<and> (P a \<longrightarrow> wa_workerId (f a) = wa_workerId a)" for P f
      by (rule bexI [OF _ update_where_mem [OF a(1)]]) (use that in auto)
    show ?thesis
    proof (cases "find (\<lambda>a. wa_batchId a = wa_batchId h \<and> wa_workerId a = Some k) (db_allocations d)")
      case None
      then show ?thesis using keep [of "\<lambda>a. a\<lparr>wa_workerId := Some k\<rparr>" "\<lambda>a. wa_id a = wa_id h"] ne
        by (simp add: attach_one_def update_allocation_def)
    next
      case (Some e)
      let ?f = "\<lambda>a. a\<lparr>wa_pooledTipUsdCents := wa_pooledTipUsdCents a + wa_pooledTipUsdCents h,
        wa_netAllocatedUsdCents := wa_netAllocatedUsdCents a + wa_netAllocatedUsdCents h\<rparr>"
      obtain a' where "a' \<in> set (update_where (\<lambda>a. wa_id a = wa_id e) ?f (db_allocations d))"
        and a': "wa_id a' = wa_id a" "wa_batchId a' = wa_batchId a" "wa_workerId a' = wa_workerId a"
        using keep [of ?f "\<lambda>a. wa_id a = wa_id e"] by auto
      then have "a' \<in> set (db_allocations (attach_one k h d))" using Some ne by (simp add: attach_one_def delete_where_def)
      then show ?thesis using a' by (intro bexI [of _ a']) simp_all
    qed
  qed
  have backed: "payable_row (attach_one k h d) i" if "payable_row d i" for i
    using that
  proof (rule payable_rowE)
    fix a b
    assume ab: "a \<in> set (db_allocations d)" "wa_id a = i" "wa_workerId a \<noteq> None" "b \<in> set (db_batches d)" "ab_id b = wa_batchId a"
      "pay_stage (ab_status b)"
    obtain a' where "a' \<in> set (db_allocations (attach_one k h d))" "wa_id a' = wa_id a" "wa_batchId a' = wa_batchId a" "wa_workerId a' = wa_workerId a"
      using forth [OF ab(1,3)] by blast
    then show ?thesis using ab frame(2) by (intro payable_rowI [of a' _ _ b]) simp_all
  qed
  have "distinct (map wa_id (db_allocations (attach_one k h d)))" by (rule attach_one_step(2) [OF dist assms(3,4)])
  moreover have "po_allocationId ` set (db_payouts d) \<subseteq> wa_id ` set (db_allocations (attach_one k h d))"
    using assms(2) backed payable_id by blast
  moreover have "wa_payoutStatus a = AllocPAID \<longleftrightarrow> wa_id a \<in> final_ids d" if "a \<in> set (db_allocations (attach_one k h d))" for a
    using origin [OF that] assms(1) by (auto simp: settle_inv_def)
  ultimately have "settle_inv (attach_one k h d)"
    using assms(1) unfolding settle_inv_def frame by (simp add: final_ids_def frame)
  then show ?thesis using assms(2) backed by blast
qed

lemma books_attach_fold:
  assumes "settle_inv d" "\<forall>p \<in> set (db_payouts d). payable_row d (po_allocationId p)"
    and "\<forall>h \<in> set hs. h \<in> set (db_allocations d) \<and> wa_workerId h = None" "distinct hs"
  shows "settle_inv (fold (attach_one k) hs d)
    \<and> (\<forall>p \<in> set (db_payouts (fold (attach_one k) hs d)). payable_row (fold (attach_one k) hs d) (po_allocationId p))"
  using assms
proof (induction hs arbitrary: d)
  case (Cons h hs)
  have h: "h \<in> set (db_allocations d)" "wa_workerId h = None" using Cons.prems(3) by auto
  note one = books_attach [OF Cons.prems(1,2) h, of k]
  have dist: "distinct (map wa_id (db_allocations d))" using Cons.prems(1) by (simp add: settle_inv_def)
  have frame: "db_payouts (attach_one k h d) = db_payouts d"
    by (simp add: attach_one_def update_allocation_def split: option.split)
  have "\<forall>g \<in> set hs. g \<in> set (db_allocations (attach_one k h d)) \<and> wa_workerId g = None"
  proof
    fix g
    assume g: "g \<in> set hs"
    then have "g \<noteq> h" "g \<in> set (db_allocations d)" "wa_workerId g = None" using Cons.prems(3,4) by auto
    then show "g \<in> set (db_allocations (attach_one k h d)) \<and> wa_workerId g = None" using attach_one_step(3) [OF dist h] by blast
  qed
  then show ?case unfolding fold_simps using one Cons.prems(4) by (intro Cons.IH) (simp_all add: frame)
qed simp

lemma books_held:
  assumes "books_inv d" "books d1 = books d"
  shows "books_inv (snd (attachHeldAllocations m d1))"
proof -
  let ?hs = "held_rows d1 (ext_venueId m) (ext_provider m) (ext_externalWorkerId m)"
  have inv: "books_inv d1" using books_cong [OF assms(2)] assms(1) by simp
  have dist: "distinct (map wa_id (db_allocations d1))" using inv by (simp add: books_inv_def settle_inv_def)
  have hs: "\<forall>h \<in> set ?hs. h \<in> set (db_allocations d1) \<and> wa_workerId h = None" "distinct ?hs"
    using dist by (auto simp: held_rows_def is_held_def distinct_map)
  let ?e = "fold (attach_one (ext_workerId m)) ?hs d1"
  note f = attach_fold [OF dist hs, of "ext_workerId m"]
  have led: "ledger_inv d1" using inv by (rule books_parts)
  have "wa_batchId ` set (db_allocations d1) \<subseteq> ab_id ` set (db_batches d1)" using led by (auto simp: ledger_inv_def)
  then have "wa_batchId ` set (db_allocations ?e) \<subseteq> ab_id ` set (db_batches d1)" using f by blast
  then have "ledger_inv ?e" using f led by (auto simp: ledger_inv_def)
  then have "books_inv ?e"
    using books_attach_fold [OF _ _ hs, of "ext_workerId m"] inv by (simp add: books_inv_def)
  then show ?thesis by (simp add: attachHeldAllocations_def Let_def)
qed

lemma books_rebuild [simp]: "books (snd (rebuildVenueIncome n e a t v x s d)) = books d"
  by (simp add: books_def rebuildVenueIncome_def rebuildVenueIncomeLocked_def Let_def split: option.split)

lemma books_verify:
  assumes "books_inv d"
  shows "books_inv (snd (verifyMapping w i u d))"
proof -
  have held: "books_inv (snd (attachHeldAllocations m ((update_mapping j f d)\<lparr>db_shifts := x\<rparr>)))" for m j f x
    by (rule books_held [OF assms]) (simp add: books_def update_mapping_def)
  have "books_inv (snd (rebuildVenueIncome n e a t v y s d2)) = books_inv d2" for n e a t v y s d2
    by (rule books_cong) simp
  then show ?thesis using assms held
    by (simp add: verifyMapping_def Let_def case_prod_unfold split: option.split)
qed

lemma books_answer:
  assumes "books_inv d"
  shows "books_inv (snd (respondToMapping w i u dec d))"
proof -
  have "books_inv (update_mapping i f d) = books_inv d" for f by (rule books_cong) (simp add: books_def update_mapping_def)
  then show ?thesis using assms books_verify [OF assms]
    by (simp add: respondToMapping_def Let_def split: option.split)
qed

section \<open>Requests that leave the books alone\<close>

lemma books_tables [simp]:
  "books (d\<lparr>db_users := t1\<rparr>) = books d" "books (d\<lparr>db_organizations := t2\<rparr>) = books d" "books (d\<lparr>db_members := t3\<rparr>) = books d"
  "books (d\<lparr>db_venues := t4\<rparr>) = books d" "books (d\<lparr>db_connections := t5\<rparr>) = books d" "books (d\<lparr>db_workers := t6\<rparr>) = books d"
  "books (d\<lparr>db_wallets := t7\<rparr>) = books d" "books (d\<lparr>db_externals := t8\<rparr>) = books d" "books (d\<lparr>db_refreshTokens := t9\<rparr>) = books d"
  "books (d\<lparr>db_shifts := t10\<rparr>) = books d" "books (d\<lparr>db_openShifts := t11\<rparr>) = books d" "books (d\<lparr>db_assignments := t12\<rparr>) = books d"
  "books (d\<lparr>db_policies := t13\<rparr>) = books d" "books (d\<lparr>db_payrolls := t14\<rparr>) = books d" "books (d\<lparr>db_incomes := t15\<rparr>) = books d"
  "books (d\<lparr>db_alerts := t16\<rparr>) = books d" "books (d\<lparr>db_grants := t17\<rparr>) = books d" "books (d\<lparr>db_reports := t18\<rparr>) = books d"
  "books (d\<lparr>db_accessLogs := t19\<rparr>) = books d" "books (d\<lparr>db_audit := t20\<rparr>) = books d"
  by (simp_all add: books_def)

lemma books_simps [simp]:
  "books (write_audit v a act e i j d) = books d" "books (update_shift i f2 d) = books d"
  "books (update_assignments P f3 d) = books d" "books (update_assignment i f4 d) = books d"
  "books (update_reports Q f5 d) = books d" "books (update_connection i f6 d) = books d"
  "books (reopen_filled now s d) = books d"
  by (simp_all add: write_audit_def update_shift_def update_assignments_def update_assignment_def update_reports_def
      update_connection_def reopen_filled_def)

lemma books_staffing [simp]:
  "books (snd (createShift new v u inp d)) = books d" "books (snd (publishShift now i u d)) = books d"
  "books (snd (cancelShift now i u why d)) = books d" "books (snd (invite new i k u d)) = books d"
  "books (snd (respond new now i u ans d)) = books d" "books (snd (clockIn now i u d)) = books d"
  "books (snd (clockOut now i u d)) = books d" "books (snd (cancelAssignment now i u why d)) = books d"
  "books (snd (approveAssignment bdate hash new now i u d)) = books d" "books (snd (markNoShow now i u d)) = books d"
proof -
  have upsert: "books (snd (upsert_assignment n j k f d)) = books d" for n j k f
    by (simp add: upsert_assignment_def split: option.split)
  show "books (snd (createShift new v u inp d)) = books d" "books (snd (publishShift now i u d)) = books d"
    "books (snd (cancelShift now i u why d)) = books d" "books (snd (clockIn now i u d)) = books d"
    "books (snd (clockOut now i u d)) = books d" "books (snd (cancelAssignment now i u why d)) = books d"
    "books (snd (markNoShow now i u d)) = books d"
    by (simp_all add: createShift_def publishShift_def cancelShift_def clockIn_def clockOut_def cancelAssignment_def markNoShow_def Let_def
        split: sum.split option.split prod.split)
  show "books (snd (approveAssignment bdate hash new now i u d)) = books d"
    by (simp add: approveAssignment_def Let_def case_prod_unfold split: option.split)
  show "books (snd (invite new i k u d)) = books d" "books (snd (respond new now i u ans d)) = books d"
    by (simp_all add: invite_def respond_def respond_tx_def Let_def case_prod_unfold upsert split: sum.split option.split)
qed

lemma books_venue [simp]:
  "books (snd (addMember org email role d)) = books d" "books (snd (createVenue nv np now u inp d)) = books d"
  "books (snd (setVenueWallet v wal d)) = books d" "books (snd (payrollExport tw v bd u d)) = books d"
  "books (snd (createVersion new now v u inp2 d)) = books d" "books (snd (newVersionFrom new now i u ov d)) = books d"
  "books (snd (createSquareAuthorization pw v loc d)) = books d"
  by (simp_all add: addMember_def createVenue_def setVenueWallet_def payrollExport_def createVersion_def archive_active_def newVersionFrom_def
      createSquareAuthorization_def Let_def case_prod_unfold split: option.split sum.split)

lemma books_mapping [simp]: "books (snd (createMapping mw mq d)) = books d"
proof -
  have "books (snd (snd (resolve_worker mw mq d))) = books d"
    by (simp add: resolve_worker_def Let_def split: option.split)
  then show ?thesis by (simp add: createMapping_def Let_def case_prod_unfold split: option.split)
qed

lemma books_income [simp]:
  "books (snd (rebuildVenue iw v actor src d)) = books d" "books (snd (correctEntry new now i u inp d)) = books d"
  "books (snd (importRecords iw date ids v prov recs d)) = books d"
proof -
  show rebuild: "books (snd (rebuildVenue iw v actor src d)) = books d" for v actor src d
    by (auto simp: rebuildVenue_def split: option.split prod.split) (metis snd_conv books_rebuild)+
  show "books (snd (correctEntry new now i u inp d)) = books d"
    by (simp add: correctEntry_def Let_def split: option.split)
  have "books (snd (case r of (Inl e, d') \<Rightarrow> (Inl e, d') | (Inr _, d') \<Rightarrow> (Inr x, d'))) = books (snd r)"
    for r :: "(nat \<times> nat, db) outcome" and x :: "nat \<times> (string \<times> string) list"
    by (cases r) (simp split: sum.split)
  then show "books (snd (importRecords iw date ids v prov recs d)) = books d"
    by (simp add: importRecords_def Let_def rebuild)
qed

lemma books_worker [simp]:
  "books (snd (addWallet new u wi d)) = books d" "books (snd (setDefaultWallet u i d)) = books d"
  "books (snd (createGrant dw u gi d)) = books d" "books (snd (revokeGrant dw u i d)) = books d"
  "books (snd (issueReport dw u i url d)) = books d" "books (snd (expireOverdue now d)) = books d"
  by (simp_all add: addWallet_def upsert_wallet_def point_default_def setDefaultWallet_def createGrant_def revokeGrant_def issueReport_def
      expireOverdue_def Let_def case_prod_unfold split: option.split sum.split)

lemma books_share [simp]: "books (snd (disclosures_create dw origin mail u body d)) = books d"
proof -
  have grant: "books d' = books d" if "createGrant w u i d = (r, d')" for w i r d d'
    using books_worker(3) [of w u i d] that by simp
  have report: "books d' = books d" if "issueReport w u i url d = (r, d')" for w i url r d d'
    using books_worker(5) [of w u i url d] that by simp
  show ?thesis
    by (auto simp: disclosures_create_def guarded_def Let_def dest!: grant report split: sum.split prod.split)
qed

lemma books_connections [simp]:
  "books (snd (completeSquareAuthorization pw inp d)) = books d" "books (snd (flagStaleConnections sw d)) = books d"
proof -
  have seller: "books (snd (connect_seller pw cfg c v t l d)) = books d" for cfg c v t l d
    by (simp add: connect_seller_def split: sum.split)
  have "books (snd (exchange_code pw c v code d)) = books d" for c v code d
    by (simp add: exchange_code_def Let_def seller split: sum.split option.split)
  then show "books (snd (completeSquareAuthorization pw inp d)) = books d"
    by (simp add: completeSquareAuthorization_def oauth_claim_def Let_def split: sum.split prod.split)
  have one: "books (flag_one sw kc d) = books d" for kc d by (simp add: flag_one_def split: prod.split)
  have "books (fold (flag_one sw) ks d) = books d" for ks by (induction ks arbitrary: d) (simp_all add: one)
  then show "books (snd (flagStaleConnections sw d)) = books d" by (simp add: flagStaleConnections_def Let_def)
qed

text \<open>The provider's evidence may change tips, and nothing else of the books.\<close>

definition rows :: "db \<Rightarrow> allocation_batch list \<times> worker_allocation list \<times> payout list" where
  "rows d = (db_batches d, db_allocations d, db_payouts d)"

lemma sync_rows:
  assumes "sync sw job d = Some (r, d')"
  shows "rows d' = rows d"
proof -
  have conn: "rows (update_connection i f d) = rows d" for i f d by (simp add: rows_def update_connection_def)
  have "rows d1 = rows d0" if "gather sw c l tz rng d0 = Some (e, d1)" for c l tz rng d0 e d1
    using that by (rule gather_frame) (simp add: rows_def)
  note gathered = this
  have stored: "rows (snd (persist sw v tips shifts d)) = rows d" for v tips shifts d by (simp add: persist_def Let_def rows_def)
  have ended: "rows (succeeded sw v c d) = rows d" "rows (failed sw c e d) = rows d" for v c e d
    by (simp_all add: succeeded_def failed_def rows_def update_connection_def)
  show ?thesis using assms
    by (auto simp: sync_def Let_def ended conn case_prod_unfold stored dest!: gathered split: option.splits sum.splits if_splits)
qed

lemma sync_venues_rows: "sync_venues ws f t k vs d = Some (r, d') \<Longrightarrow> rows d' = rows d"
proof (induction ws f t k vs d arbitrary: r d' rule: sync_venues.induct)
  case (2 ws f t k v vs d)
  obtain r1 d1 where one: "sync (ws k) \<lparr>sj_venueId = v, sj_startDate = f, sj_endDate = t\<rparr> d = Some (r1, d1)"
    using "2.prems" by (auto split: option.splits)
  obtain rs where "sync_venues ws f t (Suc k) vs d1 = Some (rs, d')"
    using "2.prems" one by (auto split: option.splits)
  then show ?case using "2.IH" [OF one HOL.refl] sync_rows [OF one] by simp
qed simp

lemma books_evidence:
  assumes "books_inv d" "rows d' = rows d" "\<forall>t \<in> set (db_tips d'). 0 \<le> te_grossAmountUsdCents t"
  shows "books_inv d'"
proof -
  have same: "db_batches d' = db_batches d" "db_allocations d' = db_allocations d" "db_payouts d' = db_payouts d"
    using assms(2) by (simp_all add: rows_def)
  show ?thesis using assms(1,3) settle_inv_cong [OF same(3,2)]
    by (simp add: books_inv_def ledger_inv_def batch_total_def payable_row_def same)
qed

lemma books_sign_in [simp]:
  "books (fst (snd (verifyOtp aw email code (d, k)))) = books d" "books (snd (refresh aw tok d)) = books d"
  "books (snd (logout aw tok d)) = books d"
proof -
  have tokens: "books (snd (issueTokens aw i email role d)) = books d" for i email role d
    by (simp add: issueTokens_def upsert_worker_def Let_def split: option.split)
  have "books (snd (login aw email d)) = books d"
    by (simp add: login_def Let_def case_prod_unfold tokens split: option.split)
  then show "books (fst (snd (verifyOtp aw email code (d, k)))) = books d"
    by (simp add: verifyOtp_def case_prod_unfold split: sum.split)
  show "books (snd (refresh aw tok d)) = books d" "books (snd (logout aw tok d)) = books d"
    by (simp_all add: refresh_def refresh_claim_def logout_def Let_def case_prod_unfold tokens split: sum.split)
qed

section \<open>Steps of the system\<close>

text \<open>The requests of a worker about their own data, and those that need no role.\<close>

datatype own_write =
    RespondShift id instant id "response option"
  | ClockIn instant id
  | ClockOut instant id
  | LeaveShift instant id "string option option"
  | AnswerMapping mapping_world id "decision option"
  | LinkWallet id "wallet_input option"
  | ChooseWallet id
  | ShareIncome disclosure_world string "string \<Rightarrow> grant_input \<Rightarrow> string \<Rightarrow> http_error + unit" "(grant_input \<times> bool) option"
  | IssueReport disclosure_world string "(id \<times> string option) option"
  | RevokeGrant disclosure_world id
  | FoundOrganization id "organization_input option"
  | SquareCallback providers_world callback_input
  | SignIn auth_world string string kv
  | Refresh auth_world string
  | SignOut auth_world string

fun perform_own :: "id \<Rightarrow> own_write \<Rightarrow> db \<Rightarrow> db" where
  "perform_own u (RespondShift new now i body) d = snd (staffing_respond new now u i body d)"
| "perform_own u (ClockIn now i) d = snd (clockIn now i u d)"
| "perform_own u (ClockOut now i) d = snd (clockOut now i u d)"
| "perform_own u (LeaveShift now i body) d = snd (staffing_cancelAssignment now u i body d)"
| "perform_own u (AnswerMapping w i body) d = snd (mappings_respond w u i body d)"
| "perform_own u (LinkWallet new body) d = snd (workers_addWallet new u body d)"
| "perform_own u (ChooseWallet i) d = snd (setDefaultWallet u i d)"
| "perform_own u (ShareIncome w origin mail body) d = snd (disclosures_create w origin mail u body d)"
| "perform_own u (IssueReport w origin body) d = snd (disclosures_issueReport w origin u body d)"
| "perform_own u (RevokeGrant w i) d = snd (revokeGrant w u i d)"
| "perform_own u (FoundOrganization new body) d = snd (organizations_create new u body d)"
| "perform_own u (SquareCallback w inp) d = snd (completeSquareAuthorization w inp d)"
| "perform_own u (SignIn w email code k) d = fst (snd (verifyOtp w email code (d, k)))"
| "perform_own u (Refresh w token) d = snd (refresh w token d)"
| "perform_own u (SignOut w token) d = snd (logout w token d)"

text \<open>Ids that a request draws are fresh.\<close>

fun fresh_for :: "staff_write \<Rightarrow> db \<Rightarrow> bool" where
  "fresh_for (Calculate w _) d \<longleftrightarrow> kw_batch_id w \<notin> ab_id ` set (db_batches d) \<and> fresh_rows (kw_alloc_id w) d"
| "fresh_for (CreatePayout w _) d \<longleftrightarrow> w_new_id w \<notin> po_id ` set (db_payouts d)"
| "fresh_for (LegacyEvidence w _) d \<longleftrightarrow> w_new_id w \<notin> po_id ` set (db_payouts d)"
| "fresh_for (ImportCsv w _) d \<longleftrightarrow> fresh_import w d"
| "fresh_for _ d \<longleftrightarrow> True"

inductive books_step :: "db \<Rightarrow> db \<Rightarrow> bool" where
  staff: "fresh_for c d \<Longrightarrow> books_step d (snd (perform u c d))"
| own: "books_step d (perform_own u c d)"
| chain_event: "books_step d (onPayoutSettled hash d)"
| start_up: "books_step d (backfillFinalizedIncomeProjections w d)"
| queued: "process w q data d = Some (ok, d', es) \<Longrightarrow> \<forall>t \<in> set (db_tips d'). 0 \<le> te_grossAmountUsdCents t \<Longrightarrow> books_step d d'"

lemma books_guarded: "(\<And>x. books (snd (f x d)) = books d) \<Longrightarrow> books (snd (guarded g f d)) = books d"
  by (cases g) (simp_all add: guarded_def)

lemma inv_guarded: "books_inv d \<Longrightarrow> (\<And>x. books_inv (snd (f x d))) \<Longrightarrow> books_inv (snd (guarded g f d))"
  by (cases g) (simp_all add: guarded_def)

lemma books_own_frame: "\<nexists>w i body. c = AnswerMapping w i body \<Longrightarrow> books (perform_own u c d) = books d"
  by (cases c)
    (auto simp: staffing_respond_def staffing_cancelAssignment_def workers_addWallet_def disclosures_issueReport_def organizations_create_def
      createOrganization_def Let_def case_prod_unfold books_guarded)

lemma books_own:
  assumes "books_inv d"
  shows "books_inv (perform_own u c d)"
proof (cases "\<exists>w i body. c = AnswerMapping w i body")
  case True
  then obtain w i body where c: "c = AnswerMapping w i body" by blast
  show ?thesis unfolding c perform_own.simps mappings_respond_def
    by (rule inv_guarded [OF assms]) (rule books_answer [OF assms])
next
  case False
  then have "books (perform_own u c d) = books d" by (rule books_own_frame)
  then show ?thesis using assms books_cong by blast
qed

lemma snd_outcome [simp]: "snd (outcome_of r) = snd r"
  by (simp add: outcome_of_def)

lemmas quiet_handlers =
  organizations_addMember_def organizations_createVenue_def organizations_payrollExport_def organizations_setWallet_def
  policies_create_def policies_newVersion_def mappings_create_def staffing_createShift_def staffing_publish_def staffing_cancel_def
  staffing_invite_def staffing_approve_def staffing_noShow_def income_rebuild_def income_correct_def payroll_importRecords_def
  providers_connect_def

text \<open>The routes that write the books.\<close>

fun writes_books :: "staff_write \<Rightarrow> bool" where
  "writes_books (Calculate _ _) = True" | "writes_books (Approve _ _) = True" | "writes_books (Reject _ _) = True"
| "writes_books (AutoAssignRails _) = True" | "writes_books (SetPlannedRail _ _) = True" | "writes_books (CreatePayout _ _) = True"
| "writes_books (BuildTransaction _ _) = True" | "writes_books (SubmitTransaction _ _ _) = True"
| "writes_books (LegacyEvidence _ _) = True" | "writes_books (ImportCsv _ _) = True" | "writes_books _ = False"

lemma books_quiet: "\<not> writes_books c \<Longrightarrow> books (snd (perform u c d)) = books d"
  by (cases c) (simp_all add: quiet_handlers Let_def case_prod_unfold books_guarded)

lemma books_audit: "books_inv (write_audit v a act e i j d) = books_inv d"
  by (rule books_cong) simp

text \<open>The approval gate: the status changes of a batch that is not yet being paid.\<close>

lemma books_gate:
  assumes "books_inv d" "find_batch d i = Some b" "\<not> pay_stage (ab_status b)" "balanced_status (ab_status (f b)) \<Longrightarrow> balanced_status (ab_status b)"
    and "\<And>b. ab_id (f b) = ab_id b \<and> ab_tipPoolAmountUsdCents (f b) = ab_tipPoolAmountUsdCents b"
  shows "books_inv (update_batch i f d)"
proof -
  have led: "ledger_inv (update_batch i f d)"
    by (rule update_batch_ledger [OF books_parts(1) [OF assms(1)] assms(2,5,4)])
  have "settle_inv (update_batch i f d)" using settle_inv_cong [of "update_batch i f d" d] assms(1) by (simp add: books_inv_def)
  moreover have "payable_row (update_batch i f d) j" if "payable_row d j" for j
    using that
  proof (rule payable_rowE)
    fix a b'
    assume ab: "a \<in> set (db_allocations d)" "wa_id a = j" "wa_workerId a \<noteq> None" "b' \<in> set (db_batches d)" "ab_id b' = wa_batchId a"
      "pay_stage (ab_status b')"
    have "ab_id b' \<noteq> i"
    proof
      assume "ab_id b' = i"
      then have "b' = b" using ab(4) find_batchD [OF assms(2)] assms(1)
        by (auto simp: books_inv_def ledger_inv_def distinct_map dest: inj_onD)
      then show False using ab(6) assms(3) by simp
    qed
    then have "b' \<in> set (db_batches (update_batch i f d))"
      using update_where_mem [OF ab(4), of "\<lambda>b. ab_id b = i" f] by simp
    then show ?thesis using ab by (intro payable_rowI [of a _ _ b']) simp_all
  qed
  ultimately show ?thesis using led assms(1) by (simp add: books_inv_def)
qed

lemma books_approve: "books_inv d \<Longrightarrow> books_inv (snd (approve i u now d))"
  by (auto simp: approve_def Let_def books_audit pay_stage_def balanced_status_def split: option.split intro!: books_gate)

lemma books_reject: "books_inv d \<Longrightarrow> books_inv (snd (reject i u why d))"
  by (auto simp: reject_def Let_def books_audit pay_stage_def balanced_status_def split: option.split intro!: books_gate)

lemma books_rail:
  assumes "books_inv d"
  shows "books_inv (update_allocation i (\<lambda>a. a\<lparr>wa_plannedPayoutRail := r\<rparr>) d)"
  by (rule books_moves [OF assms moves_allocation settle_update_allocation [OF books_parts(2) [OF assms]]]) (simp_all add: settles_row_def)

lemma books_rails: "books_inv d \<Longrightarrow> books_inv (fold (\<lambda>(i, rail). update_allocation i (\<lambda>a. a\<lparr>wa_plannedPayoutRail := Some rail\<rparr>)) asg d)"
  by (induction asg arbitrary: d) (auto simp: books_rail)

lemma books_assign:
  "books_inv d \<Longrightarrow> books_inv (snd (autoAssignRails i u d))" "books_inv d \<Longrightarrow> books_inv (snd (setPlannedRail i rail u d))"
  by (simp_all add: autoAssignRails_def setPlannedRail_def Let_def books_audit books_rails books_rail split: option.split sum.split)

text \<open>The payment routes and jobs.\<close>

lemma books_payment:
  assumes "books_inv d"
  shows "w_new_id w \<notin> po_id ` set (db_payouts d) \<Longrightarrow> books_inv (snd (createUsdcPayout w i u d))"
    and "w_new_id w \<notin> po_id ` set (db_payouts d) \<Longrightarrow> books_inv (snd (registerLegacyEvidence w i rail ref u d))"
    and "books_inv (snd (buildTransaction w i u d))" and "books_inv (fst (snd (submitSigned w i tx u d)))"
    and "books_inv (onPayoutSettled hash d)" and "books_inv (fst (snd (processConfirmation w i sig d)))"
    and "books_inv (fst (snd (reconcileStalePayouts w d)))"
proof -
  note st = books_parts(2) [OF assms]
  have sub: "settle_inv (fst (snd (submitSigned w i tx u d)))"
    using st
    by (auto simp: submitSigned_def submit_read_def split: sum.split option.split dest!: find_payoutD intro!: settle_submit [OF st])
  show "books_inv (fst (snd (submitSigned w i tx u d)))" by (rule books_moves [OF assms settlement.submit sub])
  show "books_inv (snd (createUsdcPayout w i u d))" if "w_new_id w \<notin> po_id ` set (db_payouts d)"
    by (rule books_moves [OF assms moves_create settle_create [OF st that]])
  show "books_inv (snd (registerLegacyEvidence w i rail ref u d))" if "w_new_id w \<notin> po_id ` set (db_payouts d)"
    by (rule books_moves [OF assms moves_legacy settle_legacy [OF st that]])
  show "books_inv (snd (buildTransaction w i u d))"
    by (rule books_moves [OF assms settlement.build]) (simp add: buildTransaction_def st settle_build split: sum.split)
  show "books_inv (onPayoutSettled hash d)" by (rule books_moves [OF assms settlement.event settle_event [OF st]])
  show "books_inv (fst (snd (processConfirmation w i sig d)))"
    by (rule books_moves [OF assms settlement.confirmation settle_processConfirmation [OF st]])
  show "books_inv (fst (snd (reconcileStalePayouts w d)))"
    by (rule books_moves [OF assms settlement.reconcile settle_reconcile [OF st]])
qed

lemma books_perform:
  assumes "books_inv d" "fresh_for c d"
  shows "books_inv (snd (perform u c d))"
proof (cases "writes_books c")
  case False
  then show ?thesis using books_cong [OF books_quiet [OF False]] assms(1) by simp
next
  case True
  note inv = assms(1)
  show ?thesis
  proof (cases c)
    case (SubmitTransaction w i body)
    have "books_inv (fst (snd (payouts_submit w u i body d)))"
      using books_payment(4) [OF inv] inv by (simp add: payouts_submit_def split: sum.split)
    then show ?thesis using SubmitTransaction by (simp add: case_prod_unfold)
  next
    case (Calculate w body)
    then show ?thesis using assms books_calculate [OF inv _ _ prod.collapse [symmetric]]
      by (auto simp: allocations_calculate_def intro!: inv_guarded)
  next
    case (ImportCsv w body)
    then show ?thesis using assms books_import [OF inv _ prod.collapse [symmetric]]
      by (auto simp: evidence_importCsv_def intro!: inv_guarded split: prod.split)
  qed (use True assms in \<open>auto simp: allocations_approve_def allocations_reject_def allocations_autoAssignRails_def
      allocations_setPlannedRail_def payouts_create_def payouts_buildTransaction_def payouts_legacyEvidence_def
      intro!: inv_guarded books_approve books_reject books_assign books_payment\<close>)
qed

lemma books_startup: "books (backfillFinalizedIncomeProjections w d) = books d"
proof -
  have "books (fold (\<lambda>v. rebuildIncomeProjection w v None) vs d) = books d" for vs
    by (induction vs arbitrary: d) (simp_all add: rebuildIncomeProjection_def)
  then show ?thesis by (simp add: backfillFinalizedIncomeProjections_def)
qed

lemma books_process:
  assumes "books_inv d" "process w q data d = Some (ok, d', es)" "\<forall>t \<in> set (db_tips d'). 0 \<le> te_grossAmountUsdCents t"
  shows "books_inv d'"
proof -
  have sync: "books_inv d1" if "process_sync w stale job d = Some (ok, d1, es)" "\<forall>t \<in> set (db_tips d1). 0 \<le> te_grossAmountUsdCents t" for stale job d1
  proof (cases stale)
    case True
    then have "books d1 = books d" using that(1) books_connections(2) [of "jw_sync w 0" d] by (auto simp: process_sync_def)
    then show ?thesis using assms(1) books_cong by blast
  next
    case False
    then have "rows d1 = rows d" using that(1)
      by (auto simp: process_sync_def syncConnectedVenues_def Let_def dest: sync_rows sync_venues_rows split: if_splits)
    then show ?thesis by (rule books_evidence [OF assms(1) _ that(2)])
  qed
  have run: "books_inv d'" if "answer r = (ok, d', es)" "books_inv (fst (snd r))" for r
    using that by (auto simp: answer_def)
  note solana = books_payment(6,7) [OF assms(1)]
  have expired: "books_inv (snd (expireOverdue now d))" for now using books_cong [OF books_worker(6)] assms(1) by blast
  show ?thesis
    using assms(2)
  proof (cases "(w, q, data, d)" rule: process.cases)
    case (3 w payoutId signature d)
    then show ?thesis using assms(2) solana(1) by (intro run [of "processConfirmation w payoutId signature d" for w]) auto
  next
    case (5 w data d)
    then show ?thesis using assms(2) solana(2) by (intro run [of "reconcileStalePayouts w d" for w]) auto
  qed (use assms(1,2,3) sync expired in \<open>auto simp del: process_sync_def\<close>)
qed

lemma books_step_keeps: "books_step d d' \<Longrightarrow> books_inv d \<Longrightarrow> books_inv d'"
proof (induction rule: books_step.induct)
  case (start_up d w)
  then show ?case using books_cong [OF books_startup] by simp
qed (simp_all add: books_perform books_own books_payment books_process)


text \<open>A signed transaction is submitted, and the sweep then looks at the payout.\<close>

definition books_demo :: db where
  "books_demo = settle_demo\<lparr>db_members := [\<lparr>om_organizationId = ''o1'', om_userId = ''u1'', om_role = OWNER\<rparr>]\<rparr>"

definition books_submitted :: db where
  "books_submitted = fst (snd (payouts_submit demo_world ''u1'' ''p0'' (Some ''T'') books_demo))"

definition sweep_world :: jobs_world where
  "sweep_world = \<lparr>jw_solana = demo_world\<lparr>w_block_height := 200\<rparr>, jw_sync = \<lambda>_. demo_sync, jw_now = 0\<rparr>"

definition books_swept :: db where
  "books_swept = fst (snd (reconcileStalePayouts (jw_solana sweep_world) books_submitted))"


end
