(* ===== verification/Payout_Client.thy ===== *)
theory Payout_Client
  imports Books
begin

text \<open>
  How the dashboard pays a share in USDC: \<open>payUsdc\<close> of \<open>apps/web/src/app/dashboard/page.tsx\<close> and \<open>apps/web/src/lib/wallet.ts\<close>,
  on the routes of \<open>Controllers\<close>.  Before each request other users, the worker and the chain may act; what they do to the
  database before the n-th request is \<open>pe_meanwhile\<close>, and \<open>pe_world\<close> what the API draws from outside for it.  The
  requests that only refresh the page are not kept.
\<close>

section \<open>The wallet\<close>

text \<open>The injected wallet: the address it connects to, and its signature of a serialized transaction; the texts of the page's own
  errors stand for the Korean ones.\<close>

record wallet_provider =
  wp_connect :: "string + string"
  wp_sign :: "string \<Rightarrow> string + string"

definition signTransactionBase64 :: "wallet_provider option \<Rightarrow> string \<Rightarrow> string \<Rightarrow> string + string" where
  "signTransactionBase64 provider unsignedBase64 expectedSigner =
     (case provider of None \<Rightarrow> Inl ''no Solana wallet''
      | Some p \<Rightarrow> (case wp_connect p of Inl e \<Rightarrow> Inl e
          | Inr key \<Rightarrow> if key \<noteq> expectedSigner then Inl ''the connected wallet is not the payout wallet of the venue''
              else wp_sign p unsignedBase64))"

text \<open>Whether the wallet is asked to sign at all.\<close>

definition asked_to_sign :: "wallet_provider option \<Rightarrow> string \<Rightarrow> bool" where
  "asked_to_sign provider expectedSigner = (case provider of None \<Rightarrow> False | Some p \<Rightarrow> wp_connect p = Inr expectedSigner)"

section \<open>The flow\<close>

datatype progress = Creating | Verifying | OnChain payout_status | Building | Signing | Submitting | Confirmed
  | Expired | Failed string

datatype pay_failure = ApiFailure http_error | WalletFailure string

record pay_env =
  pe_user :: id
  pe_world :: "nat \<Rightarrow> world"
  pe_meanwhile :: "nat \<Rightarrow> db \<Rightarrow> db"
  pe_wallet :: "wallet_provider option"
  pe_message :: "http_error \<Rightarrow> string"      \<comment> \<open>the message of an error with its values filled in\<close>

text \<open>What a run leaves: its result, the database, the messages shown and the signatures asked for (payout,
  transaction, signer).\<close>

record pay_run =
  pr_result :: "pay_failure + unit"
  pr_db :: db
  pr_shown :: "progress list"
  pr_signatures :: "(id \<times> string \<times> string) list"

fun poll :: "pay_env \<Rightarrow> id \<Rightarrow> nat \<Rightarrow> nat \<Rightarrow> db \<Rightarrow> (pay_failure + bool) \<times> db \<times> progress list" where
  "poll e i k 0 d = (Inr False, d, [])"
| "poll e i k (Suc n) d =
     (let d1 = pe_meanwhile e k d
      in case payouts_get (pe_user e) i d1 of
           Inl err \<Rightarrow> (Inl (ApiFailure err), d1, [])
         | Inr v \<Rightarrow>
             let s = po_status (pv_payout v); shown = (if s = CONFIRMED then Confirmed else OnChain s)
             in if s \<in> {FINALIZED, PayoutFAILED} then (Inr True, d1, [shown])
                else (case poll e i (Suc k) n d1 of (r, d2, ps) \<Rightarrow> (r, d2, shown # ps)))"

definition after_submit :: "pay_env \<Rightarrow> id \<Rightarrow> progress list \<Rightarrow> (id \<times> string \<times> string) list \<Rightarrow> db \<Rightarrow> pay_run" where
  "after_submit e i ps sigs d =
     (case poll e i 3 30 d of
        (Inl err, d1, qs) \<Rightarrow> \<lparr>pr_result = Inl err, pr_db = d1, pr_shown = ps @ qs, pr_signatures = sigs\<rparr>
      | (Inr terminal, d1, qs) \<Rightarrow>
          \<lparr>pr_result = Inr (), pr_db = d1, pr_shown = ps @ qs @ (if terminal then [] else [Verifying]), pr_signatures = sigs\<rparr>)"

definition sign_and_submit :: "pay_env \<Rightarrow> id \<Rightarrow> build_result \<Rightarrow> progress list \<Rightarrow> db \<Rightarrow> pay_run" where
  "sign_and_submit e i tx ps d =
     (let sigs = (if asked_to_sign (pe_wallet e) (br_signer tx) then [(i, br_transactionBase64 tx, br_signer tx)] else [])
      in case signTransactionBase64 (pe_wallet e) (br_transactionBase64 tx) (br_signer tx) of
           Inl msg \<Rightarrow> \<lparr>pr_result = Inl (WalletFailure msg), pr_db = d, pr_shown = ps @ [Signing], pr_signatures = sigs\<rparr>
         | Inr signed \<Rightarrow>
             (case payouts_submit (pe_world e 2) (pe_user e) i (Some signed) (pe_meanwhile e 2 d) of
                (Inl err, d1, _) \<Rightarrow> \<lparr>pr_result = Inl (ApiFailure err), pr_db = d1, pr_shown = ps @ [Signing, Submitting], pr_signatures = sigs\<rparr>
              | (Inr _, d1, _) \<Rightarrow> after_submit e i (ps @ [Signing, Submitting]) sigs d1))"

definition payUsdcInner :: "pay_env \<Rightarrow> id \<Rightarrow> db \<Rightarrow> pay_run" where
  "payUsdcInner e allocationId d =
     (case payouts_create (pe_world e 0) (pe_user e) (Some allocationId) (pe_meanwhile e 0 d) of
        (Inl err, d1) \<Rightarrow> \<lparr>pr_result = Inl (ApiFailure err), pr_db = d1, pr_shown = [Creating], pr_signatures = []\<rparr>
      | (Inr payout, d1) \<Rightarrow>
          if po_status payout \<in> {SUBMITTED, CONFIRMED}
          then \<lparr>pr_result = Inr (), pr_db = d1, pr_shown = [Creating, Verifying], pr_signatures = []\<rparr>
          else if po_status payout = FINALIZED
          then \<lparr>pr_result = Inr (), pr_db = d1, pr_shown = [Creating, OnChain FINALIZED], pr_signatures = []\<rparr>
          else (case payouts_buildTransaction (pe_world e 1) (pe_user e) (po_id payout) (pe_meanwhile e 1 d1) of
                  (Inl err, d2) \<Rightarrow> \<lparr>pr_result = Inl (ApiFailure err), pr_db = d2, pr_shown = [Creating, Building], pr_signatures = []\<rparr>
                | (Inr tx, d2) \<Rightarrow> sign_and_submit e (po_id payout) tx [Creating, Building] d2))"

text \<open>A click on a share that is being paid does nothing; \<open>locks\<close> are the shares being paid in this page.  An error is
  shown by what its message says.\<close>

definition message_includes :: "string \<Rightarrow> string \<Rightarrow> bool" where
  "message_includes message fragment = list_ex (\<lambda>i. take (length fragment) (drop i message) = fragment) [0..<Suc (length message)]"

definition PAYOUT_VERIFICATION_ERRORS :: "string list" where
  "PAYOUT_VERIFICATION_ERRORS = [''Payout is CONFIRMED'', ''Payout is SUBMITTED'', ''Settlement already exists on-chain'',
     ''Previous payout blockhash is still valid'', ''Payout transaction blockhash is still valid'']"

definition isPayoutVerificationError :: "string \<Rightarrow> bool" where
  "isPayoutVerificationError message = list_ex (message_includes message) PAYOUT_VERIFICATION_ERRORS"

definition isPayoutBlockhashExpiredError :: "string \<Rightarrow> bool" where
  "isPayoutBlockhashExpiredError message = message_includes message ''blockhash expired before submission''"

definition failure_shown :: "string \<Rightarrow> progress" where
  "failure_shown message = (if isPayoutVerificationError message then Verifying
     else if isPayoutBlockhashExpiredError message then Expired else Failed message)"

definition failure_message :: "pay_env \<Rightarrow> pay_failure \<Rightarrow> string" where
  "failure_message e f = (case f of ApiFailure err \<Rightarrow> pe_message e err | WalletFailure msg \<Rightarrow> msg)"

definition payUsdc :: "pay_env \<Rightarrow> id list \<Rightarrow> id \<Rightarrow> db \<Rightarrow> pay_run option" where
  "payUsdc e locks allocationId d =
     (if allocationId \<in> set locks then None
      else let r = payUsdcInner e allocationId d
           in Some (case pr_result r of Inr _ \<Rightarrow> r
                | Inl f \<Rightarrow> r\<lparr>pr_shown := pr_shown r @ [failure_shown (failure_message e f)]\<rparr>))"

section \<open>The flow against the books\<close>

lemma poll_steps:
  assumes "\<And>k x. books_step\<^sup>*\<^sup>* x (pe_meanwhile e k x)"
  shows "books_step\<^sup>*\<^sup>* d (fst (snd (poll e i k n d)))"
proof (induction n arbitrary: d k)
  case (Suc n)
  have "books_step\<^sup>*\<^sup>* d (fst (snd (poll e i (Suc k) n (pe_meanwhile e k d))))"
    using assms [of d k] Suc.IH [of "pe_meanwhile e k d" "Suc k"] by (rule rtranclp_trans)
  then show ?case using assms [of d k]
    by (auto simp: Let_def case_prod_unfold split: sum.split)
qed simp

lemma route_steps:
  "w_new_id w \<notin> po_id ` set (db_payouts x) \<Longrightarrow> books_step x (snd (payouts_create w u (Some a) x))"
  "books_step x (snd (payouts_buildTransaction w u i x))"
  "books_step x (fst (snd (payouts_submit w u i body x)))"
proof -
  show "w_new_id w \<notin> po_id ` set (db_payouts x) \<Longrightarrow> books_step x (snd (payouts_create w u (Some a) x))"
    using books_step.staff [of "CreatePayout w (Some a)" x u] by simp
  show "books_step x (snd (payouts_buildTransaction w u i x))"
    using books_step.staff [of "BuildTransaction w i" x u] by simp
  show "books_step x (fst (snd (payouts_submit w u i body x)))"
    using books_step.staff [of "SubmitTransaction w i body" x u] by (simp add: case_prod_unfold)
qed

lemma submit_steps:
  assumes "\<And>k x. books_step\<^sup>*\<^sup>* x (pe_meanwhile e k x)"
  shows "books_step\<^sup>*\<^sup>* d (pr_db (sign_and_submit e i tx ps d))"
proof -
  have polled: "books_step\<^sup>*\<^sup>* x (pr_db (after_submit e i qs sigs x))" for qs sigs x
    using poll_steps [of e x i 3 30] assms by (auto simp: after_submit_def case_prod_unfold simp del: poll.simps split: sum.split)
  have submitted: "books_step\<^sup>*\<^sup>* d (fst (snd (payouts_submit w u i body (pe_meanwhile e 2 d))))" for w u body
    using assms [of d 2] route_steps(3) by (rule rtranclp.rtrancl_into_rtrancl)
  show ?thesis
    using rtranclp_trans [OF submitted polled]
    by (auto simp: sign_and_submit_def Let_def case_prod_unfold submitted split: sum.split)
qed

lemma built_row:
  assumes "payouts_buildTransaction w u i x = (Inr tx, x')"
  shows "\<exists>p \<in> set (db_payouts x'). po_id p = i \<and> po_status p = INITIATED \<and> po_txSignature p = None \<and> po_signerWallet p = Some (br_signer tx)
    \<and> po_recentBlockhash p = Some (br_blockhash tx)"
proof -
  obtain c where c: "build_claim_rows w i (Some u) c x = (Inr tx, x')"
    using assms by (auto simp: payouts_buildTransaction_def guarded_def buildTransaction_def split: sum.splits)
  then have "count_where (\<lambda>p. po_id p = i \<and> buildable (po_status p)) (db_payouts x) \<noteq> 0"
    by (auto simp: build_claim_rows_def Let_def split: if_splits)
  then obtain q where q: "q \<in> set (db_payouts x)" "po_id q = i" "buildable (po_status q)"
    using count_where_pos [of "\<lambda>p. po_id p = i \<and> buildable (po_status p)" "db_payouts x"] by auto
  have "initiated w c (Some u) q \<in> set (db_payouts x')"
    using c q by (auto simp: build_claim_rows_def Let_def update_where_def image_iff split: if_splits intro!: bexI [of _ q])
  moreover have "br_signer tx = bc_signer c" "br_blockhash tx = bt_blockhash (bc_built c)"
    using c by (auto simp: build_claim_rows_def Let_def split: if_splits)
  ultimately show ?thesis using q(2) by (intro bexI [of _ "initiated w c (Some u) q"]) (simp_all add: initiated_def)
qed

lemma after_submit_signatures: "pr_signatures (after_submit e i ps sigs d) = sigs"
  by (simp add: after_submit_def case_prod_unfold split: sum.split)

lemma submit_signatures: "set (pr_signatures (sign_and_submit e i tx ps d)) \<subseteq> {(i, br_transactionBase64 tx, br_signer tx)}"
  "length (pr_signatures (sign_and_submit e i tx ps d)) \<le> 1"
  by (auto simp: sign_and_submit_def Let_def case_prod_unfold after_submit_signatures split: sum.split)

lemma inner_runs:
  assumes others: "\<And>k x. books_step\<^sup>*\<^sup>* x (pe_meanwhile e k x)"
    and fresh: "w_new_id (pe_world e 0) \<notin> po_id ` set (db_payouts (pe_meanwhile e 0 d))"
    and run: "r = payUsdcInner e allocationId d"
  shows "books_step\<^sup>*\<^sup>* d (pr_db r) \<and> length (pr_signatures r) \<le> 1
    \<and> (\<forall>(i, tx, signer) \<in> set (pr_signatures r). \<exists>x p. books_step\<^sup>*\<^sup>* d x \<and> books_step\<^sup>*\<^sup>* x (pr_db r) \<and> p \<in> set (db_payouts x)
         \<and> po_id p = i \<and> po_status p = INITIATED \<and> po_txSignature p = None \<and> po_signerWallet p = Some signer)"
proof -
  obtain c d1 where c: "payouts_create (pe_world e 0) (pe_user e) (Some allocationId) (pe_meanwhile e 0 d) = (c, d1)" by fastforce
  have d1: "books_step\<^sup>*\<^sup>* d d1"
    using rtranclp.rtrancl_into_rtrancl [OF others [of d 0] route_steps(1) [OF fresh, of "pe_user e" allocationId]] c by simp
  show ?thesis
  proof (cases c)
    case (Inr payout)
    obtain b d2 where b: "payouts_buildTransaction (pe_world e 1) (pe_user e) (po_id payout) (pe_meanwhile e 1 d1) = (b, d2)" by fastforce
    have "books_step\<^sup>*\<^sup>* d1 d2"
      using rtranclp.rtrancl_into_rtrancl [OF others [of d1 1] route_steps(2) [of _ "pe_world e 1" "pe_user e" "po_id payout"]] b by simp
    then have d2: "books_step\<^sup>*\<^sup>* d d2" using d1 by simp
    show ?thesis
    proof (cases "po_status payout \<in> {SUBMITTED, CONFIRMED, FINALIZED}")
      case True
      then show ?thesis using c Inr d1 by (auto simp: run payUsdcInner_def)
    next
      case False
      show ?thesis
      proof (cases b)
        case (Inl err)
        then show ?thesis using False c \<open>c = Inr payout\<close> b d2 by (auto simp: run payUsdcInner_def)
      next
        case (Inr tx)
        then have r: "r = sign_and_submit e (po_id payout) tx [Creating, Building] d2"
          using False c \<open>c = Inr payout\<close> b by (auto simp: run payUsdcInner_def)
        have rest: "books_step\<^sup>*\<^sup>* d2 (pr_db r)" unfolding r by (rule submit_steps [OF others])
        obtain p where p: "p \<in> set (db_payouts d2)" "po_id p = po_id payout" "po_status p = INITIATED" "po_txSignature p = None"
            "po_signerWallet p = Some (br_signer tx)"
          using built_row b Inr by metis
        show ?thesis
          using submit_signatures [of e "po_id payout" tx "[Creating, Building]" d2] d2 rest p unfolding r by (auto 0 4)
      qed
    qed
  qed (use c d1 in \<open>simp add: run payUsdcInner_def\<close>)
qed


text \<open>A first payment; the event of the settlement arrives between two polls.\<close>

definition pay_demo :: db where
  "pay_demo = demo_db\<lparr>db_batches := [demo_batch\<lparr>ab_status := PAYABLE, ab_allocationHash := Some (replicate 64 CHR ''a'')\<rparr>],
     db_members := [\<lparr>om_organizationId = ''o1'', om_userId = ''u1'', om_role = OWNER\<rparr>],
     db_workers := [\<lparr>wk_id = ''w1'', wk_userId = ''u2'', wk_defaultWalletId = Some ''k1''\<rparr>],
     db_wallets := [\<lparr>wal_id = ''k1'', wal_workerId = ''w1'', wal_address = ''A'', wal_walletType = WalletEXTERNAL, wal_status = WalletACTIVE, wal_isDefault = True\<rparr>]\<rparr>"

definition pay_demo_env :: pay_env where
  "pay_demo_env = \<lparr>pe_user = ''u1'', pe_world = \<lambda>_. demo_world, pe_meanwhile = \<lambda>k d. if k = 4 then onPayoutSettled ''a0'' d else d,
     pe_wallet = Some \<lparr>wp_connect = Inr ''S'', wp_sign = Inr\<rparr>, pe_message = \<lambda>_. []\<rparr>"


end
