(* ===== verification/Mail.thy ===== *)
theory Mail
  imports Auth_Safety Controllers
begin

text \<open>
  \<open>apps/api/src/auth/mail.service.ts\<close>, the mail that the services send, and the routes of
  \<open>auth.controller.ts\<close>.  The HTTP request to Brevo, the resolver, the check for an IP address and the SMTP transport are
  parameters; the wording of a mail is not kept, only its code.
\<close>

section \<open>Delivery\<close>

record mail_config =
  mc_host :: "string option"           \<comment> \<open>\<open>SMTP_HOST\<close>\<close>
  mc_port :: "string option"           \<comment> \<open>\<open>SMTP_PORT\<close>\<close>
  mc_brevoApiKey :: "string option"
  mc_emailFrom :: "string option"      \<comment> \<open>\<open>EMAIL_FROM\<close>\<close>
  mc_smtpUser :: "string option"       \<comment> \<open>\<open>SMTP_USER\<close>\<close>

definition mail_from :: "mail_config \<Rightarrow> string" where
  "mail_from c = (case mc_emailFrom c of Some f \<Rightarrow> f
     | None \<Rightarrow> (case mc_smtpUser c of Some u \<Rightarrow> u | None \<Rightarrow> ''no-reply@serveproof.local''))"

definition enabled :: "mail_config \<Rightarrow> bool" where
  "enabled c = (truthy (mc_brevoApiKey c) \<or> truthy (mc_host c))"

record mail_message =
  mm_from :: string
  mm_to :: string
  mm_subject :: string
  mm_text :: string

record smtp_options =
  so_host :: string
  so_servername :: string
  so_port :: int
  so_secure :: bool
  so_user :: "string option"

text \<open>\<open>mw_brevo\<close> gives the status and the text of the answer, or the message of what \<open>fetch\<close> throws; \<open>mw_number\<close> is \<open>Number\<close>.\<close>

record mail_world =
  mw_brevo :: "string \<Rightarrow> mail_message \<Rightarrow> string + int \<times> string"
  mw_isIP :: "string \<Rightarrow> bool"
  mw_resolve4 :: "string \<Rightarrow> string + string list"
  mw_smtp :: "smtp_options \<Rightarrow> mail_message \<Rightarrow> string + unit"
  mw_number :: "string \<Rightarrow> int"
  mw_show :: "int \<Rightarrow> string"

definition sendViaBrevo :: "mail_world \<Rightarrow> mail_config \<Rightarrow> string \<Rightarrow> string \<Rightarrow> string \<Rightarrow> string + unit" where
  "sendViaBrevo w c to subject body =
     (case mw_brevo w (the (mc_brevoApiKey c)) \<lparr>mm_from = mail_from c, mm_to = to, mm_subject = subject, mm_text = body\<rparr> of
        Inl e \<Rightarrow> Inl e
      | Inr (status, answer) \<Rightarrow> if 200 \<le> status \<and> status \<le> 299 then Inr ()
          else Inl (''Brevo '' @ mw_show w status @ '': '' @ take 300 answer))"

definition ipv4_host :: "mail_world \<Rightarrow> string \<Rightarrow> string + string" where
  "ipv4_host w host =
     (if mw_isIP w host then Inr host
      else case mw_resolve4 w host of Inl e \<Rightarrow> Inl e
        | Inr [] \<Rightarrow> Inl (''no IPv4 address for '' @ host)
        | Inr (a # _) \<Rightarrow> if a = [] then Inl (''no IPv4 address for '' @ host) else Inr a)"

definition sendViaSmtp :: "mail_world \<Rightarrow> mail_config \<Rightarrow> string \<Rightarrow> string \<Rightarrow> string \<Rightarrow> string + unit" where
  "sendViaSmtp w c to subject body =
     (if \<not> truthy (mc_host c) then Inl ''Email delivery is not configured (SMTP_HOST unset)''
      else case ipv4_host w (the (mc_host c)) of Inl e \<Rightarrow> Inl e
        | Inr host \<Rightarrow>
            let port = (case mc_port c of Some p \<Rightarrow> mw_number w p | None \<Rightarrow> 587)
            in mw_smtp w \<lparr>so_host = host, so_servername = the (mc_host c), so_port = port, so_secure = (port = 465),
                   so_user = (if truthy (mc_smtpUser c) then mc_smtpUser c else None)\<rparr>
                 \<lparr>mm_from = ''ServeProof <'' @ mail_from c @ ''>'', mm_to = to, mm_subject = subject, mm_text = body\<rparr>)"

definition send :: "mail_world \<Rightarrow> mail_config \<Rightarrow> string \<Rightarrow> string \<Rightarrow> string \<Rightarrow> http_error + unit" where
  "send w c to subject body =
     (if \<not> enabled c then Inl (ServiceUnavailableException ''Email delivery is not configured (BREVO_API_KEY / SMTP_HOST unset)'')
      else case (if truthy (mc_brevoApiKey c) then sendViaBrevo w c to subject body else sendViaSmtp w c to subject body) of
             Inl message \<Rightarrow> Inl (ServiceUnavailableException (''Email delivery failed: '' @ message))
           | Inr _ \<Rightarrow> Inr ())"

definition sendOtp :: "mail_world \<Rightarrow> mail_config \<Rightarrow> (string \<Rightarrow> string \<times> string) \<Rightarrow> string \<Rightarrow> string \<Rightarrow> http_error + unit" where
  "sendOtp w c otpBody to code = (case otpBody code of (subject, body) \<Rightarrow> send w c to subject body)"

section \<open>The routes of the login\<close>

definition auth_requestOtp ::
  "auth_world \<Rightarrow> string option \<Rightarrow> kv \<Rightarrow> (http_error + otp_sent) \<times> kv \<times> (string \<times> string) list" where
  "auth_requestOtp w body s = (case parseBody body of Inl e \<Rightarrow> (Inl e, s, []) | Inr email \<Rightarrow> requestOtp w email s)"

definition auth_verifyOtp :: "auth_world \<Rightarrow> (string \<times> string) option \<Rightarrow> db \<times> kv \<Rightarrow> (token_pair \<times> id, db \<times> kv) outcome" where
  "auth_verifyOtp w body s = (case parseBody body of Inl e \<Rightarrow> (Inl e, s) | Inr (email, code) \<Rightarrow> verifyOtp w email code s)"

definition auth_refresh :: "auth_world \<Rightarrow> string option \<Rightarrow> db \<Rightarrow> (token_pair, db) outcome" where
  "auth_refresh w body d = guarded (parseBody body) (\<lambda>t. refresh w t) d"

definition auth_logout :: "auth_world \<Rightarrow> string option \<Rightarrow> db \<Rightarrow> (bool, db) outcome" where
  "auth_logout w body d = guarded (parseBody body) (\<lambda>t d. case logout w t d of (ok, d') \<Rightarrow> (Inr ok, d')) d"

section \<open>What a caller sees\<close>

lemma send_fails_503:
  assumes "send w c to subject body = Inl e"
  obtains message where "e = ServiceUnavailableException message"
  using assms by (auto simp: send_def split: if_splits sum.splits)

text \<open>With a Brevo key the SMTP server is never used, whatever Brevo answers.\<close>

lemma brevo_first:
  "truthy (mc_brevoApiKey c) \<Longrightarrow> send (w\<lparr>mw_smtp := f, mw_resolve4 := g\<rparr>) c to subject body = send w c to subject body"
  by (auto simp: send_def sendViaBrevo_def split: sum.split)


text \<open>The host has no IPv4 address.\<close>

definition smtp_only :: mail_config where
  "smtp_only = \<lparr>mc_host = Some ''smtp.example.com'', mc_port = None, mc_brevoApiKey = None, mc_emailFrom = None, mc_smtpUser = None\<rparr>"

definition unresolved :: mail_world where
  "unresolved = \<lparr>mw_brevo = \<lambda>_ _. Inl ''unused'', mw_isIP = \<lambda>_. False, mw_resolve4 = \<lambda>_. Inr [], mw_smtp = \<lambda>_ _. Inr (),
     mw_number = \<lambda>_. 25, mw_show = \<lambda>_. ''0''\<rparr>"

definition otp_text :: "string \<Rightarrow> string \<times> string" where
  "otp_text code = (code, code)"


end
