(* ===== verification/Second_Batch.thy ===== *)
theory Second_Batch
  imports Allocations
begin

text \<open>
  A defect of \<open>AllocationsService.calculate\<close>: the batch that guards a business day against a second calculation is
  looked up by policy version, so after a new version of the policy the day is calculated, approved and payable again.
\<close>

text \<open>(C24) The tips of a day whose batch is already payable are distributed a second time when the policy in force has
  another version: the calculation succeeds, the approval of its batch succeeds, and both batches of the day are
  then payable in full.\<close>

theorem day_payable_twice:
  assumes inv: "ledger_inv d"
    and b: "b \<in> set (db_batches d)" "ab_status b = PAYABLE" "ab_venueId b = ci_venueId inp" "ab_businessDate b = ci_businessDate inp"
    and policy: "batch_policy d inp = Some policy" "find (batch_key (ci_venueId inp) (ci_businessDate inp) (pol_version policy)) (db_batches d) = None"
    and day: "find_venue d (ci_venueId inp) \<noteq> None" "day_tips d inp \<noteq> []" "new_batch \<notin> ab_id ` set (db_batches d)"
    and engine: "computeAllocationBatch lc (map engine_tip (day_tips d inp)) (map engine_shift (day_shifts d inp)) (engine_policy policy) = Inr result"
      "\<not> list_ex is_blocking (br_issues result)"
  shows "\<exists>v d1 b2 d2. calculate lc eh ah new_batch new_alloc now inp by d = (Inr v, d1) \<and> approve new_batch u now2 d1 = (Inr b2, d2)
    \<and> b \<in> set (db_batches d2) \<and> b2 \<in> set (db_batches d2) \<and> b2 \<noteq> b
    \<and> ab_venueId b2 = ab_venueId b \<and> ab_businessDate b2 = ab_businessDate b \<and> ab_status b2 = PAYABLE
    \<and> ab_tipPoolAmountUsdCents b2 = br_poolUsdCents result
    \<and> batch_total d2 (ab_id b) = ab_tipPoolAmountUsdCents b \<and> batch_total d2 (ab_id b2) = ab_tipPoolAmountUsdCents b2"
proof -
  let ?saved = "saved_batch new_batch now inp by policy result (eh (js_sort str_cmp (map te_sourceHash (day_tips d inp))) (js_sort str_cmp (map se_sourceHash (day_shifts d inp))))
    (ah (pol_version policy) (br_poolUsdCents result) (br_allocations result)) None"
  define d1 where "d1 = save_batch new_alloc ?saved (br_allocations result) (planned_rails (day_shifts d inp)) None d"
  have calc: "calculate lc eh ah new_batch new_alloc now inp by d = (getBatch new_batch d1, d1)"
    using policy day engine by (auto simp: calculate_def Let_def d1_def saved_batch_id)
  have inv1: "ledger_inv d1" by (rule calculate_ledger [OF inv day(3) calc])
  have b1: "b \<in> set (db_batches d1)" using calculate_untouched [OF inv day(3) calc b(1)] b(2) by (simp add: recalculable_def)
  have absent: "find (\<lambda>b. ab_id b = new_batch) (db_batches d) = None" using day(3) by (force simp: find_None_iff)
  then have found: "find_batch d1 new_batch = Some ?saved"
    by (simp add: d1_def find_batch_def save_batch_def find_append saved_batch_id)
  define f where "f = (\<lambda>b::allocation_batch. b\<lparr>ab_status := PAYABLE, ab_approvedBy := Some u, ab_approvedAt := Some now2\<rparr>)"
  have status: "ab_status ?saved = CALCULATED" using engine(2) by (simp add: saved_batch_status)
  define d2 where "d2 = snd (approve new_batch u now2 d1)"
  have approved: "approve new_batch u now2 d1 = (Inr (f ?saved), d2)" "db_batches d2 = update_where (\<lambda>b. ab_id b = new_batch) f (db_batches d1)"
    "ledger_inv d2"
    using found status inv1 update_batch_ledger [OF inv1 found, of f]
    by (simp_all add: d2_def approve_def Let_def f_def balanced_status_def)
  have other: "ab_id b \<noteq> new_batch" using b(1) day(3) by auto
  then have b2: "b \<in> set (db_batches d2)" "f ?saved \<in> set (db_batches d2)"
    using b1 find_batchD [OF found] by (auto simp: approved(2) in_update_where)
  have key: "ab_id (f ?saved) = new_batch" "ab_status (f ?saved) = PAYABLE" "ab_venueId (f ?saved) = ab_venueId b"
      "ab_businessDate (f ?saved) = ab_businessDate b" "ab_tipPoolAmountUsdCents (f ?saved) = br_poolUsdCents result"
    using b(3,4) by (simp_all add: f_def saved_batch_def Let_def)
  have "batch_total d2 (ab_id x) = ab_tipPoolAmountUsdCents x" if "x \<in> set (db_batches d2)" "ab_status x = PAYABLE" for x
    using approved(3) that by (simp add: ledger_inv_def balanced_status_def)
  then have totals: "batch_total d2 (ab_id b) = ab_tipPoolAmountUsdCents b" "batch_total d2 (ab_id (f ?saved)) = ab_tipPoolAmountUsdCents (f ?saved)"
    using b2 b(2) key(2) by simp_all
  obtain v where v: "getBatch new_batch d1 = Inr v" using found by (simp add: getBatch_def)
  have "f ?saved \<noteq> b" using other key(1) by metis
  note facts = this approved(1) b2 key(2-) totals
  have "calculate lc eh ah new_batch new_alloc now inp by d = (Inr v, d1)" using calc v by simp
  then show ?thesis
    by (intro exI [of _ v] exI [of _ d1] exI [of _ "f ?saved"] exI [of _ d2] conjI facts)
qed

text \<open>The day of the example has been calculated under version 1 and approved; version 2 of the policy is in force.\<close>

definition second_db :: db where
  "second_db = demo_db\<lparr>db_batches := [demo_batch\<lparr>ab_businessDate := ''2026-01-02'', ab_status := PAYABLE, ab_tipPoolAmountUsdCents := 1000\<rparr>],
     db_allocations := [demo_allocation\<lparr>wa_pooledTipUsdCents := 1000, wa_netAllocatedUsdCents := 1000\<rparr>],
     db_policies := map (\<lambda>p. p\<lparr>pol_version := 2\<rparr>) (db_policies demo_db)\<rparr>"

lemma second_engine:
  "\<exists>r. computeAllocationBatch lc_ascii (map engine_tip (day_tips second_db demo_input)) (map engine_shift (day_shifts second_db demo_input))
     (engine_policy (the (batch_policy second_db demo_input))) = Inr r \<and> \<not> list_ex is_blocking (br_issues r) \<and> br_poolUsdCents r = 1000"
proof -
  let ?tip = "\<lparr>ti_tipType = CARD_TIP, ti_grossAmountUsdCents = 1000, ti_paymentStatus = Some PaymentCOMPLETED, ti_refundStatus = Some RefundNONE\<rparr>"
  let ?shift = "\<lparr>si_workerId = Some ''w1'', si_externalWorkerId = ''e1'', si_provider = ''csv'', si_role = ''server'', si_workedMinutes = 480,
    si_shiftStatus = ShiftCOMPLETED\<rparr>"
  let ?policy = "\<lparr>pi_roleWeights = [(''server'', 1)], pi_excludedRoles = [], pi_poolInclusion = [(CARD_TIP, True)]\<rparr>"
  have inputs: "map engine_tip (day_tips second_db demo_input) = [?tip]" "map engine_shift (day_shifts second_db demo_input) = [?shift]"
    "engine_policy (the (batch_policy second_db demo_input)) = ?policy"
    by (simp_all add: second_db_def demo_db_def demo_input_def day_tips_def day_shifts_def batch_policy_def engine_tip_def engine_shift_def engine_policy_def empty_db_def)
  have "engine_ranges ?policy [?tip] [?shift]"
    by (auto simp: engine_ranges_def pool_of_def pool_tip_def weight_ok_def score_lo_def power_int_def field_simps)
  then obtain r where r: "computeAllocationBatch lc_ascii [?tip] [?shift] ?policy = Inr r" "br_poolUsdCents r = pool_of ?policy [?tip]"
    using compute_exact [of ?policy "[?tip]" "[?shift]" lc_ascii] by blast
  have fl: "fl64 480 = 480" using fl64_of_int [of 480] by simp
  have "br_issues r = []"
    using r(1) by (auto simp: computeAllocationBatch_def pool_step_def shift_step_def total_score_def fl Let_def split: option.splits if_splits)
  then show ?thesis unfolding inputs using r by (simp add: pool_of_def pool_tip_def)
qed

theorem day_payable_twice_witness:
  "\<exists>b2 (d2 :: db). b2 \<in> set (db_batches d2) \<and> ab_status b2 = PAYABLE \<and> ab_businessDate b2 = ''2026-01-02''
     \<and> batch_total d2 ''b0'' = 1000 \<and> ab_tipPoolAmountUsdCents b2 = 1000"
proof -
  let ?b = "demo_batch\<lparr>ab_businessDate := ''2026-01-02'', ab_status := PAYABLE, ab_tipPoolAmountUsdCents := 1000\<rparr>"
  obtain result where engine: "computeAllocationBatch lc_ascii (map engine_tip (day_tips second_db demo_input)) (map engine_shift (day_shifts second_db demo_input))
      (engine_policy (the (batch_policy second_db demo_input))) = Inr result" "\<not> list_ex is_blocking (br_issues result)" "br_poolUsdCents result = 1000"
    using second_engine by blast
  have inv: "ledger_inv second_db"
    using demo_db_ledger by (simp add: ledger_inv_def second_db_def demo_db_def demo_batch_def demo_allocation_def empty_db_def batch_total_def)
  have b: "?b \<in> set (db_batches second_db)" "ab_status ?b = PAYABLE" "ab_venueId ?b = ci_venueId demo_input" "ab_businessDate ?b = ci_businessDate demo_input"
    by (simp_all add: second_db_def demo_batch_def demo_input_def)
  have "(batch_policy second_db demo_input \<noteq> None, map_option pol_version (batch_policy second_db demo_input), find_venue second_db (ci_venueId demo_input) \<noteq> None,
      day_tips second_db demo_input \<noteq> []) = (True, Some 2, True, True)" by code_simp
  then obtain policy where p: "batch_policy second_db demo_input = Some policy" "pol_version policy = 2"
      "find_venue second_db (ci_venueId demo_input) \<noteq> None" "day_tips second_db demo_input \<noteq> []" by auto
  have absent: "find (batch_key (ci_venueId demo_input) (ci_businessDate demo_input) (pol_version policy)) (db_batches second_db) = None"
    by (simp add: p(2) second_db_def demo_batch_def batch_key_def)
  have fresh: "''b1'' \<notin> ab_id ` set (db_batches second_db)" by (simp add: second_db_def demo_batch_def)
  have policy: "computeAllocationBatch lc_ascii (map engine_tip (day_tips second_db demo_input)) (map engine_shift (day_shifts second_db demo_input))
      (engine_policy policy) = Inr result" using engine(1) p(1) by simp
  from day_payable_twice [OF inv b p(1) absent p(3,4) fresh policy engine(2), of "\<lambda>_ _. ''e''" "\<lambda>_ _ _. ''a''" "\<lambda>_. ''a1''" 0 None "''u1''" 5]
  obtain b2 d2 where x: "b2 \<in> set (db_batches d2)" "ab_status b2 = PAYABLE" "ab_businessDate b2 = ab_businessDate ?b" "ab_tipPoolAmountUsdCents b2 = br_poolUsdCents result"
      "batch_total d2 (ab_id ?b) = ab_tipPoolAmountUsdCents ?b" by blast
  have "batch_total d2 ''b0'' = 1000" "ab_businessDate b2 = ''2026-01-02''" using x(3,5) by (simp_all add: demo_batch_def)
  then show ?thesis using x(1,2,4) engine(3) by (intro exI [of _ b2] exI [of _ d2]) simp
qed

end
