(* ===== verification/Observability.thy ===== *)
theory Observability
  imports Prelude
begin

text \<open>
  What the API reports about itself: the per-request query statistics of \<open>common/performance-context.ts\<close>, the slow-request
  log of \<open>common/performance.interceptor.ts\<close>, the query events of \<open>prisma/prisma.service.ts\<close>, and the probes of
  \<open>health/health.controller.ts\<close>.  Durations are rational numbers of milliseconds; \<open>Number\<close>, \<open>new URL\<close> and what a probe meets are
  parameters.
\<close>

section \<open>Query statistics of a request\<close>

record request_store =
  rs_sumMs :: rat
  rs_count :: nat
  rs_maxMs :: rat
  rs_slow :: nat

definition createStore :: request_store where
  "createStore = \<lparr>rs_sumMs = 0, rs_count = 0, rs_maxMs = 0, rs_slow = 0\<rparr>"

definition recordQuery :: "rat \<Rightarrow> rat \<Rightarrow> request_store option \<Rightarrow> request_store option" where
  "recordQuery durationMs slowThresholdMs store =
     map_option (\<lambda>s. s\<lparr>rs_sumMs := rs_sumMs s + durationMs, rs_count := rs_count s + 1, rs_maxMs := max (rs_maxMs s) durationMs,
       rs_slow := (if durationMs \<ge> slowThresholdMs then rs_slow s + 1 else rs_slow s)\<rparr>) store"

text \<open>\<open>Number(value)\<close> is none for what is not a finite number.\<close>

definition positiveNumber :: "(string option \<Rightarrow> rat option) \<Rightarrow> string option \<Rightarrow> rat \<Rightarrow> rat" where
  "positiveNumber number v fallback = (case number v of Some parsed \<Rightarrow> if parsed > 0 then parsed else fallback | None \<Rightarrow> fallback)"

definition logging_enabled :: "string option \<Rightarrow> bool" where
  "logging_enabled PERFORMANCE_LOGGING_ENABLED = (PERFORMANCE_LOGGING_ENABLED \<noteq> Some ''false'')"

text \<open>The event of a query: the statistics of the request it belongs to, if any, and the line that is logged.\<close>

definition query_event :: "bool \<Rightarrow> rat \<Rightarrow> (string \<Rightarrow> string \<times> string) \<Rightarrow> rat \<Rightarrow> string \<Rightarrow> request_store option
    \<Rightarrow> request_store option \<times> (rat \<times> string \<times> string) option" where
  "query_event timing slowQueryMs queryIdentity durationMs query store =
     (if \<not> timing then (store, None)
      else (recordQuery durationMs slowQueryMs store,
            if durationMs < slowQueryMs then None else Some (durationMs, queryIdentity query)))"

lemma statistics:
  "fold (\<lambda>t. recordQuery t slow) ts (Some s) =
     Some \<lparr>rs_sumMs = rs_sumMs s + sum_list ts, rs_count = rs_count s + length ts, rs_maxMs = fold max ts (rs_maxMs s),
       rs_slow = rs_slow s + length (filter (\<lambda>t. slow \<le> t) ts)\<rparr>"
  by (induction ts arbitrary: s) (simp_all add: recordQuery_def max.commute add.assoc)

section \<open>The slow-request log\<close>

text \<open>What a handler throws, as far as the interceptor looks at it: a Prisma error code, and the status of an HTTP exception.\<close>

record thrown_error =
  tx_code :: "string option"
  tx_status :: "int option"

definition responseStatus :: "int \<Rightarrow> thrown_error option \<Rightarrow> int" where
  "responseStatus statusCode e = (case e of None \<Rightarrow> statusCode | Some x \<Rightarrow> (case tx_status x of Some s \<Rightarrow> s | None \<Rightarrow> 500))"

record request_info =
  ri_method :: string
  ri_route :: string
  ri_statusCode :: int

record log_fields =
  lf_event :: string
  lf_method :: string
  lf_route :: string
  lf_status :: int
  lf_totalMs :: int
  lf_queryCount :: nat
  lf_sumMs :: int
  lf_maxMs :: int
  lf_slow :: nat
  lf_errorCode :: "string option"

definition logIfNeeded :: "rat \<Rightarrow> request_info \<Rightarrow> request_store \<Rightarrow> rat \<Rightarrow> thrown_error option \<Rightarrow> log_fields option" where
  "logIfNeeded slowRequestMs request store totalMs e =
     (let errorCode = Option.bind e tx_code; poolTimeout = (errorCode = Some ''P2024'')
      in if totalMs < slowRequestMs \<and> \<not> poolTimeout then None
         else Some \<lparr>lf_event = (if poolTimeout then ''db_pool_timeout'' else ''slow_api_request''), lf_method = ri_method request,
           lf_route = ri_route request, lf_status = responseStatus (ri_statusCode request) e, lf_totalMs = js_round totalMs,
           lf_queryCount = rs_count store, lf_sumMs = js_round (rs_sumMs store), lf_maxMs = js_round (rs_maxMs store), lf_slow = rs_slow store,
           lf_errorCode = (case errorCode of Some c \<Rightarrow> if c = [] then None else Some c | None \<Rightarrow> None)\<rparr>)"

datatype 'a signal = NextValue 'a | Failed thrown_error | Completed

text \<open>The signals of the handler, each with the time since the request began and the statistics then; they are passed on, and the
  first that ends the request may be logged.\<close>

fun intercept :: "bool \<Rightarrow> rat \<Rightarrow> request_info \<Rightarrow> bool \<Rightarrow> ('a signal \<times> rat \<times> request_store) list \<Rightarrow> 'a signal list \<times> log_fields list" where
  "intercept enabled slow request finished [] = ([], [])"
| "intercept enabled slow request finished ((s, t, store) # rest) =
     (let ends = (case s of NextValue _ \<Rightarrow> False | _ \<Rightarrow> True);
          logged = (if enabled \<and> \<not> finished \<and> ends
            then (case logIfNeeded slow request store t (case s of Failed e \<Rightarrow> Some e | _ \<Rightarrow> None) of Some f \<Rightarrow> [f] | None \<Rightarrow> []) else []);
          (out, logs) = intercept enabled slow request (finished \<or> ends) rest
      in (s # out, logged @ logs))"

lemma intercept_passes: "fst (intercept enabled slow request finished signals) = map fst signals"
  by (induction enabled slow request finished signals rule: intercept.induct) (auto simp: Let_def case_prod_unfold)

lemma intercept_finished: "snd (intercept enabled slow request True signals) = []"
  by (induction signals) (auto simp: Let_def case_prod_unfold)

lemma intercept_logs_once: "length (snd (intercept enabled slow request finished signals)) \<le> 1"
proof (induction enabled slow request finished signals rule: intercept.induct)
  case (2 enabled slow request finished s t store rest)
  then show ?case by (cases s) (auto simp: Let_def case_prod_unfold intercept_finished split: option.split)
qed simp

section \<open>Probes\<close>

text \<open>What a probe throws: an \<open>AggregateError\<close>, an \<open>Error\<close> with the fields that are reported, or another value with its text.\<close>

datatype thrown =
    AggregateError string "thrown list" "thrown option"
  | PlainError "string option" string "string option" "thrown option"
  | OtherValue string

definition error_line :: "string option \<Rightarrow> string \<Rightarrow> string option \<Rightarrow> string" where
  "error_line code message address =
     (case filter (\<lambda>s. s \<noteq> []) [case code of Some c \<Rightarrow> c | None \<Rightarrow> [], message, case address of Some a \<Rightarrow> a | None \<Rightarrow> []] of
        [] \<Rightarrow> [] | s # ss \<Rightarrow> s @ concat (map (\<lambda>x. '' '' @ x) ss))"

function visit :: "nat \<Rightarrow> thrown \<Rightarrow> string list" where
  "visit depth (AggregateError m es c) = (if depth > 4 then [] else concat (map (visit (depth + 1)) (take 4 es)))"
| "visit depth (PlainError code message address cause) =
     (if depth > 4 then [] else error_line code message address # (case cause of None \<Rightarrow> [] | Some c \<Rightarrow> visit (depth + 1) c))"
| "visit depth (OtherValue s) = []"
  by pat_completeness auto
termination by (relation "measure (\<lambda>(depth, e). 5 - depth)") auto

definition thrown_cause :: "thrown \<Rightarrow> thrown option" where
  "thrown_cause e = (case e of AggregateError _ _ c \<Rightarrow> c | PlainError _ _ _ c \<Rightarrow> c | OtherValue _ \<Rightarrow> None)"

definition describeError :: "thrown \<Rightarrow> string \<times> string list" where
  "describeError e =
     (case e of OtherValue s \<Rightarrow> (s, [])
      | AggregateError m _ _ \<Rightarrow> (m, visit 0 (case thrown_cause e of Some c \<Rightarrow> c | None \<Rightarrow> e))
      | PlainError _ m _ _ \<Rightarrow> (m, visit 0 (case thrown_cause e of Some c \<Rightarrow> c | None \<Rightarrow> e)))"

record url_parts =
  up_protocol :: string
  up_hostname :: string
  up_port :: string

definition sanitizedTarget :: "(string \<Rightarrow> url_parts option) \<Rightarrow> string option \<Rightarrow> string" where
  "sanitizedTarget url raw =
     (if \<not> truthy raw then ''(unset)''
      else case url (the raw) of
        Some u \<Rightarrow> up_protocol u @ ''//'' @ up_hostname u @ '':'' @ (if up_port u = [] then ''(default)'' else up_port u)
      | None \<Rightarrow> ''(unparseable: '' @ take 12 (the raw) @ ''...)'')"

datatype 'a probe = Healthy rat "string option" 'a | Unhealthy "string option" string "string list"

definition thrown_message :: "thrown \<Rightarrow> string" where
  "thrown_message e = (case e of AggregateError m _ _ \<Rightarrow> m | PlainError _ m _ _ \<Rightarrow> m | OtherValue s \<Rightarrow> s)"

text \<open>\<open>Promise.race\<close> with the timer: what the dependency answers, unless it takes longer.\<close>

definition timeout :: "rat \<Rightarrow> (int \<Rightarrow> string) \<Rightarrow> int \<Rightarrow> thrown + 'a \<Rightarrow> thrown + 'a" where
  "timeout elapsed show_int ms r = (if elapsed > of_int ms then Inl (PlainError None (''timeout '' @ show_int ms @ ''ms'') None None) else r)"

definition health_database :: "rat \<Rightarrow> (int \<Rightarrow> string) \<Rightarrow> thrown + unit \<Rightarrow> unit probe" where
  "health_database elapsed show_int answer =
     (case timeout elapsed show_int 5000 answer of
        Inr _ \<Rightarrow> Healthy elapsed None () | Inl e \<Rightarrow> Unhealthy None (thrown_message e) [])"

text \<open>The probe of Redis connects first when the client has given up; the error of the socket, if one was seen, is added.\<close>

definition health_redis :: "(string \<Rightarrow> url_parts option) \<Rightarrow> string option \<Rightarrow> rat \<Rightarrow> (int \<Rightarrow> string) \<Rightarrow> string \<Rightarrow> thrown + unit \<Rightarrow> thrown + unit
    \<Rightarrow> thrown option \<Rightarrow> unit probe" where
  "health_redis url redisUrl elapsed show_int status connect ping lastRedisError =
     (let r = (if status \<in> {''end'', ''close''} then (case connect of Inl e \<Rightarrow> Inl e | Inr _ \<Rightarrow> timeout elapsed show_int 5000 ping)
               else timeout elapsed show_int 5000 ping)
      in case r of
           Inr _ \<Rightarrow> Healthy elapsed (Some (sanitizedTarget url redisUrl)) ()
         | Inl e \<Rightarrow> (case describeError e of (message, causes) \<Rightarrow>
             Unhealthy (Some (sanitizedTarget url redisUrl)) message
               (causes @ (case lastRedisError of Some l \<Rightarrow> map (\<lambda>c. ''socket: '' @ c) (snd (describeError l)) | None \<Rightarrow> []))))"

definition health_solana :: "(string \<Rightarrow> url_parts option) \<Rightarrow> string option \<Rightarrow> rat \<Rightarrow> (int \<Rightarrow> string) \<Rightarrow> thrown + int \<Rightarrow> int probe" where
  "health_solana url rpcUrl elapsed show_int getSlot =
     (case timeout elapsed show_int 8000 getSlot of
        Inr slot \<Rightarrow> Healthy elapsed None slot
      | Inl e \<Rightarrow> (case describeError e of (message, causes) \<Rightarrow>
          Unhealthy (Some (sanitizedTarget url (Some (case rpcUrl of Some u \<Rightarrow> u | None \<Rightarrow> ''https://api.devnet.solana.com'')))) message causes))"

text \<open>However deep and wide the chain of causes is, the report stays small.\<close>

lemma visit_bounded: "length (visit depth e) \<le> (if depth > 4 then 0 else 4 ^ (4 - depth))"
proof (induction depth e rule: visit.induct)
  case (1 depth m es c)
  show ?case
  proof (cases "depth > 4")
    case False
    let ?b = "if depth + 1 > 4 then 0 else 4 ^ (4 - (depth + 1)) :: nat"
    have each: "length (visit (depth + 1) x) \<le> ?b" if "x \<in> set (take 4 es)" for x using 1 [OF False that] .
    have "length (concat (map (visit (depth + 1)) xs)) \<le> length xs * ?b" if "set xs \<subseteq> set (take 4 es)" for xs
      using that each by (induction xs) (auto intro: add_mono)
    then have "length (concat (map (visit (depth + 1)) (take 4 es))) \<le> length (take 4 es) * ?b" by blast
    also have "\<dots> \<le> 4 * ?b" by (rule mult_right_mono) simp_all
    also have "4 * ?b \<le> 4 ^ (4 - depth)"
    proof -
      have "depth \<in> {0, 1, 2, 3, 4}" using False by auto
      then show ?thesis by auto
    qed
    finally show ?thesis using False by simp
  qed simp
next
  case (2 depth code message address cause)
  show ?case
  proof (cases "depth > 4")
    case False
    let ?b = "if depth + 1 > 4 then 0 else 4 ^ (4 - (depth + 1)) :: nat"
    have "length (visit depth (PlainError code message address cause)) \<le> 1 + ?b"
      using 2 [OF False] False by (auto split: option.split)
    also have "\<dots> \<le> 4 ^ (4 - depth)"
    proof -
      have "depth \<in> {0, 1, 2, 3, 4}" using False by auto
      then show ?thesis by auto
    qed
    finally show ?thesis using False by simp
  qed simp
qed simp

lemma describe_bounded: "length (snd (describeError e)) \<le> 256"
  using visit_bounded [of 0] by (auto simp: describeError_def split: thrown.split)

end
