(* ===== verification/Web_Session.thy ===== *)
theory Web_Session
  imports Schema
begin

text \<open>
  \<open>apps/web/src/lib/api.ts\<close>: the sessions that a browser keeps of the accounts signed in on it, the identity of
  a tab, token refresh, sign-out and the request wrapper.  The state \<open>browser\<close> holds \<open>localStorage\<close> (shared by all
  tabs), \<open>sessionStorage\<close> and the module variables of one tab, and the clock.  The value under
  \<open>sp_session_index_v2\<close> is kept as \<open>JSON.parse\<close> returns it, every other value as the string it is.

  At an await the code lets other tabs and other calls run.  A \<open>fetch\<close> is therefore a function of the request
  and of the browser when it is sent, and returns the answer (or none, when it rejects) with the browser as
  it is when the answer is there; waiting for a lock and for the refresh that another call started likewise.
\<close>

datatype web_mode = StaffMode | WorkerMode

record stored_session =
  ss_id :: string
  ss_email :: string
  ss_role :: string
  ss_modes :: "web_mode list"
  ss_defaultMode :: web_mode
  ss_updatedAt :: instant

datatype index_text = NoIndex | Unparsable | Parsed json

record browser =
  br_path :: "string option"           \<comment> \<open>\<open>window.location.pathname\<close>; none on the server\<close>
  br_index :: index_text
  br_local :: "string \<rightharpoonup> string"
  br_tab :: "string \<rightharpoonup> string"
  br_migrated :: bool                  \<comment> \<open>\<open>legacyMigrationDone\<close>\<close>
  br_inflight :: "string list"         \<comment> \<open>the keys of \<open>refreshPromises\<close>\<close>
  br_now :: instant

section \<open>Keys and tokens\<close>

definition mode_name :: "web_mode \<Rightarrow> string" where
  "mode_name m = (case m of StaffMode \<Rightarrow> ''staff'' | WorkerMode \<Rightarrow> ''worker'')"

definition web_mode_of :: "string \<Rightarrow> web_mode option" where
  "web_mode_of s = (if s = ''worker'' then Some WorkerMode else if s = ''staff'' then Some StaffMode else None)"

definition LEGACY_ACCESS_KEY :: string where "LEGACY_ACCESS_KEY = ''sp_access_token''"
definition LEGACY_REFRESH_KEY :: string where "LEGACY_REFRESH_KEY = ''sp_refresh_token''"
definition legacyAccessKey :: "web_mode \<Rightarrow> string" where "legacyAccessKey m = ''sp_'' @ mode_name m @ ''_access_token''"
definition legacyRefreshKey :: "web_mode \<Rightarrow> string" where "legacyRefreshKey m = ''sp_'' @ mode_name m @ ''_refresh_token''"
definition ACTIVE_SESSION_KEY :: string where "ACTIVE_SESSION_KEY = ''sp_active_session_id''"
definition ACTIVE_MODE_KEY :: string where "ACTIVE_MODE_KEY = ''sp_active_app_mode''"
definition LAST_SESSION_KEY :: string where "LAST_SESSION_KEY = ''sp_last_session_id''"
definition lastModeKey :: "web_mode \<Rightarrow> string" where "lastModeKey m = ''sp_last_'' @ mode_name m @ ''_session_id''"
definition sessionAccessKey :: "string \<Rightarrow> string" where "sessionAccessKey i = ''sp_session_'' @ i @ ''_access_token''"
definition sessionRefreshKey :: "string \<Rightarrow> string" where "sessionRefreshKey i = ''sp_session_'' @ i @ ''_refresh_token''"

record token_claims =
  tc_sub :: "string option"
  tc_email :: "string option"
  tc_role :: "string option"
  tc_modes :: "string list option"
  tc_exp :: "int option"

text \<open>\<open>ww_parse\<close> is \<open>JSON.parse\<close> after \<open>atob\<close>, none when either throws or the value is null; \<open>ww_wait\<close> what happens until the lock
  of a session is granted; \<open>ww_join\<close> the outcome of the refresh of a session that is under way.\<close>

record web_world =
  ww_parse :: "string \<Rightarrow> token_claims option"
  ww_wait :: "string \<Rightarrow> browser \<Rightarrow> browser"
  ww_join :: "string \<Rightarrow> browser \<Rightarrow> bool \<times> browser"

definition payload_part :: "string \<Rightarrow> string option" where
  "payload_part token = (case dropWhile (\<lambda>c. c \<noteq> CHR ''.'') token of [] \<Rightarrow> None | _ # rest \<Rightarrow> Some (takeWhile (\<lambda>c. c \<noteq> CHR ''.'') rest))"

definition from_base64url :: "string \<Rightarrow> string" where
  "from_base64url s =
     map (\<lambda>c. if c = CHR ''-'' then CHR ''+'' else if c = CHR ''_'' then CHR ''/'' else c) s
     @ replicate ((length s + 3) div 4 * 4 - length s) CHR ''=''"

definition decodeClaims :: "web_world \<Rightarrow> string \<Rightarrow> token_claims option" where
  "decodeClaims w token =
     (case payload_part token of None \<Rightarrow> None
      | Some encoded \<Rightarrow> if encoded = [] then None else ww_parse w (from_base64url encoded))"

definition legacyModeForRole :: "string option \<Rightarrow> web_mode option" where
  "legacyModeForRole role = (if \<not> truthy role then None else Some (if role = Some ''WORKER'' then WorkerMode else StaffMode))"

definition path_starts :: "string \<Rightarrow> string \<Rightarrow> bool" where
  "path_starts p s = (take (length p) s = p)"

definition modeForPage :: "browser \<Rightarrow> web_mode option" where
  "modeForPage b =
     (case br_path b of None \<Rightarrow> None
      | Some p \<Rightarrow> if path_starts ''/me'' p then Some WorkerMode else if path_starts ''/dashboard'' p then Some StaffMode else None)"

section \<open>The session index\<close>

definition json_mode :: "json option \<Rightarrow> web_mode option" where
  "json_mode j = (case j of Some (JStr s) \<Rightarrow> web_mode_of s | _ \<Rightarrow> None)"

definition raw_modes :: "(string \<rightharpoonup> json) \<Rightarrow> web_mode list" where
  "raw_modes raw =
     (case raw ''modes'' of Some (JList ms) \<Rightarrow> List.map_filter (\<lambda>m. json_mode (Some m)) ms
      | _ \<Rightarrow> (case json_mode (raw ''slot'') of Some m \<Rightarrow> [m] | None \<Rightarrow> []))"

definition preferred_mode :: "web_mode option \<Rightarrow> web_mode list \<Rightarrow> web_mode" where
  "preferred_mode m modes = (case m of Some x \<Rightarrow> if x \<in> set modes then x else modes ! 0 | None \<Rightarrow> modes ! 0)"

definition read_item :: "json \<Rightarrow> stored_session list" where
  "read_item item =
     (case item of JObj fs \<Rightarrow>
        let raw = map_of fs; modes = raw_modes raw
        in (case (raw ''id'', raw ''email'', raw ''role'', raw ''updatedAt'') of
              (Some (JStr i), Some (JStr e), Some (JStr r), Some (JNum n)) \<Rightarrow>
                if modes = [] then []
                else [\<lparr>ss_id = i, ss_email = e, ss_role = r, ss_modes = modes,
                       ss_defaultMode = preferred_mode (json_mode (raw ''defaultMode'')) modes, ss_updatedAt = n\<rparr>]
            | _ \<Rightarrow> [])
      | _ \<Rightarrow> [])"

definition readSessionIndex :: "browser \<Rightarrow> stored_session list" where
  "readSessionIndex b =
     (if br_path b = None then []
      else case br_index b of Parsed (JList items) \<Rightarrow> concat (map read_item items) | _ \<Rightarrow> [])"

definition session_json :: "stored_session \<Rightarrow> json" where
  "session_json s = JObj [(''id'', JStr (ss_id s)), (''email'', JStr (ss_email s)), (''role'', JStr (ss_role s)),
     (''modes'', JList (map (\<lambda>m. JStr (mode_name m)) (ss_modes s))), (''defaultMode'', JStr (mode_name (ss_defaultMode s))),
     (''updatedAt'', JNum (ss_updatedAt s))]"

definition writeSessionIndex :: "stored_session list \<Rightarrow> browser \<Rightarrow> browser" where
  "writeSessionIndex ss b = b\<lparr>br_index := Parsed (JList (map session_json ss))\<rparr>"

definition set_local :: "string \<Rightarrow> string \<Rightarrow> browser \<Rightarrow> browser" where
  "set_local k v b = b\<lparr>br_local := (br_local b)(k \<mapsto> v)\<rparr>"

definition remove_local :: "string \<Rightarrow> browser \<Rightarrow> browser" where
  "remove_local k b = b\<lparr>br_local := (br_local b)(k := None)\<rparr>"

definition set_tab :: "string \<Rightarrow> string \<Rightarrow> browser \<Rightarrow> browser" where
  "set_tab k v b = b\<lparr>br_tab := (br_tab b)(k \<mapsto> v)\<rparr>"

definition remove_tab :: "string \<Rightarrow> browser \<Rightarrow> browser" where
  "remove_tab k b = b\<lparr>br_tab := (br_tab b)(k := None)\<rparr>"

text \<open>The two loops over modes that the code repeats: pointers to a session that lost a mode are removed, pointers
  of the modes it has are set.\<close>

definition drop_pointer :: "string \<Rightarrow> web_mode \<Rightarrow> browser \<Rightarrow> browser" where
  "drop_pointer i m b = (if br_local b (lastModeKey m) = Some i then remove_local (lastModeKey m) b else b)"

definition drop_lost :: "string \<Rightarrow> web_mode list \<Rightarrow> web_mode list \<Rightarrow> browser \<Rightarrow> browser" where
  "drop_lost i old modes = fold (\<lambda>m b. if m \<notin> set modes then drop_pointer i m b else b) old"

definition set_pointers :: "string \<Rightarrow> web_mode list \<Rightarrow> browser \<Rightarrow> browser" where
  "set_pointers i = fold (\<lambda>m. set_local (lastModeKey m) i)"

definition claimed_modes :: "token_claims option \<Rightarrow> web_mode list" where
  "claimed_modes claims =
     (let modes = List.map_filter web_mode_of (case Option.bind claims tc_modes of Some ms \<Rightarrow> ms | None \<Rightarrow> []);
          legacyMode = legacyModeForRole (Option.bind claims tc_role)
      in if modes = [] then (case legacyMode of Some m \<Rightarrow> [m] | None \<Rightarrow> []) else modes)"

definition claimed_id :: "token_claims option \<Rightarrow> string option \<Rightarrow> string option" where
  "claimed_id claims fallbackId = (if truthy (Option.bind claims tc_sub) then Option.bind claims tc_sub else fallbackId)"

definition new_session :: "token_claims option \<Rightarrow> string \<Rightarrow> instant \<Rightarrow> stored_session" where
  "new_session claims i now =
     (let modes = claimed_modes claims
      in \<lparr>ss_id = i, ss_email = (case Option.bind claims tc_email of Some e \<Rightarrow> e | None \<Rightarrow> []),
          ss_role = (case Option.bind claims tc_role of Some r \<Rightarrow> r | None \<Rightarrow> []), ss_modes = modes,
          ss_defaultMode = preferred_mode (legacyModeForRole (Option.bind claims tc_role)) modes, ss_updatedAt = now\<rparr>)"

definition store_session :: "stored_session \<Rightarrow> string \<Rightarrow> string \<Rightarrow> bool \<Rightarrow> browser \<Rightarrow> browser" where
  "store_session session accessToken refreshToken activate b =
     (let i = ss_id session; modes = ss_modes session; existing = readSessionIndex b;
          b1 = (case find (\<lambda>s. ss_id s = i) existing of Some previous \<Rightarrow> drop_lost i (ss_modes previous) modes b | None \<Rightarrow> b);
          b2 = writeSessionIndex (filter (\<lambda>s. ss_id s \<noteq> i) existing @ [session]) b1;
          b3 = set_local (sessionAccessKey i) accessToken b2;
          b4 = (if refreshToken \<noteq> [] then set_local (sessionRefreshKey i) refreshToken b3 else b3);
          b5 = set_pointers i modes (set_local LAST_SESSION_KEY i b4)
      in if activate then set_tab ACTIVE_SESSION_KEY i b5 else b5)"

definition persistSession :: "web_world \<Rightarrow> string \<Rightarrow> string \<Rightarrow> bool \<Rightarrow> string option \<Rightarrow> browser \<Rightarrow> (string + stored_session) \<times> browser" where
  "persistSession w accessToken refreshToken activate fallbackId b =
     (let claims = decodeClaims w accessToken
      in if claimed_modes claims = [] then (Inl ''Invalid access token capabilities'', b)
         else case claimed_id claims fallbackId of
           None \<Rightarrow> (Inl ''Invalid access token subject'', b)
         | Some i \<Rightarrow> if i = [] then (Inl ''Invalid access token subject'', b)
             else let session = new_session claims i (br_now b)
                  in (Inr session, store_session session accessToken refreshToken activate b))"

text \<open>Tokens of earlier releases are stored again under the new keys, once per page load.\<close>

definition migrate_one :: "web_world \<Rightarrow> string \<times> string \<times> web_mode option \<Rightarrow> browser \<Rightarrow> browser" where
  "migrate_one w candidate b =
     (case candidate of (accessKey, refreshKey, fallbackMode) \<Rightarrow>
      case br_local b accessKey of None \<Rightarrow> b
      | Some accessToken \<Rightarrow> if accessToken = [] then b else
          let claims = decodeClaims w accessToken
          in (case (case legacyModeForRole (Option.bind claims tc_role) of Some m \<Rightarrow> Some m | None \<Rightarrow> fallbackMode) of
                None \<Rightarrow> b
              | Some mode \<Rightarrow>
                  (case persistSession w accessToken (case br_local b refreshKey of Some r \<Rightarrow> r | None \<Rightarrow> []) False
                      (Some (case Option.bind claims tc_sub of Some s \<Rightarrow> s | None \<Rightarrow> ''legacy-'' @ mode_name mode)) b of
                     (Inl e, b') \<Rightarrow> b'
                   | (Inr s, b') \<Rightarrow> remove_local refreshKey (remove_local accessKey b'))))"

definition migration_candidates :: "(string \<times> string \<times> web_mode option) list" where
  "migration_candidates = [(LEGACY_ACCESS_KEY, LEGACY_REFRESH_KEY, None),
     (legacyAccessKey StaffMode, legacyRefreshKey StaffMode, Some StaffMode),
     (legacyAccessKey WorkerMode, legacyRefreshKey WorkerMode, Some WorkerMode)]"

definition migrateLegacySessions :: "web_world \<Rightarrow> browser \<Rightarrow> browser" where
  "migrateLegacySessions w b =
     (if br_path b = None \<or> br_migrated b then b
      else fold (migrate_one w) migration_candidates (b\<lparr>br_migrated := True\<rparr>))"

section \<open>The session of the tab\<close>

definition sessionHasToken :: "browser \<Rightarrow> stored_session \<Rightarrow> bool" where
  "sessionHasToken b s = truthy (br_local b (sessionAccessKey (ss_id s)))"

definition findSession :: "browser \<Rightarrow> string option \<Rightarrow> stored_session option" where
  "findSession b i = (if \<not> truthy i then None else find (\<lambda>s. Some (ss_id s) = i \<and> sessionHasToken b s) (readSessionIndex b))"

definition newest_first :: "stored_session list \<Rightarrow> stored_session list" where
  "newest_first = js_sort (\<lambda>x y. of_int (ss_updatedAt y - ss_updatedAt x))"

definition getStoredSessions :: "web_world \<Rightarrow> browser \<Rightarrow> stored_session list \<times> browser" where
  "getStoredSessions w b =
     (if br_path b = None then ([], b)
      else let b' = migrateLegacySessions w b in (newest_first (filter (sessionHasToken b') (readSessionIndex b')), b'))"

definition page_session :: "web_mode \<Rightarrow> browser \<Rightarrow> stored_session option" where
  "page_session m b =
     (case findSession b (br_local b (lastModeKey m)) of
        Some s \<Rightarrow> if m \<in> set (ss_modes s) then Some s
          else find (\<lambda>s. m \<in> set (ss_modes s)) (newest_first (filter (sessionHasToken b) (readSessionIndex b)))
      | None \<Rightarrow> find (\<lambda>s. m \<in> set (ss_modes s)) (newest_first (filter (sessionHasToken b) (readSessionIndex b))))"

definition any_session :: "browser \<Rightarrow> stored_session option" where
  "any_session b =
     (case findSession b (br_local b LAST_SESSION_KEY) of Some s \<Rightarrow> Some s
      | None \<Rightarrow> (case newest_first (filter (sessionHasToken b) (readSessionIndex b)) of [] \<Rightarrow> None | s # _ \<Rightarrow> Some s))"

definition select_session :: "browser \<Rightarrow> stored_session option \<times> browser" where
  "select_session b =
     (case findSession b (br_tab b ACTIVE_SESSION_KEY) of Some active \<Rightarrow> (Some active, b)
      | None \<Rightarrow> (case modeForPage b of
           Some m \<Rightarrow> (case page_session m b of
               Some s \<Rightarrow> (Some s, set_tab ACTIVE_MODE_KEY (mode_name m) (set_tab ACTIVE_SESSION_KEY (ss_id s) b))
             | None \<Rightarrow> (None, b))
         | None \<Rightarrow> (case any_session b of Some s \<Rightarrow> (Some s, set_tab ACTIVE_SESSION_KEY (ss_id s) b) | None \<Rightarrow> (None, b))))"

definition currentSession :: "web_world \<Rightarrow> browser \<Rightarrow> stored_session option \<times> browser" where
  "currentSession w b = (if br_path b = None then (None, b) else select_session (migrateLegacySessions w b))"

definition removeSession :: "string \<Rightarrow> browser \<Rightarrow> browser" where
  "removeSession i b =
     (let removed = findSession b (Some i);
          b1 = writeSessionIndex (filter (\<lambda>s. ss_id s \<noteq> i) (readSessionIndex b)) b;
          b2 = remove_local (sessionRefreshKey i) (remove_local (sessionAccessKey i) b1);
          b3 = (if br_tab b2 ACTIVE_SESSION_KEY = Some i then remove_tab ACTIVE_SESSION_KEY b2 else b2);
          b4 = (if br_local b3 LAST_SESSION_KEY = Some i then remove_local LAST_SESSION_KEY b3 else b3)
      in case removed of Some s \<Rightarrow> fold (drop_pointer i) (ss_modes s) b4 | None \<Rightarrow> b4)"

definition destinationFor :: "web_mode \<Rightarrow> string" where
  "destinationFor m = (if m = WorkerMode then ''/me'' else ''/dashboard'')"

text \<open>The mode a session is shown in: the one asked for, else the tab's, else the session's own.\<close>

definition shown_mode :: "web_mode option \<Rightarrow> stored_session \<Rightarrow> browser \<Rightarrow> web_mode" where
  "shown_mode requested s b =
     (let offered = (\<lambda>m. case m of Some x \<Rightarrow> x \<in> set (ss_modes s) | None \<Rightarrow> False);
          tabMode = Option.bind (br_tab b ACTIVE_MODE_KEY) web_mode_of
      in if offered requested then the requested else if offered tabMode then the tabMode else ss_defaultMode s)"

definition activateSession :: "string \<Rightarrow> web_mode option \<Rightarrow> browser \<Rightarrow> string option \<times> browser" where
  "activateSession i requestedMode b =
     (case findSession b (Some i) of None \<Rightarrow> (None, b)
      | Some session \<Rightarrow>
          let mode = shown_mode requestedMode session b;
              b1 = set_tab ACTIVE_MODE_KEY (mode_name mode) (set_tab ACTIVE_SESSION_KEY i b)
          in (Some (destinationFor mode), set_local (lastModeKey mode) i (set_local LAST_SESSION_KEY i b1)))"

definition switchAppMode :: "web_world \<Rightarrow> web_mode \<Rightarrow> browser \<Rightarrow> string option \<times> browser" where
  "switchAppMode w mode b =
     (case currentSession w b of
        (Some session, b1) \<Rightarrow>
          if mode \<in> set (ss_modes session)
          then (Some (destinationFor mode), set_local (lastModeKey mode) (ss_id session) (set_tab ACTIVE_MODE_KEY (mode_name mode) b1))
          else (None, b1)
      | (None, b1) \<Rightarrow> (None, b1))"

definition getToken :: "web_world \<Rightarrow> browser \<Rightarrow> string option \<times> browser" where
  "getToken w b =
     (case currentSession w b of (Some s, b1) \<Rightarrow> (br_local b1 (sessionAccessKey (ss_id s)), b1) | (None, b1) \<Rightarrow> (None, b1))"

definition setTokens :: "web_world \<Rightarrow> string \<Rightarrow> string \<Rightarrow> browser \<Rightarrow> (string + stored_session) \<times> browser" where
  "setTokens w accessToken refreshToken b = persistSession w accessToken refreshToken True None b"

definition clearTokens :: "web_world \<Rightarrow> browser \<Rightarrow> browser" where
  "clearTokens w b = (case currentSession w b of (Some s, b1) \<Rightarrow> removeSession (ss_id s) b1 | (None, b1) \<Rightarrow> b1)"

definition getRefreshToken :: "browser \<Rightarrow> string \<Rightarrow> string option" where
  "getRefreshToken b i = br_local b (sessionRefreshKey i)"

section \<open>Requests\<close>

record web_request =
  rq_method :: string
  rq_path :: string
  rq_headers :: "string \<rightharpoonup> string"
  rq_body :: "json option"

record web_response =
  rs_status :: int
  rs_body :: "json option"     \<comment> \<open>none when \<open>json()\<close> rejects\<close>

type_synonym fetching = "web_request \<Rightarrow> browser \<Rightarrow> web_response option \<times> browser"

definition rs_ok :: "web_response \<Rightarrow> bool" where
  "rs_ok r = (200 \<le> rs_status r \<and> rs_status r \<le> 299)"

definition json_field :: "string \<Rightarrow> json option \<Rightarrow> json option" where
  "json_field k j = (case j of Some (JObj fs) \<Rightarrow> map_of fs k | _ \<Rightarrow> None)"

definition json_text :: "json option \<Rightarrow> string option" where
  "json_text j = (case j of Some (JStr s) \<Rightarrow> Some s | _ \<Rightarrow> None)"

definition bearer :: "string \<Rightarrow> string" where "bearer t = ''Bearer '' @ t"

text \<open>The modes that the API reports.  None stands for the answers on which the code leaves the session as it is: the
  request or its body fails, the status is an error, or no mode is known.\<close>

definition reported_modes :: "web_response option \<Rightarrow> web_mode list option" where
  "reported_modes r =
     (case r of None \<Rightarrow> None
      | Some x \<Rightarrow> if \<not> rs_ok x then None
          else (case json_field ''modes'' (rs_body x) of
                  Some (JList ms) \<Rightarrow> (case List.map_filter (\<lambda>m. json_mode (Some m)) ms of [] \<Rightarrow> None | modes \<Rightarrow> Some modes)
                | _ \<Rightarrow> None))"

definition updated_session :: "stored_session \<Rightarrow> json option \<Rightarrow> web_mode list \<Rightarrow> stored_session" where
  "updated_session s body modes = s\<lparr>ss_email := (case json_text (json_field ''email'' body) of Some e \<Rightarrow> e | None \<Rightarrow> ss_email s),
     ss_modes := modes, ss_defaultMode := preferred_mode (Some (ss_defaultMode s)) modes\<rparr>"

definition syncCurrentSession :: "web_world \<Rightarrow> fetching \<Rightarrow> browser \<Rightarrow> stored_session option \<times> browser" where
  "syncCurrentSession w ask b =
     (case currentSession w b of (None, b1) \<Rightarrow> (None, b1)
      | (Some session, b1) \<Rightarrow>
         (case br_local b1 (sessionAccessKey (ss_id session)) of None \<Rightarrow> (None, b1)
          | Some accessToken \<Rightarrow> if accessToken = [] then (None, b1) else
             (case ask \<lparr>rq_method = ''GET'', rq_path = ''/auth/session'', rq_headers = [''Authorization'' \<mapsto> bearer accessToken], rq_body = None\<rparr> b1 of
                (r, b2) \<Rightarrow>
                  (case reported_modes r of None \<Rightarrow> (Some session, b2)
                   | Some modes \<Rightarrow>
                      let updated = updated_session session (Option.bind r rs_body) modes;
                          b3 = writeSessionIndex (filter (\<lambda>s. ss_id s \<noteq> ss_id session) (readSessionIndex b2) @ [updated]) b2
                      in (Some updated, set_pointers (ss_id session) modes (drop_lost (ss_id session) (ss_modes session) modes b3))))))"

definition end_refresh :: "string \<Rightarrow> bool \<times> browser \<Rightarrow> bool \<times> browser" where
  "end_refresh i r = (case r of (ok, b) \<Rightarrow> (ok, b\<lparr>br_inflight := removeAll i (br_inflight b)\<rparr>))"

definition refresh_answered :: "web_world \<Rightarrow> string \<Rightarrow> string \<Rightarrow> web_response option \<Rightarrow> browser \<Rightarrow> bool \<times> browser" where
  "refresh_answered w i attempted r b =
     (case r of None \<Rightarrow> (False, b)
      | Some x \<Rightarrow>
         if \<not> rs_ok x then
           (if truthy (getRefreshToken b i) \<and> getRefreshToken b i \<noteq> Some attempted \<and> truthy (br_local b (sessionAccessKey i)) then (True, b)
            else (False, removeSession i b))
         else (case json_text (json_field ''accessToken'' (rs_body x)) of None \<Rightarrow> (False, b)
               | Some accessToken \<Rightarrow>
                  (case persistSession w accessToken (case json_text (json_field ''refreshToken'' (rs_body x)) of Some t \<Rightarrow> t | None \<Rightarrow> []) True None b of
                     (Inl e, b') \<Rightarrow> (False, b') | (Inr s, b') \<Rightarrow> (True, b'))))"

definition refresh_locked :: "web_world \<Rightarrow> fetching \<Rightarrow> string \<Rightarrow> string option \<Rightarrow> browser \<Rightarrow> bool \<times> browser" where
  "refresh_locked w ask i stale b =
     (let latest = br_local b (sessionAccessKey i)
      in if truthy stale \<and> truthy latest \<and> latest \<noteq> stale then (True, b)
         else case getRefreshToken b i of None \<Rightarrow> (False, removeSession i b)
           | Some attempted \<Rightarrow> if attempted = [] then (False, removeSession i b) else
              (case ask \<lparr>rq_method = ''POST'', rq_path = ''/auth/refresh'', rq_headers = [''Content-Type'' \<mapsto> ''application/json''],
                  rq_body = Some (JObj [(''refreshToken'', JStr attempted)])\<rparr> b of
                 (r, b') \<Rightarrow> refresh_answered w i attempted r b'))"

definition stale_session :: "web_world \<Rightarrow> string option \<Rightarrow> browser \<Rightarrow> stored_session option \<times> browser" where
  "stale_session w stale b =
     (case (if truthy stale then find (\<lambda>s. br_local b (sessionAccessKey (ss_id s)) = stale) (readSessionIndex b) else None) of
        Some s \<Rightarrow> (Some s, b) | None \<Rightarrow> currentSession w b)"

definition refreshSession :: "web_world \<Rightarrow> fetching \<Rightarrow> string option \<Rightarrow> browser \<Rightarrow> bool \<times> browser" where
  "refreshSession w ask stale b =
     (case stale_session w stale b of (None, b1) \<Rightarrow> (False, b1)
      | (Some session, b1) \<Rightarrow>
          let i = ss_id session
          in if i \<in> set (br_inflight b1) then ww_join w i b1
             else end_refresh i (refresh_locked w ask i stale (ww_wait w i (b1\<lparr>br_inflight := i # br_inflight b1\<rparr>))))"

text \<open>\<open>restoreSession\<close> makes up to two requests, \<open>asks 0\<close> and \<open>asks 1\<close>.\<close>

definition usable_token :: "web_world \<Rightarrow> string option \<Rightarrow> instant \<Rightarrow> bool" where
  "usable_token w accessToken now =
     (truthy accessToken \<and> (case Option.bind (decodeClaims w (the accessToken)) tc_exp of Some e \<Rightarrow> e \<noteq> 0 \<and> e * 1000 > now + 10000 | None \<Rightarrow> False))"

definition renew_if_expired :: "web_world \<Rightarrow> fetching \<Rightarrow> string option \<Rightarrow> browser \<Rightarrow> bool \<times> browser" where
  "renew_if_expired w ask accessToken b = (if usable_token w accessToken (br_now b) then (True, b) else refreshSession w ask accessToken b)"

definition restoreSession :: "web_world \<Rightarrow> (nat \<Rightarrow> fetching) \<Rightarrow> browser \<Rightarrow> string option \<times> browser" where
  "restoreSession w asks b =
     (case currentSession w b of (None, b1) \<Rightarrow> (None, b1)
      | (Some session, b1) \<Rightarrow>
         (case renew_if_expired w (asks 0) (br_local b1 (sessionAccessKey (ss_id session))) b1 of (False, b2) \<Rightarrow> (None, b2)
          | (True, b2) \<Rightarrow>
              (case syncCurrentSession w (asks 1) b2 of (None, b3) \<Rightarrow> (None, b3)
               | (Some refreshed, b3) \<Rightarrow>
                   let mode = shown_mode (modeForPage b3) refreshed b3
                   in (Some (destinationFor mode), set_tab ACTIVE_MODE_KEY (mode_name mode) b3))))"

definition logoutSession :: "web_world \<Rightarrow> fetching \<Rightarrow> browser \<Rightarrow> browser" where
  "logoutSession w ask b =
     (case currentSession w b of (None, b1) \<Rightarrow> b1
      | (Some session, b1) \<Rightarrow>
         let i = ss_id session
         in removeSession i
              (case getRefreshToken b1 i of None \<Rightarrow> b1
               | Some t \<Rightarrow> if t = [] then b1
                   else snd (ask \<lparr>rq_method = ''POST'', rq_path = ''/auth/logout'', rq_headers = [''Content-Type'' \<mapsto> ''application/json''],
                          rq_body = Some (JObj [(''refreshToken'', JStr t)])\<rparr> b1)))"

record api_options =
  ao_method :: "string option"
  ao_body :: "json option"
  ao_auth :: bool                      \<comment> \<open>\<open>options.auth !== false\<close>\<close>
  ao_headers :: "string \<rightharpoonup> string"

datatype web_failure = ApiError int string | Rejected string

definition api_request :: "string \<Rightarrow> api_options \<Rightarrow> string option \<Rightarrow> web_request" where
  "api_request path opts token =
     (let headers = [''Content-Type'' \<mapsto> ''application/json''] ++ ao_headers opts
      in \<lparr>rq_method = (case ao_method opts of Some m \<Rightarrow> m | None \<Rightarrow> ''GET''), rq_path = path,
          rq_headers = (if truthy token then headers(''Authorization'' \<mapsto> bearer (the token)) else headers), rq_body = ao_body opts\<rparr>)"

definition send_request :: "web_world \<Rightarrow> fetching \<Rightarrow> string \<Rightarrow> api_options \<Rightarrow> browser \<Rightarrow> string option \<times> web_response option \<times> browser" where
  "send_request w ask path opts b =
     (case (if ao_auth opts then getToken w b else (None, b)) of (token, b1) \<Rightarrow> (token, ask (api_request path opts token) b1))"

definition api_result :: "(int \<Rightarrow> string) \<Rightarrow> web_response option \<Rightarrow> web_failure + json" where
  "api_result show_int r =
     (case r of None \<Rightarrow> Inl (Rejected ''fetch failed'')
      | Some x \<Rightarrow>
         let data = (case rs_body x of Some d \<Rightarrow> d | None \<Rightarrow> JObj [])
         in if rs_ok x then Inr data
            else if data = JNull then Inl (Rejected ''TypeError'')
            else (case json_text (json_field ''message'' (Some data)) of
                    Some m \<Rightarrow> Inl (ApiError (rs_status x) m)
                  | None \<Rightarrow> Inl (ApiError (rs_status x) (''Request failed ('' @ show_int (rs_status x) @ '')''))))"

text \<open>\<open>api\<close> makes up to three requests: its own, the refresh, and its own again.\<close>

definition api_exchange :: "web_world \<Rightarrow> (nat \<Rightarrow> fetching) \<Rightarrow> string \<Rightarrow> api_options \<Rightarrow> browser \<Rightarrow> web_response option \<times> browser" where
  "api_exchange w asks path opts b =
     (case send_request w (asks 0) path opts b of
        (tokenUsed, Some r, b1) \<Rightarrow>
          if rs_status r = 401 \<and> ao_auth opts
          then (case refreshSession w (asks 1) tokenUsed b1 of
                  (True, b2) \<Rightarrow> snd (send_request w (asks 2) path opts b2)
                | (False, b2) \<Rightarrow> (Some r, b2))
          else (Some r, b1)
      | (_, None, b1) \<Rightarrow> (None, b1))"

definition api :: "web_world \<Rightarrow> (nat \<Rightarrow> fetching) \<Rightarrow> (int \<Rightarrow> string) \<Rightarrow> string \<Rightarrow> api_options \<Rightarrow> browser \<Rightarrow> (web_failure + json) \<times> browser" where
  "api w asks show_int path opts b = (case api_exchange w asks path opts b of (r, b') \<Rightarrow> (api_result show_int r, b'))"

section \<open>Cached answers\<close>

text \<open>\<open>apps/web/src/lib/query.tsx\<close>: the key of a cached answer holds the account it was asked for.\<close>

definition sessionId :: "web_world \<Rightarrow> browser \<Rightarrow> string" where
  "sessionId w b = (case fst (currentSession w b) of Some s \<Rightarrow> ss_id s | None \<Rightarrow> ''anonymous'')"

definition apiQueryKey :: "web_world \<Rightarrow> browser \<Rightarrow> string \<Rightarrow> string list" where
  "apiQueryKey w b path = [''api'', sessionId w b, path]"

definition invalidates :: "web_world \<Rightarrow> browser \<Rightarrow> string list \<Rightarrow> string list \<Rightarrow> bool" where
  "invalidates w b pathPrefixes queryKey =
     (case queryKey of kind # owner # path # _ \<Rightarrow>
        kind = ''api'' \<and> owner = sessionId w b \<and> list_ex (\<lambda>p. path_starts p path) pathPrefixes
      | _ \<Rightarrow> False)"

end
