(* ===== verification/Web_Safety.thy ===== *)
theory Web_Safety
  imports Web_Session
begin

text \<open>
  What the session store of \<open>Web_Session\<close> promises: the index stays well formed under every order of calls of all
  tabs, signing out leaves nothing of the session and nothing else changes, an expired token is renewed and the
  request repeated, and what happens when the tab changed its account before a request was answered.
\<close>

section \<open>Keys\<close>

lemma key_eqs [simp]:
  "sessionAccessKey i = sessionAccessKey j \<longleftrightarrow> i = j" "sessionRefreshKey i = sessionRefreshKey j \<longleftrightarrow> i = j"
  by (simp_all add: sessionAccessKey_def sessionRefreshKey_def)

lemma key_kinds [simp]: "sessionAccessKey i \<noteq> sessionRefreshKey j" "sessionRefreshKey j \<noteq> sessionAccessKey i"
proof -
  have "rev (sessionAccessKey i) \<noteq> rev (sessionRefreshKey j)"
    by (simp add: sessionAccessKey_def sessionRefreshKey_def)
  then show "sessionAccessKey i \<noteq> sessionRefreshKey j" "sessionRefreshKey j \<noteq> sessionAccessKey i" by auto
qed

lemma last_keys [simp]:
  "lastModeKey m \<noteq> sessionAccessKey i" "sessionAccessKey i \<noteq> lastModeKey m" "lastModeKey m \<noteq> sessionRefreshKey i" "sessionRefreshKey i \<noteq> lastModeKey m"
  "LAST_SESSION_KEY \<noteq> sessionAccessKey i" "sessionAccessKey i \<noteq> LAST_SESSION_KEY" "LAST_SESSION_KEY \<noteq> sessionRefreshKey i"
  "sessionRefreshKey i \<noteq> LAST_SESSION_KEY" "LAST_SESSION_KEY \<noteq> lastModeKey m" "lastModeKey m \<noteq> LAST_SESSION_KEY"
  "lastModeKey m = lastModeKey m' \<longleftrightarrow> m = m'"
  by (cases m; cases m'; simp add: lastModeKey_def sessionAccessKey_def sessionRefreshKey_def LAST_SESSION_KEY_def mode_name_def)+

lemma tab_keys [simp]: "ACTIVE_MODE_KEY \<noteq> ACTIVE_SESSION_KEY" "ACTIVE_SESSION_KEY \<noteq> ACTIVE_MODE_KEY"
  by (simp_all add: ACTIVE_MODE_KEY_def ACTIVE_SESSION_KEY_def)

section \<open>Writes\<close>

lemma store_reads [simp]:
  "readSessionIndex (set_local k v b) = readSessionIndex b" "readSessionIndex (remove_local k b) = readSessionIndex b"
  "readSessionIndex (set_tab k v b) = readSessionIndex b" "readSessionIndex (remove_tab k b) = readSessionIndex b"
  "readSessionIndex (b\<lparr>br_migrated := x\<rparr>) = readSessionIndex b" "readSessionIndex (b\<lparr>br_inflight := l\<rparr>) = readSessionIndex b"
  by (simp_all add: readSessionIndex_def set_local_def remove_local_def set_tab_def remove_tab_def)

lemma store_fields [simp]:
  "br_local (set_local k v b) = (br_local b)(k \<mapsto> v)" "br_local (remove_local k b) = (br_local b)(k := None)"
  "br_local (set_tab k v b) = br_local b" "br_local (remove_tab k b) = br_local b" "br_local (writeSessionIndex ss b) = br_local b"
  "br_tab (set_local k v b) = br_tab b" "br_tab (remove_local k b) = br_tab b" "br_tab (writeSessionIndex ss b) = br_tab b"
  "br_tab (set_tab k v b) = (br_tab b)(k \<mapsto> v)" "br_tab (remove_tab k b) = (br_tab b)(k := None)"
  "br_path (set_local k v b) = br_path b" "br_path (remove_local k b) = br_path b" "br_path (set_tab k v b) = br_path b"
  "br_path (remove_tab k b) = br_path b" "br_path (writeSessionIndex ss b) = br_path b"
  "br_migrated (set_local k v b) = br_migrated b" "br_migrated (remove_local k b) = br_migrated b" "br_migrated (set_tab k v b) = br_migrated b"
  "br_migrated (remove_tab k b) = br_migrated b" "br_migrated (writeSessionIndex ss b) = br_migrated b"
  "br_inflight (set_local k v b) = br_inflight b" "br_inflight (remove_local k b) = br_inflight b" "br_inflight (set_tab k v b) = br_inflight b"
  "br_inflight (remove_tab k b) = br_inflight b" "br_inflight (writeSessionIndex ss b) = br_inflight b"
  by (simp_all add: set_local_def remove_local_def set_tab_def remove_tab_def writeSessionIndex_def)

definition well_formed :: "stored_session \<Rightarrow> bool" where
  "well_formed s = (ss_modes s \<noteq> [] \<and> ss_defaultMode s \<in> set (ss_modes s))"

lemma preferred_in: "ms \<noteq> [] \<Longrightarrow> preferred_mode m ms \<in> set ms"
  by (simp add: preferred_mode_def split: option.split)

lemma preferred_same: "m \<in> set ms \<Longrightarrow> preferred_mode (Some m) ms = m"
  by (simp add: preferred_mode_def)

lemma read_item_well_formed: "s \<in> set (read_item j) \<Longrightarrow> well_formed s"
  by (auto simp: read_item_def Let_def well_formed_def preferred_in split: json.splits option.splits if_splits)

lemma read_well_formed: "s \<in> set (readSessionIndex b) \<Longrightarrow> well_formed s"
  by (auto simp: readSessionIndex_def read_item_well_formed split: index_text.splits json.splits if_splits)

lemma mode_roundtrip [simp]: "web_mode_of (mode_name m) = Some m"
  by (cases m) (simp_all add: web_mode_of_def mode_name_def)

lemma read_item_written: "well_formed s \<Longrightarrow> read_item (session_json s) = [s]"
  by (simp add: read_item_def session_json_def raw_modes_def json_mode_def well_formed_def preferred_same comp_def List.map_filter_def Let_def)

lemma read_written:
  assumes "\<And>s. s \<in> set ss \<Longrightarrow> well_formed s" and "br_path b \<noteq> None"
  shows "readSessionIndex (writeSessionIndex ss b) = ss"
proof -
  have "concat (map (read_item \<circ> session_json) ss) = ss"
    using assms(1) by (induction ss) (auto simp: read_item_written)
  then show ?thesis using assms(2) by (auto simp: readSessionIndex_def writeSessionIndex_def)
qed

lemma read_on_server: "br_path b = None \<Longrightarrow> readSessionIndex b = []"
  by (simp add: readSessionIndex_def)

lemma read_removed [simp]: "readSessionIndex (writeSessionIndex (filter q (readSessionIndex b)) b) = filter q (readSessionIndex b)"
  by (cases "br_path b") (auto simp: read_on_server intro!: read_written dest: read_well_formed)

lemma new_session_well_formed: "claimed_modes claims \<noteq> [] \<Longrightarrow> well_formed (new_session claims i now)"
  by (simp add: new_session_def well_formed_def preferred_in Let_def)

lemma updated_well_formed: "modes \<noteq> [] \<Longrightarrow> well_formed (updated_session s body modes)"
  by (simp add: updated_session_def well_formed_def preferred_in)

lemma updated_id [simp]: "ss_id (updated_session s body modes) = ss_id s"
  by (simp add: updated_session_def)

lemma new_id [simp]: "ss_id (new_session claims i now) = i"
  by (simp add: new_session_def Let_def)

lemma reported_nonempty: "reported_modes r = Some modes \<Longrightarrow> modes \<noteq> []"
  by (auto simp: reported_modes_def split: option.splits if_splits json.splits list.splits)

section \<open>What every write keeps, every call keeps\<close>

locale browser_law =
  fixes P :: "browser \<Rightarrow> bool"
  assumes put: "P b \<Longrightarrow> P (set_local k v b)" "P b \<Longrightarrow> P (remove_local k b)" "P b \<Longrightarrow> P (set_tab k v b)" "P b \<Longrightarrow> P (remove_tab k b)"
    and flags: "P b \<Longrightarrow> P (b\<lparr>br_migrated := m\<rparr>)" "P b \<Longrightarrow> P (b\<lparr>br_inflight := l\<rparr>)"
    and forget: "P b \<Longrightarrow> P (writeSessionIndex (filter (\<lambda>s. ss_id s \<noteq> i) (readSessionIndex b)) b)"
    and enter: "P b \<Longrightarrow> well_formed s \<Longrightarrow> P (writeSessionIndex (filter (\<lambda>t. ss_id t \<noteq> ss_id s) (readSessionIndex b) @ [s]) b)"
begin

lemma kept_fold: "(\<And>x b. P b \<Longrightarrow> P (f x b)) \<Longrightarrow> P b \<Longrightarrow> P (fold f xs b)"
  by (induction xs arbitrary: b) simp_all

lemma drop_pointer: "P b \<Longrightarrow> P (drop_pointer i m b)"
  by (simp add: drop_pointer_def put)

lemma pointers: "P b \<Longrightarrow> P (drop_lost i old modes b)" "P b \<Longrightarrow> P (set_pointers i modes b)"
  by (auto simp: drop_lost_def set_pointers_def intro!: kept_fold drop_pointer put)

lemma store: "P b \<Longrightarrow> well_formed s \<Longrightarrow> P (store_session s a r act b)"
proof -
  assume b: "P b" and s: "well_formed s"
  define b1 where "b1 = (case find (\<lambda>t. ss_id t = ss_id s) (readSessionIndex b) of Some p \<Rightarrow> drop_lost (ss_id s) (ss_modes p) (ss_modes s) b | None \<Rightarrow> b)"
  have reads: "readSessionIndex (fold f xs x) = readSessionIndex x" if "\<And>m x. readSessionIndex (f m x) = readSessionIndex x" for f :: "web_mode \<Rightarrow> browser \<Rightarrow> browser" and xs x
    using that by (induction xs arbitrary: x) simp_all
  have "readSessionIndex b1 = readSessionIndex b"
    by (auto simp: b1_def drop_lost_def drop_pointer_def reads split: option.split)
  moreover have "P b1" using b by (simp add: b1_def pointers split: option.split)
  ultimately have "P (writeSessionIndex (filter (\<lambda>t. ss_id t \<noteq> ss_id s) (readSessionIndex b) @ [s]) b1)"
    using enter [OF _ s, of b1] by simp
  then show "P (store_session s a r act b)" by (simp add: store_session_def b1_def [symmetric] Let_def put pointers)
qed

lemma persist: "P b \<Longrightarrow> P (snd (persistSession w a r act fb b))"
  by (simp add: persistSession_def Let_def store new_session_well_formed split: option.split)

lemma migrate: "P b \<Longrightarrow> P (migrateLegacySessions w b)"
proof -
  have "P (migrate_one w c x)" if "P x" for c x
  proof -
    have "P y" if "persistSession w a r False fb x = (res, y)" for a r fb res y
      using persist [OF \<open>P x\<close>, of w a r False fb] that by simp
    then show ?thesis using that
      by (auto simp: migrate_one_def Let_def put split: option.splits prod.splits sum.splits)
  qed
  then show "P b \<Longrightarrow> P (migrateLegacySessions w b)"
    by (auto simp: migrateLegacySessions_def flags intro: kept_fold)
qed

lemma current: "P b \<Longrightarrow> P (snd (currentSession w b))"
  by (auto simp: currentSession_def select_session_def put migrate split: option.split)

lemma current_eq: "currentSession w b = (s, b') \<Longrightarrow> P b \<Longrightarrow> P b'"
  using current [of b w] by simp

lemma remove: "P b \<Longrightarrow> P (removeSession i b)"
  by (auto simp: removeSession_def Let_def put forget drop_pointer intro!: kept_fold split: option.split)

lemma activate: "P b \<Longrightarrow> P (snd (activateSession i m b))"
  by (auto simp: activateSession_def Let_def put split: option.split)

lemma switch: "P b \<Longrightarrow> P (snd (switchAppMode w m b))"
  by (auto simp: switchAppMode_def put dest: current_eq split: prod.split option.split)

lemma token: "P b \<Longrightarrow> P (snd (getToken w b))"
  by (auto simp: getToken_def dest: current_eq split: prod.split option.split)

lemma clear: "P b \<Longrightarrow> P (clearTokens w b)"
  by (auto simp: clearTokens_def remove dest: current_eq split: prod.split option.split)

lemma stored: "P b \<Longrightarrow> P (snd (getStoredSessions w b))"
  by (simp add: getStoredSessions_def migrate Let_def)

lemma sync_kept:
  assumes "P b" "\<And>q x. P x \<Longrightarrow> P (snd (ask q x))"
  shows "P (snd (syncCurrentSession w ask b))"
proof -
  have answered: "P y" if "ask q x = (r, y)" "P x" for q x r y using assms(2) [OF that(2), of q] that(1) by simp
  have updated: "P (writeSessionIndex (filter (\<lambda>t. ss_id t \<noteq> ss_id s) (readSessionIndex x) @ [updated_session s body modes]) x)"
    if "P x" "reported_modes r = Some modes" for s body modes r x
    using enter [OF that(1) updated_well_formed [OF reported_nonempty [OF that(2)]]] by simp
  have finished: "P (set_pointers i modes (drop_lost i old modes (writeSessionIndex (filter (\<lambda>t. ss_id t \<noteq> ss_id s) (readSessionIndex y) @ [updated_session s body modes]) y)))"
    if "ask q x = (r, y)" "P x" "reported_modes r = Some modes" for q x r y i old s body modes
    by (rule pointers(2), rule pointers(1), rule updated [OF answered [OF that(1,2)] that(3)])
  show ?thesis using assms(1)
    by (auto simp: syncCurrentSession_def Let_def dest: current_eq intro: answered finished split: prod.split option.split)
qed

lemma refresh_kept:
  assumes "P b" "\<And>q x. P x \<Longrightarrow> P (snd (ask q x))" "\<And>i x. P x \<Longrightarrow> P (ww_wait w i x)" "\<And>i x. P x \<Longrightarrow> P (snd (ww_join w i x))"
  shows "P (snd (refreshSession w ask stale b))"
proof -
  have answered: "P (snd (refresh_answered w i attempted r x))" if "P x" for i attempted r x
    using that by (auto simp: refresh_answered_def remove case_prod_unfold persist split: option.split sum.split)
  have locked: "P (snd (refresh_locked w ask i stale x))" if "P x" for i x
    using that by (auto simp: refresh_locked_def Let_def remove case_prod_unfold answered assms(2) split: option.split)
  have "P (snd (stale_session w stale b))"
    using assms(1) by (auto simp: stale_session_def current split: option.split)
  then show ?thesis
    by (auto simp: refreshSession_def Let_def end_refresh_def case_prod_unfold flags locked assms(3,4) split: option.split prod.split)
qed

lemma restore_kept:
  assumes "P b" "\<And>n q x. P x \<Longrightarrow> P (snd (asks n q x))" "\<And>i x. P x \<Longrightarrow> P (ww_wait w i x)" "\<And>i x. P x \<Longrightarrow> P (snd (ww_join w i x))"
  shows "P (snd (restoreSession w asks b))"
proof -
  have refreshed: "P y" if "refreshSession w (asks n) t x = (ok, y)" "P x" for n x t ok y
    using refresh_kept [of x "asks n" w t] that assms(2-4) by simp
  have synced: "P y" if "syncCurrentSession w (asks n) x = (r, y)" "P x" for n x r y
    using sync_kept [of x "asks n" w] that assms(2) by simp
  obtain s b1 where c: "currentSession w b = (s, b1)" by fastforce
  obtain ok b2 where r: "renew_if_expired w (asks 0) (br_local b1 (sessionAccessKey (ss_id (the s)))) b1 = (ok, b2)" by fastforce
  obtain s' b3 where y: "syncCurrentSession w (asks 1) b2 = (s', b3)" by fastforce
  have b1: "P b1" by (rule current_eq [OF c assms(1)])
  have b2: "P b2" using r b1 by (auto simp: renew_if_expired_def intro: refreshed split: if_splits)
  have "P b3" by (rule synced [OF y b2])
  then show ?thesis using c b1 b2 r y by (cases s; cases s'; cases ok) (simp_all add: restoreSession_def Let_def put)
qed

lemma logout_kept:
  assumes "P b" "\<And>q x. P x \<Longrightarrow> P (snd (ask q x))"
  shows "P (logoutSession w ask b)"
  using assms(1) by (auto simp: logoutSession_def Let_def remove assms(2) dest: current_eq split: prod.split option.split)

lemma api_kept:
  assumes "P b" "\<And>n q x. P x \<Longrightarrow> P (snd (asks n q x))" "\<And>i x. P x \<Longrightarrow> P (ww_wait w i x)" "\<And>i x. P x \<Longrightarrow> P (snd (ww_join w i x))"
  shows "P (snd (api w asks show_int path opts b))"
proof -
  have sent: "P (snd (snd (send_request w (asks n) path opts x)))" if "P x" for n x
    using token [OF that, of w] by (auto simp: send_request_def Let_def case_prod_unfold assms(2) that)
  have sent_eq: "P y" if "send_request w (asks n) path opts x = (t, r, y)" "P x" for n x t r y
    using sent [OF that(2), of n] that(1) by simp
  have resent: "P y" if "snd (send_request w (asks n) path opts x) = (r, y)" "P x" for n x r y
    using sent [OF that(2), of n] that(1) by simp
  have refreshed: "P y" if "refreshSession w (asks n) t x = (ok, y)" "P x" for n x t ok y
    using refresh_kept [of x "asks n" w t] that assms(2-4) by simp
  obtain t r b1 where s1: "send_request w (asks 0) path opts b = (t, r, b1)" by (metis prod_cases3)
  obtain ok b2 where f: "refreshSession w (asks 1) t b1 = (ok, b2)" by fastforce
  obtain r2 b3 where s2: "snd (send_request w (asks 2) path opts b2) = (r2, b3)" by fastforce
  have b1: "P b1" by (rule sent_eq [OF s1 assms(1)])
  have b2: "P b2" by (rule refreshed [OF f b1])
  have "P b3" by (rule resent [OF s2 b2])
  then show ?thesis using s1 f s2 b1 b2 by (cases r; cases ok) (simp_all add: api_def api_exchange_def)
qed

end

section \<open>The index under calls of all tabs\<close>

definition index_ok :: "browser \<Rightarrow> bool" where
  "index_ok b = (br_path b \<noteq> None \<and> distinct (map ss_id (readSessionIndex b)))"

interpretation session_index: browser_law index_ok
proof
  fix b i assume b: "index_ok b"
  show "index_ok (writeSessionIndex (filter (\<lambda>s. ss_id s \<noteq> i) (readSessionIndex b)) b)"
    using b by (simp add: index_ok_def distinct_map_filter)
next
  fix b s assume b: "index_ok b" and s: "well_formed s"
  let ?ss = "filter (\<lambda>t. ss_id t \<noteq> ss_id s) (readSessionIndex b) @ [s]"
  have "readSessionIndex (writeSessionIndex ?ss b) = ?ss"
    using b s by (intro read_written) (auto simp: index_ok_def dest: read_well_formed)
  then show "index_ok (writeSessionIndex ?ss b)" using b by (auto simp: index_ok_def distinct_map_filter)
qed (simp_all add: index_ok_def)

text \<open>The calls the pages make, with what they await.\<close>

datatype web_call = SetTokens string string | ClearTokens | Activate string "web_mode option" | SwitchMode web_mode | StoredSessions
  | Sync fetching | Restore "nat \<Rightarrow> fetching" | Logout fetching | Request "nat \<Rightarrow> fetching" "int \<Rightarrow> string" string api_options

fun call_fetch :: "web_call \<Rightarrow> nat \<Rightarrow> fetching" where
  "call_fetch (Sync ask) _ = ask"
| "call_fetch (Restore asks) n = asks n"
| "call_fetch (Logout ask) _ = ask"
| "call_fetch (Request asks _ _ _) n = asks n"
| "call_fetch _ _ = (\<lambda>q b. (None, b))"

fun run_call :: "web_world \<Rightarrow> web_call \<Rightarrow> browser \<Rightarrow> browser" where
  "run_call w (SetTokens a r) b = snd (setTokens w a r b)"
| "run_call w ClearTokens b = clearTokens w b"
| "run_call w (Activate i m) b = snd (activateSession i m b)"
| "run_call w (SwitchMode m) b = snd (switchAppMode w m b)"
| "run_call w StoredSessions b = snd (getStoredSessions w b)"
| "run_call w (Sync ask) b = snd (syncCurrentSession w ask b)"
| "run_call w (Restore asks) b = snd (restoreSession w asks b)"
| "run_call w (Logout ask) b = logoutSession w ask b"
| "run_call w (Request asks show_int path opts) b = snd (api w asks show_int path opts b)"

text \<open>\<open>web_run b b'\<close>: the browser, seen from one tab, gets from \<open>b\<close> to \<open>b'\<close>.  While a call awaits, anything happens that can
  happen; another tab shares the stored values and has its own \<open>sessionStorage\<close>, page and module variables.\<close>

inductive web_run :: "browser \<Rightarrow> browser \<Rightarrow> bool" where
  idle: "web_run b b"
| next_step: "web_run b b' \<Longrightarrow> web_run b' b'' \<Longrightarrow> web_run b b''"
| call: "(\<And>n q x. web_run x (snd (call_fetch c n q x))) \<Longrightarrow> (\<And>i x. web_run x (ww_wait w i x)) \<Longrightarrow> (\<And>i x. web_run x (snd (ww_join w i x)))
    \<Longrightarrow> web_run b (run_call w c b)"
| other_tab: "web_run t t' \<Longrightarrow> br_index t = br_index b \<Longrightarrow> br_local t = br_local b \<Longrightarrow> br_path t \<noteq> None
    \<Longrightarrow> web_run b (b\<lparr>br_index := br_index t', br_local := br_local t'\<rparr>)"
| visit: "web_run b (b\<lparr>br_path := Some p, br_now := n\<rparr>)"
| reload: "web_run b (b\<lparr>br_migrated := False, br_inflight := []\<rparr>)"

lemma index_other_tab:
  assumes "index_ok b" "br_index t = br_index b" "br_path t \<noteq> None" "index_ok t \<longrightarrow> index_ok t'"
  shows "index_ok (b\<lparr>br_index := br_index t', br_local := l\<rparr>)"
proof -
  have reads: "readSessionIndex x = readSessionIndex y" if "br_index x = br_index y" "br_path x \<noteq> None" "br_path y \<noteq> None" for x y
    using that by (auto simp: readSessionIndex_def)
  have "index_ok t" using assms(1-3) reads [of t b] by (simp add: index_ok_def)
  then have "index_ok t'" using assms(4) by simp
  moreover have "readSessionIndex (b\<lparr>br_index := br_index t', br_local := l\<rparr>) = readSessionIndex t'"
    using assms(1) \<open>index_ok t'\<close> by (intro reads) (auto simp: index_ok_def)
  ultimately show ?thesis using assms(1) by (simp add: index_ok_def)
qed

lemma index_call:
  assumes "\<And>n q x. index_ok x \<longrightarrow> index_ok (snd (call_fetch c n q x))" "\<And>i x. index_ok x \<longrightarrow> index_ok (ww_wait w i x)"
    "\<And>i x. index_ok x \<longrightarrow> index_ok (snd (ww_join w i x))" "index_ok b"
  shows "index_ok (run_call w c b)"
proof (cases c)
  case (Sync ask)
  then show ?thesis using assms by (simp add: session_index.sync_kept)
next
  case (Restore asks)
  then show ?thesis using assms by (simp add: session_index.restore_kept)
next
  case (Logout ask)
  then show ?thesis using assms by (simp add: session_index.logout_kept)
next
  case (Request asks show_int path opts)
  then show ?thesis using assms by (simp add: session_index.api_kept)
qed (use assms(4) in \<open>simp_all add: setTokens_def session_index.persist session_index.clear session_index.activate session_index.switch
  session_index.stored\<close>)

lemma index_run: "web_run b b' \<Longrightarrow> index_ok b \<longrightarrow> index_ok b'"
proof (induction rule: web_run.induct)
  case (call c w b)
  then show ?case using index_call [of c w b] by blast
next
  case (other_tab t t' b)
  then show ?case using index_other_tab [of b t t'] by blast
next
  case (visit b n p)
  have "readSessionIndex (b\<lparr>br_path := Some p, br_now := n\<rparr>) = readSessionIndex b" if "br_path b \<noteq> None"
    using that by (auto simp: readSessionIndex_def)
  then show ?case by (simp add: index_ok_def)
next
  case (reload b)
  then show ?case by (simp add: index_ok_def readSessionIndex_def)
qed auto

text \<open>(C37) Whatever calls the tabs of a browser make, in whatever order and with whatever happening while they await,
  the session index keeps one entry per account, and every session it reads has at least one mode and a default
  mode among them.\<close>

theorem sessions_well_formed:
  assumes "index_ok b" and "web_run b b'"
  shows "distinct (map ss_id (readSessionIndex b'))
    \<and> (\<forall>s \<in> set (readSessionIndex b'). ss_modes s \<noteq> [] \<and> ss_defaultMode s \<in> set (ss_modes s))"
  using index_run assms read_well_formed unfolding index_ok_def well_formed_def by blast

text \<open>A browser on which two accounts have signed in.\<close>

definition demo_web :: web_world where
  "demo_web = \<lparr>ww_parse = \<lambda>p. Some \<lparr>tc_sub = Some (take 1 p), tc_email = None, tc_role = Some ''WORKER'', tc_modes = None, tc_exp = None\<rparr>,
     ww_wait = \<lambda>i b. b, ww_join = \<lambda>i b. (True, b)\<rparr>"

definition empty_browser :: browser where
  "empty_browser = \<lparr>br_path = Some ''/me'', br_index = NoIndex, br_local = Map.empty, br_tab = Map.empty, br_migrated = True, br_inflight = [], br_now = 0\<rparr>"

definition demo_browser :: browser where
  "demo_browser = run_call demo_web (SetTokens ''h.B.s'' ''rb'') (run_call demo_web (SetTokens ''h.A.s'' ''ra'') empty_browser)"

lemma sessions_well_formed_witness:
  "map (\<lambda>s. (ss_id s, ss_modes s)) (readSessionIndex demo_browser) = [(''A'', [WorkerMode]), (''B'', [WorkerMode])]
     \<and> distinct (map ss_id (readSessionIndex demo_browser))"
proof -
  have step: "web_run b (run_call demo_web (SetTokens a r) b)" for a r b
    by (rule call) (simp_all add: demo_web_def idle)
  have "web_run empty_browser demo_browser" unfolding demo_browser_def by (rule next_step [OF step step])
  moreover have "index_ok empty_browser" by (simp add: index_ok_def empty_browser_def readSessionIndex_def)
  moreover have "map (\<lambda>s. (ss_id s, ss_modes s)) (readSessionIndex demo_browser) = [(''A'', [WorkerMode]), (''B'', [WorkerMode])]"
    by code_simp
  ultimately show ?thesis using sessions_well_formed [of empty_browser demo_browser] by blast
qed

section \<open>Signing out\<close>

lemma fold_frame: "(\<And>x b. h (f x b) = h b) \<Longrightarrow> h (fold f xs b) = h b"
  by (induction xs arbitrary: b) simp_all

lemma drop_pointer_frame [simp]:
  "readSessionIndex (drop_pointer i m b) = readSessionIndex b" "br_tab (drop_pointer i m b) = br_tab b"
  "br_local (drop_pointer i m b) (sessionAccessKey j) = br_local b (sessionAccessKey j)"
  "br_local (drop_pointer i m b) (sessionRefreshKey j) = br_local b (sessionRefreshKey j)"
  "br_local (drop_pointer i m b) LAST_SESSION_KEY = br_local b LAST_SESSION_KEY"
  by (simp_all add: drop_pointer_def)

lemma drop_pointers_frame [simp]:
  "readSessionIndex (fold (drop_pointer i) ms b) = readSessionIndex b" "br_tab (fold (drop_pointer i) ms b) = br_tab b"
  "br_local (fold (drop_pointer i) ms b) (sessionAccessKey j) = br_local b (sessionAccessKey j)"
  "br_local (fold (drop_pointer i) ms b) (sessionRefreshKey j) = br_local b (sessionRefreshKey j)"
  "br_local (fold (drop_pointer i) ms b) LAST_SESSION_KEY = br_local b LAST_SESSION_KEY"
  by (rule fold_frame; simp)+

lemma removeSession_reads: "readSessionIndex (removeSession i b) = filter (\<lambda>s. ss_id s \<noteq> i) (readSessionIndex b)"
  by (simp add: removeSession_def Let_def split: option.split)

lemma removeSession_tokens:
  "br_local (removeSession i b) (sessionAccessKey j) = (if j = i then None else br_local b (sessionAccessKey j))"
  "br_local (removeSession i b) (sessionRefreshKey j) = (if j = i then None else br_local b (sessionRefreshKey j))"
  by (simp_all add: removeSession_def Let_def split: option.split)

lemma removeSession_pointers:
  "br_tab (removeSession i b) ACTIVE_SESSION_KEY \<noteq> Some i" "br_local (removeSession i b) LAST_SESSION_KEY \<noteq> Some i"
  by (simp_all add: removeSession_def Let_def split: option.split)

lemma find_filter_imp: "(\<And>x. P x \<Longrightarrow> Q x) \<Longrightarrow> find P (filter Q xs) = find P xs"
  by (induction xs) auto

lemma find_removed: "findSession (removeSession i b) (Some i) = None"
  by (auto simp: findSession_def removeSession_reads find_None_iff)

lemma find_others:
  assumes "j \<noteq> i"
  shows "findSession (removeSession i b) (Some j) = findSession b (Some j)"
proof -
  have "find (\<lambda>s. ss_id s = j \<and> sessionHasToken (removeSession i b) s) (filter (\<lambda>s. ss_id s \<noteq> i) (readSessionIndex b))
      = find (\<lambda>s. ss_id s = j \<and> sessionHasToken (removeSession i b) s) (readSessionIndex b)"
    using assms by (intro find_filter_imp) auto
  also have "\<dots> = find (\<lambda>s. ss_id s = j \<and> sessionHasToken b s) (readSessionIndex b)"
    using assms by (intro arg_cong [where f = "\<lambda>p. find p (readSessionIndex b)"] ext) (auto simp: sessionHasToken_def removeSession_tokens)
  finally show ?thesis by (simp add: findSession_def removeSession_reads)
qed



section \<open>Renewal of an expired token\<close>

lemma pointers_frame [simp]:
  "br_path (drop_lost i old modes b) = br_path b" "br_tab (drop_lost i old modes b) = br_tab b"
  "readSessionIndex (drop_lost i old modes b) = readSessionIndex b" "br_migrated (drop_lost i old modes b) = br_migrated b"
  "br_inflight (drop_lost i old modes b) = br_inflight b"
  "br_local (drop_lost i old modes b) (sessionAccessKey j) = br_local b (sessionAccessKey j)"
  "br_local (drop_lost i old modes b) (sessionRefreshKey j) = br_local b (sessionRefreshKey j)"
  "br_path (set_pointers i modes b) = br_path b" "br_tab (set_pointers i modes b) = br_tab b"
  "readSessionIndex (set_pointers i modes b) = readSessionIndex b" "br_migrated (set_pointers i modes b) = br_migrated b"
  "br_inflight (set_pointers i modes b) = br_inflight b"
  "br_local (set_pointers i modes b) (sessionAccessKey j) = br_local b (sessionAccessKey j)"
  "br_local (set_pointers i modes b) (sessionRefreshKey j) = br_local b (sessionRefreshKey j)"
  unfolding drop_lost_def set_pointers_def by (rule fold_frame; simp add: drop_pointer_def)+

lemma store_session_reads:
  assumes "br_path b \<noteq> None" "well_formed s"
  shows "readSessionIndex (store_session s a r act b) = filter (\<lambda>t. ss_id t \<noteq> ss_id s) (readSessionIndex b) @ [s]"
  using assms by (auto simp: store_session_def Let_def intro!: read_written dest: read_well_formed split: option.split)

lemma store_session_fields:
  "br_local (store_session s a r act b) (sessionAccessKey j) = (if j = ss_id s then Some a else br_local b (sessionAccessKey j))"
  "br_local (store_session s a r act b) (sessionRefreshKey j) = (if j = ss_id s \<and> r \<noteq> [] then Some r else br_local b (sessionRefreshKey j))"
  "br_path (store_session s a r act b) = br_path b" "br_migrated (store_session s a r act b) = br_migrated b"
  "br_inflight (store_session s a r act b) = br_inflight b"
  "br_tab (store_session s a r act b) = (if act then (br_tab b)(ACTIVE_SESSION_KEY \<mapsto> ss_id s) else br_tab b)"
  by (simp_all add: store_session_def Let_def split: option.split)

lemma current_active:
  assumes "br_path b \<noteq> None" "br_migrated b" "findSession b (br_tab b ACTIVE_SESSION_KEY) = Some s"
  shows "currentSession w b = (Some s, b)"
  using assms by (simp add: currentSession_def migrateLegacySessions_def select_session_def)

lemma find_stored:
  assumes "br_path b \<noteq> None" "well_formed s" "ss_id s \<noteq> []" "a \<noteq> []"
  shows "findSession (store_session s a r act b) (Some (ss_id s)) = Some s"
proof -
  have "find (\<lambda>t. ss_id t = ss_id s) (filter (\<lambda>t. ss_id t \<noteq> ss_id s) xs) = None" for xs :: "stored_session list"
    by (simp add: find_None_iff)
  then show ?thesis using assms
    by (simp add: findSession_def store_session_reads find_append sessionHasToken_def store_session_fields)
qed

lemma found_session:
  assumes "findSession b i = Some s"
  shows "i = Some (ss_id s)" "ss_id s \<noteq> []" "s \<in> set (readSessionIndex b)" "truthy (br_local b (sessionAccessKey (ss_id s)))"
proof -
  have i: "truthy i" "find (\<lambda>s. Some (ss_id s) = i \<and> sessionHasToken b s) (readSessionIndex b) = Some s"
    using assms by (auto simp: findSession_def split: if_splits)
  note found = find_SomeD [OF i(2)]
  show "i = Some (ss_id s)" "s \<in> set (readSessionIndex b)" "truthy (br_local b (sessionAccessKey (ss_id s)))"
    using found by (auto simp: sessionHasToken_def)
  show "ss_id s \<noteq> []" using found i(1) by auto
qed

lemma claims_nonempty: "decodeClaims w t = Some c \<Longrightarrow> t \<noteq> []"
  by (auto simp: decodeClaims_def payload_part_def)

lemma persist_stores:
  assumes "decodeClaims w a = Some c" "tc_sub c = Some i" "i \<noteq> []" "claimed_modes (Some c) \<noteq> []"
  shows "persistSession w a r act fb b = (Inr (new_session (Some c) i (br_now b)), store_session (new_session (Some c) i (br_now b)) a r act b)"
  using assms by (simp add: persistSession_def claimed_id_def Let_def)

lemma inflight_reads [simp]: "findSession (b\<lparr>br_inflight := l\<rparr>) i = findSession b i" "removeAll x (x # l) = removeAll x l"
  by (simp_all add: findSession_def sessionHasToken_def)

text \<open>(C39) When the API refuses the access token of the tab's account and accepts its refresh token, the request is made
  again with the new access token; the new pair of tokens is stored under the same account, the tab keeps that
  account, and no token of another account changes.\<close>

theorem expired_token_renewed:
  assumes tab: "br_path b \<noteq> None" "br_migrated b" "findSession b (br_tab b ACTIVE_SESSION_KEY) = Some s" "ss_id s \<notin> set (br_inflight b)"
    and tokens: "br_local b (sessionAccessKey (ss_id s)) = Some t" "br_local b (sessionRefreshKey (ss_id s)) = Some r" "r \<noteq> []"
      "find (\<lambda>x. br_local b (sessionAccessKey (ss_id x)) = Some t) (readSessionIndex b) = Some s"
    and calm: "ww_wait w = (\<lambda>i x. x)" "asks 0 = (\<lambda>q x. (Some refused, x))" "asks 1 = (\<lambda>q x. (Some renewed, x))"
    and answers: "ao_auth opts" "rs_status refused = 401" "rs_ok renewed"
      "rs_body renewed = Some (JObj [(''accessToken'', JStr t'), (''refreshToken'', JStr r')])" "r' \<noteq> []"
    and claims: "decodeClaims w t' = Some c" "tc_sub c = Some (ss_id s)" "claimed_modes (Some c) \<noteq> []"
  shows "\<exists>b'. api_exchange w asks path opts b = asks 2 (api_request path opts (Some t')) b'
    \<and> br_tab b' ACTIVE_SESSION_KEY = Some (ss_id s) \<and> fst (currentSession w b') = Some (new_session (Some c) (ss_id s) (br_now b))
    \<and> br_local b' (sessionAccessKey (ss_id s)) = Some t' \<and> br_local b' (sessionRefreshKey (ss_id s)) = Some r'
    \<and> (\<forall>j. j \<noteq> ss_id s \<longrightarrow> br_local b' (sessionAccessKey j) = br_local b (sessionAccessKey j)
         \<and> br_local b' (sessionRefreshKey j) = br_local b (sessionRefreshKey j))"
proof -
  let ?i = "ss_id s"
  have found: "?i \<noteq> []" "t \<noteq> []"
    using found_session [OF tab(3)] tokens(1) by auto
  let ?new = "new_session (Some c) ?i (br_now b)"
  let ?l = "removeAll ?i (br_inflight b)"
  define b' where "b' = (store_session ?new t' r' True (b\<lparr>br_inflight := ?i # br_inflight b\<rparr>))\<lparr>br_inflight := ?l\<rparr>"
  have wf: "well_formed ?new" by (rule new_session_well_formed [OF claims(3)])
  have sent: "send_request w (asks 0) path opts b = (Some t, Some refused, b)"
    using answers(1) calm(2) tokens(1) current_active [OF tab(1-3)] by (simp add: send_request_def getToken_def)
  have "refreshSession w (asks 1) (Some t) b = (True, b')"
    using found tokens calm(1,3) answers(3,4) tab(4) persist_stores [OF claims(1,2) found(1) claims(3)]
    by (simp add: refreshSession_def stale_session_def refresh_locked_def refresh_answered_def getRefreshToken_def Let_def end_refresh_def
        json_field_def json_text_def b'_def store_session_fields)
  moreover have fields: "br_tab b' ACTIVE_SESSION_KEY = Some ?i" "br_path b' \<noteq> None" "br_migrated b'"
      "br_local b' (sessionAccessKey ?i) = Some t'" "br_local b' (sessionRefreshKey ?i) = Some r'"
    using tab(1,2) answers(5) by (simp_all add: b'_def store_session_fields)
  moreover have "findSession b' (Some ?i) = Some ?new"
    using find_stored [of "b\<lparr>br_inflight := ?i # br_inflight b\<rparr>" ?new t' r' True] tab(1) wf found(1) claims_nonempty [OF claims(1)] by (simp add: b'_def)
  then have now: "currentSession w b' = (Some ?new, b')" using fields(1) current_active [OF fields(2,3)] by simp
  then have "snd (send_request w (asks 2) path opts b') = asks 2 (api_request path opts (Some t')) b'"
    using answers(1) fields(4) by (simp add: send_request_def getToken_def)
  ultimately have "api_exchange w asks path opts b = asks 2 (api_request path opts (Some t')) b'"
    using sent answers(1,2) by (simp add: api_exchange_def)
  moreover have "\<forall>j. j \<noteq> ?i \<longrightarrow> br_local b' (sessionAccessKey j) = br_local b (sessionAccessKey j)
         \<and> br_local b' (sessionRefreshKey j) = br_local b (sessionRefreshKey j)"
    by (simp add: b'_def store_session_fields)
  ultimately show ?thesis using fields now by (intro exI [of _ b']) simp
qed

text \<open>The second account's token has expired; the API answers the first request with 401 and renews the token.\<close>

definition demo_options :: api_options where
  "demo_options = \<lparr>ao_method = None, ao_body = None, ao_auth = True, ao_headers = Map.empty\<rparr>"

definition renewing_api :: "nat \<Rightarrow> fetching" where
  "renewing_api n q b = (Some (if n = 1 then \<lparr>rs_status = 200, rs_body = Some (JObj [(''accessToken'', JStr ''h.B2.s''), (''refreshToken'', JStr ''rb2'')])\<rparr>
     else if n = 0 then \<lparr>rs_status = 401, rs_body = None\<rparr>
     else \<lparr>rs_status = 200, rs_body = map_option JStr (rq_headers q ''Authorization'')\<rparr>), b)"

lemma expired_token_renewed_witness:
  "fst (api_exchange demo_web renewing_api ''/me'' demo_options demo_browser) = Some \<lparr>rs_status = 200, rs_body = Some (JStr ''Bearer h.B2.s'')\<rparr>"
proof -
  define s where "s = the (findSession demo_browser (br_tab demo_browser ACTIVE_SESSION_KEY))"
  have view: "(br_migrated demo_browser, findSession demo_browser (br_tab demo_browser ACTIVE_SESSION_KEY) \<noteq> None, ss_id s, br_inflight demo_browser,
      br_local demo_browser (sessionAccessKey ''B''), br_local demo_browser (sessionRefreshKey ''B''),
      find (\<lambda>x. br_local demo_browser (sessionAccessKey (ss_id x)) = Some ''h.B.s'') (readSessionIndex demo_browser) = Some s, br_path demo_browser \<noteq> None)
    = (True, True, ''B'', [], Some ''h.B.s'', Some ''rb'', True, True)" unfolding s_def by code_simp
  have asks: "renewing_api 0 = (\<lambda>q x. (Some \<lparr>rs_status = 401, rs_body = None\<rparr>, x))"
    "renewing_api 1 = (\<lambda>q x. (Some \<lparr>rs_status = 200, rs_body = Some (JObj [(''accessToken'', JStr ''h.B2.s''), (''refreshToken'', JStr ''rb2'')])\<rparr>, x))"
    by (simp_all add: renewing_api_def fun_eq_iff)
  define c where "c = the (decodeClaims demo_web ''h.B2.s'')"
  have claims: "(decodeClaims demo_web ''h.B2.s'' \<noteq> None, tc_sub c, claimed_modes (Some c)) = (True, Some ''B'', [WorkerMode])"
    unfolding c_def by code_simp
  have "\<exists>b'. api_exchange demo_web renewing_api ''/me'' demo_options demo_browser = renewing_api 2 (api_request ''/me'' demo_options (Some ''h.B2.s'')) b'"
    using expired_token_renewed [of demo_browser s "''h.B.s''" "''rb''" demo_web renewing_api _ _ demo_options "''h.B2.s''" "''rb2''" c "''/me''", OF _ _ _ _ _ _ _ _ _ asks]
      view claims
    by (auto simp: s_def c_def demo_web_def demo_options_def rs_ok_def)
  then show ?thesis by (auto simp: renewing_api_def api_request_def demo_options_def bearer_def)
qed

text \<open>(C40) When the tab has changed to another account before a request of the first account is refused, and the first
  account's token has been renewed meanwhile, the request is made again in the name of the other account, whatever it
  writes.\<close>

theorem retry_crosses_accounts:
  assumes sent: "send_request w (asks 0) path opts b = (Some t, Some refused, b1)" "ao_auth opts" "rs_status refused = 401"
    and tab: "br_path b1 \<noteq> None" "br_migrated b1" "findSession b1 (br_tab b1 ACTIVE_SESSION_KEY) = Some other" "ss_id other \<notin> set (br_inflight b1)"
      "br_local b1 (sessionAccessKey (ss_id other)) = Some t2"
    and renewed: "t \<noteq> []" "find (\<lambda>x. br_local b1 (sessionAccessKey (ss_id x)) = Some t) (readSessionIndex b1) = None"
    and calm: "ww_wait w = (\<lambda>i x. x)"
  shows "\<exists>b'. api_exchange w asks path opts b = asks 2 (api_request path opts (Some t2)) b' \<and> readSessionIndex b' = readSessionIndex b1
    \<and> br_local b' = br_local b1"
proof -
  let ?i = "ss_id other"
  have t2: "t2 \<noteq> []" using found_session(4) [OF tab(3)] tab(5) by simp
  have "t2 \<noteq> t" using found_session(3) [OF tab(3)] renewed(2) tab(5) by (auto simp: find_None_iff)
  note cur = current_active [OF tab(1-3)]
  define b' where "b' = b1\<lparr>br_inflight := removeAll ?i (br_inflight b1)\<rparr>"
  have "refreshSession w (asks 1) (Some t) b1 = (True, b')"
    using renewed cur tab(4,5) t2 \<open>t2 \<noteq> t\<close> calm
    by (simp add: refreshSession_def stale_session_def refresh_locked_def Let_def end_refresh_def b'_def)
  moreover have "currentSession w b' = (Some other, b')"
    using tab(1-3) by (intro current_active) (simp_all add: b'_def)
  then have "snd (send_request w (asks 2) path opts b') = asks 2 (api_request path opts (Some t2)) b'"
    using sent(2) tab(5) by (simp add: send_request_def getToken_def b'_def)
  ultimately have "api_exchange w asks path opts b = asks 2 (api_request path opts (Some t2)) b'"
    using sent by (simp add: api_exchange_def)
  then show ?thesis by (intro exI [of _ b']) (simp add: b'_def)
qed

text \<open>While the request of B is under way, another tab renews the token of B and the user of this tab changes to A.\<close>

definition switching_api :: "nat \<Rightarrow> fetching" where
  "switching_api n q b = (if n = 0 then (Some \<lparr>rs_status = 401, rs_body = None\<rparr>,
       snd (activateSession ''A'' None (set_local (sessionAccessKey ''B'') ''h.B2.s'' b)))
     else (Some \<lparr>rs_status = 200, rs_body = map_option JStr (rq_headers q ''Authorization'')\<rparr>, b))"

lemma retry_crosses_accounts_witness:
  "fst (send_request demo_web (switching_api 0) ''/me'' demo_options demo_browser) = Some ''h.B.s''
    \<and> fst (api_exchange demo_web switching_api ''/me'' demo_options demo_browser) = Some \<lparr>rs_status = 200, rs_body = Some (JStr ''Bearer h.A.s'')\<rparr>"
proof -
  define b1 where "b1 = snd (snd (send_request demo_web (switching_api 0) ''/me'' demo_options demo_browser))"
  define other where "other = the (findSession b1 (br_tab b1 ACTIVE_SESSION_KEY))"
  have view: "(fst (send_request demo_web (switching_api 0) ''/me'' demo_options demo_browser),
      fst (snd (send_request demo_web (switching_api 0) ''/me'' demo_options demo_browser)), br_path b1 \<noteq> None, br_migrated b1,
      findSession b1 (br_tab b1 ACTIVE_SESSION_KEY) \<noteq> None, ss_id other, br_inflight b1, br_local b1 (sessionAccessKey ''A''),
      find (\<lambda>x. br_local b1 (sessionAccessKey (ss_id x)) = Some ''h.B.s'') (readSessionIndex b1) = None)
    = (Some ''h.B.s'', Some \<lparr>rs_status = 401, rs_body = None\<rparr>, True, True, True, ''A'', [], Some ''h.A.s'', True)"
    unfolding other_def b1_def by code_simp
  have sent: "send_request demo_web (switching_api 0) ''/me'' demo_options demo_browser = (Some ''h.B.s'', Some \<lparr>rs_status = 401, rs_body = None\<rparr>, b1)"
    using view by (simp add: b1_def prod_eq_iff)
  have "\<exists>b'. api_exchange demo_web switching_api ''/me'' demo_options demo_browser = switching_api 2 (api_request ''/me'' demo_options (Some ''h.A.s'')) b'
      \<and> readSessionIndex b' = readSessionIndex b1 \<and> br_local b' = br_local b1"
    by (rule retry_crosses_accounts [of demo_web switching_api "''/me''" demo_options demo_browser "''h.B.s''" _ b1 other, OF sent]) (use view in \<open>auto simp: other_def demo_options_def demo_web_def\<close>)
  then show ?thesis using view by (auto simp: switching_api_def api_request_def demo_options_def bearer_def)
qed

end
